(* ===== verification/Prelude.thy ===== *)
theory Prelude
  imports Main "HOL-Library.Word" "HOL-Library.Monad_Syntax"
begin

section \<open>Shared types, results and automation\<close>

text \<open>
  What the components share: the machine integers of the Rust code, its checked, saturating
  and overflow-checked operators, the result type of fallible code with its sequencing (the
  question-mark operator of Rust), little-endian byte encodings, and the collections of facts the
  component theories extend.

  Collections: \<open>checked_simps\<close> reads a checked operation that returned a value as the
  natural-number fact it guarantees; \<open>res_simps\<close> turns "this sequence of fallible steps
  returned" into the facts of its steps.
\<close>

named_theorems checked_simps
named_theorems res_simps

type_synonym u8 = "8 word"
type_synonym u16 = "16 word"
type_synonym u32 = "32 word"
type_synonym u64 = "64 word"

text \<open>
  \<open>i64\<close> is a 64-bit word read with \<open>sint\<close>. A Solana public key is 32 bytes, here the
  256-bit word with those bytes in little-endian order (\<open>to_le 32\<close>, \<open>of_le\<close>).
\<close>

type_synonym i64 = "64 word"
type_synonym pubkey = "256 word"


subsection \<open>Results\<close>

definition rbind :: "'e + 'a \<Rightarrow> ('a \<Rightarrow> 'e + 'b) \<Rightarrow> 'e + 'b" where
  "rbind m f = (case m of Inl e \<Rightarrow> Inl e | Inr x \<Rightarrow> f x)"

definition ensure :: "bool \<Rightarrow> 'e \<Rightarrow> 'e + unit" where
  "ensure b e = (if b then Inr () else Inl e)"

definition ok_or :: "'a option \<Rightarrow> 'e \<Rightarrow> 'e + 'a" where
  "ok_or x e = (case x of None \<Rightarrow> Inl e | Some y \<Rightarrow> Inr y)"

definition is_ok :: "'e + 'a \<Rightarrow> bool" where
  "is_ok m = (case m of Inl _ \<Rightarrow> False | Inr _ \<Rightarrow> True)"

lemma rbind_simps [simp]: "rbind (Inl e) f = Inl e" "rbind (Inr x) f = f x"
  by (simp_all add: rbind_def)

lemma rbind_Inr_iff [res_simps]:
  "rbind m f = Inr y \<longleftrightarrow> (\<exists>x. m = Inr x \<and> f x = Inr y)"
  by (cases m) auto

lemma rbind_Inl_iff: "rbind m f = Inl e \<longleftrightarrow> m = Inl e \<or> (\<exists>x. m = Inr x \<and> f x = Inl e)"
  by (cases m) auto

lemma ensure_Inr_iff [res_simps]: "ensure b e = Inr u \<longleftrightarrow> b"
  by (simp add: ensure_def)

lemma ensure_Inl_iff: "ensure b e = Inl e' \<longleftrightarrow> \<not> b \<and> e' = e"
  by (auto simp: ensure_def)

lemma ensure_True [simp]: "ensure True e = Inr ()"
  by (simp add: ensure_def)

lemma ensure_False [simp]: "ensure False e = Inl e"
  by (simp add: ensure_def)

lemma ok_or_Inr_iff [res_simps]: "ok_or x e = Inr y \<longleftrightarrow> x = Some y"
  by (cases x) (auto simp: ok_or_def)

lemma ok_or_Inl_iff: "ok_or x e = Inl e' \<longleftrightarrow> x = None \<and> e' = e"
  by (cases x) (auto simp: ok_or_def)

lemma ok_or_simps [simp]: "ok_or (Some y) e = Inr y" "ok_or None e = Inl e"
  by (simp_all add: ok_or_def)

lemma guard_Inr_iff [res_simps]:
  "(if b then m else Inl e) = Inr y \<longleftrightarrow> b \<and> m = Inr y"
  "(if b then Inl e else m) = Inr y \<longleftrightarrow> \<not> b \<and> m = Inr y"
  by auto

lemma is_ok_simps [simp]: "is_ok (Inr x)" "\<not> is_ok (Inl e)"
  by (simp_all add: is_ok_def)

lemma is_ok_iff: "is_ok m \<longleftrightarrow> (\<exists>x. m = Inr x)"
  by (cases m) auto


subsection \<open>Checked and saturating word arithmetic\<close>

definition checked_mul :: "'a::len word \<Rightarrow> 'a word \<Rightarrow> 'a word option" where
  "checked_mul a b = (if unat a * unat b < 2 ^ LENGTH('a) then Some (a * b) else None)"

definition checked_add :: "'a::len word \<Rightarrow> 'a word \<Rightarrow> 'a word option" where
  "checked_add a b = (if unat a + unat b < 2 ^ LENGTH('a) then Some (a + b) else None)"

definition checked_sub :: "'a::len word \<Rightarrow> 'a word \<Rightarrow> 'a word option" where
  "checked_sub a b = (if b \<le> a then Some (a - b) else None)"

definition saturating_sub :: "'a::len word \<Rightarrow> 'a word \<Rightarrow> 'a word" where
  "saturating_sub a b = (if b \<le> a then a - b else 0)"

lemma unat_mult_small:
  fixes a b :: "'a::len word"
  shows "unat a * unat b < 2 ^ LENGTH('a) \<Longrightarrow> unat (a * b) = unat a * unat b"
  by (simp add: unat_word_ariths)

lemma unat_add_small:
  fixes a b :: "'a::len word"
  shows "unat a + unat b < 2 ^ LENGTH('a) \<Longrightarrow> unat (a + b) = unat a + unat b"
  by (simp add: unat_word_ariths)

lemma unat_sub_le: "b \<le> (a :: 'a::len word) \<Longrightarrow> unat (a - b) = unat a - unat b"
  by (simp add: unat_sub)

lemma unat_sub_nat: "unat b \<le> unat a \<Longrightarrow> unat (a - b) = unat a - unat (b :: 'a::len word)"
  by (simp add: unat_sub_le word_le_nat_alt)

lemma checked_mul_Some [checked_simps]:
  fixes a b :: "'a::len word"
  shows "checked_mul a b = Some c \<longleftrightarrow>
    unat a * unat b < 2 ^ LENGTH('a) \<and> unat c = unat a * unat b"
  by (auto simp: checked_mul_def unat_mult_small)
    (metis unat_mult_small word_unat_eq_iff)

lemma checked_add_Some [checked_simps]:
  fixes a b :: "'a::len word"
  shows "checked_add a b = Some c \<longleftrightarrow>
    unat a + unat b < 2 ^ LENGTH('a) \<and> unat c = unat a + unat b"
  by (auto simp: checked_add_def unat_add_small)
    (metis unat_add_small word_unat_eq_iff)

lemma checked_sub_Some [checked_simps]:
  "checked_sub a b = Some c \<longleftrightarrow> unat b \<le> unat a \<and> unat c = unat a - unat b"
  by (auto simp: checked_sub_def unat_sub_le word_le_nat_alt)
    (metis unat_sub_le word_le_nat_alt word_unat_eq_iff)

lemma unat_word_of_nat [simp]: "n < 2 ^ LENGTH('a) \<Longrightarrow> unat (word_of_nat n :: 'a::len word) = n"
  by (simp add: unat_of_nat)

lemma ex_unat_eq [checked_simps]:
  "(\<exists>w :: 'a::len word. unat w = n \<and> P w) \<longleftrightarrow> n < 2 ^ LENGTH('a) \<and> P (word_of_nat n)"
proof
  assume "\<exists>w :: 'a word. unat w = n \<and> P w"
  then show "n < 2 ^ LENGTH('a) \<and> P (word_of_nat n)" by auto
next
  assume "n < 2 ^ LENGTH('a) \<and> P (word_of_nat n)"
  then show "\<exists>w :: 'a word. unat w = n \<and> P w" by (intro exI [of _ "word_of_nat n"]) simp
qed

lemma checked_mul_None:
  fixes a b :: "'a::len word"
  shows "checked_mul a b = None \<longleftrightarrow> 2 ^ LENGTH('a) \<le> unat a * unat b"
  by (auto simp: checked_mul_def)

lemma checked_add_None:
  fixes a b :: "'a::len word"
  shows "checked_add a b = None \<longleftrightarrow> 2 ^ LENGTH('a) \<le> unat a + unat b"
  by (auto simp: checked_add_def)

lemma checked_sub_None: "checked_sub a b = None \<longleftrightarrow> unat a < unat b"
  by (auto simp: checked_sub_def word_le_nat_alt)

lemma unat_saturating_sub [simp]: "unat (saturating_sub a b) = unat a - unat b"
  by (auto simp: saturating_sub_def unat_sub_le word_le_nat_alt)

lemma unat_div_word [simp]: "unat (a div b) = unat a div unat (b :: 'a::len word)"
  by (simp add: unat_div)


subsection \<open>Little-endian bytes\<close>

text \<open>Borsh, the wire format of Anchor, writes integers as little-endian bytes and fields in order.\<close>

primrec le_bytes :: "nat \<Rightarrow> nat \<Rightarrow> u8 list" where
  "le_bytes 0 x = []"
| "le_bytes (Suc n) x = word_of_nat (x mod 256) # le_bytes n (x div 256)"

primrec nat_of_le :: "u8 list \<Rightarrow> nat" where
  "nat_of_le [] = 0"
| "nat_of_le (b # bs) = unat b + 256 * nat_of_le bs"

definition to_le :: "nat \<Rightarrow> 'a::len word \<Rightarrow> u8 list" where
  "to_le n w = le_bytes n (unat w)"

definition of_le :: "u8 list \<Rightarrow> 'a::len word" where
  "of_le bs = word_of_nat (nat_of_le bs)"

lemma length_le_bytes [simp]: "length (le_bytes n x) = n"
  by (induction n arbitrary: x) auto

lemma length_to_le [simp]: "length (to_le n w) = n"
  by (simp add: to_le_def)

lemma unat_u8_less: "unat (b :: u8) < 256"
  using unsigned_less [of b] by simp

lemma unat_u64_less: "unat (w :: u64) < 2 ^ 64"
  using unsigned_less [of w, where 'a = nat] by simp

lemma unat_word_of_nat_u8: "x < 256 \<Longrightarrow> unat (word_of_nat x :: u8) = x"
  by (simp add: unat_of_nat)

lemma nat_of_le_less: "nat_of_le bs < 256 ^ length bs"
proof (induction bs)
  case (Cons b bs)
  then have "nat_of_le bs + 1 \<le> 256 ^ length bs" by simp
  then have "256 * (nat_of_le bs + 1) \<le> 256 * 256 ^ length bs" by (rule mult_le_mono2)
  with unat_u8_less [of b] show ?case by simp
qed simp

lemma nat_of_le_le_bytes: "nat_of_le (le_bytes n x) = x mod 256 ^ n"
proof (induction n arbitrary: x)
  case (Suc n)
  have "nat_of_le (le_bytes (Suc n) x) = x mod 256 + 256 * (x div 256 mod 256 ^ n)"
    by (simp add: Suc unat_word_of_nat_u8)
  also have "\<dots> = x mod (256 * 256 ^ n)"
    by (simp add: mod_mult2_eq)
  finally show ?case by simp
qed simp

lemma le_bytes_nat_of_le: "le_bytes (length bs) (nat_of_le bs) = bs"
proof (induction bs)
  case (Cons b bs)
  have "(unat b + 256 * nat_of_le bs) mod 256 = unat b"
    and "(unat b + 256 * nat_of_le bs) div 256 = nat_of_le bs"
    using unat_u8_less [of b] by simp_all
  with Cons show ?case by simp
qed simp

lemma of_le_to_le [simp]:
  fixes w :: "'a::len word"
  assumes "LENGTH('a) \<le> 8 * n"
  shows "of_le (to_le n w) = w"
proof -
  have "unat w < 2 ^ LENGTH('a)" by (rule unsigned_less)
  also have "(2::nat) ^ LENGTH('a) \<le> 2 ^ (8 * n)"
    using assms by (rule power_increasing) simp
  also have "(2::nat) ^ (8 * n) = 256 ^ n" by (simp add: power_mult)
  finally show ?thesis by (simp add: of_le_def to_le_def nat_of_le_le_bytes)
qed

lemma to_le_of_le:
  assumes "length bs = n" and "8 * n \<le> LENGTH('a)"
  shows "to_le n (of_le bs :: 'a::len word) = bs"
proof -
  have "nat_of_le bs < 256 ^ length bs" by (rule nat_of_le_less)
  also have "(256::nat) ^ length bs = 2 ^ (8 * n)" by (simp add: power_mult assms(1))
  also have "\<dots> \<le> 2 ^ LENGTH('a)" using assms(2) by (rule power_increasing) simp
  finally have "unat (of_le bs :: 'a word) = nat_of_le bs"
    by (simp add: of_le_def unat_of_nat)
  then show ?thesis using assms(1) le_bytes_nat_of_le [of bs] by (simp add: to_le_def)
qed

lemma to_le_inject:
  fixes v w :: "'a::len word"
  assumes "LENGTH('a) \<le> 8 * n"
  shows "to_le n v = to_le n w \<longleftrightarrow> v = w"
  using assms of_le_to_le by metis

text \<open>Reading a field from the front of a byte slice, as a borsh reader does.\<close>

definition read_bytes :: "nat \<Rightarrow> u8 list \<Rightarrow> (u8 list \<times> u8 list) option" where
  "read_bytes n bs = (if n \<le> length bs then Some (take n bs, drop n bs) else None)"

definition read_word :: "nat \<Rightarrow> u8 list \<Rightarrow> ('a::len word \<times> u8 list) option" where
  "read_word n bs = map_option (\<lambda>(f, r). (of_le f, r)) (read_bytes n bs)"

lemma read_word_append [simp]:
  fixes w :: "'a::len word"
  assumes "LENGTH('a) \<le> 8 * n"
  shows "read_word n (to_le n w @ r) = Some (w, r)"
  using assms by (simp add: read_word_def read_bytes_def)

lemma read_word_exact [simp]:
  fixes w :: "'a::len word"
  assumes "LENGTH('a) \<le> 8 * n"
  shows "read_word n (to_le n w) = Some (w, [])"
  using read_word_append [OF assms, of w "[]"] by simp

lemma read_word_Some_iff:
  "read_word n bs = Some (w, r) \<longleftrightarrow> n \<le> length bs \<and> w = of_le (take n bs) \<and> r = drop n bs"
  by (auto simp: read_word_def read_bytes_def)

lemma read_word_inverse:
  assumes "read_word n bs = Some (w :: 'a::len word, r)" and "8 * n \<le> LENGTH('a)"
  shows "bs = to_le n w @ r"
  using assms by (auto simp: read_word_Some_iff to_le_of_le)


subsection \<open>Lists\<close>

text \<open>Indexing a slice or a vector: \<open>None\<close> is the panic of an index out of range.\<close>

definition nth_opt :: "'a list \<Rightarrow> nat \<Rightarrow> 'a option" where
  "nth_opt xs i = (if i < length xs then Some (xs ! i) else None)"

lemma nth_opt_Some_iff: "nth_opt xs i = Some x \<longleftrightarrow> i < length xs \<and> xs ! i = x"
  by (auto simp: nth_opt_def)

lemma nth_opt_simps [simp]:
  "nth_opt [] i = None" "nth_opt (x # xs) 0 = Some x" "nth_opt (x # xs) (Suc i) = nth_opt xs i"
  by (auto simp: nth_opt_def)

lemma nth_opt_numeral [simp]: "nth_opt (x # xs) (numeral k) = nth_opt xs (pred_numeral k)"
  by (simp add: numeral_eq_Suc)

text \<open>The first index that satisfies a test (\<open>Iterator::position\<close>).\<close>

definition position :: "('a \<Rightarrow> bool) \<Rightarrow> 'a list \<Rightarrow> nat option" where
  "position p xs = (if \<exists>x \<in> set xs. p x then Some (length (takeWhile (\<lambda>x. \<not> p x) xs)) else None)"

lemma position_Some:
  assumes "position p xs = Some i"
  shows "i < length xs" and "p (xs ! i)" and "j < i \<Longrightarrow> \<not> p (xs ! j)"
proof -
  from assms have ex: "\<exists>x \<in> set xs. p x" and i: "i = length (takeWhile (\<lambda>x. \<not> p x) xs)"
    by (auto simp: position_def split: if_splits)
  from ex have ne: "takeWhile (\<lambda>x. \<not> p x) xs \<noteq> xs"
    by (auto simp: takeWhile_eq_all_conv)
  then show *: "i < length xs"
    using i length_takeWhile_le [of "\<lambda>x. \<not> p x" xs]
    by (metis (no_types) le_neq_implies_less takeWhile_eq_take take_all_iff order_refl)
  then show "p (xs ! i)"
    using i nth_length_takeWhile [of "\<lambda>x. \<not> p x" xs] by simp
  show "j < i \<Longrightarrow> \<not> p (xs ! j)"
    using i by (metis nth_mem set_takeWhileD takeWhile_nth)
qed

lemma position_None: "position p xs = None \<longleftrightarrow> (\<forall>x \<in> set xs. \<not> p x)"
  by (auto simp: position_def)

end
