(* ===== verification/Er_State.thy ===== *)
theory Er_State
  imports Prelude
begin

section \<open>Express Relay program: state, errors and accounts\<close>

text \<open>
  The on-chain program's own data (\<open>contracts/svm/programs/express_relay/src/state.rs\<close>), its
  error codes (\<open>error.rs\<close>), the account store it runs on, and how an Anchor program reads
  and writes a typed account: an eight-byte discriminator (their values are in the IDL) followed
  by the borsh fields. The Solana runtime and the programs it calls are fields of the record
  \<open>runtime\<close>, so every theorem holds for any behaviour of them that its hypotheses allow.
\<close>

subsection \<open>Constants\<close>

definition FEE_SPLIT_PRECISION :: u64 where "FEE_SPLIT_PRECISION = 10000"

definition FEE_SPLIT_PRECISION_PPM :: u64 where "FEE_SPLIT_PRECISION_PPM = 1000000"

definition FEE_BPS_TO_PPM :: u64 where "FEE_BPS_TO_PPM = 100"

definition RESERVE_EXPRESS_RELAY_METADATA :: nat where
  "RESERVE_EXPRESS_RELAY_METADATA = 8 + 152 + 260"

definition RESERVE_EXPRESS_RELAY_CONFIG_ROUTER :: nat where
  "RESERVE_EXPRESS_RELAY_CONFIG_ROUTER = 8 + 40 + 200"

definition bytes_of_string :: "string \<Rightarrow> u8 list" where
  "bytes_of_string s = map of_char s"

definition SEED_METADATA :: "u8 list" where "SEED_METADATA = bytes_of_string ''metadata''"

definition SEED_CONFIG_ROUTER :: "u8 list" where
  "SEED_CONFIG_ROUTER = bytes_of_string ''config_router''"

text \<open>The program's address, \<open>declare_id!\<close> of \<open>lib.rs\<close>, decoded from base 58.\<close>

definition EXPRESS_RELAY_ID :: pubkey where
  "EXPRESS_RELAY_ID = 36310047092307407152534838708272416237999773943978618825508853152575234040581"

lemma precision_unat [simp]:
  "unat FEE_SPLIT_PRECISION = 10000" "unat FEE_SPLIT_PRECISION_PPM = 1000000"
  "unat FEE_BPS_TO_PPM = 100"
  by (simp_all add: FEE_SPLIT_PRECISION_def FEE_SPLIT_PRECISION_PPM_def FEE_BPS_TO_PPM_def)


subsection \<open>Errors\<close>

datatype ErrorCode =
    FeeSplitLargerThanPrecision
  | FeesHigherThanBid
  | DeadlinePassed
  | InvalidCPISubmitBid
  | MissingPermission
  | MultiplePermissions
  | InsufficientSearcherFunds
  | InsufficientRent
  | InvalidReferralFee
  | InsufficientUserFunds

text \<open>Anchor numbers the variants of an \<open>error_code\<close> enum from 6000, in order.\<close>

primrec error_number :: "ErrorCode \<Rightarrow> u32" where
  "error_number FeeSplitLargerThanPrecision = 6000"
| "error_number FeesHigherThanBid = 6001"
| "error_number DeadlinePassed = 6002"
| "error_number InvalidCPISubmitBid = 6003"
| "error_number MissingPermission = 6004"
| "error_number MultiplePermissions = 6005"
| "error_number InsufficientSearcherFunds = 6006"
| "error_number InsufficientRent = 6007"
| "error_number InvalidReferralFee = 6008"
| "error_number InsufficientUserFunds = 6009"

datatype AnchorErrorCode =
    ConstraintMut | ConstraintSpace | ConstraintHasOne | ConstraintRaw | ConstraintSeeds | ConstraintAddress
  | ConstraintAssociated | ConstraintTokenMint | ConstraintTokenOwner
  | ConstraintTokenTokenProgram | ConstraintMintTokenProgram
  | AccountDiscriminatorNotFound | AccountDiscriminatorMismatch
  | AccountDidNotDeserialize | AccountDidNotSerialize | AccountOwnedByWrongProgram
  | AccountNotSigner | AccountNotInitialized | AccountNotAssociatedTokenAccount
  | InvalidProgramId

datatype ProgramErrorCode =
    ArithmeticOverflow | InvalidInstructionData | InvalidAccountData | BorshIoError

text \<open>\<open>Cpi n\<close> is an error of a called program; \<open>Panic\<close> an overflow or an index out of range.\<close>

datatype er_error =
    Er ErrorCode | Anchor AnchorErrorCode | ProgramErr ProgramErrorCode | Cpi nat | Panic


subsection \<open>The program's accounts\<close>

record ExpressRelayMetadata =
  admin :: pubkey
  relayer_signer :: pubkey
  fee_receiver_relayer :: pubkey
  split_router_default :: u64
  split_relayer :: u64
  swap_platform_fee_bps :: u64
  secondary_relayer_signer :: pubkey

record ConfigRouter =
  router :: pubkey
  split :: u64

definition metadata_discriminator :: "u8 list" where
  "metadata_discriminator = [204, 75, 133, 7, 175, 241, 130, 11]"

definition config_router_discriminator :: "u8 list" where
  "config_router_discriminator = [135, 66, 240, 166, 94, 198, 187, 36]"

definition ser_metadata :: "ExpressRelayMetadata \<Rightarrow> u8 list" where
  "ser_metadata m =
     to_le 32 (admin m) @ to_le 32 (relayer_signer m) @ to_le 32 (fee_receiver_relayer m) @
     to_le 8 (split_router_default m) @ to_le 8 (split_relayer m) @
     to_le 8 (swap_platform_fee_bps m) @ to_le 32 (secondary_relayer_signer m)"

definition deser_metadata :: "u8 list \<Rightarrow> (ExpressRelayMetadata \<times> u8 list) option" where
  "deser_metadata bs = do {
     (a, bs) \<leftarrow> read_word 32 bs;
     (r, bs) \<leftarrow> read_word 32 bs;
     (f, bs) \<leftarrow> read_word 32 bs;
     (srd, bs) \<leftarrow> read_word 8 bs;
     (sr, bs) \<leftarrow> read_word 8 bs;
     (fee, bs) \<leftarrow> read_word 8 bs;
     (s, bs) \<leftarrow> read_word 32 bs;
     Some (\<lparr>admin = a, relayer_signer = r, fee_receiver_relayer = f, split_router_default = srd,
            split_relayer = sr, swap_platform_fee_bps = fee, secondary_relayer_signer = s\<rparr>, bs)
   }"

definition ser_config_router :: "ConfigRouter \<Rightarrow> u8 list" where
  "ser_config_router c = to_le 32 (router c) @ to_le 8 (split c)"

definition deser_config_router :: "u8 list \<Rightarrow> (ConfigRouter \<times> u8 list) option" where
  "deser_config_router bs = do {
     (r, bs) \<leftarrow> read_word 32 bs;
     (s, bs) \<leftarrow> read_word 8 bs;
     Some (\<lparr>router = r, split = s\<rparr>, bs)
   }"


subsection \<open>Typed accounts: discriminator and fields\<close>

definition try_deserialize ::
  "u8 list \<Rightarrow> (u8 list \<Rightarrow> ('a \<times> u8 list) option) \<Rightarrow> u8 list \<Rightarrow> er_error + 'a" where
  "try_deserialize disc deser bs =
     (if length bs < 8 then Inl (Anchor AccountDiscriminatorNotFound)
      else if take 8 bs \<noteq> disc then Inl (Anchor AccountDiscriminatorMismatch)
      else ok_or (map_option fst (deser (drop 8 bs))) (Anchor AccountDidNotDeserialize))"

text \<open>
  What leaving an instruction does to a mutable typed account: discriminator and fields are
  written at the front of the account's bytes, the rest stays; too little room is an error.
\<close>

definition write_front :: "u8 list \<Rightarrow> u8 list \<Rightarrow> er_error + u8 list" where
  "write_front bs old =
     (if length bs \<le> length old then Inr (bs @ drop (length bs) old)
      else Inl (Anchor AccountDidNotSerialize))"

locale account_codec =
  fixes disc :: "u8 list"
    and ser :: "'a \<Rightarrow> u8 list"
    and deser :: "u8 list \<Rightarrow> ('a \<times> u8 list) option"
    and size :: nat
  assumes disc_length: "length disc = 8"
    and ser_length: "length (ser x) = size"
    and deser_ser: "deser (ser x @ r) = Some (x, r)"
    and ser_deser: "deser bs = Some (x, r) \<Longrightarrow> bs = ser x @ r"
begin

lemma try_deserialize_written: "try_deserialize disc deser (disc @ ser x @ r) = Inr x"
  by (simp add: try_deserialize_def disc_length deser_ser)

lemma try_deserialize_Inr:
  assumes "try_deserialize disc deser bs = Inr x"
  shows "\<exists>r. bs = disc @ ser x @ r"
proof -
  from assms obtain r where d: "take 8 bs = disc" and "deser (drop 8 bs) = Some (x, r)"
    by (auto simp: try_deserialize_def ok_or_Inr_iff split: if_splits)
  then have "drop 8 bs = ser x @ r" by (simp add: ser_deser)
  with d have "bs = disc @ ser x @ r" by (metis append_take_drop_id)
  then show ?thesis by blast
qed

lemma write_front_read:
  assumes "write_front (disc @ ser x) old = Inr new"
  shows "try_deserialize disc deser new = Inr x" and "length new = length old"
  using assms try_deserialize_written [of x]
  by (auto simp: write_front_def disc_length split: if_splits)

lemma write_front_ok: "8 + size \<le> length old \<Longrightarrow> \<exists>new. write_front (disc @ ser x) old = Inr new"
  by (simp add: write_front_def disc_length ser_length)

lemma rewrite_ok:
  assumes "try_deserialize disc deser old = Inr x"
  shows "\<exists>new. write_front (disc @ ser y) old = Inr new"
proof -
  from try_deserialize_Inr [OF assms] obtain r where "old = disc @ ser x @ r" by blast
  then show ?thesis by (intro write_front_ok) (simp add: disc_length ser_length)
qed

lemma other_discriminator:
  assumes "try_deserialize disc deser bs = Inr x" and "disc' \<noteq> disc"
  shows "try_deserialize disc' deser' bs = Inl (Anchor AccountDiscriminatorMismatch)"
proof -
  from try_deserialize_Inr [OF assms(1)] obtain r where "bs = disc @ ser x @ r" by blast
  with assms(2) show ?thesis by (simp add: try_deserialize_def disc_length)
qed

end

text \<open>One law is enough for a borsh record of fixed size: reading back what was written.\<close>

lemma ser_deser_metadata: "deser_metadata bs = Some (m, r) \<Longrightarrow> bs = ser_metadata m @ r"
  by (auto simp: deser_metadata_def ser_metadata_def bind_eq_Some_conv
      dest!: read_word_inverse)

lemma ser_deser_config_router:
  "deser_config_router bs = Some (c, r) \<Longrightarrow> bs = ser_config_router c @ r"
  by (auto simp: deser_config_router_def ser_config_router_def bind_eq_Some_conv
      dest!: read_word_inverse)

lemma deser_ser_metadata [simp]: "deser_metadata (ser_metadata m @ r) = Some (m, r)"
  by (simp add: deser_metadata_def ser_metadata_def)

lemma deser_ser_config_router [simp]:
  "deser_config_router (ser_config_router c @ r) = Some (c, r)"
  by (simp add: deser_config_router_def ser_config_router_def)

lemma length_ser [simp]:
  "length (ser_metadata m) = 152" "length (ser_config_router c) = 40"
  by (simp_all add: ser_metadata_def ser_config_router_def)

lemma length_discriminators [simp]:
  "length metadata_discriminator = 8" "length config_router_discriminator = 8"
  by (simp_all add: metadata_discriminator_def config_router_discriminator_def)

interpretation metadata_codec: account_codec metadata_discriminator ser_metadata deser_metadata 152
  by unfold_locales (auto intro: ser_deser_metadata)

interpretation config_router_codec:
  account_codec config_router_discriminator ser_config_router deser_config_router 40
  by unfold_locales (auto intro: ser_deser_config_router)

lemma discriminators_distinct [simp]:
  "metadata_discriminator \<noteq> config_router_discriminator"
  "config_router_discriminator \<noteq> metadata_discriminator"
  by (simp_all add: metadata_discriminator_def config_router_discriminator_def)

end
