(* ===== verification/Er_Fees.thy ===== *)
theory Er_Fees
  imports Er_State
begin

section \<open>Express Relay program: fee arithmetic\<close>

text \<open>
  The pure part of \<open>utils.rs\<close> and \<open>swap.rs\<close>: the split of a bid between router, relayer and
  the program, the fees of a swap, and the conversion of the first version of the swap arguments.
  All of it is checked 64-bit arithmetic, so each operation either computes the exact
  rounded-down fraction or reports an overflow.
\<close>

subsection \<open>Splitting a bid\<close>

definition validate_fee_split :: "u64 \<Rightarrow> er_error + unit" where
  "validate_fee_split s =
     (if s > FEE_SPLIT_PRECISION then Inl (Er FeeSplitLargerThanPrecision) else Inr ())"

definition perform_fee_split_router :: "u64 \<Rightarrow> u64 \<Rightarrow> er_error + u64" where
  "perform_fee_split_router bid_amount s_router =
     rbind (ok_or (checked_mul bid_amount s_router) (ProgramErr ArithmeticOverflow)) (\<lambda>p.
       let fee_router = p div FEE_SPLIT_PRECISION
       in if fee_router > bid_amount then Inl (Er FeesHigherThanBid) else Inr fee_router)"

definition perform_fee_splits :: "u64 \<Rightarrow> u64 \<Rightarrow> u64 \<Rightarrow> er_error + (u64 \<times> u64)" where
  "perform_fee_splits bid_amount s_router s_relayer =
     rbind (perform_fee_split_router bid_amount s_router) (\<lambda>fee_router.
     rbind (ok_or (checked_mul (saturating_sub bid_amount fee_router) s_relayer)
              (ProgramErr ArithmeticOverflow)) (\<lambda>p.
       let fee_relayer = p div FEE_SPLIT_PRECISION
       in rbind (ok_or (checked_add fee_relayer fee_router) (ProgramErr ArithmeticOverflow)) (\<lambda>total.
            if total > bid_amount then Inl (Er FeesHigherThanBid)
            else Inr (fee_router, fee_relayer))))"

text \<open>The rounded-down fraction \<open>s / 10000\<close> of an amount, over the naturals.\<close>

abbreviation bps_of :: "nat \<Rightarrow> nat \<Rightarrow> nat" where
  "bps_of a s \<equiv> a * s div 10000"

lemma fraction_le: "s \<le> p \<Longrightarrow> a * s div p \<le> (a :: nat)"
proof (cases "p = 0")
  case False
  assume "s \<le> p"
  then have "a * s div p \<le> a * p div p" by (intro div_le_mono mult_le_mono2)
  with False show ?thesis by simp
qed simp

lemma validate_fee_split_Inr [res_simps]: "validate_fee_split s = Inr u \<longleftrightarrow> unat s \<le> 10000"
  by (auto simp: validate_fee_split_def word_less_nat_alt)

text \<open>
  The computation all fees share: multiply with an overflow check, then divide by the precision.
  On naturals it is the exact fraction; these rules take the words to naturals.
\<close>

lemma word_of_nat_eq_iff:
  fixes f :: u64
  shows "n < 2 ^ 64 \<Longrightarrow> word_of_nat n = f \<longleftrightarrow> unat f = n"
  using unat_word_of_nat [of n, where 'a = 64] by (auto simp: word_unat_eq_iff)

lemma unat_mul_ok: "unat a * unat b < 2 ^ 64 \<Longrightarrow> unat (a * b) = unat a * unat b" for a b :: u64
  by (simp add: unat_mult_small)

lemma unat_add_ok: "unat a + unat b < 2 ^ 64 \<Longrightarrow> unat (a + b) = unat a + unat b" for a b :: u64
  by (simp add: unat_add_small)

lemma rbind_checked_mul:
  fixes a s :: u64
  shows "rbind (ok_or (checked_mul a s) e) f = (if unat a * unat s < 2 ^ 64 then f (a * s) else Inl e)"
  by (simp add: checked_mul_def)

lemma rbind_checked_add:
  fixes a s :: u64
  shows "rbind (ok_or (checked_add a s) e) f = (if unat a + unat s < 2 ^ 64 then f (a + s) else Inl e)"
  by (simp add: checked_add_def)

lemma rbind_checked_sub:
  fixes a s :: u64
  shows "rbind (ok_or (checked_sub a s) e) f = (if unat s \<le> unat a then f (a - s) else Inl e)"
  by (simp add: checked_sub_def word_le_nat_alt)

lemma fraction_less:
  fixes a b :: nat
  shows "a * b < 2 ^ 64 \<Longrightarrow> a * b div p < 2 ^ 64"
  by (rule le_less_trans [OF div_le_dividend])

lemma word_fraction:
  fixes a s p :: u64
  shows "unat a * unat s < 2 ^ 64 \<Longrightarrow>
    a * s div p = word_of_nat (unat a * unat s div unat p)"
  by (simp add: word_unat_eq_iff unat_mul_ok le_less_trans [OF div_le_dividend])

lemmas fee_arith =
  rbind_checked_mul rbind_checked_add rbind_checked_sub word_fraction word_less_nat_alt not_less

lemma perform_fee_split_router_eq:
  "perform_fee_split_router b s =
     (if \<not> unat b * unat s < 2 ^ 64 then Inl (ProgramErr ArithmeticOverflow)
      else if unat b < bps_of (unat b) (unat s) then Inl (Er FeesHigherThanBid)
      else Inr (word_of_nat (bps_of (unat b) (unat s))))"
  using fraction_less [of "unat b" "unat s" 10000]
  by (cases "unat b * unat s < 2 ^ 64")
    (simp_all add: perform_fee_split_router_def Let_def fee_arith unat_mul_ok)

lemma perform_fee_split_router_Inr [res_simps]:
  "perform_fee_split_router b s = Inr f \<longleftrightarrow>
     unat b * unat s < 2 ^ 64 \<and> unat f = bps_of (unat b) (unat s) \<and> unat f \<le> unat b"
  using fraction_less [of "unat b" "unat s" 10000]
  by (auto simp: perform_fee_split_router_eq word_of_nat_eq_iff)

lemma relayer_part:
  "rbind (ok_or (checked_mul c sl) e) (\<lambda>p. let f = p div q
     in rbind (ok_or (checked_add f fr') e) (\<lambda>t. if t > b then Inl e' else Inr (fr', f))) = Inr (fr, fl)
   \<longleftrightarrow> fr' = fr \<and> unat c * unat sl < 2 ^ 64 \<and> c * sl div q = fl \<and>
     unat fl + unat fr < 2 ^ 64 \<and> unat (fl + fr) \<le> unat b" for c sl q b :: u64
  by (simp only: rbind_checked_mul rbind_checked_add Let_def word_less_nat_alt if_distrib) auto

lemma perform_fee_splits_Inr [res_simps]:
  "perform_fee_splits b sr sl = Inr (fr, fl) \<longleftrightarrow>
     unat b * unat sr < 2 ^ 64 \<and> unat fr = bps_of (unat b) (unat sr) \<and>
     (unat b - unat fr) * unat sl < 2 ^ 64 \<and> unat fl = bps_of (unat b - unat fr) (unat sl) \<and>
     unat fr + unat fl \<le> unat b" (is "_ \<longleftrightarrow> ?rhs")
proof -
  let ?c = "saturating_sub b fr"
  have "perform_fee_splits b sr sl = Inr (fr, fl) \<longleftrightarrow>
      perform_fee_split_router b sr = Inr fr \<and>
      unat ?c * unat sl < 2 ^ 64 \<and> ?c * sl div FEE_SPLIT_PRECISION = fl \<and>
      unat fl + unat fr < 2 ^ 64 \<and> unat (fl + fr) \<le> unat b"
    unfolding perform_fee_splits_def rbind_Inr_iff [of "perform_fee_split_router b sr"] relayer_part
    by blast
  also have "\<dots> \<longleftrightarrow> perform_fee_split_router b sr = Inr fr \<and>
      (unat b - unat fr) * unat sl < 2 ^ 64 \<and> unat fl = bps_of (unat b - unat fr) (unat sl) \<and>
      unat fr + unat fl \<le> unat b"
  proof (cases "(unat b - unat fr) * unat sl < 2 ^ 64")
    case True
    define n where "n = bps_of (unat b - unat fr) (unat sl)"
    have "n < 2 ^ 64" unfolding n_def using True by (rule fraction_less)
    moreover have "?c * sl div FEE_SPLIT_PRECISION = word_of_nat n"
      using True by (simp add: word_fraction n_def)
    ultimately have "?c * sl div FEE_SPLIT_PRECISION = fl \<longleftrightarrow> unat fl = n"
      by (simp add: word_of_nat_eq_iff)
    moreover have "unat fl + unat fr < 2 ^ 64 \<and> unat (fl + fr) \<le> unat b \<longleftrightarrow>
        unat fr + unat fl \<le> unat b" if "unat fr \<le> unat b"
      using unat_u64_less [of b] unat_add_ok [of fl fr] by auto
    ultimately show ?thesis using True by (auto simp: n_def [symmetric] perform_fee_split_router_Inr)
  qed simp
  finally show ?thesis by (auto simp: perform_fee_split_router_Inr)
qed


subsection \<open>Fees of a swap\<close>

record SwapFees =
  router_fee :: u64
  relayer_fee :: u64
  express_relay_fee :: u64

record SwapFeesWithRemainingAmount =
  fees :: SwapFees
  remaining_amount :: u64

datatype FeeToken = Searcher | User

record SwapArgs =
  v1_deadline :: i64
  v1_amount_searcher :: u64
  v1_amount_user :: u64
  referral_fee_bps :: u16
  v1_fee_token :: FeeToken

record SwapV2Args =
  deadline :: i64
  amount_searcher :: u64
  amount_user :: u64
  referral_fee_ppm :: u64
  fee_token :: FeeToken
  swap_platform_fee_ppm :: u64

definition compute_swap_fees ::
  "ExpressRelayMetadata \<Rightarrow> u64 \<Rightarrow> u64 \<Rightarrow> u64 \<Rightarrow> er_error + SwapFeesWithRemainingAmount" where
  "compute_swap_fees md referral_ppm platform_ppm amount =
     (if referral_ppm > FEE_SPLIT_PRECISION_PPM then Inl (Er InvalidReferralFee)
      else
      rbind (ok_or (checked_mul amount referral_ppm) (ProgramErr ArithmeticOverflow)) (\<lambda>x.
        let r_fee = x div FEE_SPLIT_PRECISION_PPM in
      rbind (ok_or (checked_mul amount platform_ppm) (ProgramErr ArithmeticOverflow)) (\<lambda>y.
        let platform_fee = y div FEE_SPLIT_PRECISION_PPM in
      rbind (ok_or (checked_mul platform_fee (split_relayer md)) (ProgramErr ArithmeticOverflow)) (\<lambda>z.
        let l_fee = z div FEE_SPLIT_PRECISION in
      rbind (ok_or (checked_sub amount r_fee) (ProgramErr ArithmeticOverflow)) (\<lambda>rest.
      rbind (ok_or (checked_sub rest platform_fee) (ProgramErr ArithmeticOverflow)) (\<lambda>remaining.
      rbind (ok_or (checked_sub platform_fee l_fee) (ProgramErr ArithmeticOverflow)) (\<lambda>e_fee.
        Inr \<lparr>fees = \<lparr>router_fee = r_fee, relayer_fee = l_fee, express_relay_fee = e_fee\<rparr>,
             remaining_amount = remaining\<rparr>)))))))"

text \<open>
  The program is built with overflow checks, so a plain multiplication that overflows panics.
\<close>

definition mul_or_panic :: "u64 \<Rightarrow> u64 \<Rightarrow> er_error + u64" where
  "mul_or_panic a b = ok_or (checked_mul a b) Panic"

definition compute_swap_fees_with_default_platform_fee ::
  "ExpressRelayMetadata \<Rightarrow> u64 \<Rightarrow> u64 \<Rightarrow> er_error + SwapFeesWithRemainingAmount" where
  "compute_swap_fees_with_default_platform_fee md referral_ppm amount =
     rbind (mul_or_panic (swap_platform_fee_bps md) FEE_BPS_TO_PPM) (\<lambda>platform_ppm.
       compute_swap_fees md referral_ppm platform_ppm amount)"

definition SwapArgs_convert_to_v2 :: "SwapArgs \<Rightarrow> u64 \<Rightarrow> er_error + SwapV2Args" where
  "SwapArgs_convert_to_v2 a fee_bps =
     rbind (mul_or_panic (ucast (referral_fee_bps a)) FEE_BPS_TO_PPM) (\<lambda>referral.
     rbind (mul_or_panic fee_bps FEE_BPS_TO_PPM) (\<lambda>platform.
       Inr \<lparr>deadline = v1_deadline a, amount_searcher = v1_amount_searcher a,
            amount_user = v1_amount_user a, referral_fee_ppm = referral,
            fee_token = v1_fee_token a, swap_platform_fee_ppm = platform\<rparr>))"

abbreviation ppm_of :: "nat \<Rightarrow> nat \<Rightarrow> nat" where
  "ppm_of a s \<equiv> a * s div 1000000"

text \<open>The fees of a swap over the naturals: what the routine is meant to compute.\<close>

definition swap_fees_spec :: "nat \<Rightarrow> nat \<Rightarrow> nat \<Rightarrow> nat \<Rightarrow> nat \<times> nat \<times> nat \<times> nat" where
  "swap_fees_spec relayer_bps referral platform a =
     (let p = ppm_of a platform; l = bps_of p relayer_bps
      in (ppm_of a referral, l, p - l, a - ppm_of a referral - p))"

definition abs_fees :: "SwapFeesWithRemainingAmount \<Rightarrow> nat \<times> nat \<times> nat \<times> nat" where
  "abs_fees r =
     (unat (router_fee (fees r)), unat (relayer_fee (fees r)),
      unat (express_relay_fee (fees r)), unat (remaining_amount r))"

lemma abs_fees_inject: "abs_fees r = abs_fees r' \<longleftrightarrow> r = r'" for r r' :: SwapFeesWithRemainingAmount
  by (cases r; cases r'; cases "fees r"; cases "fees r'") (auto simp: abs_fees_def word_unat_eq_iff)

text \<open>When the routine returns: the condition of each of its checks, in their order.\<close>

definition swap_fees_ok :: "nat \<Rightarrow> nat \<Rightarrow> nat \<Rightarrow> nat \<Rightarrow> bool" where
  "swap_fees_ok relayer_bps referral platform a \<longleftrightarrow>
     referral \<le> 1000000 \<and> a * referral < 2 ^ 64 \<and> a * platform < 2 ^ 64 \<and>
     ppm_of a platform * relayer_bps < 2 ^ 64 \<and>
     ppm_of a referral + ppm_of a platform \<le> a \<and>
     bps_of (ppm_of a platform) relayer_bps \<le> ppm_of a platform"

lemma compute_swap_fees_refines:
  "compute_swap_fees md r p a = Inr res \<longleftrightarrow>
     swap_fees_ok (unat (split_relayer md)) (unat r) (unat p) (unat a) \<and>
     abs_fees res = swap_fees_spec (unat (split_relayer md)) (unat r) (unat p) (unat a)"
proof -
  let ?rf = "a * r div FEE_SPLIT_PRECISION_PPM" and ?pf = "a * p div FEE_SPLIT_PRECISION_PPM"
  let ?lf = "?pf * split_relayer md div FEE_SPLIT_PRECISION"
  let ?res = "\<lparr>fees = \<lparr>router_fee = ?rf, relayer_fee = ?lf, express_relay_fee = ?pf - ?lf\<rparr>,
      remaining_amount = a - ?rf - ?pf\<rparr>"
  let ?ok = "unat r \<le> 1000000 \<and> unat a * unat r < 2 ^ 64 \<and> unat a * unat p < 2 ^ 64 \<and>
      unat ?pf * unat (split_relayer md) < 2 ^ 64 \<and> unat ?rf \<le> unat a \<and>
      unat ?pf \<le> unat (a - ?rf) \<and> unat ?lf \<le> unat ?pf"
  have "compute_swap_fees md r p a = Inr res \<longleftrightarrow> ?ok \<and> res = ?res"
    unfolding compute_swap_fees_def Let_def rbind_checked_mul rbind_checked_sub word_less_nat_alt
      guard_Inr_iff sum.inject precision_unat not_less
    by blast
  also have "\<dots> \<longleftrightarrow> swap_fees_ok (unat (split_relayer md)) (unat r) (unat p) (unat a) \<and> res = ?res"
  proof (cases "unat a * unat r < 2 ^ 64 \<and> unat a * unat p < 2 ^ 64")
    case True
    then have rf: "unat ?rf = ppm_of (unat a) (unat r)" and pf: "unat ?pf = ppm_of (unat a) (unat p)"
      by (simp_all add: unat_mul_ok)
    have lf: "unat ?lf = bps_of (unat ?pf) (unat (split_relayer md))"
      if "unat ?pf * unat (split_relayer md) < 2 ^ 64"
      using unat_mul_ok [OF that] by simp
    have "unat ?rf \<le> unat a \<and> unat ?pf \<le> unat (a - ?rf) \<longleftrightarrow> unat ?rf + unat ?pf \<le> unat a"
      using unat_sub_le [of ?rf a] unfolding word_le_nat_alt by linarith
    then have "?ok \<longleftrightarrow> swap_fees_ok (unat (split_relayer md)) (unat r) (unat p) (unat a)"
      unfolding swap_fees_ok_def rf pf using True lf unfolding pf by metis
    then show ?thesis by blast
  qed (simp only: swap_fees_ok_def, blast)
  also have "\<dots> \<longleftrightarrow> swap_fees_ok (unat (split_relayer md)) (unat r) (unat p) (unat a) \<and>
      abs_fees res = swap_fees_spec (unat (split_relayer md)) (unat r) (unat p) (unat a)"
  proof (cases "swap_fees_ok (unat (split_relayer md)) (unat r) (unat p) (unat a)")
    case True
    then have small: "unat a * unat r < 2 ^ 64" "unat a * unat p < 2 ^ 64"
      and platform: "ppm_of (unat a) (unat p) * unat (split_relayer md) < 2 ^ 64"
      and le: "ppm_of (unat a) (unat r) + ppm_of (unat a) (unat p) \<le> unat a"
        "bps_of (ppm_of (unat a) (unat p)) (unat (split_relayer md)) \<le> ppm_of (unat a) (unat p)"
      by (simp_all only: swap_fees_ok_def)
    have rf: "unat ?rf = ppm_of (unat a) (unat r)" and pf: "unat ?pf = ppm_of (unat a) (unat p)"
      using small by (simp_all add: unat_mul_ok)
    have lf: "unat ?lf = bps_of (ppm_of (unat a) (unat p)) (unat (split_relayer md))"
      using unat_mul_ok [OF platform [folded pf]]
      by (subst unat_div_word) (simp only: pf precision_unat)
    have d: "unat (a - ?rf) = unat a - unat ?rf" using le(1) rf by (intro unat_sub_nat) linarith
    have "unat (a - ?rf - ?pf) = unat (a - ?rf) - unat ?pf"
      using le(1) rf pf d by (intro unat_sub_nat) linarith
    moreover have "unat (?pf - ?lf) = unat ?pf - unat ?lf"
      using le(2) pf lf by (intro unat_sub_nat) linarith
    ultimately have "abs_fees ?res = swap_fees_spec (unat (split_relayer md)) (unat r) (unat p) (unat a)"
      by (simp only: abs_fees_def swap_fees_spec_def Let_def d rf pf lf SwapFees.simps
          SwapFeesWithRemainingAmount.simps)
    then show ?thesis using abs_fees_inject [of res ?res] by metis
  qed simp
  finally show ?thesis .
qed


subsection \<open>What the arithmetic guarantees\<close>

lemma small_product: "a * p < 2 ^ 64 \<Longrightarrow> s \<le> p \<Longrightarrow> a * s < (2 ^ 64 :: nat)"
  by (rule le_less_trans [OF mult_le_mono2])

lemma two_fractions_le:
  fixes a r s p :: nat
  assumes "r + s \<le> p"
  shows "a * r div p + a * s div p \<le> a"
proof (cases "p = 0")
  case False
  have "a * r div p + a * s div p \<le> (a * r + a * s) div p"
    by (metis div_add1_eq le_add1)
  also have "\<dots> \<le> a * p div p"
    using assms by (intro div_le_mono) (simp add: distrib_left [symmetric])
  also have "\<dots> = a" using False by simp
  finally show ?thesis .
qed (use assms in simp)

lemma perform_fee_splits_errors:
  assumes "unat sr \<le> 10000" and "unat sl \<le> 10000" and "perform_fee_splits b sr sl = Inl e"
  shows "e = ProgramErr ArithmeticOverflow"
proof -
  have le1: "bps_of (unat b) (unat sr) \<le> unat b" using assms(1) by (rule fraction_le)
  show ?thesis
  proof (cases "perform_fee_split_router b sr")
    case (Inl e')
    then have "e' = ProgramErr ArithmeticOverflow"
      using le1 by (auto simp: perform_fee_split_router_eq split: if_splits)
    with Inl assms(3) show ?thesis by (simp add: perform_fee_splits_def)
  next
    case (Inr f)
    define c where "c = saturating_sub b f"
    have c: "unat c = unat b - unat f" and f: "unat f \<le> unat b"
      using Inr by (simp_all add: c_def perform_fee_split_router_Inr)
    have "unat (c * sl div FEE_SPLIT_PRECISION) \<le> unat c" if "unat c * unat sl < 2 ^ 64"
      using fraction_le [OF assms(2), of "unat c"] that by (simp add: unat_mul_ok)
    then have "unat (c * sl div FEE_SPLIT_PRECISION) + unat f \<le> unat b"
      if "unat c * unat sl < 2 ^ 64" using c f that by linarith
    with Inr assms(3) show ?thesis
      unfolding perform_fee_splits_def rbind_simps Inr c_def [symmetric] rbind_checked_mul
        rbind_checked_add Let_def
      by (auto simp: word_less_nat_alt unat_add_ok split: if_splits)
  qed
qed

lemma perform_fee_splits_small:
  assumes "unat s_router \<le> 10000" and "unat s_relayer \<le> 10000" and "unat bid \<le> 1844674407370955"
  shows "\<exists>fr fl. perform_fee_splits bid s_router s_relayer = Inr (fr, fl) \<and>
    unat fr = unat bid * unat s_router div 10000 \<and>
    unat fl = (unat bid - unat fr) * unat s_relayer div 10000 \<and>
    unat fr + unat fl \<le> unat bid"
proof -
  define nr where "nr = bps_of (unat bid) (unat s_router)"
  define nl where "nl = bps_of (unat bid - nr) (unat s_relayer)"
  have r: "nr \<le> unat bid" unfolding nr_def using assms(1) by (rule fraction_le)
  have l: "nl \<le> unat bid - nr" unfolding nl_def using assms(2) by (rule fraction_le)
  have "unat bid * 10000 < 2 ^ 64" and "(unat bid - nr) * 10000 < 2 ^ 64"
    using assms(3) by simp_all
  then have "unat bid * unat s_router < 2 ^ 64" "(unat bid - nr) * unat s_relayer < 2 ^ 64"
    using assms(1,2) by (blast intro: small_product)+
  moreover have "unat (word_of_nat nr :: u64) = nr" "unat (word_of_nat nl :: u64) = nl"
    using r l unat_u64_less [of bid] by simp_all
  ultimately have "perform_fee_splits bid s_router s_relayer = Inr (word_of_nat nr, word_of_nat nl)"
    using r l unfolding perform_fee_splits_Inr
    by (simp add: nr_def [symmetric] nl_def [symmetric])
  moreover from this have "unat bid * unat s_router < 2 ^ 64" by (simp add: perform_fee_splits_Inr)
  ultimately show ?thesis unfolding perform_fee_splits_Inr by blast
qed

text \<open>
  With splits the program's admin instructions accept (at most 10000 basis points) and a
  bid up to 1844674407370955 lamports, the split of a bid always succeeds, the router gets the
  rounded-down fraction of the bid, the relayer the rounded-down fraction of the remainder, and
  the two never exceed the bid.
\<close>

theorem bid_split_total:
  assumes "unat s_router \<le> 10000" and "unat s_relayer \<le> 10000" and "unat bid \<le> 1844674407370955"
  shows "\<exists>fr fl. perform_fee_splits bid s_router s_relayer = Inr (fr, fl) \<and>
    unat fr = unat bid * unat s_router div 10000 \<and>
    unat fl = (unat bid - unat fr) * unat s_relayer div 10000 \<and>
    unat fr + unat fl \<le> unat bid"
  using assms by (rule perform_fee_splits_small)

theorem bid_split_total_witness:
  "\<exists>fr fl. perform_fee_splits 1000001 2000 500 = Inr (fr, fl) \<and>
    unat fr = 200000 \<and> unat fl = 40000"
  using bid_split_total [of 2000 500 1000001] by auto

lemma compute_swap_fees_small:
  assumes "unat referral + unat platform \<le> 1000000" and "unat amount \<le> 18446744073709"
    and "unat (split_relayer md) \<le> 10000"
  shows "\<exists>res. compute_swap_fees md referral platform amount = Inr res \<and>
    unat (router_fee (fees res)) = unat amount * unat referral div 1000000 \<and>
    unat (relayer_fee (fees res)) + unat (express_relay_fee (fees res)) =
      unat amount * unat platform div 1000000 \<and>
    unat (router_fee (fees res)) + unat (relayer_fee (fees res)) +
      unat (express_relay_fee (fees res)) + unat (remaining_amount res) = unat amount"
proof -
  let ?s = "unat (split_relayer md)"
  define p where "p = ppm_of (unat amount) (unat platform)"
  define r where "r = ppm_of (unat amount) (unat referral)"
  define l where "l = bps_of p ?s"
  have lp: "l \<le> p" unfolding l_def using assms(3) by (rule fraction_le)
  have sum: "r + p \<le> unat amount"
    unfolding r_def p_def using assms(1) by (rule two_fractions_le)
  have a: "unat amount * 1000000 < 2 ^ 64" and pb: "p * 10000 < 2 ^ 64"
    using assms(2) sum by simp_all
  have "unat amount * unat referral < 2 ^ 64" "unat amount * unat platform < 2 ^ 64" "p * ?s < 2 ^ 64"
    using assms(1) small_product [OF a] small_product [OF pb assms(3)] by simp_all
  then have ok: "swap_fees_ok ?s (unat referral) (unat platform) (unat amount)"
    using assms(1) sum lp unfolding swap_fees_ok_def r_def p_def l_def by simp
  define res where "res = \<lparr>fees = \<lparr>router_fee = word_of_nat r, relayer_fee = word_of_nat l,
      express_relay_fee = word_of_nat (p - l)\<rparr>, remaining_amount = word_of_nat (unat amount - r - p)\<rparr>"
  have small: "r < 2 ^ 64" "p < 2 ^ 64" "l < 2 ^ 64" "unat amount - r - p < 2 ^ 64" "p - l < 2 ^ 64"
    using sum lp unat_u64_less [of amount] by linarith+
  then have "abs_fees res = swap_fees_spec ?s (unat referral) (unat platform) (unat amount)"
    by (simp add: abs_fees_def res_def swap_fees_spec_def Let_def flip: r_def p_def l_def)
  with ok have "compute_swap_fees md referral platform amount = Inr res"
    by (simp add: compute_swap_fees_refines)
  moreover have "unat (router_fee (fees res)) = r" "unat (relayer_fee (fees res)) = l"
    "unat (express_relay_fee (fees res)) = p - l" "unat (remaining_amount res) = unat amount - r - p"
    using small by (simp_all add: res_def)
  ultimately show ?thesis using sum lp by (intro exI [of _ res]) (simp flip: r_def p_def)
qed

text \<open>
  A swap whose referral and platform fees together stay within one million parts per
  million, on an amount up to 18446744073709 base units and with a valid relayer split, always
  computes its fees; they are the rounded-down fractions, and router fee, relayer fee, program fee
  and remaining amount add up to the amount exactly: no token is created or lost.
\<close>

theorem swap_fees_total:
  assumes "unat referral + unat platform \<le> 1000000" and "unat amount \<le> 18446744073709"
    and "unat (split_relayer md) \<le> 10000"
  shows "\<exists>res. compute_swap_fees md referral platform amount = Inr res \<and>
    unat (router_fee (fees res)) = unat amount * unat referral div 1000000 \<and>
    unat (relayer_fee (fees res)) + unat (express_relay_fee (fees res)) =
      unat amount * unat platform div 1000000 \<and>
    unat (router_fee (fees res)) + unat (relayer_fee (fees res)) +
      unat (express_relay_fee (fees res)) + unat (remaining_amount res) = unat amount"
  using assms by (rule compute_swap_fees_small)

definition sample_metadata :: ExpressRelayMetadata where
  "sample_metadata = \<lparr>admin = 11, relayer_signer = 12, fee_receiver_relayer = 13,
     split_router_default = 4000, split_relayer = 2000, swap_platform_fee_bps = 10,
     secondary_relayer_signer = 14\<rparr>"

theorem swap_fees_total_witness:
  "\<exists>res. compute_swap_fees sample_metadata 2500 1000 4000000 = Inr res \<and>
    unat (router_fee (fees res)) = 10000 \<and> unat (remaining_amount res) = 3986000"
  using swap_fees_total [of 2500 1000 4000000 sample_metadata] by (auto simp: sample_metadata_def)

lemma swap_fees_conserve:
  assumes "compute_swap_fees md referral platform amount = Inr res"
  shows "unat (router_fee (fees res)) + unat (relayer_fee (fees res)) +
      unat (express_relay_fee (fees res)) + unat (remaining_amount res) = unat amount"
  using assms
  by (simp add: compute_swap_fees_refines swap_fees_ok_def swap_fees_spec_def abs_fees_def Let_def)

text \<open>
  Converting version-1 swap arguments never panics when the stored platform fee is at
  most 10000 basis points; deadline, amounts and fee token are kept, both fees are multiplied by
  exactly 100, and the fees of the converted swap are those of the default-platform-fee routine.
\<close>

theorem convert_to_v2_agrees:
  assumes "unat (swap_platform_fee_bps md) \<le> 10000"
  shows "\<exists>v2. SwapArgs_convert_to_v2 a (swap_platform_fee_bps md) = Inr v2 \<and>
    deadline v2 = v1_deadline a \<and> amount_searcher v2 = v1_amount_searcher a \<and>
    amount_user v2 = v1_amount_user a \<and> fee_token v2 = v1_fee_token a \<and>
    unat (referral_fee_ppm v2) = 100 * unat (referral_fee_bps a) \<and>
    unat (swap_platform_fee_ppm v2) = 100 * unat (swap_platform_fee_bps md) \<and>
    (\<forall>x. compute_swap_fees md (referral_fee_ppm v2) (swap_platform_fee_ppm v2) x =
         compute_swap_fees_with_default_platform_fee md (referral_fee_ppm v2) x)"
proof -
  let ?b = "swap_platform_fee_bps md" and ?r = "ucast (referral_fee_bps a) :: u64"
  have ru: "unat ?r = unat (referral_fee_bps a)"
    using unsigned_less [of "referral_fee_bps a", where 'a = nat]
    by (simp add: unsigned_ucast_eq take_bit_nat_eq_self)
  have "unat (referral_fee_bps a) < 65536"
    using unsigned_less [of "referral_fee_bps a", where 'a = nat] by simp
  then have r: "unat ?r * unat FEE_BPS_TO_PPM < 2 ^ 64" and b: "unat ?b * unat FEE_BPS_TO_PPM < 2 ^ 64"
    using assms ru by simp_all
  have "mul_or_panic ?r FEE_BPS_TO_PPM = Inr (?r * FEE_BPS_TO_PPM)"
    and "mul_or_panic ?b FEE_BPS_TO_PPM = Inr (?b * FEE_BPS_TO_PPM)"
    using r b by (simp_all add: mul_or_panic_def checked_mul_def)
  with r b ru show ?thesis
    by (simp add: SwapArgs_convert_to_v2_def compute_swap_fees_with_default_platform_fee_def
        unat_mul_ok)
qed

theorem convert_to_v2_agrees_witness:
  "\<exists>v2. SwapArgs_convert_to_v2 \<lparr>v1_deadline = 5, v1_amount_searcher = 1, v1_amount_user = 2,
      referral_fee_bps = 25, v1_fee_token = User\<rparr> (swap_platform_fee_bps sample_metadata) = Inr v2 \<and>
    unat (referral_fee_ppm v2) = 2500 \<and> unat (swap_platform_fee_ppm v2) = 1000"
  using convert_to_v2_agrees [of sample_metadata "\<lparr>v1_deadline = 5, v1_amount_searcher = 1,
      v1_amount_user = 2, referral_fee_bps = 25, v1_fee_token = User\<rparr>"]
  by (auto simp: sample_metadata_def)

end
