(* ===== verification/Er_Runtime.thy ===== *)
theory Er_Runtime
  imports Er_Fees
begin

section \<open>Express Relay program: accounts, runtime and lamport transfers\<close>

text \<open>
  The ledger the program runs on (one account per address; an address never used is an account
  without lamports and data owned by the system program), the instruction list of the transaction,
  the Solana runtime as a record of parameters, the account constraints Anchor evaluates before a
  handler, and the two ways the program moves lamports: directly (\<open>transfer_lamports\<close>) and
  by a call of the system program (\<open>transfer_lamports_cpi\<close>). The locale \<open>value_mover\<close> is
  the contract of anything that moves an amount between two accounts, \<open>lamport_mover\<close> the one
  both lamport transfers share; it is interpreted for the direct transfer and is the hypothesis on the
  called one.
\<close>

record account =
  lamports :: u64
  acc_data :: "u8 list"
  acc_owner :: pubkey

type_synonym ledger = "pubkey \<Rightarrow> account"

record account_meta =
  am_pubkey :: pubkey
  am_is_signer :: bool
  am_is_writable :: bool

record instruction =
  ix_program_id :: pubkey
  ix_accounts :: "account_meta list"
  ix_data :: "u8 list"

record runtime =
  unix_timestamp :: i64
  minimum_balance :: "nat \<Rightarrow> u64"
  stack_height :: nat
  tx_instructions :: "instruction list"
  is_signer :: "pubkey \<Rightarrow> bool"
  is_writable :: "pubkey \<Rightarrow> bool"
  find_program_address :: "u8 list list \<Rightarrow> pubkey \<Rightarrow> pubkey"
  system_program_id :: pubkey
  sysvar_instructions_id :: pubkey
  sys_transfer :: "ledger \<Rightarrow> pubkey \<Rightarrow> pubkey \<Rightarrow> u64 \<Rightarrow> er_error + ledger"
  sys_create :: "ledger \<Rightarrow> pubkey \<Rightarrow> pubkey \<Rightarrow> nat \<Rightarrow> pubkey \<Rightarrow> er_error + ledger"


subsection \<open>Account constraints\<close>

definition check_signer :: "runtime \<Rightarrow> pubkey \<Rightarrow> er_error + unit" where
  "check_signer rt k = ensure (is_signer rt k) (Anchor AccountNotSigner)"

definition check_mut :: "runtime \<Rightarrow> pubkey \<Rightarrow> er_error + unit" where
  "check_mut rt k = ensure (is_writable rt k) (Anchor ConstraintMut)"

definition check_seeds :: "runtime \<Rightarrow> u8 list list \<Rightarrow> pubkey \<Rightarrow> er_error + unit" where
  "check_seeds rt seeds k =
     ensure (k = find_program_address rt seeds EXPRESS_RELAY_ID) (Anchor ConstraintSeeds)"

definition check_has_one :: "pubkey \<Rightarrow> pubkey \<Rightarrow> er_error + unit" where
  "check_has_one stored given = ensure (stored = given) (Anchor ConstraintHasOne)"

lemmas constraint_defs = check_signer_def check_mut_def check_seeds_def check_has_one_def

definition load_typed ::
  "runtime \<Rightarrow> u8 list \<Rightarrow> (u8 list \<Rightarrow> ('a \<times> u8 list) option) \<Rightarrow> ledger \<Rightarrow> pubkey \<Rightarrow> er_error + 'a" where
  "load_typed rt disc deser L k =
     (let a = L k
      in if acc_owner a = system_program_id rt \<and> lamports a = 0 then Inl (Anchor AccountNotInitialized)
         else if acc_owner a \<noteq> EXPRESS_RELAY_ID then Inl (Anchor AccountOwnedByWrongProgram)
         else try_deserialize disc deser (acc_data a))"

definition load_metadata :: "runtime \<Rightarrow> ledger \<Rightarrow> pubkey \<Rightarrow> er_error + ExpressRelayMetadata" where
  "load_metadata rt = load_typed rt metadata_discriminator deser_metadata"

definition load_config_router :: "runtime \<Rightarrow> ledger \<Rightarrow> pubkey \<Rightarrow> er_error + ConfigRouter" where
  "load_config_router rt = load_typed rt config_router_discriminator deser_config_router"

definition store_front :: "ledger \<Rightarrow> pubkey \<Rightarrow> u8 list \<Rightarrow> er_error + ledger" where
  "store_front L k bs =
     rbind (write_front bs (acc_data (L k))) (\<lambda>new. Inr (L(k := (L k)\<lparr>acc_data := new\<rparr>)))"

definition store_metadata :: "ledger \<Rightarrow> pubkey \<Rightarrow> ExpressRelayMetadata \<Rightarrow> er_error + ledger" where
  "store_metadata L k md = store_front L k (metadata_discriminator @ ser_metadata md)"

definition store_config_router :: "ledger \<Rightarrow> pubkey \<Rightarrow> ConfigRouter \<Rightarrow> er_error + ledger" where
  "store_config_router L k c = store_front L k (config_router_discriminator @ ser_config_router c)"

lemma load_typed_Inr [res_simps]:
  "load_typed rt disc deser L k = Inr x \<longleftrightarrow>
     acc_owner (L k) = EXPRESS_RELAY_ID \<and>
     \<not> (EXPRESS_RELAY_ID = system_program_id rt \<and> lamports (L k) = 0) \<and>
     try_deserialize disc deser (acc_data (L k)) = Inr x"
  by (auto simp: load_typed_def Let_def)

lemma store_front_Inr [res_simps]:
  "store_front L k bs = Inr L' \<longleftrightarrow>
     (\<exists>new. write_front bs (acc_data (L k)) = Inr new \<and> L' = L(k := (L k)\<lparr>acc_data := new\<rparr>))"
  by (auto simp: store_front_def rbind_Inr_iff)

lemma store_front_frame:
  assumes "store_front L k bs = Inr L'"
  shows "lamports (L' j) = lamports (L j)" and "acc_owner (L' j) = acc_owner (L j)"
    and "j \<noteq> k \<Longrightarrow> L' j = L j"
  using assms by (auto simp: store_front_Inr)

lemma store_metadata_loads:
  assumes "store_metadata L k md = Inr L'"
  shows "try_deserialize metadata_discriminator deser_metadata (acc_data (L' k)) = Inr md"
  using assms metadata_codec.write_front_read(1)
  by (auto simp: store_metadata_def store_front_Inr)

lemma store_config_router_loads:
  assumes "store_config_router L k c = Inr L'"
  shows "try_deserialize config_router_discriminator deser_config_router (acc_data (L' k)) = Inr c"
  using assms config_router_codec.write_front_read(1)
  by (auto simp: store_config_router_def store_front_Inr)


subsection \<open>Clock and rent\<close>

definition check_deadline :: "runtime \<Rightarrow> i64 \<Rightarrow> er_error + unit" where
  "check_deadline rt d =
     (if sint d < sint (unix_timestamp rt) then Inl (Er DeadlinePassed) else Inr ())"

definition check_fee_hits_min_rent :: "runtime \<Rightarrow> ledger \<Rightarrow> pubkey \<Rightarrow> u64 \<Rightarrow> er_error + unit" where
  "check_fee_hits_min_rent rt L k fee =
     (let balance = lamports (L k); rent = minimum_balance rt (length (acc_data (L k)))
      in rbind (ok_or (checked_add balance fee) (ProgramErr ArithmeticOverflow)) (\<lambda>total.
           if total < rent then Inl (Er InsufficientRent) else Inr ()))"

lemma check_deadline_Inr [res_simps]:
  "check_deadline rt d = Inr u \<longleftrightarrow> sint (unix_timestamp rt) \<le> sint d"
  by (auto simp: check_deadline_def)

lemma check_fee_hits_min_rent_Inr [res_simps]:
  "check_fee_hits_min_rent rt L k fee = Inr u \<longleftrightarrow>
     unat (lamports (L k)) + unat fee < 2 ^ 64 \<and>
     unat (minimum_balance rt (length (acc_data (L k)))) \<le> unat (lamports (L k)) + unat fee"
  by (auto simp: check_fee_hits_min_rent_def Let_def rbind_checked_add unat_add_ok word_less_nat_alt
      not_less split: if_splits)


subsection \<open>Moving lamports\<close>

definition add_lamports :: "ledger \<Rightarrow> pubkey \<Rightarrow> u64 \<Rightarrow> ledger" where
  "add_lamports L k x = L(k := (L k)\<lparr>lamports := lamports (L k) + x\<rparr>)"

definition sub_lamports :: "ledger \<Rightarrow> pubkey \<Rightarrow> u64 \<Rightarrow> ledger" where
  "sub_lamports L k x = L(k := (L k)\<lparr>lamports := lamports (L k) - x\<rparr>)"

definition transfer_lamports :: "ledger \<Rightarrow> pubkey \<Rightarrow> pubkey \<Rightarrow> u64 \<Rightarrow> er_error + ledger" where
  "transfer_lamports L from_key to_key amount =
     rbind (ensure (amount \<le> lamports (L from_key)) Panic) (\<lambda>_.
       let L1 = sub_lamports L from_key amount
       in rbind (ok_or (checked_add (lamports (L1 to_key)) amount) Panic) (\<lambda>_.
            Inr (add_lamports L1 to_key amount)))"

definition transfer_lamports_cpi ::
  "runtime \<Rightarrow> ledger \<Rightarrow> pubkey \<Rightarrow> pubkey \<Rightarrow> u64 \<Rightarrow> er_error + ledger" where
  "transfer_lamports_cpi rt L from_key to_key amount = sys_transfer rt L from_key to_key amount"

text \<open>What a transfer that succeeds does, whoever performs it.\<close>

definition balance :: "ledger \<Rightarrow> pubkey \<Rightarrow> nat" where
  "balance L k = unat (lamports (L k))"

locale value_mover =
  fixes bal :: "ledger \<Rightarrow> pubkey \<Rightarrow> nat"
    and mv :: "ledger \<Rightarrow> pubkey \<Rightarrow> pubkey \<Rightarrow> u64 \<Rightarrow> er_error + ledger"
  assumes vm_add: "mv L f t a = Inr L' \<Longrightarrow>
      bal L' k + (if k = f then unat a else 0) = bal L k + (if k = t then unat a else 0)"
begin

lemma vm_other: "mv L f t a = Inr L' \<Longrightarrow> k \<noteq> f \<Longrightarrow> k \<noteq> t \<Longrightarrow> bal L' k = bal L k"
  using vm_add [of L f t a L' k] by simp

lemma vm_conserves:
  assumes mv: "mv L f t a = Inr L'" and "finite S" and "f \<in> S" and "t \<in> S"
  shows "(\<Sum>k\<in>S. bal L' k) = (\<Sum>k\<in>S. bal L k)"
proof -
  let ?out = "\<lambda>k. if k = f then unat a else 0" and ?inn = "\<lambda>k. if k = t then unat a else 0"
  have "(\<Sum>k\<in>S. bal L' k) + (\<Sum>k\<in>S. ?out k) = (\<Sum>k\<in>S. bal L k) + (\<Sum>k\<in>S. ?inn k)"
    using vm_add [OF mv] by (simp only: sum.distrib [symmetric])
  moreover have "(\<Sum>k\<in>S. ?out k) = unat a" "(\<Sum>k\<in>S. ?inn k) = unat a"
    using assms(2-4) by simp_all
  ultimately show ?thesis by simp
qed

end

locale lamport_mover = value_mover balance mv
  for mv :: "ledger \<Rightarrow> pubkey \<Rightarrow> pubkey \<Rightarrow> u64 \<Rightarrow> er_error + ledger" +
  assumes mv_funds: "mv L f t a = Inr L' \<Longrightarrow> unat a \<le> balance L f"
    and mv_frame: "mv L f t a = Inr L' \<Longrightarrow>
      acc_data (L' k) = acc_data (L k) \<and> acc_owner (L' k) = acc_owner (L k)"
begin

lemma mv_balance:
  assumes "mv L f t a = Inr L'"
  shows "balance L' k = balance L k - (if k = f then unat a else 0) + (if k = t then unat a else 0)"
proof (cases "k = f")
  case True
  with vm_add [OF assms, of k] mv_funds [OF assms] show ?thesis by (auto split: if_splits)
next
  case False
  with vm_add [OF assms, of k] show ?thesis by simp
qed

end

lemma transfer_lamports_Inr [res_simps]:
  "transfer_lamports L f t a = Inr L' \<longleftrightarrow>
     a \<le> lamports (L f) \<and> unat (lamports (sub_lamports L f a t)) + unat a < 2 ^ 64 \<and>
     L' = add_lamports (sub_lamports L f a) t a"
  by (auto simp: transfer_lamports_def rbind_Inr_iff ensure_Inr_iff Let_def rbind_checked_add
      split: if_splits)

interpretation direct: lamport_mover transfer_lamports
  by unfold_locales
    (auto simp: transfer_lamports_Inr balance_def add_lamports_def sub_lamports_def unat_add_ok
      unat_sub_le word_le_nat_alt split: if_splits)

text \<open>
  The documented behaviour of the system program: its transfer is a mover, and creating an account
  succeeds only on an address it owns without data, funds it and gives it zeroed data and the new
  owner.
\<close>

definition creates_accounts :: "runtime \<Rightarrow> bool" where
  "creates_accounts rt \<longleftrightarrow>
     (\<forall>L payer new space owner L'. sys_create rt L payer new space owner = Inr L' \<longrightarrow>
        acc_owner (L new) = system_program_id rt \<and> acc_data (L new) = [] \<and>
        acc_data (L' new) = replicate space 0 \<and> acc_owner (L' new) = owner \<and>
        (\<forall>k. k \<noteq> new \<longrightarrow> acc_data (L' k) = acc_data (L k) \<and> acc_owner (L' k) = acc_owner (L k)))"

definition system_program_ok :: "runtime \<Rightarrow> bool" where
  "system_program_ok rt \<longleftrightarrow>
     lamport_mover (sys_transfer rt) \<and> creates_accounts rt \<and> system_program_id rt \<noteq> EXPRESS_RELAY_ID"

lemma system_mover: "system_program_ok rt \<Longrightarrow> lamport_mover (transfer_lamports_cpi rt)"
  by (simp add: system_program_ok_def transfer_lamports_cpi_def [abs_def])

end
