(* ===== verification/Er_Admin.thy ===== *)
theory Er_Admin
  imports Er_Runtime
begin

section \<open>Express Relay program: initialisation, administration and fee withdrawal\<close>

text \<open>
  The handlers of \<open>lib.rs\<close> that write the metadata account or a router's configuration, each
  with the constraints its \<open>Accounts\<close> struct declares, and \<open>withdraw_fees\<close>. A handler takes
  the runtime, the ledger and the keys of its accounts, and returns the new ledger. Leaving an
  instruction rewrites a mutable typed account; for an account the handler did not change that
  writes the bytes already there (\<open>store_metadata_same\<close>).
\<close>

lemma store_metadata_same:
  assumes "load_metadata rt L k = Inr md"
  shows "store_metadata L k md = Inr L"
proof -
  from assms have "try_deserialize metadata_discriminator deser_metadata (acc_data (L k)) = Inr md"
    by (simp add: load_metadata_def load_typed_Inr)
  from metadata_codec.try_deserialize_Inr [OF this] obtain r
    where "acc_data (L k) = metadata_discriminator @ ser_metadata md @ r" by blast
  moreover from this have "L(k := (L k)\<lparr>acc_data := metadata_discriminator @ ser_metadata md @ r\<rparr>) = L"
    by (metis account.surjective account.update_convs(2) fun_upd_triv)
  ultimately show ?thesis
    by (simp add: store_metadata_def store_front_def write_front_def)
qed

definition initialize ::
  "runtime \<Rightarrow> ledger \<Rightarrow> pubkey \<Rightarrow> pubkey \<Rightarrow> pubkey \<Rightarrow> pubkey \<Rightarrow> pubkey \<Rightarrow> u64 \<Rightarrow> u64 \<Rightarrow> er_error + ledger" where
  "initialize rt L payer mdk adm relayer receiver s_router s_relayer =
     rbind (check_signer rt payer) (\<lambda>_.
     rbind (check_seeds rt [SEED_METADATA] mdk) (\<lambda>_.
     rbind (sys_create rt L payer mdk RESERVE_EXPRESS_RELAY_METADATA EXPRESS_RELAY_ID) (\<lambda>L1.
     rbind (check_mut rt payer) (\<lambda>_.
     rbind (validate_fee_split s_router) (\<lambda>_.
     rbind (validate_fee_split s_relayer) (\<lambda>_.
       store_metadata L1 mdk
         \<lparr>admin = adm, relayer_signer = relayer, fee_receiver_relayer = receiver,
          split_router_default = s_router, split_relayer = s_relayer,
          swap_platform_fee_bps = 0, secondary_relayer_signer = 0\<rparr>))))))"

text \<open>
  The accounts \<open>SetAdmin\<close>, \<open>SetRelayer\<close>, \<open>SetSecondaryRelayer\<close> and \<open>SetSplits\<close> have in
  common: the admin signs, and the metadata account is the program's, at its address, writable,
  and names that admin.
\<close>

definition admin_accounts :: "runtime \<Rightarrow> ledger \<Rightarrow> pubkey \<Rightarrow> pubkey \<Rightarrow> er_error + ExpressRelayMetadata" where
  "admin_accounts rt L adm mdk =
     rbind (check_signer rt adm) (\<lambda>_.
     rbind (load_metadata rt L mdk) (\<lambda>md.
     rbind (check_seeds rt [SEED_METADATA] mdk) (\<lambda>_.
     rbind (check_mut rt mdk) (\<lambda>_.
     rbind (check_has_one (admin md) adm) (\<lambda>_. Inr md)))))"

definition set_admin :: "runtime \<Rightarrow> ledger \<Rightarrow> pubkey \<Rightarrow> pubkey \<Rightarrow> pubkey \<Rightarrow> er_error + ledger" where
  "set_admin rt L adm mdk admin_new =
     rbind (admin_accounts rt L adm mdk) (\<lambda>md. store_metadata L mdk (md\<lparr>admin := admin_new\<rparr>))"

definition set_relayer ::
  "runtime \<Rightarrow> ledger \<Rightarrow> pubkey \<Rightarrow> pubkey \<Rightarrow> pubkey \<Rightarrow> pubkey \<Rightarrow> er_error + ledger" where
  "set_relayer rt L adm mdk relayer receiver =
     rbind (admin_accounts rt L adm mdk) (\<lambda>md.
       store_metadata L mdk (md\<lparr>relayer_signer := relayer, fee_receiver_relayer := receiver\<rparr>))"

definition set_secondary_relayer ::
  "runtime \<Rightarrow> ledger \<Rightarrow> pubkey \<Rightarrow> pubkey \<Rightarrow> pubkey \<Rightarrow> er_error + ledger" where
  "set_secondary_relayer rt L adm mdk secondary =
     rbind (admin_accounts rt L adm mdk) (\<lambda>md.
       store_metadata L mdk (md\<lparr>secondary_relayer_signer := secondary\<rparr>))"

definition set_splits :: "runtime \<Rightarrow> ledger \<Rightarrow> pubkey \<Rightarrow> pubkey \<Rightarrow> u64 \<Rightarrow> u64 \<Rightarrow> er_error + ledger" where
  "set_splits rt L adm mdk s_router s_relayer =
     rbind (admin_accounts rt L adm mdk) (\<lambda>md.
     rbind (validate_fee_split s_router) (\<lambda>_.
     rbind (validate_fee_split s_relayer) (\<lambda>_.
       store_metadata L mdk (md\<lparr>split_router_default := s_router, split_relayer := s_relayer\<rparr>))))"

definition set_swap_platform_fee ::
  "runtime \<Rightarrow> ledger \<Rightarrow> pubkey \<Rightarrow> pubkey \<Rightarrow> u64 \<Rightarrow> er_error + ledger" where
  "set_swap_platform_fee rt L adm mdk fee_bps =
     rbind (admin_accounts rt L adm mdk) (\<lambda>md.
     rbind (validate_fee_split fee_bps) (\<lambda>_.
       store_metadata L mdk (md\<lparr>swap_platform_fee_bps := fee_bps\<rparr>)))"

text \<open>
  \<open>init_if_needed\<close>: an account the system program still owns is created, any other must already be
  a router configuration of the reserved size.
\<close>

definition init_config_router :: "runtime \<Rightarrow> ledger \<Rightarrow> pubkey \<Rightarrow> pubkey \<Rightarrow> er_error + ledger" where
  "init_config_router rt L payer cfg =
     (if acc_owner (L cfg) = system_program_id rt
      then sys_create rt L payer cfg RESERVE_EXPRESS_RELAY_CONFIG_ROUTER EXPRESS_RELAY_ID
      else rbind (load_config_router rt L cfg) (\<lambda>_.
           rbind (ensure (length (acc_data (L cfg)) = RESERVE_EXPRESS_RELAY_CONFIG_ROUTER)
                    (Anchor ConstraintSpace)) (\<lambda>_. Inr L)))"

definition set_router_split ::
  "runtime \<Rightarrow> ledger \<Rightarrow> pubkey \<Rightarrow> pubkey \<Rightarrow> pubkey \<Rightarrow> pubkey \<Rightarrow> u64 \<Rightarrow> er_error + ledger" where
  "set_router_split rt L adm cfg mdk rtr s =
     rbind (check_signer rt adm) (\<lambda>_.
     rbind (check_seeds rt [SEED_CONFIG_ROUTER, to_le 32 rtr] cfg) (\<lambda>_.
     rbind (init_config_router rt L adm cfg) (\<lambda>L1.
     rbind (load_metadata rt L1 mdk) (\<lambda>md.
     rbind (check_mut rt adm) (\<lambda>_.
     rbind (check_seeds rt [SEED_METADATA] mdk) (\<lambda>_.
     rbind (check_has_one (admin md) adm) (\<lambda>_.
     rbind (validate_fee_split s) (\<lambda>_.
       store_config_router L1 cfg \<lparr>router = rtr, split = s\<rparr>))))))))"

definition withdraw_fees :: "runtime \<Rightarrow> ledger \<Rightarrow> pubkey \<Rightarrow> pubkey \<Rightarrow> pubkey \<Rightarrow> er_error + ledger" where
  "withdraw_fees rt L adm receiver mdk =
     rbind (check_signer rt adm) (\<lambda>_.
     rbind (load_metadata rt L mdk) (\<lambda>md.
     rbind (check_mut rt receiver) (\<lambda>_.
     rbind (check_seeds rt [SEED_METADATA] mdk) (\<lambda>_.
     rbind (check_mut rt mdk) (\<lambda>_.
     rbind (check_has_one (admin md) adm) (\<lambda>_.
       let rent = minimum_balance rt (length (acc_data (L mdk)));
           amount = saturating_sub (lamports (L mdk)) rent
       in if amount = 0 then Inr L
          else transfer_lamports L mdk receiver amount))))))"

lemma admin_accounts_Inr [res_simps]:
  "admin_accounts rt L adm mdk = Inr md \<longleftrightarrow>
     is_signer rt adm \<and> load_metadata rt L mdk = Inr md \<and>
     mdk = find_program_address rt [SEED_METADATA] EXPRESS_RELAY_ID \<and> is_writable rt mdk \<and>
     admin md = adm"
  by (auto simp: admin_accounts_def constraint_defs res_simps)

lemma load_after_store_metadata:
  assumes "load_metadata rt L k = Inr md" and "store_metadata L k md' = Inr L'"
  shows "load_metadata rt L' k = Inr md'"
  using assms store_front_frame [of L k _ L'] store_metadata_loads [of L k md' L']
  by (auto simp: load_metadata_def load_typed_Inr store_metadata_def)

text \<open>
  Withdrawing fees succeeds only for the admin the metadata names, leaves the metadata
  account with exactly its rent-exempt balance (or untouched when it holds no more), pays the
  whole surplus to the receiver, and changes no other balance and no data.
\<close>

theorem withdraw_fees_leaves_rent:
  assumes "withdraw_fees rt L adm receiver mdk = Inr L'" and "receiver \<noteq> mdk"
  defines "rent \<equiv> unat (minimum_balance rt (length (acc_data (L mdk))))"
  shows "is_signer rt adm \<and> (\<exists>md. load_metadata rt L mdk = Inr md \<and> admin md = adm) \<and>
    balance L' mdk = min (balance L mdk) rent \<and>
    balance L' receiver = balance L receiver + (balance L mdk - rent) \<and>
    (\<forall>k. k \<noteq> mdk \<and> k \<noteq> receiver \<longrightarrow> balance L' k = balance L k) \<and>
    (\<forall>k. acc_data (L' k) = acc_data (L k))"
proof -
  define amount where
    "amount = saturating_sub (lamports (L mdk)) (minimum_balance rt (length (acc_data (L mdk))))"
  have amt: "unat amount = balance L mdk - rent"
    by (simp add: amount_def rent_def balance_def)
  from assms(1) have ctx: "is_signer rt adm \<and> (\<exists>md. load_metadata rt L mdk = Inr md \<and> admin md = adm)"
    and run: "if amount = 0 then L' = L else transfer_lamports L mdk receiver amount = Inr L'"
    by (auto simp: withdraw_fees_def constraint_defs rbind_Inr_iff ensure_Inr_iff Let_def
        simp flip: amount_def split: if_splits)
  have bal: "balance L' j = balance L j - (if j = mdk then unat amount else 0) +
      (if j = receiver then unat amount else 0)" for j
    using run direct.mv_balance by (cases "amount = 0") auto
  have data: "acc_data (L' j) = acc_data (L j)" for j
    using run direct.mv_frame by (cases "amount = 0") auto
  show ?thesis using ctx data assms(2) by (simp add: bal amt)
qed


subsection \<open>A concrete runtime and ledger\<close>

text \<open>
  Used by the witnesses: rent is one lamport per byte, the program's addresses are 100 (metadata)
  and 200 plus the router's first byte (configurations), every key signs and is writable, and the
  called transfer behaves as the direct one.
\<close>

definition sample_create ::
  "ledger \<Rightarrow> pubkey \<Rightarrow> pubkey \<Rightarrow> nat \<Rightarrow> pubkey \<Rightarrow> er_error + ledger" where
  "sample_create L payer new space owner =
     (if acc_owner (L new) = 0 \<and> acc_data (L new) = []
      then Inr (L(new := \<lparr>lamports = of_nat space, acc_data = replicate space 0, acc_owner = owner\<rparr>))
      else Inl (Cpi 0))"

definition sample_runtime :: runtime where
  "sample_runtime = \<lparr>unix_timestamp = 50, minimum_balance = of_nat, stack_height = 1,
     tx_instructions = [], is_signer = (\<lambda>_. True), is_writable = (\<lambda>_. True),
     find_program_address = (\<lambda>seeds _. if tl seeds = [] then 100 else 200),
     system_program_id = 0, sysvar_instructions_id = 9,
     sys_transfer = transfer_lamports, sys_create = sample_create\<rparr>"

definition sample_ledger :: ledger where
  "sample_ledger = (\<lambda>k.
     if k = 100 then \<lparr>lamports = 1000, acc_data = metadata_discriminator @ ser_metadata sample_metadata,
                      acc_owner = EXPRESS_RELAY_ID\<rparr>
     else \<lparr>lamports = 5000, acc_data = [], acc_owner = 0\<rparr>)"

lemma sample_system_program_ok: "system_program_ok sample_runtime"
  unfolding system_program_ok_def creates_accounts_def
  using direct.lamport_mover_axioms
  by (auto simp: sample_runtime_def sample_create_def EXPRESS_RELAY_ID_def split: if_splits)

lemma load_sample_metadata: "load_metadata sample_runtime sample_ledger 100 = Inr sample_metadata"
  using metadata_codec.try_deserialize_written [of sample_metadata "[]"]
  by (simp add: load_metadata_def load_typed_Inr sample_ledger_def sample_runtime_def
      EXPRESS_RELAY_ID_def)

theorem withdraw_fees_leaves_rent_witness:
  "\<exists>L'. withdraw_fees sample_runtime sample_ledger 11 77 100 = Inr L' \<and>
    balance L' 100 = 160 \<and> balance L' 77 = 5840"
proof -
  have len: "length (acc_data (sample_ledger 100)) = 160" "lamports (sample_ledger 100) = 1000"
    "lamports (sample_ledger 77) = 5000"
    by (simp_all add: sample_ledger_def)
  have "\<exists>L'. withdraw_fees sample_runtime sample_ledger 11 77 100 = Inr L'"
    by (simp add: withdraw_fees_def constraint_defs load_sample_metadata len Let_def saturating_sub_def)
      (simp add: sample_runtime_def sample_metadata_def SEED_METADATA_def transfer_lamports_Inr
        sub_lamports_def sample_ledger_def)
  then obtain L' where run: "withdraw_fees sample_runtime sample_ledger 11 77 100 = Inr L'" by blast
  from withdraw_fees_leaves_rent [OF run] run show ?thesis
    by (auto simp: balance_def len) (simp add: sample_runtime_def)+
qed

end
