(* ===== verification/Er_Bid.thy ===== *)
theory Er_Bid
  imports Er_Admin
begin

section \<open>Express Relay program: bids and permissions\<close>

text \<open>
  \<open>submit_bid\<close>, \<open>check_permission\<close> and the instruction introspection of \<open>utils.rs\<close> they share.
  A permission is never stored: it is the presence of a \<open>SubmitBid\<close> instruction for the same
  permission and router among the instructions of the running transaction
  (\<open>tx_instructions\<close> of the runtime, the contents of the instructions sysvar). The definitions
  keep the code's order of checks; slicing the instruction data and indexing its accounts panic
  out of range.
\<close>

subsection \<open>Instruction introspection\<close>

record SubmitBidArgs =
  sb_deadline :: i64
  bid_amount :: u64

definition submit_bid_discriminator :: "u8 list" where
  "submit_bid_discriminator = [19, 164, 237, 254, 64, 139, 237, 93]"

definition ser_submit_bid_args :: "SubmitBidArgs \<Rightarrow> u8 list" where
  "ser_submit_bid_args a = to_le 8 (sb_deadline a) @ to_le 8 (bid_amount a)"

definition deser_submit_bid_args :: "u8 list \<Rightarrow> (SubmitBidArgs \<times> u8 list) option" where
  "deser_submit_bid_args bs = do {
     (d, bs) \<leftarrow> read_word 8 bs;
     (b, bs) \<leftarrow> read_word 8 bs;
     Some (\<lparr>sb_deadline = d, bid_amount = b\<rparr>, bs)
   }"

lemma deser_ser_submit_bid_args [simp]:
  "deser_submit_bid_args (ser_submit_bid_args a @ r) = Some (a, r)"
  by (simp add: deser_submit_bid_args_def ser_submit_bid_args_def)

lemma ser_deser_submit_bid_args:
  "deser_submit_bid_args bs = Some (a, r) \<Longrightarrow> bs = ser_submit_bid_args a @ r"
  by (auto simp: deser_submit_bid_args_def ser_submit_bid_args_def bind_eq_Some_conv
      dest!: read_word_inverse)

lemma length_submit_bid [simp]:
  "length submit_bid_discriminator = 8" "length (ser_submit_bid_args a) = 16"
  by (simp_all add: submit_bid_discriminator_def ser_submit_bid_args_def)

interpretation submit_bid_codec:
  account_codec submit_bid_discriminator ser_submit_bid_args deser_submit_bid_args 16
  by unfold_locales (auto intro: ser_deser_submit_bid_args)

text \<open>\<open>try_from_slice\<close> refuses bytes left over after the last field.\<close>

definition try_from_slice_submit_bid_args :: "u8 list \<Rightarrow> er_error + SubmitBidArgs" where
  "try_from_slice_submit_bid_args bs =
     (case deser_submit_bid_args bs of
        Some (a, []) \<Rightarrow> Inr a
      | _ \<Rightarrow> Inl (ProgramErr BorshIoError))"

lemma try_from_slice_ser [simp]:
  "try_from_slice_submit_bid_args (ser_submit_bid_args a) = Inr a"
  using deser_ser_submit_bid_args [of a "[]"] by (simp add: try_from_slice_submit_bid_args_def)

record PermissionInfo =
  pi_permission :: pubkey
  pi_router :: pubkey
  pi_config_router :: pubkey
  pi_express_relay_metadata :: pubkey

definition is_submit_bid :: "instruction \<Rightarrow> er_error + bool" where
  "is_submit_bid ix =
     (if ix_program_id ix \<noteq> EXPRESS_RELAY_ID then Inr False
      else if length (ix_data ix) < 8 then Inl Panic
      else Inr (take 8 (ix_data ix) = submit_bid_discriminator))"

definition account_is :: "instruction \<Rightarrow> nat \<Rightarrow> pubkey \<Rightarrow> er_error + bool" where
  "account_is ix i k =
     rbind (ok_or (nth_opt (ix_accounts ix) i) Panic) (\<lambda>a. Inr (am_pubkey a = k))"

definition and_then :: "er_error + bool \<Rightarrow> er_error + bool \<Rightarrow> er_error + bool" where
  "and_then a b = rbind a (\<lambda>x. if x then b else Inr False)"

definition permission_matches :: "PermissionInfo \<Rightarrow> instruction \<Rightarrow> er_error + bool" where
  "permission_matches info ix =
     and_then (account_is ix 2 (pi_permission info))
    (and_then (account_is ix 3 (pi_router info))
    (and_then (account_is ix 4 (pi_config_router info))
              (account_is ix 5 (pi_express_relay_metadata info))))"

definition ix_matches :: "PermissionInfo option \<Rightarrow> instruction \<Rightarrow> er_error + bool" where
  "ix_matches info ix =
     and_then (is_submit_bid ix)
       (case info of None \<Rightarrow> Inr True | Some pi \<Rightarrow> permission_matches pi ix)"

primrec filter_res :: "('a \<Rightarrow> er_error + bool) \<Rightarrow> 'a list \<Rightarrow> er_error + 'a list" where
  "filter_res p [] = Inr []"
| "filter_res p (x # xs) =
     rbind (p x) (\<lambda>b. rbind (filter_res p xs) (\<lambda>ys. Inr (if b then x # ys else ys)))"

definition get_matching_submit_bid_instructions ::
  "runtime \<Rightarrow> PermissionInfo option \<Rightarrow> er_error + instruction list" where
  "get_matching_submit_bid_instructions rt info = filter_res (ix_matches info) (tx_instructions rt)"

definition extract_bid_from_submit_bid_ix :: "instruction \<Rightarrow> er_error + u64" where
  "extract_bid_from_submit_bid_ix ix =
     (if length (ix_data ix) < 8 then Inl Panic
      else rbind (try_from_slice_submit_bid_args (drop 8 (ix_data ix))) (\<lambda>a. Inr (bid_amount a)))"

primrec sum_router_fees :: "u64 \<Rightarrow> u64 \<Rightarrow> instruction list \<Rightarrow> er_error + u64" where
  "sum_router_fees s acc [] = Inr acc"
| "sum_router_fees s acc (ix # ixs) =
     rbind (extract_bid_from_submit_bid_ix ix) (\<lambda>bid.
     rbind (perform_fee_split_router bid s) (\<lambda>fee.
     rbind (ok_or (checked_add acc fee) (ProgramErr ArithmeticOverflow)) (\<lambda>acc'.
       sum_router_fees s acc' ixs)))"

definition inspected_split :: "ledger \<Rightarrow> PermissionInfo \<Rightarrow> er_error + u64" where
  "inspected_split L info =
     (case try_deserialize config_router_discriminator deser_config_router
             (acc_data (L (pi_config_router info))) of
        Inr c \<Rightarrow> Inr (split c)
      | Inl _ \<Rightarrow>
         (case try_deserialize metadata_discriminator deser_metadata
                 (acc_data (L (pi_express_relay_metadata info))) of
            Inr md \<Rightarrow> Inr (split_router_default md)
          | Inl _ \<Rightarrow> Inl (ProgramErr InvalidAccountData)))"

definition inspect_permissions_in_tx ::
  "runtime \<Rightarrow> ledger \<Rightarrow> PermissionInfo \<Rightarrow> er_error + (u16 \<times> u64)" where
  "inspect_permissions_in_tx rt L info =
     rbind (get_matching_submit_bid_instructions rt (Some info)) (\<lambda>ixs.
     rbind (inspected_split L info) (\<lambda>s.
     rbind (sum_router_fees s 0 ixs) (\<lambda>total.
       Inr (word_of_nat (length ixs), total))))"

record CheckPermission =
  cp_sysvar_instructions :: pubkey
  cp_permission :: pubkey
  cp_router :: pubkey
  cp_config_router :: pubkey
  cp_express_relay_metadata :: pubkey

definition check_permission :: "runtime \<Rightarrow> ledger \<Rightarrow> CheckPermission \<Rightarrow> er_error + u64" where
  "check_permission rt L c =
     rbind (load_metadata rt L (cp_express_relay_metadata c)) (\<lambda>_.
     rbind (ensure (cp_sysvar_instructions c = sysvar_instructions_id rt) (Anchor ConstraintAddress)) (\<lambda>_.
     rbind (check_seeds rt [SEED_CONFIG_ROUTER, to_le 32 (cp_router c)] (cp_config_router c)) (\<lambda>_.
     rbind (check_seeds rt [SEED_METADATA] (cp_express_relay_metadata c)) (\<lambda>_.
     rbind (inspect_permissions_in_tx rt L
              \<lparr>pi_permission = cp_permission c, pi_router = cp_router c,
               pi_config_router = cp_config_router c,
               pi_express_relay_metadata = cp_express_relay_metadata c\<rparr>) (\<lambda>(n, total).
       if n = 0 then Inl (Er MissingPermission) else Inr total)))))"


subsection \<open>Submitting a bid\<close>

record SubmitBid =
  sb_searcher :: pubkey
  sb_relayer_signer :: pubkey
  sb_permission :: pubkey
  sb_router :: pubkey
  sb_config_router :: pubkey
  sb_express_relay_metadata :: pubkey
  sb_fee_receiver_relayer :: pubkey
  sb_system_program :: pubkey
  sb_sysvar_instructions :: pubkey

definition check_relayer_signer :: "ExpressRelayMetadata \<Rightarrow> pubkey \<Rightarrow> er_error + unit" where
  "check_relayer_signer md k =
     (if relayer_signer md \<noteq> k \<and> secondary_relayer_signer md \<noteq> k
      then Inl (Anchor ConstraintHasOne) else Inr ())"

definition submit_bid_accounts :: "runtime \<Rightarrow> ledger \<Rightarrow> SubmitBid \<Rightarrow> er_error + ExpressRelayMetadata" where
  "submit_bid_accounts rt L c =
     rbind (check_signer rt (sb_searcher c)) (\<lambda>_.
     rbind (check_signer rt (sb_relayer_signer c)) (\<lambda>_.
     rbind (load_metadata rt L (sb_express_relay_metadata c)) (\<lambda>md.
     rbind (ensure (sb_system_program c = system_program_id rt) (Anchor InvalidProgramId)) (\<lambda>_.
     rbind (check_mut rt (sb_searcher c)) (\<lambda>_.
     rbind (check_mut rt (sb_router c)) (\<lambda>_.
     rbind (check_seeds rt [SEED_CONFIG_ROUTER, to_le 32 (sb_router c)] (sb_config_router c)) (\<lambda>_.
     rbind (check_seeds rt [SEED_METADATA] (sb_express_relay_metadata c)) (\<lambda>_.
     rbind (check_mut rt (sb_express_relay_metadata c)) (\<lambda>_.
     rbind (check_has_one (fee_receiver_relayer md) (sb_fee_receiver_relayer c)) (\<lambda>_.
     rbind (check_mut rt (sb_fee_receiver_relayer c)) (\<lambda>_.
     rbind (ensure (sb_sysvar_instructions c = sysvar_instructions_id rt) (Anchor ConstraintAddress)) (\<lambda>_.
       Inr md))))))))))))"

definition bid_split_router :: "ledger \<Rightarrow> ExpressRelayMetadata \<Rightarrow> pubkey \<Rightarrow> er_error + u64" where
  "bid_split_router L md cfg =
     (if acc_data (L cfg) \<noteq> []
      then rbind (try_deserialize config_router_discriminator deser_config_router (acc_data (L cfg)))
             (\<lambda>c. Inr (split c))
      else Inr (split_router_default md))"

definition pay_fee :: "runtime \<Rightarrow> ledger \<Rightarrow> pubkey \<Rightarrow> pubkey \<Rightarrow> u64 \<Rightarrow> er_error + ledger" where
  "pay_fee rt L payer receiver fee =
     (if fee > 0
      then rbind (check_fee_hits_min_rent rt L receiver fee) (\<lambda>_.
             transfer_lamports_cpi rt L payer receiver fee)
      else Inr L)"

definition handle_bid_payment ::
  "runtime \<Rightarrow> ledger \<Rightarrow> ExpressRelayMetadata \<Rightarrow> SubmitBid \<Rightarrow> u64 \<Rightarrow> er_error + ledger" where
  "handle_bid_payment rt L md c bid =
     (let rent = minimum_balance rt (length (acc_data (L (sb_searcher c))))
      in rbind (ok_or (checked_add bid rent) (ProgramErr ArithmeticOverflow)) (\<lambda>need.
         if need > lamports (L (sb_searcher c)) then Inl (Er InsufficientSearcherFunds)
         else
         rbind (bid_split_router L md (sb_config_router c)) (\<lambda>s_router.
         rbind (perform_fee_splits bid s_router (split_relayer md)) (\<lambda>(fee_router, fee_relayer).
         rbind (pay_fee rt L (sb_searcher c) (sb_router c) fee_router) (\<lambda>L1.
         rbind (pay_fee rt L1 (sb_searcher c) (sb_fee_receiver_relayer c) fee_relayer) (\<lambda>L2.
           transfer_lamports_cpi rt L2 (sb_searcher c) (sb_express_relay_metadata c)
             (saturating_sub (saturating_sub bid fee_router) fee_relayer)))))))"

definition TRANSACTION_LEVEL_STACK_HEIGHT :: nat where
  "TRANSACTION_LEVEL_STACK_HEIGHT = 1"

definition submit_bid :: "runtime \<Rightarrow> ledger \<Rightarrow> SubmitBid \<Rightarrow> SubmitBidArgs \<Rightarrow> er_error + ledger" where
  "submit_bid rt L c a =
     rbind (submit_bid_accounts rt L c) (\<lambda>md.
     rbind (check_deadline rt (sb_deadline a)) (\<lambda>_.
     rbind (check_relayer_signer md (sb_relayer_signer c)) (\<lambda>_.
     if stack_height rt > TRANSACTION_LEVEL_STACK_HEIGHT then Inl (Er InvalidCPISubmitBid)
     else
     rbind (get_matching_submit_bid_instructions rt None) (\<lambda>ixs.
     if length ixs > 1 then Inl (Er MultiplePermissions)
     else handle_bid_payment rt L md c (bid_amount a)))))"


subsection \<open>Payments\<close>

lemma pay_fee_mover:
  assumes "system_program_ok rt"
  shows "lamport_mover (pay_fee rt)"
proof -
  note mv = system_mover [OF assms]
  show ?thesis
  proof unfold_locales
    fix L f t a L' k
    assume run: "pay_fee rt L f t a = Inr L'"
    then have cases: "a = 0 \<and> L' = L \<or> transfer_lamports_cpi rt L f t a = Inr L'"
      by (auto simp: pay_fee_def rbind_Inr_iff word_gt_0 split: if_splits)
    show "unat a \<le> balance L f"
      using cases lamport_mover.mv_funds [OF mv, of L f t a L'] by auto
    show "balance L' k + (if k = f then unat a else 0) = balance L k + (if k = t then unat a else 0)"
      using cases value_mover.vm_add [OF lamport_mover.axioms(1) [OF mv], of L f t a L' k] by auto
    show "acc_data (L' k) = acc_data (L k) \<and> acc_owner (L' k) = acc_owner (L k)"
      using cases lamport_mover.mv_frame [OF mv, of L f t a L' k] by auto
  qed
qed

text \<open>Who pays whom in a bid: the searcher pays \<open>bid\<close>, split into three parts.\<close>

lemma handle_bid_payment_Inr:
  assumes ok: "system_program_ok rt" and run: "handle_bid_payment rt L md c bid = Inr L'"
  shows "\<exists>s fr fl. bid_split_router L md (sb_config_router c) = Inr s \<and>
    perform_fee_splits bid s (split_relayer md) = Inr (fr, fl) \<and>
    unat bid + unat (minimum_balance rt (length (acc_data (L (sb_searcher c))))) \<le>
      balance L (sb_searcher c) \<and>
    (\<forall>k. balance L' k + (if k = sb_searcher c then unat bid else 0) =
      balance L k + (if k = sb_router c then unat fr else 0) +
      (if k = sb_fee_receiver_relayer c then unat fl else 0) +
      (if k = sb_express_relay_metadata c then unat bid - unat fr - unat fl else 0)) \<and>
    (\<forall>k. acc_data (L' k) = acc_data (L k)) \<and> (\<forall>k. acc_owner (L' k) = acc_owner (L k))"
proof -
  let ?s = "sb_searcher c" and ?r = "sb_router c" and ?f = "sb_fee_receiver_relayer c"
    and ?m = "sb_express_relay_metadata c"
  let ?rent = "minimum_balance rt (length (acc_data (L ?s)))"
  note pay = pay_fee_mover [OF ok] and cpi = system_mover [OF ok]
  note pay_value = lamport_mover.axioms(1) [OF pay] and cpi_value = lamport_mover.axioms(1) [OF cpi]
  from run obtain s fr fl L1 L2 where
    funds: "unat bid + unat ?rent < 2 ^ 64" "\<not> bid + ?rent > lamports (L ?s)"
    and s: "bid_split_router L md (sb_config_router c) = Inr s"
    and split: "perform_fee_splits bid s (split_relayer md) = Inr (fr, fl)"
    and t1: "pay_fee rt L ?s ?r fr = Inr L1" and t2: "pay_fee rt L1 ?s ?f fl = Inr L2"
    and t3: "transfer_lamports_cpi rt L2 ?s ?m (saturating_sub (saturating_sub bid fr) fl) = Inr L'"
    unfolding handle_bid_payment_def Let_def rbind_checked_add guard_Inr_iff rbind_Inr_iff
      split_paired_Ex prod.case by (elim conjE exE) (rule that)
  have enough: "unat bid + unat ?rent \<le> balance L ?s"
    using funds by (simp add: balance_def unat_add_ok word_less_nat_alt)
  have le: "unat fr + unat fl \<le> unat bid" using split unfolding perform_fee_splits_Inr by blast
  have bal: "balance L' k + (if k = ?s then unat bid else 0) =
      balance L k + (if k = ?r then unat fr else 0) + (if k = ?f then unat fl else 0) +
      (if k = ?m then unat bid - unat fr - unat fl else 0)" for k
  proof -
    have "balance L1 k + (if k = ?s then unat fr else 0) = balance L k + (if k = ?r then unat fr else 0)"
      "balance L2 k + (if k = ?s then unat fl else 0) = balance L1 k + (if k = ?f then unat fl else 0)"
      "balance L' k + (if k = ?s then unat bid - unat fr - unat fl else 0) =
         balance L2 k + (if k = ?m then unat bid - unat fr - unat fl else 0)"
      using value_mover.vm_add [OF pay_value t1, of k]
        value_mover.vm_add [OF pay_value t2, of k]
        value_mover.vm_add [OF cpi_value t3, of k, unfolded unat_saturating_sub] by blast+
    moreover have "(if k = ?s then unat bid else 0) = (if k = ?s then unat fr else 0) +
        (if k = ?s then unat fl else 0) + (if k = ?s then unat bid - unat fr - unat fl else 0)"
      using le by simp
    ultimately show ?thesis by linarith
  qed
  have frame: "acc_data (L' k) = acc_data (L k) \<and> acc_owner (L' k) = acc_owner (L k)" for k
    using lamport_mover.mv_frame [OF pay t1] lamport_mover.mv_frame [OF pay t2]
      lamport_mover.mv_frame [OF cpi t3] by simp
  from s split enough bal frame show ?thesis by blast
qed

lemma submit_bid_Inr:
  "submit_bid rt L c a = Inr L' \<longleftrightarrow>
     (\<exists>md ixs. submit_bid_accounts rt L c = Inr md \<and>
        sint (unix_timestamp rt) \<le> sint (sb_deadline a) \<and>
        sb_relayer_signer c \<in> {relayer_signer md, secondary_relayer_signer md} \<and>
        stack_height rt \<le> 1 \<and>
        get_matching_submit_bid_instructions rt None = Inr ixs \<and> length ixs \<le> 1 \<and>
        handle_bid_payment rt L md c (bid_amount a) = Inr L')"
  unfolding submit_bid_def rbind_Inr_iff check_deadline_Inr check_relayer_signer_def guard_Inr_iff
    TRANSACTION_LEVEL_STACK_HEIGHT_def not_less by auto

lemma submit_bid_accounts_Inr:
  "submit_bid_accounts rt L c = Inr md \<longleftrightarrow>
     is_signer rt (sb_searcher c) \<and> is_signer rt (sb_relayer_signer c) \<and>
     load_metadata rt L (sb_express_relay_metadata c) = Inr md \<and>
     sb_system_program c = system_program_id rt \<and> is_writable rt (sb_searcher c) \<and>
     is_writable rt (sb_router c) \<and>
     sb_config_router c = find_program_address rt [SEED_CONFIG_ROUTER, to_le 32 (sb_router c)] EXPRESS_RELAY_ID \<and>
     sb_express_relay_metadata c = find_program_address rt [SEED_METADATA] EXPRESS_RELAY_ID \<and>
     is_writable rt (sb_express_relay_metadata c) \<and>
     fee_receiver_relayer md = sb_fee_receiver_relayer c \<and> is_writable rt (sb_fee_receiver_relayer c) \<and>
     sb_sysvar_instructions c = sysvar_instructions_id rt"
  by (auto simp: submit_bid_accounts_def constraint_defs rbind_Inr_iff ensure_Inr_iff)

text \<open>
  Property C1. A submitted bid that succeeds was signed by the searcher and by a current relayer key,
  met its deadline, was not made by another program, and was the only \<open>SubmitBid\<close> of its
  transaction; it moved exactly the bid from the searcher: the router's share and the relayer's
  share as split, the rest to the program, so that no lamports appear or vanish, the searcher stays
  rent exempt, and no account's data changes.
\<close>

theorem submit_bid_pays_exactly:
  assumes "system_program_ok rt" and "submit_bid rt L c a = Inr L'"
    and "distinct [sb_searcher c, sb_router c, sb_fee_receiver_relayer c, sb_express_relay_metadata c]"
  shows "is_signer rt (sb_searcher c) \<and> is_signer rt (sb_relayer_signer c) \<and>
    sint (unix_timestamp rt) \<le> sint (sb_deadline a) \<and> stack_height rt \<le> 1 \<and>
    (\<exists>md s fr fl ixs.
       load_metadata rt L (sb_express_relay_metadata c) = Inr md \<and>
       sb_relayer_signer c \<in> {relayer_signer md, secondary_relayer_signer md} \<and>
       get_matching_submit_bid_instructions rt None = Inr ixs \<and> length ixs \<le> 1 \<and>
       bid_split_router L md (sb_config_router c) = Inr s \<and>
       perform_fee_splits (bid_amount a) s (split_relayer md) = Inr (fr, fl) \<and>
       balance L' (sb_searcher c) = balance L (sb_searcher c) - unat (bid_amount a) \<and>
       unat (minimum_balance rt (length (acc_data (L (sb_searcher c))))) \<le> balance L' (sb_searcher c) \<and>
       balance L' (sb_router c) = balance L (sb_router c) + unat fr \<and>
       balance L' (sb_fee_receiver_relayer c) = balance L (sb_fee_receiver_relayer c) + unat fl \<and>
       balance L' (sb_express_relay_metadata c) =
         balance L (sb_express_relay_metadata c) + (unat (bid_amount a) - unat fr - unat fl) \<and>
       (\<forall>k. k \<notin> {sb_searcher c, sb_router c, sb_fee_receiver_relayer c, sb_express_relay_metadata c} \<longrightarrow>
          balance L' k = balance L k) \<and>
       (\<forall>k. acc_data (L' k) = acc_data (L k)))"
proof -
  from assms(2) obtain md ixs where acc: "submit_bid_accounts rt L c = Inr md"
    and dl: "sint (unix_timestamp rt) \<le> sint (sb_deadline a)"
    and rel: "sb_relayer_signer c \<in> {relayer_signer md, secondary_relayer_signer md}"
    and st: "stack_height rt \<le> 1"
    and ixs: "get_matching_submit_bid_instructions rt None = Inr ixs" "length ixs \<le> 1"
    and pay: "handle_bid_payment rt L md c (bid_amount a) = Inr L'"
    unfolding submit_bid_Inr by blast
  from acc have sig: "is_signer rt (sb_searcher c)" "is_signer rt (sb_relayer_signer c)"
    and md: "load_metadata rt L (sb_express_relay_metadata c) = Inr md"
    unfolding submit_bid_accounts_Inr by blast+
  let ?need = "unat (bid_amount a) + unat (minimum_balance rt (length (acc_data (L (sb_searcher c)))))"
  from handle_bid_payment_Inr [OF assms(1) pay] obtain s fr fl where
    split: "bid_split_router L md (sb_config_router c) = Inr s"
      "perform_fee_splits (bid_amount a) s (split_relayer md) = Inr (fr, fl)"
    and need: "?need \<le> balance L (sb_searcher c)"
    and bal: "\<forall>k. balance L' k + (if k = sb_searcher c then unat (bid_amount a) else 0) =
      balance L k + (if k = sb_router c then unat fr else 0) +
      (if k = sb_fee_receiver_relayer c then unat fl else 0) +
      (if k = sb_express_relay_metadata c then unat (bid_amount a) - unat fr - unat fl else 0)"
    and data: "\<forall>k. acc_data (L' k) = acc_data (L k)"
    by blast
  note bal = bal [THEN spec]
  have searcher: "balance L' (sb_searcher c) = balance L (sb_searcher c) - unat (bid_amount a)"
    using assms(3) bal [of "sb_searcher c"] by simp
  have receivers: "balance L' (sb_router c) = balance L (sb_router c) + unat fr"
    "balance L' (sb_fee_receiver_relayer c) = balance L (sb_fee_receiver_relayer c) + unat fl"
    "balance L' (sb_express_relay_metadata c) =
       balance L (sb_express_relay_metadata c) + (unat (bid_amount a) - unat fr - unat fl)"
    using assms(3) bal [of "sb_router c"] bal [of "sb_fee_receiver_relayer c"]
      bal [of "sb_express_relay_metadata c"] by (auto split: if_splits)
  have others: "\<forall>k. k \<notin> {sb_searcher c, sb_router c, sb_fee_receiver_relayer c,
      sb_express_relay_metadata c} \<longrightarrow> balance L' k = balance L k"
  proof (intro allI impI)
    fix k
    assume "k \<notin> {sb_searcher c, sb_router c, sb_fee_receiver_relayer c, sb_express_relay_metadata c}"
    then show "balance L' k = balance L k" using bal [of k] by simp
  qed
  from searcher need
  have "unat (minimum_balance rt (length (acc_data (L (sb_searcher c))))) \<le> balance L' (sb_searcher c)"
    by linarith
  with searcher receivers others sig dl st md rel ixs split data show ?thesis by blast
qed


subsection \<open>Permissions agree with bids\<close>

lemma and_then_simps [simp]:
  "and_then (Inr True) b = b" "and_then (Inr False) b = Inr False" "and_then (Inl e) b = Inl e"
  by (simp_all add: and_then_def)

lemma ix_matches_None: "ix_matches None = is_submit_bid"
proof
  show "ix_matches None ix = is_submit_bid ix" for ix
    by (cases "is_submit_bid ix") (auto simp: ix_matches_def and_then_def)
qed

text \<open>Looking for one permission is a second pass over the \<open>SubmitBid\<close> instructions.\<close>

lemma filter_matching_Some:
  "filter_res is_submit_bid ixs = Inr sbs \<Longrightarrow>
     filter_res (ix_matches (Some pi)) ixs = filter_res (permission_matches pi) sbs"
proof (induction ixs arbitrary: sbs)
  case (Cons ix ixs)
  then obtain b sbs' where b: "is_submit_bid ix = Inr b"
    and tl: "filter_res is_submit_bid ixs = Inr sbs'" and sbs: "sbs = (if b then ix # sbs' else sbs')"
    by (auto simp: rbind_Inr_iff)
  from Cons.IH [OF tl] show ?case by (cases b; cases "filter_res (permission_matches pi) sbs'") (simp_all add: ix_matches_def b sbs)
qed simp

lemma filter_res_mem:
  "filter_res p xs = Inr ys \<Longrightarrow> x \<in> set xs \<Longrightarrow> p x = Inr True \<Longrightarrow> x \<in> set ys"
  by (induction xs arbitrary: ys) (auto simp: rbind_Inr_iff split: if_splits)

text \<open>
  The instruction a client of the program builds: the program's id, the discriminator and the
  arguments as data, and the accounts of \<open>SubmitBid\<close> in the order of its fields.
\<close>

definition submit_bid_instruction :: "(pubkey \<Rightarrow> bool) \<Rightarrow> (pubkey \<Rightarrow> bool) \<Rightarrow> SubmitBid \<Rightarrow> SubmitBidArgs \<Rightarrow> instruction" where
  "submit_bid_instruction sg wr c a =
     \<lparr>ix_program_id = EXPRESS_RELAY_ID,
      ix_accounts = map (\<lambda>k. \<lparr>am_pubkey = k, am_is_signer = sg k, am_is_writable = wr k\<rparr>)
        [sb_searcher c, sb_relayer_signer c, sb_permission c, sb_router c, sb_config_router c,
         sb_express_relay_metadata c, sb_fee_receiver_relayer c, sb_system_program c,
         sb_sysvar_instructions c],
      ix_data = submit_bid_discriminator @ ser_submit_bid_args a\<rparr>"

lemma is_submit_bid_instruction [simp]: "is_submit_bid (submit_bid_instruction sg wr c a) = Inr True"
  by (simp add: is_submit_bid_def submit_bid_instruction_def)

lemma extract_bid_instruction [simp]:
  "extract_bid_from_submit_bid_ix (submit_bid_instruction sg wr c a) = Inr (bid_amount a)"
  by (simp add: extract_bid_from_submit_bid_ix_def submit_bid_instruction_def)

lemma permission_matches_instruction [simp]:
  "permission_matches pi (submit_bid_instruction sg wr c a) =
     Inr (sb_permission c = pi_permission pi \<and> sb_router c = pi_router pi \<and>
          sb_config_router c = pi_config_router pi \<and>
          sb_express_relay_metadata c = pi_express_relay_metadata pi)"
  by (simp add: permission_matches_def account_is_def submit_bid_instruction_def and_then_def)

lemma only_submit_bid:
  assumes "get_matching_submit_bid_instructions rt None = Inr ixs" and "length ixs \<le> 1"
    and "submit_bid_instruction sg wr c a \<in> set (tx_instructions rt)"
  shows "ixs = [submit_bid_instruction sg wr c a]"
proof -
  have "submit_bid_instruction sg wr c a \<in> set ixs"
    using assms(1,3)
    by (auto simp: get_matching_submit_bid_instructions_def ix_matches_None intro: filter_res_mem)
  with assms(2) show ?thesis by (cases ixs) auto
qed

text \<open>The split \<open>check_permission\<close> uses is the one the payment used.\<close>

lemma inspected_split_agrees:
  assumes "bid_split_router L md cfg = Inr s" and "load_metadata rt L mdk = Inr md"
    and "acc_data (L2 cfg) = acc_data (L cfg)" and "acc_data (L2 mdk) = acc_data (L mdk)"
    and "pi_config_router pi = cfg" and "pi_express_relay_metadata pi = mdk"
  shows "inspected_split L2 pi = Inr s"
proof (cases "acc_data (L cfg) = []")
  case True
  with assms show ?thesis
    by (simp add: inspected_split_def bid_split_router_def try_deserialize_def [of config_router_discriminator]
        load_metadata_def load_typed_Inr)
next
  case False
  with assms show ?thesis
    by (auto simp: inspected_split_def bid_split_router_def rbind_Inr_iff)
qed

lemma payment_reported:
  assumes "submit_bid rt L c a = Inr L'"
    and "submit_bid_instruction sg wr c a \<in> set (tx_instructions rt)"
    and "tx_instructions rt2 = tx_instructions rt"
    and "acc_data (L2 (sb_config_router c)) = acc_data (L (sb_config_router c))"
    and "acc_data (L2 (sb_express_relay_metadata c)) = acc_data (L (sb_express_relay_metadata c))"
    and "load_metadata rt2 L2 (sb_express_relay_metadata c) = Inr md2"
    and "find_program_address rt2 = find_program_address rt"
  shows "\<exists>md s fr fl. load_metadata rt L (sb_express_relay_metadata c) = Inr md \<and>
    bid_split_router L md (sb_config_router c) = Inr s \<and>
    perform_fee_splits (bid_amount a) s (split_relayer md) = Inr (fr, fl) \<and>
    check_permission rt2 L2 \<lparr>cp_sysvar_instructions = sysvar_instructions_id rt2,
        cp_permission = sb_permission c, cp_router = sb_router c,
        cp_config_router = sb_config_router c,
        cp_express_relay_metadata = sb_express_relay_metadata c\<rparr> = Inr fr"
proof -
  let ?ix = "submit_bid_instruction sg wr c a"
  let ?pi = "\<lparr>pi_permission = sb_permission c, pi_router = sb_router c,
      pi_config_router = sb_config_router c, pi_express_relay_metadata = sb_express_relay_metadata c\<rparr>"
  from assms(1) obtain md ixs where acc: "submit_bid_accounts rt L c = Inr md"
    and ixs: "get_matching_submit_bid_instructions rt None = Inr ixs" "length ixs \<le> 1"
    and pay: "handle_bid_payment rt L md c (bid_amount a) = Inr L'"
    unfolding submit_bid_Inr by blast
  from acc have md: "load_metadata rt L (sb_express_relay_metadata c) = Inr md"
    and seeds: "sb_config_router c = find_program_address rt [SEED_CONFIG_ROUTER, to_le 32 (sb_router c)] EXPRESS_RELAY_ID"
      "sb_express_relay_metadata c = find_program_address rt [SEED_METADATA] EXPRESS_RELAY_ID"
    unfolding submit_bid_accounts_Inr by blast+
  from pay obtain s fr fl where s: "bid_split_router L md (sb_config_router c) = Inr s"
    and split: "perform_fee_splits (bid_amount a) s (split_relayer md) = Inr (fr, fl)"
    unfolding handle_bid_payment_def Let_def rbind_checked_add guard_Inr_iff rbind_Inr_iff
      split_paired_Ex prod.case by blast
  have fr: "perform_fee_split_router (bid_amount a) s = Inr fr"
    using split unfolding perform_fee_splits_Inr perform_fee_split_router_Inr by auto
  have match: "get_matching_submit_bid_instructions rt2 (Some ?pi) = Inr [?ix]"
    using filter_matching_Some [of "tx_instructions rt" ixs ?pi] ixs(1) only_submit_bid [OF ixs assms(2)]
    by (simp add: get_matching_submit_bid_instructions_def assms(3) ix_matches_None)
  have "inspected_split L2 ?pi = Inr s"
    using s md assms(4,5) by (rule inspected_split_agrees) simp_all
  moreover have "sum_router_fees s 0 [?ix] = Inr fr"
    using unat_u64_less [of fr] by (simp add: fr checked_add_def)
  ultimately have "inspect_permissions_in_tx rt2 L2 ?pi = Inr (1, fr)"
    by (simp add: inspect_permissions_in_tx_def match)
  then have "check_permission rt2 L2 \<lparr>cp_sysvar_instructions = sysvar_instructions_id rt2,
        cp_permission = sb_permission c, cp_router = sb_router c,
        cp_config_router = sb_config_router c,
        cp_express_relay_metadata = sb_express_relay_metadata c\<rparr> = Inr fr"
    by (simp add: check_permission_def assms(6) check_seeds_def assms(7) flip: seeds)
  with md s split show ?thesis by blast
qed


text \<open>
  One transaction buys one permission: if its \<open>SubmitBid\<close> instruction succeeds, then
  \<open>check_permission\<close> for any other permission key or any other router fails in that transaction
  (it never returns fees), so winning one auction cannot unlock another.
\<close>

theorem other_permission_refused:
  assumes "submit_bid rt L c a = Inr L'"
    and "submit_bid_instruction sg wr c a \<in> set (tx_instructions rt)"
    and "tx_instructions rt2 = tx_instructions rt"
    and "cp_permission p \<noteq> sb_permission c \<or> cp_router p \<noteq> sb_router c"
  shows "\<exists>e. check_permission rt2 L2 p = Inl e"
proof -
  let ?ix = "submit_bid_instruction sg wr c a"
  from assms(1) obtain ixs where ixs: "get_matching_submit_bid_instructions rt None = Inr ixs" "length ixs \<le> 1"
    unfolding submit_bid_Inr by blast
  have "get_matching_submit_bid_instructions rt2 (Some pi) = Inr []"
    if "pi_permission pi = cp_permission p" "pi_router pi = cp_router p" for pi
    using filter_matching_Some [of "tx_instructions rt" ixs pi] ixs(1) only_submit_bid [OF ixs assms(2)]
      assms(4) that
    by (auto simp: get_matching_submit_bid_instructions_def assms(3) ix_matches_None)
  then have "check_permission rt2 L2 p \<noteq> Inr x" for x
    by (auto simp: check_permission_def inspect_permissions_in_tx_def rbind_Inr_iff)
  then show ?thesis by (cases "check_permission rt2 L2 p") auto
qed


subsection \<open>A transaction with one bid\<close>

definition sample_bid :: SubmitBid where
  "sample_bid = \<lparr>sb_searcher = 21, sb_relayer_signer = 12, sb_permission = 30, sb_router = 22,
     sb_config_router = 200, sb_express_relay_metadata = 100, sb_fee_receiver_relayer = 13,
     sb_system_program = 0, sb_sysvar_instructions = 9\<rparr>"

definition sample_bid_args :: SubmitBidArgs where
  "sample_bid_args = \<lparr>sb_deadline = 60, bid_amount = 1000\<rparr>"

definition sample_bid_ix :: instruction where
  "sample_bid_ix = submit_bid_instruction (\<lambda>_. True) (\<lambda>_. True) sample_bid sample_bid_args"

definition sample_bid_runtime :: runtime where
  "sample_bid_runtime = sample_runtime\<lparr>tx_instructions := [sample_bid_ix]\<rparr>"

lemma sample_bid_runtime_simps [simp]:
  "tx_instructions sample_bid_runtime = [sample_bid_ix]"
  "unix_timestamp sample_bid_runtime = 50" "stack_height sample_bid_runtime = 1"
  "is_signer sample_bid_runtime k" "is_writable sample_bid_runtime k"
  "minimum_balance sample_bid_runtime n = of_nat n" "system_program_id sample_bid_runtime = 0"
  "sysvar_instructions_id sample_bid_runtime = 9"
  "find_program_address sample_bid_runtime seeds p = (if tl seeds = [] then 100 else 200)"
  "transfer_lamports_cpi sample_bid_runtime = transfer_lamports"
  by (simp_all add: sample_bid_runtime_def sample_runtime_def transfer_lamports_cpi_def fun_eq_iff)

lemma load_sample_metadata_bid [simp]:
  "load_metadata sample_bid_runtime sample_ledger 100 = Inr sample_metadata"
  using load_sample_metadata
  by (simp add: load_metadata_def load_typed_Inr sample_runtime_def)

lemma sample_bid_accounts: "submit_bid_accounts sample_bid_runtime sample_ledger sample_bid = Inr sample_metadata"
  by (simp add: submit_bid_accounts_Inr sample_bid_def sample_metadata_def SEED_METADATA_def
      SEED_CONFIG_ROUTER_def)

lemma sample_bid_ix_only [simp]:
  "get_matching_submit_bid_instructions sample_bid_runtime None = Inr [sample_bid_ix]"
  by (simp add: get_matching_submit_bid_instructions_def ix_matches_None sample_bid_ix_def)

lemma sample_bid_fields:
  "sb_searcher sample_bid = 21" "sb_router sample_bid = 22" "sb_fee_receiver_relayer sample_bid = 13"
  "sb_express_relay_metadata sample_bid = 100" "sb_config_router sample_bid = 200"
  "sb_permission sample_bid = 30" "bid_amount sample_bid_args = 1000"
  "split_relayer sample_metadata = 2000"
  by (simp_all add: sample_bid_def sample_bid_args_def sample_metadata_def)

lemma sample_bid_split_router: "bid_split_router sample_ledger sample_metadata 200 = Inr 4000"
  by (simp add: bid_split_router_def sample_ledger_def sample_metadata_def)

lemma sample_bid_split: "perform_fee_splits 1000 4000 2000 = Inr (400, 120)"
  by (simp add: perform_fee_splits_def perform_fee_split_router_def Let_def checked_mul_def
      checked_add_def saturating_sub_def FEE_SPLIT_PRECISION_def)

lemma sample_bid_runs: "\<exists>L'. submit_bid sample_bid_runtime sample_ledger sample_bid sample_bid_args = Inr L'"
proof -
  have "\<exists>L'. handle_bid_payment sample_bid_runtime sample_ledger sample_metadata sample_bid 1000 = Inr L'"
    by (simp add: handle_bid_payment_def sample_ledger_def sample_bid_def bid_split_router_def
        sample_metadata_def sample_bid_split checked_simps pay_fee_def rbind_Inr_iff
        check_fee_hits_min_rent_Inr transfer_lamports_Inr sub_lamports_def add_lamports_def
        saturating_sub_def checked_add_def Let_def)
  then show ?thesis
    by (simp add: submit_bid_Inr sample_bid_accounts)
      (simp add: sample_bid_def sample_bid_args_def sample_metadata_def)
qed

theorem submit_bid_pays_exactly_witness:
  "\<exists>L'. submit_bid sample_bid_runtime sample_ledger sample_bid sample_bid_args = Inr L' \<and>
     balance L' 21 = 4000 \<and> balance L' 22 = 5400 \<and> balance L' 13 = 5120 \<and> balance L' 100 = 1480"
proof -
  have ok: "system_program_ok sample_bid_runtime"
    using sample_system_program_ok
    by (simp add: system_program_ok_def creates_accounts_def sample_bid_runtime_def)
  obtain L' where run: "submit_bid sample_bid_runtime sample_ledger sample_bid sample_bid_args = Inr L'"
    using sample_bid_runs by blast
  have "distinct [sb_searcher sample_bid, sb_router sample_bid, sb_fee_receiver_relayer sample_bid,
      sb_express_relay_metadata sample_bid]"
    by (simp add: sample_bid_def)
  from submit_bid_pays_exactly [OF ok run this] run show ?thesis
    by (auto simp: sample_bid_fields sample_bid_split_router sample_bid_split balance_def)
      (simp_all add: sample_ledger_def)
qed


theorem other_permission_refused_witness:
  "\<exists>e. check_permission sample_bid_runtime sample_ledger \<lparr>cp_sysvar_instructions = 9,
     cp_permission = 31, cp_router = 22, cp_config_router = 200, cp_express_relay_metadata = 100\<rparr> = Inl e"
proof -
  obtain L' where run: "submit_bid sample_bid_runtime sample_ledger sample_bid sample_bid_args = Inr L'"
    using sample_bid_runs by blast
  show ?thesis
    by (rule other_permission_refused [OF run, of "\<lambda>_. True" "\<lambda>_. True"])
      (simp_all add: sample_bid_ix_def [symmetric], simp add: sample_bid_def)
qed

end
