(* ===== verification/Er_Swap.thy ===== *)
theory Er_Swap
  imports Er_Bid
begin

section \<open>Express Relay program: swaps\<close>

text \<open>
  \<open>swap\<close>, \<open>swap_v2\<close> and \<open>withdraw_spl_fees\<close> with the checks of \<open>swap.rs\<close> and the token
  transfers of \<open>token.rs\<close>. The token programs are not part of this repository: how they lay out
  token accounts and mints, where an associated token account lives and what
  \<open>transfer_checked\<close> does are the fields of \<open>token_runtime\<close>. \<open>token_program_ok\<close> states
  the documented behaviour of that call, for mints whose transfers carry no fee of their own: it is
  a \<open>value_mover\<close> on token balances.
\<close>

subsection \<open>Token programs\<close>

record token_account =
  ta_mint :: pubkey
  ta_owner :: pubkey
  ta_amount :: u64

record token_runtime =
  token_programs :: "pubkey list"
  unpack_token :: "u8 list \<Rightarrow> token_account option"
  mint_decimals :: "u8 list \<Rightarrow> u8 option"
  associated_address :: "pubkey \<Rightarrow> pubkey \<Rightarrow> pubkey \<Rightarrow> pubkey"
  tok_transfer :: "pubkey \<Rightarrow> pubkey \<Rightarrow> pubkey \<Rightarrow> ledger \<Rightarrow> pubkey \<Rightarrow> pubkey \<Rightarrow> u64 \<Rightarrow> u8 \<Rightarrow> er_error + ledger"

text \<open>
  \<open>tok_transfer tr program mint authority L from to amount decimals\<close> is the call of
  \<open>transfer_checked\<close>. Accounts of type \<open>InterfaceAccount\<close> are loaded as follows.
\<close>

definition load_interface ::
  "runtime \<Rightarrow> token_runtime \<Rightarrow> (u8 list \<Rightarrow> 'a option) \<Rightarrow> ledger \<Rightarrow> pubkey \<Rightarrow> er_error + 'a" where
  "load_interface rt tr unpack L k =
     (if acc_owner (L k) = system_program_id rt \<and> lamports (L k) = 0 then Inl (Anchor AccountNotInitialized)
      else if acc_owner (L k) \<notin> set (token_programs tr) then Inl (Anchor AccountOwnedByWrongProgram)
      else ok_or (unpack (acc_data (L k))) (Anchor AccountDidNotDeserialize))"

definition load_token :: "runtime \<Rightarrow> token_runtime \<Rightarrow> ledger \<Rightarrow> pubkey \<Rightarrow> er_error + token_account" where
  "load_token rt tr = load_interface rt tr (unpack_token tr)"

definition load_mint :: "runtime \<Rightarrow> token_runtime \<Rightarrow> ledger \<Rightarrow> pubkey \<Rightarrow> er_error + u8" where
  "load_mint rt tr = load_interface rt tr (mint_decimals tr)"

definition check_token_interface :: "token_runtime \<Rightarrow> pubkey \<Rightarrow> er_error + unit" where
  "check_token_interface tr k = ensure (k \<in> set (token_programs tr)) (Anchor InvalidProgramId)"

definition get_token_account_checked ::
  "token_runtime \<Rightarrow> ledger \<Rightarrow> pubkey \<Rightarrow> pubkey \<Rightarrow> er_error + token_account" where
  "get_token_account_checked tr L k program =
     (if length (acc_data (L k)) = 0 then Inl (Anchor AccountNotInitialized)
      else if acc_owner (L k) \<noteq> program then Inl (Anchor ConstraintTokenTokenProgram)
      else case unpack_token tr (acc_data (L k)) of
             Some ta \<Rightarrow> Inr ta
           | None \<Rightarrow> Inl (Anchor AccountDidNotDeserialize))"

definition transfer_token_if_needed ::
  "token_runtime \<Rightarrow> ledger \<Rightarrow> pubkey \<Rightarrow> pubkey \<Rightarrow> pubkey \<Rightarrow> pubkey \<Rightarrow> pubkey \<Rightarrow> u8 \<Rightarrow> u64 \<Rightarrow> er_error + ledger" where
  "transfer_token_if_needed tr L from_key to_key program authority mint decimals amount =
     (if amount > 0 then tok_transfer tr program mint authority L from_key to_key amount decimals
      else Inr L)"

definition check_receiver_and_transfer_token_if_needed ::
  "token_runtime \<Rightarrow> ledger \<Rightarrow> pubkey \<Rightarrow> pubkey \<Rightarrow> pubkey option \<Rightarrow> pubkey \<Rightarrow> pubkey \<Rightarrow> pubkey \<Rightarrow> u8 \<Rightarrow> u64 \<Rightarrow>
   er_error + ledger" where
  "check_receiver_and_transfer_token_if_needed tr L from_key to_key recipient program authority mint decimals amount =
     (if amount > 0 then
        rbind (get_token_account_checked tr L to_key program) (\<lambda>to_acc.
        rbind (case recipient of
                 Some r \<Rightarrow>
                   if ta_owner to_acc \<noteq> r then Inl (Anchor ConstraintTokenOwner)
                   else if associated_address tr r mint program \<noteq> to_key
                        then Inl (Anchor AccountNotAssociatedTokenAccount)
                   else Inr ()
               | None \<Rightarrow> Inr ()) (\<lambda>_.
        if ta_mint to_acc \<noteq> mint then Inl (Anchor ConstraintTokenMint)
        else transfer_token_if_needed tr L from_key to_key program authority mint decimals amount))
      else Inr L)"


subsection \<open>The accounts of a swap\<close>

record Swap =
  sw_searcher :: pubkey
  sw_user :: pubkey
  searcher_ta_mint_searcher :: pubkey
  searcher_ta_mint_user :: pubkey
  user_ata_mint_searcher :: pubkey
  user_ata_mint_user :: pubkey
  router_fee_receiver_ta :: pubkey
  relayer_fee_receiver_ata :: pubkey
  express_relay_fee_receiver_ata :: pubkey
  mint_searcher :: pubkey
  mint_user :: pubkey
  mint_fee :: pubkey
  token_program_searcher :: pubkey
  token_program_user :: pubkey
  token_program_fee :: pubkey
  sw_express_relay_metadata :: pubkey
  sw_relayer_signer :: pubkey

text \<open>The deserialised accounts the handler reads, as they were when the instruction started.\<close>

record SwapLoaded =
  ld_metadata :: ExpressRelayMetadata
  ld_searcher_ta :: token_account
  ld_user_ata :: token_account
  decimals_searcher :: u8
  decimals_user :: u8
  decimals_fee :: u8

definition check_token_constraint ::
  "ledger \<Rightarrow> pubkey \<Rightarrow> token_account \<Rightarrow> pubkey \<Rightarrow> pubkey \<Rightarrow> pubkey \<Rightarrow> er_error + unit" where
  "check_token_constraint L k ta authority mint program =
     rbind (ensure (ta_owner ta = authority) (Anchor ConstraintTokenOwner)) (\<lambda>_.
     rbind (ensure (ta_mint ta = mint) (Anchor ConstraintTokenMint)) (\<lambda>_.
       ensure (acc_owner (L k) = program) (Anchor ConstraintTokenTokenProgram)))"

definition check_associated_constraint ::
  "token_runtime \<Rightarrow> ledger \<Rightarrow> pubkey \<Rightarrow> token_account \<Rightarrow> pubkey \<Rightarrow> pubkey \<Rightarrow> pubkey \<Rightarrow> er_error + unit" where
  "check_associated_constraint tr L k ta authority mint program =
     rbind (ensure (acc_owner (L k) = program) (Anchor ConstraintTokenTokenProgram)) (\<lambda>_.
     rbind (ensure (ta_owner ta = authority) (Anchor ConstraintTokenOwner)) (\<lambda>_.
       ensure (k = associated_address tr authority mint program) (Anchor ConstraintAssociated)))"

definition check_mint_program :: "ledger \<Rightarrow> pubkey \<Rightarrow> pubkey \<Rightarrow> er_error + unit" where
  "check_mint_program L mint program =
     ensure (acc_owner (L mint) = program) (Anchor ConstraintMintTokenProgram)"

definition swap_accounts :: "runtime \<Rightarrow> token_runtime \<Rightarrow> ledger \<Rightarrow> Swap \<Rightarrow> er_error + SwapLoaded" where
  "swap_accounts rt tr L c =
     rbind (check_signer rt (sw_searcher c)) (\<lambda>_.
     rbind (check_signer rt (sw_user c)) (\<lambda>_.
     rbind (load_token rt tr L (searcher_ta_mint_searcher c)) (\<lambda>ss.
     rbind (load_token rt tr L (searcher_ta_mint_user c)) (\<lambda>su.
     rbind (load_token rt tr L (user_ata_mint_searcher c)) (\<lambda>us.
     rbind (load_token rt tr L (user_ata_mint_user c)) (\<lambda>uu.
     rbind (load_mint rt tr L (mint_searcher c)) (\<lambda>ds.
     rbind (load_mint rt tr L (mint_user c)) (\<lambda>du.
     rbind (load_mint rt tr L (mint_fee c)) (\<lambda>df.
     rbind (check_token_interface tr (token_program_searcher c)) (\<lambda>_.
     rbind (check_token_interface tr (token_program_user c)) (\<lambda>_.
     rbind (check_token_interface tr (token_program_fee c)) (\<lambda>_.
     rbind (load_metadata rt L (sw_express_relay_metadata c)) (\<lambda>md.
     rbind (check_signer rt (sw_relayer_signer c)) (\<lambda>_.
     rbind (check_mut rt (searcher_ta_mint_searcher c)) (\<lambda>_.
     rbind (check_token_constraint L (searcher_ta_mint_searcher c) ss (sw_searcher c)
              (mint_searcher c) (token_program_searcher c)) (\<lambda>_.
     rbind (check_mut rt (searcher_ta_mint_user c)) (\<lambda>_.
     rbind (check_token_constraint L (searcher_ta_mint_user c) su (sw_searcher c)
              (mint_user c) (token_program_user c)) (\<lambda>_.
     rbind (check_mut rt (user_ata_mint_searcher c)) (\<lambda>_.
     rbind (check_associated_constraint tr L (user_ata_mint_searcher c) us (sw_user c)
              (mint_searcher c) (token_program_searcher c)) (\<lambda>_.
     rbind (check_mut rt (user_ata_mint_user c)) (\<lambda>_.
     rbind (check_associated_constraint tr L (user_ata_mint_user c) uu (sw_user c)
              (mint_user c) (token_program_user c)) (\<lambda>_.
     rbind (check_mut rt (router_fee_receiver_ta c)) (\<lambda>_.
     rbind (check_mut rt (relayer_fee_receiver_ata c)) (\<lambda>_.
     rbind (check_mut rt (express_relay_fee_receiver_ata c)) (\<lambda>_.
     rbind (check_mint_program L (mint_searcher c) (token_program_searcher c)) (\<lambda>_.
     rbind (check_mint_program L (mint_user c) (token_program_user c)) (\<lambda>_.
     rbind (check_mint_program L (mint_fee c) (token_program_fee c)) (\<lambda>_.
     rbind (check_seeds rt [SEED_METADATA] (sw_express_relay_metadata c)) (\<lambda>_.
       Inr \<lparr>ld_metadata = md, ld_searcher_ta = ss, ld_user_ata = uu,
            decimals_searcher = ds, decimals_user = du, decimals_fee = df\<rparr>)))))))))))))))))))))))))))))"

definition check_mint_user :: "Swap \<Rightarrow> FeeToken \<Rightarrow> er_error + unit" where
  "check_mint_user c ft =
     ensure (mint_fee c = (if ft = Searcher then mint_searcher c else mint_user c)) (Anchor ConstraintRaw)"

definition check_token_program_fee :: "Swap \<Rightarrow> FeeToken \<Rightarrow> er_error + unit" where
  "check_token_program_fee c ft =
     ensure (token_program_fee c = (if ft = Searcher then token_program_searcher c else token_program_user c))
       (Anchor ConstraintRaw)"

definition check_raw_constraints :: "Swap \<Rightarrow> FeeToken \<Rightarrow> er_error + unit" where
  "check_raw_constraints c ft = rbind (check_mint_user c ft) (\<lambda>_. check_token_program_fee c ft)"


subsection \<open>Handlers\<close>

record PostFeeSwapArgs =
  amount_searcher_after_fees :: u64
  amount_user_after_fees :: u64

record TransferSwapFeeArgs =
  tf_fees :: SwapFees
  tf_from :: pubkey
  tf_authority :: pubkey

definition Swap_convert_to_v2 :: "ExpressRelayMetadata \<Rightarrow> SwapArgs \<Rightarrow> er_error + SwapV2Args" where
  "Swap_convert_to_v2 md a = SwapArgs_convert_to_v2 a (swap_platform_fee_bps md)"

definition Swap_compute_swap_fees ::
  "Swap \<Rightarrow> ExpressRelayMetadata \<Rightarrow> SwapV2Args \<Rightarrow> er_error + (TransferSwapFeeArgs \<times> PostFeeSwapArgs)" where
  "Swap_compute_swap_fees c md a =
     (case fee_token a of
        Searcher \<Rightarrow>
          rbind (compute_swap_fees md (referral_fee_ppm a) (swap_platform_fee_ppm a) (amount_searcher a)) (\<lambda>r.
            Inr (\<lparr>tf_fees = fees r, tf_from = searcher_ta_mint_searcher c, tf_authority = sw_searcher c\<rparr>,
                 \<lparr>amount_searcher_after_fees = remaining_amount r, amount_user_after_fees = amount_user a\<rparr>))
      | User \<Rightarrow>
          rbind (compute_swap_fees md (referral_fee_ppm a) (swap_platform_fee_ppm a) (amount_user a)) (\<lambda>r.
            Inr (\<lparr>tf_fees = fees r, tf_from = user_ata_mint_user c, tf_authority = sw_user c\<rparr>,
                 \<lparr>amount_searcher_after_fees = amount_searcher a, amount_user_after_fees = remaining_amount r\<rparr>)))"

definition check_enough_balances :: "SwapLoaded \<Rightarrow> SwapV2Args \<Rightarrow> er_error + unit" where
  "check_enough_balances ld a =
     (if ta_amount (ld_searcher_ta ld) < amount_searcher a then Inl (Er InsufficientSearcherFunds)
      else if ta_amount (ld_user_ata ld) < amount_user a then Inl (Er InsufficientUserFunds)
      else Inr ())"

definition transfer_swap_fee_cpi ::
  "token_runtime \<Rightarrow> ledger \<Rightarrow> Swap \<Rightarrow> SwapLoaded \<Rightarrow> u64 \<Rightarrow> pubkey \<Rightarrow> pubkey option \<Rightarrow> TransferSwapFeeArgs \<Rightarrow>
   er_error + ledger" where
  "transfer_swap_fee_cpi tr L c ld fee receiver_ta receiver t =
     check_receiver_and_transfer_token_if_needed tr L (tf_from t) receiver_ta receiver
       (token_program_fee c) (tf_authority t) (mint_fee c) (decimals_fee ld) fee"

definition transfer_swap_fees_cpi ::
  "token_runtime \<Rightarrow> ledger \<Rightarrow> Swap \<Rightarrow> SwapLoaded \<Rightarrow> TransferSwapFeeArgs \<Rightarrow> er_error + ledger" where
  "transfer_swap_fees_cpi tr L c ld t =
     rbind (transfer_swap_fee_cpi tr L c ld (router_fee (tf_fees t)) (router_fee_receiver_ta c) None t) (\<lambda>L1.
     rbind (transfer_swap_fee_cpi tr L1 c ld (relayer_fee (tf_fees t)) (relayer_fee_receiver_ata c)
              (Some (fee_receiver_relayer (ld_metadata ld))) t) (\<lambda>L2.
       transfer_swap_fee_cpi tr L2 c ld (express_relay_fee (tf_fees t)) (express_relay_fee_receiver_ata c)
              (Some (sw_express_relay_metadata c)) t))"

definition swap_internal ::
  "runtime \<Rightarrow> token_runtime \<Rightarrow> ledger \<Rightarrow> Swap \<Rightarrow> SwapLoaded \<Rightarrow> SwapV2Args \<Rightarrow> er_error + ledger" where
  "swap_internal rt tr L c ld a =
     rbind (check_raw_constraints c (fee_token a)) (\<lambda>_.
     rbind (check_deadline rt (deadline a)) (\<lambda>_.
     rbind (check_relayer_signer (ld_metadata ld) (sw_relayer_signer c)) (\<lambda>_.
     rbind (Swap_compute_swap_fees c (ld_metadata ld) a) (\<lambda>(t, post).
     rbind (check_enough_balances ld a) (\<lambda>_.
     rbind (transfer_swap_fees_cpi tr L c ld t) (\<lambda>L1.
     rbind (transfer_token_if_needed tr L1 (searcher_ta_mint_searcher c) (user_ata_mint_searcher c)
              (token_program_searcher c) (sw_searcher c) (mint_searcher c) (decimals_searcher ld)
              (amount_searcher_after_fees post)) (\<lambda>L2.
       transfer_token_if_needed tr L2 (user_ata_mint_user c) (searcher_ta_mint_user c)
              (token_program_user c) (sw_user c) (mint_user c) (decimals_user ld)
              (amount_user_after_fees post))))))))"

definition swap :: "runtime \<Rightarrow> token_runtime \<Rightarrow> ledger \<Rightarrow> Swap \<Rightarrow> SwapArgs \<Rightarrow> er_error + ledger" where
  "swap rt tr L c a =
     rbind (swap_accounts rt tr L c) (\<lambda>ld.
     rbind (Swap_convert_to_v2 (ld_metadata ld) a) (\<lambda>a2. swap_internal rt tr L c ld a2))"

definition swap_v2 :: "runtime \<Rightarrow> token_runtime \<Rightarrow> ledger \<Rightarrow> Swap \<Rightarrow> SwapV2Args \<Rightarrow> er_error + ledger" where
  "swap_v2 rt tr L c a = rbind (swap_accounts rt tr L c) (\<lambda>ld. swap_internal rt tr L c ld a)"

record WithdrawSplFees =
  ws_admin :: pubkey
  ws_express_relay_metadata :: pubkey
  ws_express_relay_fee_receiver_ata :: pubkey
  fee_receiver_admin_ta :: pubkey
  ws_mint_fee :: pubkey
  ws_token_program_fee :: pubkey

definition withdraw_spl_fees :: "runtime \<Rightarrow> token_runtime \<Rightarrow> ledger \<Rightarrow> WithdrawSplFees \<Rightarrow> er_error + ledger" where
  "withdraw_spl_fees rt tr L c =
     rbind (check_signer rt (ws_admin c)) (\<lambda>_.
     rbind (load_metadata rt L (ws_express_relay_metadata c)) (\<lambda>md.
     rbind (load_token rt tr L (ws_express_relay_fee_receiver_ata c)) (\<lambda>ata.
     rbind (load_token rt tr L (fee_receiver_admin_ta c)) (\<lambda>ta.
     rbind (load_mint rt tr L (ws_mint_fee c)) (\<lambda>dec.
     rbind (check_token_interface tr (ws_token_program_fee c)) (\<lambda>_.
     rbind (check_seeds rt [SEED_METADATA] (ws_express_relay_metadata c)) (\<lambda>_.
     rbind (check_mut rt (ws_express_relay_metadata c)) (\<lambda>_.
     rbind (check_has_one (admin md) (ws_admin c)) (\<lambda>_.
     rbind (check_mut rt (ws_express_relay_fee_receiver_ata c)) (\<lambda>_.
     rbind (check_associated_constraint tr L (ws_express_relay_fee_receiver_ata c) ata
              (ws_express_relay_metadata c) (ws_mint_fee c) (ws_token_program_fee c)) (\<lambda>_.
     rbind (check_mut rt (fee_receiver_admin_ta c)) (\<lambda>_.
     rbind (ensure (ta_mint ta = ws_mint_fee c) (Anchor ConstraintTokenMint)) (\<lambda>_.
     rbind (ensure (acc_owner (L (fee_receiver_admin_ta c)) = ws_token_program_fee c)
              (Anchor ConstraintTokenTokenProgram)) (\<lambda>_.
     rbind (check_mint_program L (ws_mint_fee c) (ws_token_program_fee c)) (\<lambda>_.
       if ta_amount ata = 0 then Inr L
       else tok_transfer tr (ws_token_program_fee c) (ws_mint_fee c) (ws_express_relay_metadata c) L
              (ws_express_relay_fee_receiver_ata c) (fee_receiver_admin_ta c) (ta_amount ata) dec)))))))))))))))"


subsection \<open>What a token transfer does\<close>

text \<open>
  Tokens an account holds: its amount when it belongs to a token program and its data unpacks.
\<close>

definition tokens :: "token_runtime \<Rightarrow> ledger \<Rightarrow> pubkey \<Rightarrow> nat" where
  "tokens tr L k = (case unpack_token tr (acc_data (L k)) of Some ta \<Rightarrow> unat (ta_amount ta) | None \<Rightarrow> 0)"

text \<open>
  The documented behaviour of the token programs for mints without a transfer fee, that a program
  writes only accounts it owns, and that failures carry the token program's own error codes.
\<close>

definition token_program_ok :: "token_runtime \<Rightarrow> bool" where
  "token_program_ok tr \<longleftrightarrow>
     (\<forall>program mint authority dec.
        value_mover (tokens tr) (\<lambda>L f t a. tok_transfer tr program mint authority L f t a dec)) \<and>
     (\<forall>program mint authority dec L f t a L'. tok_transfer tr program mint authority L f t a dec = Inr L' \<longrightarrow>
        (\<forall>k. lamports (L' k) = lamports (L k) \<and> acc_owner (L' k) = acc_owner (L k) \<and>
           (k \<noteq> f \<longrightarrow> k \<noteq> t \<longrightarrow> acc_data (L' k) = acc_data (L k)) \<and>
           (acc_owner (L k) \<noteq> program \<longrightarrow> acc_data (L' k) = acc_data (L k)))) \<and>
     (\<forall>program mint authority dec L f t a e.
        tok_transfer tr program mint authority L f t a dec = Inl e \<longrightarrow> (\<exists>n. e = Cpi n)) \<and>
     EXPRESS_RELAY_ID \<notin> set (token_programs tr)"


subsection \<open>Swaps move exactly the quoted amounts\<close>

lemma token_call_mover:
  "token_program_ok tr \<Longrightarrow>
     value_mover (tokens tr) (\<lambda>L f t a. tok_transfer tr program mint authority L f t a dec)"
  by (simp add: token_program_ok_def)

lemma token_call_frame:
  "token_program_ok tr \<Longrightarrow> tok_transfer tr program mint authority L f t a dec = Inr L' \<Longrightarrow>
     lamports (L' k) = lamports (L k) \<and> acc_owner (L' k) = acc_owner (L k) \<and>
     (k \<noteq> f \<longrightarrow> k \<noteq> t \<longrightarrow> acc_data (L' k) = acc_data (L k))"
  by (simp add: token_program_ok_def)

lemma token_call_owned:
  "token_program_ok tr \<Longrightarrow> tok_transfer tr program mint authority L f t a dec = Inr L' \<Longrightarrow>
     acc_owner (L k) \<noteq> program \<Longrightarrow> acc_data (L' k) = acc_data (L k)"
  by (simp add: token_program_ok_def)

text \<open>One leg of a swap: an amount from one token account to another, everything else kept.\<close>

definition moved :: "token_runtime \<Rightarrow> ledger \<Rightarrow> ledger \<Rightarrow> pubkey \<Rightarrow> pubkey \<Rightarrow> u64 \<Rightarrow> bool" where
  "moved tr L L' f t a \<longleftrightarrow>
     (\<forall>k. tokens tr L' k + (if k = f then unat a else 0) = tokens tr L k + (if k = t then unat a else 0)) \<and>
     (\<forall>k. lamports (L' k) = lamports (L k) \<and> acc_owner (L' k) = acc_owner (L k) \<and>
        (k \<noteq> f \<longrightarrow> k \<noteq> t \<longrightarrow> acc_data (L' k) = acc_data (L k)))"

lemma transfer_token_moved:
  assumes ok: "token_program_ok tr"
    and run: "transfer_token_if_needed tr L f t program authority mint dec a = Inr L'"
  shows "moved tr L L' f t a"
proof (cases "a = 0")
  case True
  with run show ?thesis by (simp add: moved_def transfer_token_if_needed_def)
next
  case False
  with run have "tok_transfer tr program mint authority L f t a dec = Inr L'"
    by (simp add: transfer_token_if_needed_def word_gt_0)
  with value_mover.vm_add [OF token_call_mover [OF ok]] token_call_frame [OF ok]
  show ?thesis unfolding moved_def by blast
qed

text \<open>The receiver of a fee is a token account of the fee's mint, and the expected one if named.\<close>

lemma check_receiver_Inr:
  "check_receiver_and_transfer_token_if_needed tr L f t rcp program authority mint dec a = Inr L' \<longleftrightarrow>
     transfer_token_if_needed tr L f t program authority mint dec a = Inr L' \<and>
     (a = 0 \<or> (\<exists>ta. get_token_account_checked tr L t program = Inr ta \<and> ta_mint ta = mint \<and>
        (\<forall>r. rcp = Some r \<longrightarrow> ta_owner ta = r \<and> associated_address tr r mint program = t)))"
proof (cases "a = 0")
  case False
  then show ?thesis
    by (cases rcp; simp add: check_receiver_and_transfer_token_if_needed_def word_gt_0 rbind_Inr_iff
        guard_Inr_iff)
      blast+
qed (simp add: check_receiver_and_transfer_token_if_needed_def transfer_token_if_needed_def)

lemma transfer_swap_fee_moved:
  assumes "token_program_ok tr" and "transfer_swap_fee_cpi tr L c ld fee receiver_ta rcp t = Inr L'"
  shows "moved tr L L' (tf_from t) receiver_ta fee"
  using assms by (auto simp: transfer_swap_fee_cpi_def check_receiver_Inr intro: transfer_token_moved)

lemma swap_internal_Inr:
  "swap_internal rt tr L c ld a = Inr L' \<longleftrightarrow>
     (\<exists>t post L1 L2.
        check_raw_constraints c (fee_token a) = Inr () \<and> sint (unix_timestamp rt) \<le> sint (deadline a) \<and>
        check_relayer_signer (ld_metadata ld) (sw_relayer_signer c) = Inr () \<and>
        Swap_compute_swap_fees c (ld_metadata ld) a = Inr (t, post) \<and>
        check_enough_balances ld a = Inr () \<and>
        transfer_swap_fees_cpi tr L c ld t = Inr L1 \<and>
        transfer_token_if_needed tr L1 (searcher_ta_mint_searcher c) (user_ata_mint_searcher c)
              (token_program_searcher c) (sw_searcher c) (mint_searcher c) (decimals_searcher ld)
              (amount_searcher_after_fees post) = Inr L2 \<and>
        transfer_token_if_needed tr L2 (user_ata_mint_user c) (searcher_ta_mint_user c)
              (token_program_user c) (sw_user c) (mint_user c) (decimals_user ld)
              (amount_user_after_fees post) = Inr L')"
  unfolding swap_internal_def rbind_Inr_iff check_deadline_Inr split_paired_Ex prod.case by auto

definition fee_amount :: "SwapV2Args \<Rightarrow> u64" where
  "fee_amount a = (if fee_token a = Searcher then amount_searcher a else amount_user a)"

lemma Swap_compute_swap_fees_Inr:
  "Swap_compute_swap_fees c md a = Inr (t, post) \<longleftrightarrow>
     (\<exists>r. compute_swap_fees md (referral_fee_ppm a) (swap_platform_fee_ppm a) (fee_amount a) = Inr r \<and>
        tf_fees t = fees r \<and>
        tf_from t = (if fee_token a = Searcher then searcher_ta_mint_searcher c else user_ata_mint_user c) \<and>
        tf_authority t = (if fee_token a = Searcher then sw_searcher c else sw_user c) \<and>
        amount_searcher_after_fees post = (if fee_token a = Searcher then remaining_amount r else amount_searcher a) \<and>
        amount_user_after_fees post = (if fee_token a = Searcher then amount_user a else remaining_amount r))"
  by (cases t; cases post) (auto simp: Swap_compute_swap_fees_def fee_amount_def rbind_Inr_iff
      split: FeeToken.splits)

text \<open>
  The five legs of a swap, as one equation per account: the two payers on the left, the five
  receivers on the right.
\<close>

lemma five_legs:
  assumes m: "moved tr L L1 f x1 a1" "moved tr L1 L2 f x2 a2" "moved tr L2 L3 f x3 a3"
    "moved tr L3 L4 s x4 a4" "moved tr L4 L5 u x5 a5"
  shows "(\<forall>k. tokens tr L5 k + (if k = f then unat a1 + unat a2 + unat a3 else 0) +
        (if k = s then unat a4 else 0) + (if k = u then unat a5 else 0) =
      tokens tr L k + (if k = x1 then unat a1 else 0) + (if k = x2 then unat a2 else 0) +
        (if k = x3 then unat a3 else 0) + (if k = x4 then unat a4 else 0) + (if k = x5 then unat a5 else 0)) \<and>
     (\<forall>k. lamports (L5 k) = lamports (L k) \<and> acc_owner (L5 k) = acc_owner (L k) \<and>
        (k \<notin> {f, s, u, x1, x2, x3, x4, x5} \<longrightarrow> acc_data (L5 k) = acc_data (L k)))"
proof (intro conjI allI)
  fix k :: pubkey
  let ?o = "\<lambda>j (a::u64). if k = j then unat a else 0"
  have "tokens tr L1 k + ?o f a1 = tokens tr L k + ?o x1 a1"
    "tokens tr L2 k + ?o f a2 = tokens tr L1 k + ?o x2 a2"
    "tokens tr L3 k + ?o f a3 = tokens tr L2 k + ?o x3 a3"
    "tokens tr L4 k + ?o s a4 = tokens tr L3 k + ?o x4 a4"
    "tokens tr L5 k + ?o u a5 = tokens tr L4 k + ?o x5 a5"
    using m unfolding moved_def by blast+
  moreover have "(if k = f then unat a1 + unat a2 + unat a3 else 0) = ?o f a1 + ?o f a2 + ?o f a3"
    by simp
  ultimately show "tokens tr L5 k + (if k = f then unat a1 + unat a2 + unat a3 else 0) +
      ?o s a4 + ?o u a5 = tokens tr L k + ?o x1 a1 + ?o x2 a2 + ?o x3 a3 + ?o x4 a4 + ?o x5 a5"
    by linarith
next
  show "lamports (L5 k) = lamports (L k)" "acc_owner (L5 k) = acc_owner (L k)" for k
    using m unfolding moved_def by simp_all
next
  show "k \<notin> {f, s, u, x1, x2, x3, x4, x5} \<longrightarrow> acc_data (L5 k) = acc_data (L k)" for k
    using m unfolding moved_def by simp
qed


text \<open>The fees are part of what the paying side pays.\<close>

lemma fees_in_payment:
  assumes fee: "Swap_compute_swap_fees c md a = Inr (t, post)"
    and r: "compute_swap_fees md (referral_fee_ppm a) (swap_platform_fee_ppm a) (fee_amount a) = Inr r"
  shows "(if k = tf_from t then unat (router_fee (fees r)) + unat (relayer_fee (fees r)) +
        unat (express_relay_fee (fees r)) else 0) +
      (if k = searcher_ta_mint_searcher c then unat (amount_searcher_after_fees post) else 0) +
      (if k = user_ata_mint_user c then unat (amount_user_after_fees post) else 0) =
    (if k = searcher_ta_mint_searcher c then unat (amount_searcher a) else 0) +
      (if k = user_ata_mint_user c then unat (amount_user a) else 0)"
proof (cases "fee_token a")
  case Searcher
  with fee r swap_fees_conserve [OF r] show ?thesis
    by (cases "k = searcher_ta_mint_searcher c")
      (auto simp: Swap_compute_swap_fees_Inr fee_amount_def)
next
  case User
  with fee r swap_fees_conserve [OF r] show ?thesis
    by (cases "k = user_ata_mint_user c")
      (auto simp: Swap_compute_swap_fees_Inr fee_amount_def)
qed

lemma swap_internal_moves:
  assumes ok: "token_program_ok tr" and run: "swap_internal rt tr L c ld a = Inr L'"
  shows "\<exists>r t post.
    compute_swap_fees (ld_metadata ld) (referral_fee_ppm a) (swap_platform_fee_ppm a) (fee_amount a) = Inr r \<and>
    Swap_compute_swap_fees c (ld_metadata ld) a = Inr (t, post) \<and>
    (\<forall>k. tokens tr L' k + (if k = searcher_ta_mint_searcher c then unat (amount_searcher a) else 0) +
              (if k = user_ata_mint_user c then unat (amount_user a) else 0) =
            tokens tr L k + (if k = router_fee_receiver_ta c then unat (router_fee (fees r)) else 0) +
              (if k = relayer_fee_receiver_ata c then unat (relayer_fee (fees r)) else 0) +
              (if k = express_relay_fee_receiver_ata c then unat (express_relay_fee (fees r)) else 0) +
              (if k = user_ata_mint_searcher c then unat (amount_searcher_after_fees post) else 0) +
              (if k = searcher_ta_mint_user c then unat (amount_user_after_fees post) else 0)) \<and>
    (\<forall>k. lamports (L' k) = lamports (L k) \<and> acc_owner (L' k) = acc_owner (L k) \<and>
       (acc_data (L' k) \<noteq> acc_data (L k) \<longrightarrow> k \<in> {searcher_ta_mint_searcher c, searcher_ta_mint_user c,
          user_ata_mint_searcher c, user_ata_mint_user c, router_fee_receiver_ta c,
          relayer_fee_receiver_ata c, express_relay_fee_receiver_ata c}))"
proof -
  from run obtain t post L3 L4 where fee: "Swap_compute_swap_fees c (ld_metadata ld) a = Inr (t, post)"
    and tf: "transfer_swap_fees_cpi tr L c ld t = Inr L3"
    and t4: "transfer_token_if_needed tr L3 (searcher_ta_mint_searcher c) (user_ata_mint_searcher c)
          (token_program_searcher c) (sw_searcher c) (mint_searcher c) (decimals_searcher ld)
          (amount_searcher_after_fees post) = Inr L4"
    and t5: "transfer_token_if_needed tr L4 (user_ata_mint_user c) (searcher_ta_mint_user c)
          (token_program_user c) (sw_user c) (mint_user c) (decimals_user ld)
          (amount_user_after_fees post) = Inr L'"
    unfolding swap_internal_Inr by blast
  from tf obtain L1 L2 where
    t1: "transfer_swap_fee_cpi tr L c ld (router_fee (tf_fees t)) (router_fee_receiver_ta c) None t = Inr L1"
    and t2: "transfer_swap_fee_cpi tr L1 c ld (relayer_fee (tf_fees t)) (relayer_fee_receiver_ata c)
              (Some (fee_receiver_relayer (ld_metadata ld))) t = Inr L2"
    and t3: "transfer_swap_fee_cpi tr L2 c ld (express_relay_fee (tf_fees t)) (express_relay_fee_receiver_ata c)
              (Some (sw_express_relay_metadata c)) t = Inr L3"
    unfolding transfer_swap_fees_cpi_def rbind_Inr_iff by blast
  note legs = five_legs [OF transfer_swap_fee_moved [OF ok t1] transfer_swap_fee_moved [OF ok t2]
      transfer_swap_fee_moved [OF ok t3] transfer_token_moved [OF ok t4] transfer_token_moved [OF ok t5]]
  from fee obtain r where
    r: "compute_swap_fees (ld_metadata ld) (referral_fee_ppm a) (swap_platform_fee_ppm a) (fee_amount a) = Inr r"
    and tp: "tf_fees t = fees r" "tf_from t \<in> {searcher_ta_mint_searcher c, user_ata_mint_user c}"
    unfolding Swap_compute_swap_fees_Inr by (auto split: if_splits)
  have "tokens tr L' k + (if k = searcher_ta_mint_searcher c then unat (amount_searcher a) else 0) +
              (if k = user_ata_mint_user c then unat (amount_user a) else 0) =
            tokens tr L k + (if k = router_fee_receiver_ta c then unat (router_fee (fees r)) else 0) +
              (if k = relayer_fee_receiver_ata c then unat (relayer_fee (fees r)) else 0) +
              (if k = express_relay_fee_receiver_ata c then unat (express_relay_fee (fees r)) else 0) +
              (if k = user_ata_mint_searcher c then unat (amount_searcher_after_fees post) else 0) +
              (if k = searcher_ta_mint_user c then unat (amount_user_after_fees post) else 0)" for k
    using legs [THEN conjunct1, THEN spec, of k] fees_in_payment [OF fee r, of k]
    unfolding tp(1) by linarith
  moreover have "lamports (L' k) = lamports (L k) \<and> acc_owner (L' k) = acc_owner (L k) \<and>
       (acc_data (L' k) \<noteq> acc_data (L k) \<longrightarrow> k \<in> {searcher_ta_mint_searcher c, searcher_ta_mint_user c,
          user_ata_mint_searcher c, user_ata_mint_user c, router_fee_receiver_ta c,
          relayer_fee_receiver_ata c, express_relay_fee_receiver_ata c})" for k
    using legs [THEN conjunct2, THEN spec, of k] tp(2) by blast
  ultimately show ?thesis using fee r by blast
qed

lemma swap_accounts_signers:
  "swap_accounts rt tr L c = Inr ld \<Longrightarrow>
     is_signer rt (sw_searcher c) \<and> is_signer rt (sw_user c) \<and> is_signer rt (sw_relayer_signer c) \<and>
     load_metadata rt L (sw_express_relay_metadata c) = Inr (ld_metadata ld)"
  by (auto simp: swap_accounts_def check_signer_def ensure_Inr_iff rbind_Inr_iff)

lemma check_relayer_signer_Inr:
  "check_relayer_signer md k = Inr u \<longleftrightarrow> k \<in> {relayer_signer md, secondary_relayer_signer md}"
  by (auto simp: check_relayer_signer_def)

text \<open>
  Property C2. A swap that succeeds was signed by searcher and user, met its deadline and names a
  relayer of the metadata. The searcher's account pays exactly \<open>amount_searcher\<close> and the user's
  exactly \<open>amount_user\<close>, whatever token the fees are in: the paying side's amount is its fees and
  the remaining amount, the fees go to the three receivers, the rest to the counterparty, and no
  other account's tokens, no lamports and no owner changes.
\<close>

theorem swap_moves_quoted_amounts:
  assumes "token_program_ok tr" and "swap_v2 rt tr L c a = Inr L'"
  shows "is_signer rt (sw_searcher c) \<and> is_signer rt (sw_user c) \<and> is_signer rt (sw_relayer_signer c) \<and>
    sint (unix_timestamp rt) \<le> sint (deadline a) \<and>
    (\<exists>md r out_searcher out_user.
       load_metadata rt L (sw_express_relay_metadata c) = Inr md \<and>
       sw_relayer_signer c \<in> {relayer_signer md, secondary_relayer_signer md} \<and>
       compute_swap_fees md (referral_fee_ppm a) (swap_platform_fee_ppm a) (fee_amount a) = Inr r \<and>
       out_searcher = (if fee_token a = Searcher then unat (remaining_amount r) else unat (amount_searcher a)) \<and>
       out_user = (if fee_token a = Searcher then unat (amount_user a) else unat (remaining_amount r)) \<and>
       (\<forall>k. tokens tr L' k + (if k = searcher_ta_mint_searcher c then unat (amount_searcher a) else 0) +
              (if k = user_ata_mint_user c then unat (amount_user a) else 0) =
            tokens tr L k + (if k = router_fee_receiver_ta c then unat (router_fee (fees r)) else 0) +
              (if k = relayer_fee_receiver_ata c then unat (relayer_fee (fees r)) else 0) +
              (if k = express_relay_fee_receiver_ata c then unat (express_relay_fee (fees r)) else 0) +
              (if k = user_ata_mint_searcher c then out_searcher else 0) +
              (if k = searcher_ta_mint_user c then out_user else 0)) \<and>
       (\<forall>k. lamports (L' k) = lamports (L k) \<and> acc_owner (L' k) = acc_owner (L k)))"
proof -
  from assms(2) obtain ld where acc: "swap_accounts rt tr L c = Inr ld"
    and run: "swap_internal rt tr L c ld a = Inr L'"
    by (auto simp: swap_v2_def rbind_Inr_iff)
  from run have dl: "sint (unix_timestamp rt) \<le> sint (deadline a)"
    and rel: "sw_relayer_signer c \<in> {relayer_signer (ld_metadata ld), secondary_relayer_signer (ld_metadata ld)}"
    unfolding swap_internal_Inr check_relayer_signer_Inr by blast+
  from swap_internal_moves [OF assms(1) run] obtain r t post where
    r: "compute_swap_fees (ld_metadata ld) (referral_fee_ppm a) (swap_platform_fee_ppm a) (fee_amount a) = Inr r"
    and fee: "Swap_compute_swap_fees c (ld_metadata ld) a = Inr (t, post)"
    and eq: "\<forall>k. tokens tr L' k + (if k = searcher_ta_mint_searcher c then unat (amount_searcher a) else 0) +
              (if k = user_ata_mint_user c then unat (amount_user a) else 0) =
            tokens tr L k + (if k = router_fee_receiver_ta c then unat (router_fee (fees r)) else 0) +
              (if k = relayer_fee_receiver_ata c then unat (relayer_fee (fees r)) else 0) +
              (if k = express_relay_fee_receiver_ata c then unat (express_relay_fee (fees r)) else 0) +
              (if k = user_ata_mint_searcher c then unat (amount_searcher_after_fees post) else 0) +
              (if k = searcher_ta_mint_user c then unat (amount_user_after_fees post) else 0)"
    and frame: "\<forall>k. lamports (L' k) = lamports (L k) \<and> acc_owner (L' k) = acc_owner (L k)"
    by blast
  have "unat (amount_searcher_after_fees post) =
      (if fee_token a = Searcher then unat (remaining_amount r) else unat (amount_searcher a))"
    "unat (amount_user_after_fees post) =
      (if fee_token a = Searcher then unat (amount_user a) else unat (remaining_amount r))"
    using fee r unfolding Swap_compute_swap_fees_Inr by auto
  with swap_accounts_signers [OF acc] dl rel r frame eq show ?thesis by blast
qed

text \<open>
  Property C26. Nonzero swap fees reach only the intended receivers: the relayer fee the associated
  token account of the relayer's fee receiver in the metadata, the program's fee that of the
  metadata account, both for the fee mint, which is the mint of the token the fees are declared in;
  the router's account is an initialised token account of that mint.
\<close>

theorem swap_fee_receivers_checked:
  assumes "token_program_ok tr" and "swap_v2 rt tr L c a = Inr L'"
  shows "\<exists>md r. load_metadata rt L (sw_express_relay_metadata c) = Inr md \<and>
    compute_swap_fees md (referral_fee_ppm a) (swap_platform_fee_ppm a) (fee_amount a) = Inr r \<and>
    mint_fee c = (if fee_token a = Searcher then mint_searcher c else mint_user c) \<and>
    (relayer_fee (fees r) \<noteq> 0 \<longrightarrow> relayer_fee_receiver_ata c =
       associated_address tr (fee_receiver_relayer md) (mint_fee c) (token_program_fee c)) \<and>
    (express_relay_fee (fees r) \<noteq> 0 \<longrightarrow> express_relay_fee_receiver_ata c =
       associated_address tr (sw_express_relay_metadata c) (mint_fee c) (token_program_fee c)) \<and>
    (router_fee (fees r) \<noteq> 0 \<longrightarrow> (\<exists>ta. unpack_token tr (acc_data (L (router_fee_receiver_ta c))) = Some ta \<and>
       ta_mint ta = mint_fee c \<and> acc_owner (L (router_fee_receiver_ta c)) = token_program_fee c))"
proof -
  from assms(2) obtain ld where acc: "swap_accounts rt tr L c = Inr ld"
    and run: "swap_internal rt tr L c ld a = Inr L'"
    by (auto simp: swap_v2_def rbind_Inr_iff)
  from run obtain t post L3 where raw: "check_raw_constraints c (fee_token a) = Inr ()"
    and fee: "Swap_compute_swap_fees c (ld_metadata ld) a = Inr (t, post)"
    and tf: "transfer_swap_fees_cpi tr L c ld t = Inr L3"
    unfolding swap_internal_Inr by blast
  from fee obtain r where
    r: "compute_swap_fees (ld_metadata ld) (referral_fee_ppm a) (swap_platform_fee_ppm a) (fee_amount a) = Inr r"
    and tp: "tf_fees t = fees r"
    unfolding Swap_compute_swap_fees_Inr by blast
  have mint: "mint_fee c = (if fee_token a = Searcher then mint_searcher c else mint_user c)"
    using raw by (simp add: check_raw_constraints_def check_mint_user_def rbind_Inr_iff ensure_Inr_iff)
  have "relayer_fee (fees r) = 0 \<or> relayer_fee_receiver_ata c =
       associated_address tr (fee_receiver_relayer (ld_metadata ld)) (mint_fee c) (token_program_fee c)"
    "express_relay_fee (fees r) = 0 \<or> express_relay_fee_receiver_ata c =
       associated_address tr (sw_express_relay_metadata c) (mint_fee c) (token_program_fee c)"
    "router_fee (fees r) = 0 \<or> (\<exists>ta. get_token_account_checked tr L (router_fee_receiver_ta c)
       (token_program_fee c) = Inr ta \<and> ta_mint ta = mint_fee c)"
    using tf unfolding transfer_swap_fees_cpi_def transfer_swap_fee_cpi_def rbind_Inr_iff
      check_receiver_Inr tp by fastforce+
  with r mint swap_accounts_signers [OF acc] show ?thesis
    by (fastforce simp: get_token_account_checked_def split: if_splits option.splits)
qed


subsection \<open>Failing swaps\<close>

definition raises_only :: "(er_error \<Rightarrow> bool) \<Rightarrow> er_error + 'a \<Rightarrow> bool" where
  "raises_only P m \<longleftrightarrow> (\<forall>e. m = Inl e \<longrightarrow> P e)"

lemma raises_only_intros:
  "raises_only P (Inr x)" "P e \<Longrightarrow> raises_only P (Inl e)"
  "raises_only P m \<Longrightarrow> (\<And>x. raises_only P (f x)) \<Longrightarrow> raises_only P (rbind m f)"
  "P e \<Longrightarrow> raises_only P (ensure b e)" "P e \<Longrightarrow> raises_only P (ok_or oo e)"
  by (auto simp: raises_only_def rbind_Inl_iff ensure_def ok_or_def split: option.splits)

lemma raises_only_if: "raises_only P m \<Longrightarrow> raises_only P n \<Longrightarrow> raises_only P (if b then m else n)"
  by simp

definition anchor_error :: "er_error \<Rightarrow> bool" where
  "anchor_error e \<longleftrightarrow> (\<exists>x. e = Anchor x)"

lemma anchor_error_simp [simp]: "anchor_error (Anchor x)"
  by (simp add: anchor_error_def)

lemma load_anchor_errors:
  "raises_only anchor_error (load_metadata rt L k)" "raises_only anchor_error (load_token rt tr L k)"
  "raises_only anchor_error (load_mint rt tr L k)" "raises_only anchor_error (check_token_interface tr k)"
  by (simp_all add: raises_only_def load_metadata_def load_typed_def try_deserialize_def load_token_def
      load_mint_def load_interface_def check_token_interface_def ensure_def ok_or_def Let_def anchor_error_def
      split: if_splits option.splits)

lemma check_anchor_errors:
  "raises_only anchor_error (check_signer rt k)" "raises_only anchor_error (check_mut rt k)"
  "raises_only anchor_error (check_seeds rt sd k)"
  "raises_only anchor_error (check_token_constraint L k ta auth m p)"
  "raises_only anchor_error (check_associated_constraint tr L k ta auth m p)"
  "raises_only anchor_error (check_mint_program L m p)"
  unfolding constraint_defs check_token_constraint_def check_associated_constraint_def check_mint_program_def
  by (intro raises_only_intros anchor_error_simp)+

lemma swap_accounts_error: "raises_only anchor_error (swap_accounts rt tr L c)"
  unfolding swap_accounts_def
  by (intro raises_only_intros load_anchor_errors check_anchor_errors)

lemma token_call_error:
  "token_program_ok tr \<Longrightarrow> tok_transfer tr p m au L f t a dec = Inl e \<Longrightarrow> \<exists>n. e = Cpi n"
  unfolding token_program_ok_def by blast

lemma transfer_fees_error:
  assumes "token_program_ok tr" and P: "\<And>x. P (Anchor x)" "\<And>n. P (Cpi n)"
  shows "raises_only P (transfer_swap_fees_cpi tr L c ld t)"
    and "raises_only P (transfer_token_if_needed tr L f u program authority mint dec b)"
proof -
  have call: "raises_only P (transfer_token_if_needed tr L f u program authority mint dec b)"
    for L f u program authority mint dec b
    using token_call_error [OF assms(1)] P
    by (auto 0 3 simp: raises_only_def transfer_token_if_needed_def split: if_splits) metis
  then show "raises_only P (transfer_token_if_needed tr L f u program authority mint dec b)" .
  have get: "raises_only P (get_token_account_checked tr L k p)" for L k p
    using P(1) by (simp add: raises_only_def get_token_account_checked_def split: option.splits)
  have "raises_only P (transfer_swap_fee_cpi tr L c ld fee rta rcp t)" for L fee rta rcp
    unfolding transfer_swap_fee_cpi_def check_receiver_and_transfer_token_if_needed_def
    by (cases rcp; simp; intro conjI impI raises_only_if raises_only_intros get P(1) call)
  then show "raises_only P (transfer_swap_fees_cpi tr L c ld t)"
    unfolding transfer_swap_fees_cpi_def by (intro raises_only_intros)
qed

lemma compute_swap_fees_error:
  "compute_swap_fees md r p a = Inl (Er x) \<Longrightarrow> x = InvalidReferralFee"
  by (auto simp: compute_swap_fees_def rbind_Inl_iff Let_def ok_or_def split: if_splits option.splits)

text \<open>
  Property C36. A swap reports \<open>InsufficientUserFunds\<close> only when everything it checks before the
  balances is in order: all account constraints, the fee mint and program, the deadline, the
  relayer, the fee computation and the searcher's balance; the only reason is then that the user
  holds fewer tokens than the quote.
\<close>

theorem insufficient_user_funds_means_only_that:
  assumes "token_program_ok tr" and "swap_v2 rt tr L c a = Inl (Er InsufficientUserFunds)"
  shows "\<exists>ld. swap_accounts rt tr L c = Inr ld \<and>
    check_raw_constraints c (fee_token a) = Inr () \<and> sint (unix_timestamp rt) \<le> sint (deadline a) \<and>
    sw_relayer_signer c \<in> {relayer_signer (ld_metadata ld), secondary_relayer_signer (ld_metadata ld)} \<and>
    (\<exists>r. Swap_compute_swap_fees c (ld_metadata ld) a = Inr r) \<and>
    amount_searcher a \<le> ta_amount (ld_searcher_ta ld) \<and> ta_amount (ld_user_ata ld) < amount_user a"
proof -
  from assms(2) obtain ld where acc: "swap_accounts rt tr L c = Inr ld"
    and run: "swap_internal rt tr L c ld a = Inl (Er InsufficientUserFunds)"
    using swap_accounts_error [of rt tr L c]
    by (auto simp: swap_v2_def rbind_Inl_iff raises_only_def anchor_error_def)
  have no: "Swap_compute_swap_fees c (ld_metadata ld) a \<noteq> Inl (Er InsufficientUserFunds)"
    using compute_swap_fees_error
    by (fastforce simp: Swap_compute_swap_fees_def rbind_Inl_iff split: FeeToken.splits)
  let ?P = "\<lambda>e. e \<noteq> Er InsufficientUserFunds"
  have tail: "transfer_swap_fees_cpi tr L c ld t \<noteq> Inl (Er InsufficientUserFunds)"
    "transfer_token_if_needed tr L' f u program authority mint dec b \<noteq> Inl (Er InsufficientUserFunds)"
    for t L' f u program authority mint dec b
    using transfer_fees_error [OF assms(1), of ?P] unfolding raises_only_def by blast+
  have raw: "check_raw_constraints c (fee_token a) \<noteq> Inl (Er InsufficientUserFunds)"
    and dl: "check_deadline rt (deadline a) \<noteq> Inl (Er InsufficientUserFunds)"
    and rel: "check_relayer_signer (ld_metadata ld) (sw_relayer_signer c) \<noteq> Inl (Er InsufficientUserFunds)"
    by (auto simp: check_raw_constraints_def check_mint_user_def check_token_program_fee_def
        check_deadline_def check_relayer_signer_def ensure_def rbind_Inl_iff)
  from run no tail raw dl rel obtain r u1 u2 u3 where
    "check_raw_constraints c (fee_token a) = Inr u1" "check_deadline rt (deadline a) = Inr u2"
    "check_relayer_signer (ld_metadata ld) (sw_relayer_signer c) = Inr u3"
    "Swap_compute_swap_fees c (ld_metadata ld) a = Inr r"
    "check_enough_balances ld a = Inl (Er InsufficientUserFunds)"
    unfolding swap_internal_def rbind_Inl_iff split_paired_Ex prod.case by blast
  with acc show ?thesis
    by (auto simp: check_enough_balances_def check_deadline_Inr check_relayer_signer_Inr not_less
        split: if_splits)
qed

text \<open>
  Passing \<open>check_enough_balances\<close> is not enough: with a nonzero router fee and a
  router account that is not initialised, a swap whose other checks all pass still fails, after the
  balance check, however much searcher and user hold.
\<close>

theorem swap_fails_after_balance_check:
  assumes "swap_accounts rt tr L c = Inr ld" and "check_raw_constraints c (fee_token a) = Inr ()"
    and "sint (unix_timestamp rt) \<le> sint (deadline a)"
    and "check_relayer_signer (ld_metadata ld) (sw_relayer_signer c) = Inr ()"
    and "Swap_compute_swap_fees c (ld_metadata ld) a = Inr (t, post)"
    and "check_enough_balances ld a = Inr ()"
    and "router_fee (tf_fees t) > 0" and "acc_data (L (router_fee_receiver_ta c)) = []"
  shows "swap_v2 rt tr L c a = Inl (Anchor AccountNotInitialized)"
  using assms
  by (simp add: swap_v2_def swap_internal_def check_deadline_def transfer_swap_fees_cpi_def
      transfer_swap_fee_cpi_def check_receiver_and_transfer_token_if_needed_def
      get_token_account_checked_def)

lemma empty_or_transfer:
  "(if x = 0 then Inr L else tok_transfer tr p m au L f t x dec) = transfer_token_if_needed tr L f t p au m dec x"
  by (simp add: transfer_token_if_needed_def word_gt_0)

text \<open>
  Withdrawing token fees succeeds only for the admin in the metadata, takes the whole
  amount out of the program's associated token account for the fee mint and pays it to the chosen
  token account of that mint; no other account's tokens and no lamports change.
\<close>

theorem withdraw_spl_fees_empties_account:
  assumes "token_program_ok tr" and "withdraw_spl_fees rt tr L c = Inr L'"
    and "fee_receiver_admin_ta c \<noteq> ws_express_relay_fee_receiver_ata c"
  shows "is_signer rt (ws_admin c) \<and>
    (\<exists>md. load_metadata rt L (ws_express_relay_metadata c) = Inr md \<and> admin md = ws_admin c) \<and>
    ws_express_relay_fee_receiver_ata c = associated_address tr (ws_express_relay_metadata c)
      (ws_mint_fee c) (ws_token_program_fee c) \<and>
    tokens tr L' (ws_express_relay_fee_receiver_ata c) = 0 \<and>
    tokens tr L' (fee_receiver_admin_ta c) =
      tokens tr L (fee_receiver_admin_ta c) + tokens tr L (ws_express_relay_fee_receiver_ata c) \<and>
    (\<forall>k. k \<notin> {ws_express_relay_fee_receiver_ata c, fee_receiver_admin_ta c} \<longrightarrow> tokens tr L' k = tokens tr L k) \<and>
    (\<forall>k. lamports (L' k) = lamports (L k))"
proof -
  let ?ata = "ws_express_relay_fee_receiver_ata c" and ?ta = "fee_receiver_admin_ta c"
  from assms(2) obtain md ata dec where
    ctx: "is_signer rt (ws_admin c)" "load_metadata rt L (ws_express_relay_metadata c) = Inr md"
      "admin md = ws_admin c" "?ata = associated_address tr (ws_express_relay_metadata c)
      (ws_mint_fee c) (ws_token_program_fee c)"
    and ata: "load_token rt tr L ?ata = Inr ata"
    and run: "transfer_token_if_needed tr L ?ata ?ta (ws_token_program_fee c)
        (ws_express_relay_metadata c) (ws_mint_fee c) dec (ta_amount ata) = Inr L'"
    unfolding withdraw_spl_fees_def constraint_defs check_associated_constraint_def rbind_Inr_iff
      ensure_Inr_iff empty_or_transfer by blast
  have amt: "tokens tr L ?ata = unat (ta_amount ata)"
    using ata by (auto simp: load_token_def load_interface_def tokens_def ok_or_Inr_iff split: if_splits)
  from transfer_token_moved [OF assms(1) run] have
    flow: "\<And>k. tokens tr L' k + (if k = ?ata then unat (ta_amount ata) else 0) =
      tokens tr L k + (if k = ?ta then unat (ta_amount ata) else 0)"
    and lam: "\<And>k. lamports (L' k) = lamports (L k)"
    unfolding moved_def by blast+
  have "tokens tr L' ?ata = 0" using flow [of ?ata] assms(3) amt by simp
  moreover have "tokens tr L' ?ta = tokens tr L ?ta + tokens tr L ?ata"
    using flow [of ?ta] assms(3) amt by simp
  moreover have "\<forall>k. k \<notin> {?ata, ?ta} \<longrightarrow> tokens tr L' k = tokens tr L k"
  proof (intro allI impI)
    fix k
    assume "k \<notin> {?ata, ?ta}"
    then show "tokens tr L' k = tokens tr L k" using flow [of k] by simp
  qed
  ultimately show ?thesis using ctx lam by blast
qed


subsection \<open>A concrete swap\<close>

text \<open>
  A token program for the witnesses: an account is mint, owner and amount, a transfer moves the
  amount between two such accounts. The searcher (21) offers 1000000 tokens of mint 61 for 500
  tokens of mint 62 held by the user (22); fees are in the searcher's token.
\<close>

definition pack_token :: "token_account \<Rightarrow> u8 list" where
  "pack_token ta = to_le 32 (ta_mint ta) @ to_le 32 (ta_owner ta) @ to_le 8 (ta_amount ta)"

definition sample_unpack_token :: "u8 list \<Rightarrow> token_account option" where
  "sample_unpack_token bs = do {
     (m, bs) \<leftarrow> read_word 32 bs;
     (ow, bs) \<leftarrow> read_word 32 bs;
     (am, bs) \<leftarrow> read_word 8 bs;
     Some \<lparr>ta_mint = m, ta_owner = ow, ta_amount = am\<rparr>
   }"

lemma sample_unpack_pack [simp]: "sample_unpack_token (pack_token ta) = Some ta"
proof -
  have "read_word 8 (to_le 8 x) = Some (x, [])" for x :: u64
    using read_word_append [of 8 x "[]"] by simp
  then show ?thesis by (simp add: sample_unpack_token_def pack_token_def)
qed

lemma pack_token_not_Nil [simp]: "pack_token ta \<noteq> []"
proof -
  have "length (pack_token ta) = 72" by (simp add: pack_token_def)
  then show ?thesis by auto
qed

definition set_tokens :: "ledger \<Rightarrow> pubkey \<Rightarrow> token_account \<Rightarrow> u64 \<Rightarrow> ledger" where
  "set_tokens L k ta am = L(k := (L k)\<lparr>acc_data := pack_token (ta\<lparr>ta_amount := am\<rparr>)\<rparr>)"

definition sample_tok_transfer ::
  "ledger \<Rightarrow> pubkey \<Rightarrow> pubkey \<Rightarrow> u64 \<Rightarrow> er_error + ledger" where
  "sample_tok_transfer L f t a =
     (case sample_unpack_token (acc_data (L f)) of
        None \<Rightarrow> Inl (Cpi 1)
      | Some ta \<Rightarrow>
         if ta_amount ta < a then Inl (Cpi 1)
         else let L1 = set_tokens L f ta (ta_amount ta - a)
              in case sample_unpack_token (acc_data (L1 t)) of
                   None \<Rightarrow> Inl (Cpi 3)
                 | Some tb \<Rightarrow>
                    if unat (ta_amount tb) + unat a < 2 ^ 64
                    then Inr (set_tokens L1 t tb (ta_amount tb + a)) else Inl (Cpi 14))"

definition sample_tokens :: token_runtime where
  "sample_tokens = \<lparr>token_programs = [70], unpack_token = sample_unpack_token,
     mint_decimals = (\<lambda>bs. if bs = [6] then Some 6 else None),
     associated_address = (\<lambda>w m p. if w = 22 then (if m = 61 then 43 else 44)
        else if w = 13 then 52 else if w = 100 then 53 else 0),
     tok_transfer = (\<lambda>p m au L f t a dec.
        if acc_owner (L f) = p \<and> acc_owner (L t) = p then sample_tok_transfer L f t a else Inl (Cpi 7))\<rparr>"

lemma unpack_sample_tokens [simp]: "unpack_token sample_tokens = sample_unpack_token"
  by (simp add: sample_tokens_def)

lemma tokens_set [simp]:
  "tokens sample_tokens (set_tokens L j ta am) k = (if k = j then unat am else tokens sample_tokens L k)"
  by (simp add: tokens_def set_tokens_def)

lemma sample_tok_transfer_Inr:
  "sample_tok_transfer L f t a = Inr L' \<longleftrightarrow>
     (\<exists>ta tb. sample_unpack_token (acc_data (L f)) = Some ta \<and> \<not> ta_amount ta < a \<and>
        sample_unpack_token (acc_data (set_tokens L f ta (ta_amount ta - a) t)) = Some tb \<and>
        unat (ta_amount tb) + unat a < 2 ^ 64 \<and>
        L' = set_tokens (set_tokens L f ta (ta_amount ta - a)) t tb (ta_amount tb + a))"
  by (auto simp: sample_tok_transfer_def Let_def split: option.splits)

lemma sample_token_program_ok: "token_program_ok sample_tokens"
proof -
  have mv: "tokens sample_tokens L' k + (if k = f then unat a else 0) =
      tokens sample_tokens L k + (if k = t then unat a else 0)"
    if "sample_tok_transfer L f t a = Inr L'" for L f t a L' k
  proof -
    from that obtain ta tb where ta: "sample_unpack_token (acc_data (L f)) = Some ta"
      and a: "\<not> ta_amount ta < a"
      and tb: "sample_unpack_token (acc_data (set_tokens L f ta (ta_amount ta - a) t)) = Some tb"
      and ov: "unat (ta_amount tb) + unat a < 2 ^ 64"
      and L': "L' = set_tokens (set_tokens L f ta (ta_amount ta - a)) t tb (ta_amount tb + a)"
      unfolding sample_tok_transfer_Inr by blast
    have "tokens sample_tokens L f = unat (ta_amount ta)"
      using ta by (simp add: tokens_def)
    moreover have "unat (ta_amount tb) = tokens sample_tokens (set_tokens L f ta (ta_amount ta - a)) t"
      using tb by (simp add: tokens_def)
    moreover have "unat (ta_amount ta - a) = unat (ta_amount ta) - unat a" "unat a \<le> unat (ta_amount ta)"
      using a by (simp_all add: unat_sub_nat not_less word_le_nat_alt)
    moreover have "unat (ta_amount tb + a) = unat (ta_amount tb) + unat a"
      using ov by (rule unat_add_ok)
    ultimately show ?thesis unfolding L' by (auto split: if_splits)
  qed
  have fr: "lamports (L' k) = lamports (L k) \<and> acc_owner (L' k) = acc_owner (L k) \<and>
      (k \<noteq> f \<longrightarrow> k \<noteq> t \<longrightarrow> acc_data (L' k) = acc_data (L k))"
    if "sample_tok_transfer L f t a = Inr L'" for L f t a L' k
    using that by (auto simp: sample_tok_transfer_Inr set_tokens_def)
  have er: "\<exists>n. e = Cpi n" if "sample_tok_transfer L f t a = Inl e" for L f t a e
    using that by (auto simp: sample_tok_transfer_def Let_def split: option.splits if_splits)
  show ?thesis
    unfolding token_program_ok_def value_mover_def using mv fr er
    by (simp add: sample_tokens_def EXPRESS_RELAY_ID_def split: if_splits) (metis fr)
qed

definition sample_holdings :: "pubkey \<Rightarrow> token_account option" where
  "sample_holdings k =
     (if k = 41 then Some \<lparr>ta_mint = 61, ta_owner = 21, ta_amount = 2000000\<rparr>
      else if k = 42 then Some \<lparr>ta_mint = 62, ta_owner = 21, ta_amount = 0\<rparr>
      else if k = 43 then Some \<lparr>ta_mint = 61, ta_owner = 22, ta_amount = 0\<rparr>
      else if k = 44 then Some \<lparr>ta_mint = 62, ta_owner = 22, ta_amount = 500\<rparr>
      else if k = 51 then Some \<lparr>ta_mint = 61, ta_owner = 99, ta_amount = 0\<rparr>
      else if k = 52 then Some \<lparr>ta_mint = 61, ta_owner = 13, ta_amount = 0\<rparr>
      else if k = 53 then Some \<lparr>ta_mint = 61, ta_owner = 100, ta_amount = 7\<rparr>
      else None)"

definition held :: "(pubkey \<Rightarrow> token_account option) \<Rightarrow> ledger" where
  "held h k =
     (case h k of
        Some ta \<Rightarrow> \<lparr>lamports = 1, acc_data = pack_token ta, acc_owner = 70\<rparr>
      | None \<Rightarrow> if k = 61 \<or> k = 62 then \<lparr>lamports = 1, acc_data = [6], acc_owner = 70\<rparr>
                else sample_ledger k)"

definition sample_swap_ledger :: ledger where
  "sample_swap_ledger = held sample_holdings"

lemma set_tokens_held:
  "h k = Some ta \<Longrightarrow> set_tokens (held h) k ta am = held (h(k \<mapsto> ta\<lparr>ta_amount := am\<rparr>))"
  by (rule ext) (simp add: set_tokens_def held_def)

lemma sample_transfer_held:
  assumes "h f = Some ta" and "a \<le> ta_amount ta"
    and "(h(f \<mapsto> ta\<lparr>ta_amount := ta_amount ta - a\<rparr>)) t = Some tb" and "unat (ta_amount tb) + unat a < 2 ^ 64"
  shows "sample_tok_transfer (held h) f t a =
    Inr (held (h(f \<mapsto> ta\<lparr>ta_amount := ta_amount ta - a\<rparr>, t \<mapsto> tb\<lparr>ta_amount := ta_amount tb + a\<rparr>)))"
proof -
  let ?h = "h(f \<mapsto> ta\<lparr>ta_amount := ta_amount ta - a\<rparr>)"
  have "sample_unpack_token (acc_data (held h f)) = Some ta"
    "sample_unpack_token (acc_data (held ?h t)) = Some tb"
    using assms(1,3) by (simp_all add: held_def)
  then show ?thesis
    using assms(2,4) set_tokens_held [of h f ta "ta_amount ta - a"]
      set_tokens_held [of ?h t tb "ta_amount tb + a"] assms(1,3)
    by (simp add: sample_tok_transfer_def not_less [symmetric])
qed

lemma get_token_held: "h k = Some ta \<Longrightarrow> get_token_account_checked sample_tokens (held h) k 70 = Inr ta"
  by (simp add: get_token_account_checked_def held_def)

definition sample_swap :: Swap where
  "sample_swap = \<lparr>sw_searcher = 21, sw_user = 22, searcher_ta_mint_searcher = 41,
     searcher_ta_mint_user = 42, user_ata_mint_searcher = 43, user_ata_mint_user = 44,
     router_fee_receiver_ta = 51, relayer_fee_receiver_ata = 52, express_relay_fee_receiver_ata = 53,
     mint_searcher = 61, mint_user = 62, mint_fee = 61, token_program_searcher = 70,
     token_program_user = 70, token_program_fee = 70, sw_express_relay_metadata = 100,
     sw_relayer_signer = 12\<rparr>"

definition sample_swap_args :: SwapV2Args where
  "sample_swap_args = \<lparr>deadline = 60, amount_searcher = 1000000, amount_user = 500,
     referral_fee_ppm = 2500, fee_token = Searcher, swap_platform_fee_ppm = 1000\<rparr>"

definition sample_loaded :: SwapLoaded where
  "sample_loaded = \<lparr>ld_metadata = sample_metadata,
     ld_searcher_ta = \<lparr>ta_mint = 61, ta_owner = 21, ta_amount = 2000000\<rparr>,
     ld_user_ata = \<lparr>ta_mint = 62, ta_owner = 22, ta_amount = 500\<rparr>,
     decimals_searcher = 6, decimals_user = 6, decimals_fee = 6\<rparr>"

definition sample_fees :: SwapFeesWithRemainingAmount where
  "sample_fees = \<lparr>fees = \<lparr>router_fee = 2500, relayer_fee = 200, express_relay_fee = 800\<rparr>,
     remaining_amount = 996500\<rparr>"

lemma sample_swap_fees: "compute_swap_fees sample_metadata 2500 1000 1000000 = Inr sample_fees"
  by (simp add: compute_swap_fees_def sample_fees_def sample_metadata_def Let_def checked_mul_def
      checked_sub_def FEE_SPLIT_PRECISION_def FEE_SPLIT_PRECISION_PPM_def)

lemma load_sample_metadata_swap:
  "load_metadata sample_runtime sample_swap_ledger 100 = Inr sample_metadata"
  using load_sample_metadata
  by (simp add: load_metadata_def load_typed_Inr sample_swap_ledger_def held_def sample_holdings_def)

lemma load_sample_tokens [simp]:
  "sample_holdings k = Some ta \<Longrightarrow> load_token sample_runtime sample_tokens sample_swap_ledger k = Inr ta"
  "load_mint sample_runtime sample_tokens sample_swap_ledger 61 = Inr 6"
  "load_mint sample_runtime sample_tokens sample_swap_ledger 62 = Inr 6"
  by (simp_all add: load_token_def load_mint_def load_interface_def sample_swap_ledger_def held_def
      sample_runtime_def ok_or_def) (simp_all add: sample_tokens_def sample_holdings_def)

lemma sample_swap_accounts:
  "swap_accounts sample_runtime sample_tokens sample_swap_ledger sample_swap = Inr sample_loaded"
  by (simp add: swap_accounts_def constraint_defs sample_swap_def sample_holdings_def
      check_token_interface_def load_sample_metadata_swap check_token_constraint_def
      check_associated_constraint_def check_mint_program_def)
    (simp add: sample_runtime_def sample_tokens_def sample_swap_ledger_def held_def sample_holdings_def
      SEED_METADATA_def sample_loaded_def)

lemma sample_swap_runs:
  "\<exists>L'. swap_v2 sample_runtime sample_tokens sample_swap_ledger sample_swap sample_swap_args = Inr L'"
proof -
  have tr: "tok_transfer sample_tokens 70 m au (held h) f t a d = sample_tok_transfer (held h) f t a"
    if "h f \<noteq> None" "h t \<noteq> None" for m au h f t a d
    using that by (auto simp: sample_tokens_def held_def)
  have ata: "associated_address sample_tokens 13 61 70 = 52" "associated_address sample_tokens 100 61 70 = 53"
    by (simp_all add: sample_tokens_def)
  let ?t = "\<lparr>tf_fees = fees sample_fees, tf_from = 41, tf_authority = 21\<rparr>"
  have legs: "\<exists>L'. rbind (transfer_swap_fees_cpi sample_tokens sample_swap_ledger sample_swap sample_loaded ?t) (\<lambda>L1.
      rbind (transfer_token_if_needed sample_tokens L1 41 43 70 21 61 6 996500) (\<lambda>L2.
        transfer_token_if_needed sample_tokens L2 44 42 70 22 62 6 500)) = Inr L'"
    by (simp add: transfer_swap_fees_cpi_def transfer_swap_fee_cpi_def sample_swap_ledger_def sample_swap_def
        check_receiver_and_transfer_token_if_needed_def get_token_held transfer_token_if_needed_def tr ata
        sample_holdings_def sample_transfer_held sample_fees_def sample_loaded_def sample_metadata_def)
  have "check_raw_constraints sample_swap Searcher = Inr ()"
    "check_deadline sample_runtime 60 = Inr ()"
    "check_relayer_signer sample_metadata (sw_relayer_signer sample_swap) = Inr ()"
    by (simp_all add: check_raw_constraints_def check_mint_user_def check_token_program_fee_def
        check_deadline_def check_relayer_signer_def sample_swap_def sample_metadata_def sample_runtime_def)
  moreover have "Swap_compute_swap_fees sample_swap sample_metadata sample_swap_args =
      Inr (?t, \<lparr>amount_searcher_after_fees = 996500, amount_user_after_fees = 500\<rparr>)"
    by (simp add: Swap_compute_swap_fees_def sample_swap_args_def sample_swap_fees sample_fees_def sample_swap_def)
  moreover have "check_enough_balances sample_loaded sample_swap_args = Inr ()"
    by (simp add: check_enough_balances_def sample_loaded_def sample_swap_args_def)
  moreover have "ld_metadata sample_loaded = sample_metadata" "fee_token sample_swap_args = Searcher"
    "deadline sample_swap_args = 60" "decimals_searcher sample_loaded = 6" "decimals_user sample_loaded = 6"
    by (simp_all add: sample_loaded_def sample_swap_args_def)
  ultimately show ?thesis
    using legs by (simp add: swap_v2_def sample_swap_accounts swap_internal_def)
      (simp add: sample_swap_def)
qed

lemma sample_swap_tokens: "tokens sample_tokens sample_swap_ledger k =
    (case sample_holdings k of Some ta \<Rightarrow> unat (ta_amount ta) | None \<Rightarrow> 0)"
  if "k \<in> {41, 42, 43, 44, 51, 52, 53}"
  using that by (auto simp: tokens_def sample_swap_ledger_def held_def sample_holdings_def)

lemma sample_swap_keys:
  "searcher_ta_mint_searcher sample_swap = 41" "searcher_ta_mint_user sample_swap = 42"
  "user_ata_mint_searcher sample_swap = 43" "user_ata_mint_user sample_swap = 44"
  "router_fee_receiver_ta sample_swap = 51" "relayer_fee_receiver_ata sample_swap = 52"
  "express_relay_fee_receiver_ata sample_swap = 53" "sw_express_relay_metadata sample_swap = 100"
  "amount_searcher sample_swap_args = 1000000" "amount_user sample_swap_args = 500"
  "referral_fee_ppm sample_swap_args = 2500" "swap_platform_fee_ppm sample_swap_args = 1000"
  "fee_amount sample_swap_args = 1000000" "fee_token sample_swap_args = Searcher"
  by (simp_all add: sample_swap_def sample_swap_args_def fee_amount_def)

theorem swap_moves_quoted_amounts_witness:
  "\<exists>L'. swap_v2 sample_runtime sample_tokens sample_swap_ledger sample_swap sample_swap_args = Inr L' \<and>
     tokens sample_tokens L' 41 = 1000000 \<and> tokens sample_tokens L' 43 = 996500 \<and>
     tokens sample_tokens L' 42 = 500 \<and> tokens sample_tokens L' 44 = 0 \<and>
     tokens sample_tokens L' 51 = 2500 \<and> tokens sample_tokens L' 52 = 200 \<and> tokens sample_tokens L' 53 = 807"
proof -
  obtain L' where run: "swap_v2 sample_runtime sample_tokens sample_swap_ledger sample_swap sample_swap_args = Inr L'"
    using sample_swap_runs by blast
  from swap_moves_quoted_amounts [OF sample_token_program_ok run]
  have eq: "tokens sample_tokens L' k + (if k = 41 then 1000000 else 0) + (if k = 44 then 500 else 0) =
      tokens sample_tokens sample_swap_ledger k + (if k = 51 then 2500 else 0) + (if k = 52 then 200 else 0) +
      (if k = 53 then 800 else 0) + (if k = 43 then 996500 else 0) + (if k = 42 then 500 else 0)" for k
    by (simp add: sample_swap_keys load_sample_metadata_swap sample_swap_fees sample_fees_def cong: if_cong)
  show ?thesis
    using run eq [of 41] eq [of 42] eq [of 43] eq [of 44] eq [of 51] eq [of 52] eq [of 53]
    by (simp add: sample_swap_tokens sample_holdings_def)
qed

theorem swap_fee_receivers_checked_witness:
  "relayer_fee_receiver_ata sample_swap = associated_address sample_tokens 13 61 70 \<and>
   express_relay_fee_receiver_ata sample_swap = associated_address sample_tokens 100 61 70"
proof -
  obtain L' where run: "swap_v2 sample_runtime sample_tokens sample_swap_ledger sample_swap sample_swap_args = Inr L'"
    using sample_swap_runs by blast
  from swap_fee_receivers_checked [OF sample_token_program_ok run] show ?thesis
    by (auto simp: sample_swap_keys load_sample_metadata_swap sample_swap_fees)
      (simp_all add: sample_fees_def sample_metadata_def, simp_all add: sample_swap_def)
qed

theorem insufficient_user_funds_means_only_that_witness:
  "\<exists>ld. swap_accounts sample_runtime sample_tokens sample_swap_ledger sample_swap = Inr ld \<and>
     ta_amount (ld_user_ata ld) < 501"
proof -
  let ?a = "sample_swap_args\<lparr>amount_user := 501\<rparr>"
  have "swap_v2 sample_runtime sample_tokens sample_swap_ledger sample_swap ?a = Inl (Er InsufficientUserFunds)"
    by (simp add: swap_v2_def sample_swap_accounts swap_internal_def check_raw_constraints_def
        check_mint_user_def check_token_program_fee_def Swap_compute_swap_fees_def sample_swap_args_def
        sample_loaded_def sample_swap_fees check_enough_balances_def check_deadline_def
        check_relayer_signer_def)
      (simp add: sample_swap_def sample_metadata_def sample_runtime_def)
  from insufficient_user_funds_means_only_that [OF sample_token_program_ok this]
  show ?thesis by (auto simp: sample_swap_args_def)
qed

theorem swap_fails_after_balance_check_witness:
  "swap_v2 sample_runtime sample_tokens sample_swap_ledger (sample_swap\<lparr>router_fee_receiver_ta := 71\<rparr>)
     sample_swap_args = Inl (Anchor AccountNotInitialized)"
proof (rule swap_fails_after_balance_check)
  let ?c = "sample_swap\<lparr>router_fee_receiver_ta := 71\<rparr>"
  show "swap_accounts sample_runtime sample_tokens sample_swap_ledger ?c = Inr sample_loaded"
    using sample_swap_accounts
    by (simp add: swap_accounts_def check_mut_def) (simp add: sample_runtime_def)
  show "Swap_compute_swap_fees ?c (ld_metadata sample_loaded) sample_swap_args =
      Inr (\<lparr>tf_fees = fees sample_fees, tf_from = 41, tf_authority = 21\<rparr>,
        \<lparr>amount_searcher_after_fees = 996500, amount_user_after_fees = 500\<rparr>)"
    by (simp add: Swap_compute_swap_fees_def sample_swap_args_def sample_loaded_def sample_swap_fees
        sample_fees_def sample_swap_def)
  show "check_raw_constraints ?c (fee_token sample_swap_args) = Inr ()"
    by (simp add: check_raw_constraints_def check_mint_user_def check_token_program_fee_def
        sample_swap_def sample_swap_args_def)
  show "check_enough_balances sample_loaded sample_swap_args = Inr ()"
    by (simp add: check_enough_balances_def sample_loaded_def sample_swap_args_def)
qed (simp_all add: sample_runtime_def sample_swap_args_def sample_swap_def sample_loaded_def
    check_relayer_signer_def sample_metadata_def sample_fees_def sample_swap_ledger_def held_def
    sample_holdings_def sample_ledger_def)

theorem withdraw_spl_fees_empties_account_witness:
  "\<exists>L'. withdraw_spl_fees sample_runtime sample_tokens sample_swap_ledger
      \<lparr>ws_admin = 11, ws_express_relay_metadata = 100, ws_express_relay_fee_receiver_ata = 53,
       fee_receiver_admin_ta = 51, ws_mint_fee = 61, ws_token_program_fee = 70\<rparr> = Inr L' \<and>
    tokens sample_tokens L' 53 = 0 \<and> tokens sample_tokens L' 51 = 7"
proof -
  let ?c = "\<lparr>ws_admin = 11, ws_express_relay_metadata = 100, ws_express_relay_fee_receiver_ata = 53,
       fee_receiver_admin_ta = 51, ws_mint_fee = 61, ws_token_program_fee = 70\<rparr>"
  have tr: "tok_transfer sample_tokens 70 m au sample_swap_ledger 53 51 a d =
      sample_tok_transfer sample_swap_ledger 53 51 a" for m au a d
    by (simp add: sample_tokens_def sample_swap_ledger_def held_def sample_holdings_def)
  have "\<exists>L'. sample_tok_transfer sample_swap_ledger 53 51 7 = Inr L'"
    by (simp add: sample_swap_ledger_def sample_transfer_held sample_holdings_def)
  then obtain L' where "sample_tok_transfer sample_swap_ledger 53 51 7 = Inr L'" by blast
  then have run: "withdraw_spl_fees sample_runtime sample_tokens sample_swap_ledger ?c = Inr L'"
    by (simp add: withdraw_spl_fees_def constraint_defs load_sample_metadata_swap sample_holdings_def
        check_token_interface_def check_associated_constraint_def check_mint_program_def tr)
      (simp add: sample_runtime_def sample_tokens_def sample_swap_ledger_def held_def
        sample_holdings_def sample_metadata_def SEED_METADATA_def)
  with withdraw_spl_fees_empties_account [OF sample_token_program_ok run] show ?thesis
    by (simp add: sample_swap_tokens sample_holdings_def)
qed

end
