(* ===== verification/Er_Machine.thy ===== *)
theory Er_Machine
  imports Er_Swap
begin

section \<open>Express Relay program: all instructions as a state machine\<close>

text \<open>
  One step of the ledger is either an instruction of the program or anything else that happens on
  the chain. Solana's rules for the rest: only the owner of an account writes its data or gives
  it away, an account handed to the program has zeroed data, and an address derived from the
  program (no private key) stays an empty account of the system program until the program signs
  for it. From a ledger without accounts of the program, every reachable ledger satisfies
  \<open>wf_ledger\<close>.
\<close>

datatype er_instruction =
    Initialize pubkey pubkey pubkey pubkey pubkey u64 u64
  | SetAdmin pubkey pubkey pubkey
  | SetRelayer pubkey pubkey pubkey pubkey
  | SetSecondaryRelayer pubkey pubkey pubkey
  | SetSplits pubkey pubkey u64 u64
  | SetSwapPlatformFee pubkey pubkey u64
  | SetRouterSplit pubkey pubkey pubkey pubkey u64
  | SubmitBidIx SubmitBid SubmitBidArgs
  | CheckPermissionIx CheckPermission
  | WithdrawFees pubkey pubkey pubkey
  | WithdrawSplFeesIx WithdrawSplFees
  | SwapIx Swap SwapArgs
  | SwapV2Ix Swap SwapV2Args

fun exec :: "runtime \<Rightarrow> token_runtime \<Rightarrow> ledger \<Rightarrow> er_instruction \<Rightarrow> er_error + ledger" where
  "exec rt tr L (Initialize payer mdk adm relayer receiver sr sl) =
     initialize rt L payer mdk adm relayer receiver sr sl"
| "exec rt tr L (SetAdmin adm mdk new) = set_admin rt L adm mdk new"
| "exec rt tr L (SetRelayer adm mdk relayer receiver) = set_relayer rt L adm mdk relayer receiver"
| "exec rt tr L (SetSecondaryRelayer adm mdk k) = set_secondary_relayer rt L adm mdk k"
| "exec rt tr L (SetSplits adm mdk sr sl) = set_splits rt L adm mdk sr sl"
| "exec rt tr L (SetSwapPlatformFee adm mdk fee) = set_swap_platform_fee rt L adm mdk fee"
| "exec rt tr L (SetRouterSplit adm cfg mdk rtr s) = set_router_split rt L adm cfg mdk rtr s"
| "exec rt tr L (SubmitBidIx c a) = submit_bid rt L c a"
| "exec rt tr L (CheckPermissionIx c) = rbind (check_permission rt L c) (\<lambda>_. Inr L)"
| "exec rt tr L (WithdrawFees adm receiver mdk) = withdraw_fees rt L adm receiver mdk"
| "exec rt tr L (WithdrawSplFeesIx c) = withdraw_spl_fees rt tr L c"
| "exec rt tr L (SwapIx c a) = swap rt tr L c a"
| "exec rt tr L (SwapV2Ix c a) = swap_v2 rt tr L c a"

definition account_ok :: "u8 list \<Rightarrow> bool" where
  "account_ok bs \<longleftrightarrow>
     (case try_deserialize metadata_discriminator deser_metadata bs of
        Inr md \<Rightarrow> unat (split_router_default md) \<le> 10000 \<and> unat (split_relayer md) \<le> 10000 \<and>
                  unat (swap_platform_fee_bps md) \<le> 10000
      | Inl _ \<Rightarrow> True) \<and>
     (case try_deserialize config_router_discriminator deser_config_router bs of
        Inr c \<Rightarrow> unat (split c) \<le> 10000
      | Inl _ \<Rightarrow> True)"

text \<open>The parts of the runtime that never change: address derivation and the system program.\<close>

definition env_ok :: "(u8 list list \<Rightarrow> pubkey) \<Rightarrow> pubkey \<Rightarrow> runtime \<Rightarrow> token_runtime \<Rightarrow> bool" where
  "env_ok pda sys rt tr \<longleftrightarrow>
     system_program_ok rt \<and> token_program_ok tr \<and> system_program_id rt = sys \<and>
     sys \<notin> set (token_programs tr) \<and>
     (\<forall>seeds. find_program_address rt seeds EXPRESS_RELAY_ID = pda seeds)"

definition wf_ledger :: "(u8 list list \<Rightarrow> pubkey) \<Rightarrow> pubkey \<Rightarrow> ledger \<Rightarrow> bool" where
  "wf_ledger pda sys L \<longleftrightarrow>
     (\<forall>k. acc_owner (L k) = EXPRESS_RELAY_ID \<longrightarrow> account_ok (acc_data (L k))) \<and>
     (\<forall>seeds. acc_owner (L (pda seeds)) = EXPRESS_RELAY_ID \<or>
        acc_owner (L (pda seeds)) = sys \<and> acc_data (L (pda seeds)) = [])"

definition others_ok :: "(u8 list list \<Rightarrow> pubkey) \<Rightarrow> pubkey \<Rightarrow> ledger \<Rightarrow> ledger \<Rightarrow> bool" where
  "others_ok pda sys L L' \<longleftrightarrow>
     (\<forall>k. acc_owner (L k) = EXPRESS_RELAY_ID \<longrightarrow>
        acc_owner (L' k) = EXPRESS_RELAY_ID \<and> acc_data (L' k) = acc_data (L k)) \<and>
     (\<forall>k. acc_owner (L k) \<noteq> EXPRESS_RELAY_ID \<longrightarrow> acc_owner (L' k) = EXPRESS_RELAY_ID \<longrightarrow>
        set (acc_data (L' k)) \<subseteq> {0}) \<and>
     (\<forall>seeds. acc_owner (L (pda seeds)) = sys \<and> acc_data (L (pda seeds)) = [] \<longrightarrow>
        acc_owner (L' (pda seeds)) = sys \<and> acc_data (L' (pda seeds)) = [])"

inductive er_step :: "(u8 list list \<Rightarrow> pubkey) \<Rightarrow> pubkey \<Rightarrow> ledger \<Rightarrow> ledger \<Rightarrow> bool"
  for pda :: "u8 list list \<Rightarrow> pubkey" and sys :: pubkey where
  instruction: "env_ok pda sys rt tr \<Longrightarrow> exec rt tr L i = Inr L' \<Longrightarrow> er_step pda sys L L'"
| others: "others_ok pda sys L L' \<Longrightarrow> er_step pda sys L L'"

definition genesis :: "(u8 list list \<Rightarrow> pubkey) \<Rightarrow> pubkey \<Rightarrow> ledger \<Rightarrow> bool" where
  "genesis pda sys L \<longleftrightarrow>
     (\<forall>k. acc_owner (L k) \<noteq> EXPRESS_RELAY_ID) \<and>
     (\<forall>seeds. acc_owner (L (pda seeds)) = sys \<and> acc_data (L (pda seeds)) = [])"

inductive er_reachable :: "(u8 list list \<Rightarrow> pubkey) \<Rightarrow> pubkey \<Rightarrow> ledger \<Rightarrow> bool"
  for pda :: "u8 list list \<Rightarrow> pubkey" and sys :: pubkey where
  start: "genesis pda sys L \<Longrightarrow> er_reachable pda sys L"
| step: "er_reachable pda sys L \<Longrightarrow> er_step pda sys L L' \<Longrightarrow> er_reachable pda sys L'"


subsection \<open>What an instruction may do to accounts\<close>

definition update_ok :: "pubkey \<Rightarrow> ledger \<Rightarrow> ledger \<Rightarrow> bool" where
  "update_ok sys L L' \<longleftrightarrow>
     (\<forall>k. acc_owner (L' k) = acc_owner (L k) \<and>
          (acc_owner (L k) \<in> {EXPRESS_RELAY_ID, sys} \<longrightarrow> acc_data (L' k) = acc_data (L k)) \<or>
          acc_owner (L' k) = EXPRESS_RELAY_ID \<and> account_ok (acc_data (L' k)))"

text \<open>Accounts of the program and of the system program keep their data, all keep their owner.\<close>

definition frozen :: "pubkey \<Rightarrow> ledger \<Rightarrow> ledger \<Rightarrow> bool" where
  "frozen sys L L' \<longleftrightarrow>
     (\<forall>k. acc_owner (L' k) = acc_owner (L k) \<and>
          (acc_owner (L k) \<in> {EXPRESS_RELAY_ID, sys} \<longrightarrow> acc_data (L' k) = acc_data (L k)))"

lemma frozen_update: "frozen sys L L' \<Longrightarrow> update_ok sys L L'"
  by (simp add: frozen_def update_ok_def)

lemma frozen_trans: "frozen sys L L1 \<Longrightarrow> frozen sys L1 L2 \<Longrightarrow> frozen sys L L2"
  by (simp add: frozen_def)

lemma frozen_frame:
  "(\<And>k. acc_data (L' k) = acc_data (L k) \<and> acc_owner (L' k) = acc_owner (L k)) \<Longrightarrow> frozen sys L L'"
  by (simp add: frozen_def)

lemma update_ok_wf:
  assumes "wf_ledger pda sys L" and "update_ok sys L L'"
  shows "wf_ledger pda sys L'"
  unfolding wf_ledger_def
proof (intro conjI allI impI)
  fix k
  assume "acc_owner (L' k) = EXPRESS_RELAY_ID"
  with assms show "account_ok (acc_data (L' k))"
    unfolding update_ok_def wf_ledger_def by (metis insertI1)
next
  fix seeds
  show "acc_owner (L' (pda seeds)) = EXPRESS_RELAY_ID \<or>
      acc_owner (L' (pda seeds)) = sys \<and> acc_data (L' (pda seeds)) = []"
    using assms unfolding update_ok_def wf_ledger_def by (metis insertI1 insertI2)
qed

lemma update_ok_frame:
  "(\<And>k. acc_data (L' k) = acc_data (L k) \<and> acc_owner (L' k) = acc_owner (L k)) \<Longrightarrow> update_ok sys L L'"
  by (simp add: update_ok_def)

lemma account_ok_metadata:
  assumes "try_deserialize metadata_discriminator deser_metadata bs = Inr md"
  shows "account_ok bs \<longleftrightarrow> unat (split_router_default md) \<le> 10000 \<and> unat (split_relayer md) \<le> 10000 \<and>
      unat (swap_platform_fee_bps md) \<le> 10000"
  using assms metadata_codec.other_discriminator [OF assms, of config_router_discriminator deser_config_router]
  by (simp add: account_ok_def)

lemma account_ok_config:
  assumes "try_deserialize config_router_discriminator deser_config_router bs = Inr c"
  shows "account_ok bs \<longleftrightarrow> unat (split c) \<le> 10000"
  using assms config_router_codec.other_discriminator [OF assms, of metadata_discriminator deser_metadata]
  by (simp add: account_ok_def)

lemma account_ok_zeros:
  assumes "set bs \<subseteq> {0}"
  shows "account_ok bs"
proof -
  have "take 8 bs \<noteq> metadata_discriminator" "take 8 bs \<noteq> config_router_discriminator"
  proof -
    have "set (take 8 bs) \<subseteq> {0}" using assms set_take_subset [of 8 bs] by blast
    then show "take 8 bs \<noteq> metadata_discriminator" "take 8 bs \<noteq> config_router_discriminator"
      by (auto simp: metadata_discriminator_def config_router_discriminator_def)
  qed
  then show ?thesis by (simp add: account_ok_def try_deserialize_def)
qed

lemma others_ok_wf:
  assumes "wf_ledger pda sys L" and "others_ok pda sys L L'"
  shows "wf_ledger pda sys L'"
  unfolding wf_ledger_def
proof (intro conjI allI impI)
  fix k
  assume "acc_owner (L' k) = EXPRESS_RELAY_ID"
  with assms account_ok_zeros show "account_ok (acc_data (L' k))"
    unfolding others_ok_def wf_ledger_def by metis
next
  fix seeds
  show "acc_owner (L' (pda seeds)) = EXPRESS_RELAY_ID \<or>
      acc_owner (L' (pda seeds)) = sys \<and> acc_data (L' (pda seeds)) = []"
    using assms unfolding others_ok_def wf_ledger_def by metis
qed

lemma store_metadata_update:
  assumes "store_metadata L k md = Inr L'" and "acc_owner (L k) = EXPRESS_RELAY_ID"
    and "unat (split_router_default md) \<le> 10000" and "unat (split_relayer md) \<le> 10000"
    and "unat (swap_platform_fee_bps md) \<le> 10000"
  shows "update_ok sys L L'"
proof -
  have front: "store_front L k (metadata_discriminator @ ser_metadata md) = Inr L'"
    using assms(1) by (simp add: store_metadata_def)
  have "account_ok (acc_data (L' k))"
    using account_ok_metadata [OF store_metadata_loads [OF assms(1)]] assms(3-5) by blast
  then show ?thesis
    using store_front_frame [OF front] assms(2) unfolding update_ok_def by metis
qed

lemma store_config_update:
  assumes "store_config_router L k c = Inr L'" and "acc_owner (L k) = EXPRESS_RELAY_ID"
    and "unat (split c) \<le> 10000"
  shows "update_ok sys L L'"
proof -
  have front: "store_front L k (config_router_discriminator @ ser_config_router c) = Inr L'"
    using assms(1) by (simp add: store_config_router_def)
  have "account_ok (acc_data (L' k))"
    using account_ok_config [OF store_config_router_loads [OF assms(1)]] assms(3) by blast
  then show ?thesis
    using store_front_frame [OF front] assms(2) unfolding update_ok_def by metis
qed

lemma update_ok_trans:
  assumes "update_ok sys L L1" and "update_ok sys L1 L2"
  shows "update_ok sys L L2"
  using assms unfolding update_ok_def by (metis insertI1)

lemma sys_create_update:
  assumes "system_program_ok rt"
    and "sys_create rt L payer new space EXPRESS_RELAY_ID = Inr L'"
  shows "update_ok sys L L'" and "acc_owner (L' new) = EXPRESS_RELAY_ID"
proof -
  have new: "acc_data (L' new) = replicate space 0" "acc_owner (L' new) = EXPRESS_RELAY_ID"
    and other: "\<forall>k. k \<noteq> new \<longrightarrow> acc_data (L' k) = acc_data (L k) \<and> acc_owner (L' k) = acc_owner (L k)"
    using assms unfolding system_program_ok_def creates_accounts_def by blast+
  show "acc_owner (L' new) = EXPRESS_RELAY_ID" by (rule new(2))
  have "account_ok (acc_data (L' new))" using new(1) by (intro account_ok_zeros) auto
  with new(2) other show "update_ok sys L L'" unfolding update_ok_def by metis
qed

lemma initialize_update:
  assumes "system_program_ok rt" and "initialize rt L payer mdk adm relayer receiver sr sl = Inr L'"
  shows "update_ok sys L L'"
proof -
  from assms(2) obtain L1 where
    new: "sys_create rt L payer mdk RESERVE_EXPRESS_RELAY_METADATA EXPRESS_RELAY_ID = Inr L1"
    and valid: "unat sr \<le> 10000" "unat sl \<le> 10000"
    and store: "store_metadata L1 mdk \<lparr>admin = adm, relayer_signer = relayer, fee_receiver_relayer = receiver,
          split_router_default = sr, split_relayer = sl,
          swap_platform_fee_bps = 0, secondary_relayer_signer = 0\<rparr> = Inr L'"
    unfolding initialize_def rbind_Inr_iff validate_fee_split_Inr by blast
  note created = sys_create_update [OF assms(1) new]
  have "update_ok sys L1 L'"
    using store created(2) valid by (intro store_metadata_update [OF store]) simp_all
  with created(1) show ?thesis by (rule update_ok_trans)
qed

text \<open>The instructions that load the metadata, change some fields and store it.\<close>

lemma admin_update:
  assumes "wf_ledger pda sys L" and "admin_accounts rt L adm mdk = Inr md"
    and "store_metadata L mdk md' = Inr L'"
    and "unat (split_router_default md) \<le> 10000 \<Longrightarrow> unat (split_relayer md) \<le> 10000 \<Longrightarrow>
      unat (swap_platform_fee_bps md) \<le> 10000 \<Longrightarrow>
      unat (split_router_default md') \<le> 10000 \<and> unat (split_relayer md') \<le> 10000 \<and>
      unat (swap_platform_fee_bps md') \<le> 10000"
  shows "update_ok sys L L'"
proof -
  have own: "acc_owner (L mdk) = EXPRESS_RELAY_ID"
    and md: "try_deserialize metadata_discriminator deser_metadata (acc_data (L mdk)) = Inr md"
    using assms(2) by (auto simp: admin_accounts_Inr load_metadata_def load_typed_Inr)
  have "account_ok (acc_data (L mdk))" using assms(1) own by (simp add: wf_ledger_def)
  with account_ok_metadata [OF md] assms(4) show ?thesis
    by (intro store_metadata_update [OF assms(3) own]) blast+
qed

lemma set_router_split_update:
  assumes "system_program_ok rt" and "set_router_split rt L adm cfg mdk rtr s = Inr L'"
  shows "update_ok sys L L'"
proof -
  from assms(2) obtain L1 where init: "init_config_router rt L adm cfg = Inr L1"
    and valid: "unat s \<le> 10000" and store: "store_config_router L1 cfg \<lparr>router = rtr, split = s\<rparr> = Inr L'"
    unfolding set_router_split_def rbind_Inr_iff validate_fee_split_Inr by blast
  have "update_ok sys L L1 \<and> acc_owner (L1 cfg) = EXPRESS_RELAY_ID"
  proof (cases "acc_owner (L cfg) = system_program_id rt")
    case True
    with init sys_create_update [OF assms(1)] show ?thesis by (simp add: init_config_router_def)
  next
    case False
    with init show ?thesis
      by (auto simp: init_config_router_def rbind_Inr_iff ensure_Inr_iff load_config_router_def load_typed_Inr
          intro: update_ok_frame)
  qed
  moreover from this have "update_ok sys L1 L'"
    using valid by (intro store_config_update [OF store]) simp_all
  ultimately show ?thesis using update_ok_trans by blast
qed

lemma token_step_frozen:
  assumes "token_program_ok tr" and "sys \<notin> set (token_programs tr)"
    and "transfer_token_if_needed tr L f t program au m dec a = Inr L'"
    and "program \<in> set (token_programs tr)"
  shows "frozen sys L L'"
proof (cases "a = 0")
  case True
  with assms(3) show ?thesis by (simp add: transfer_token_if_needed_def frozen_frame)
next
  case False
  with assms(3) have call: "tok_transfer tr program m au L f t a dec = Inr L'"
    by (simp add: transfer_token_if_needed_def word_gt_0)
  have "program \<notin> {EXPRESS_RELAY_ID, sys}"
    using assms(1,2,4) by (auto simp: token_program_ok_def)
  with token_call_frame [OF assms(1) call] token_call_owned [OF assms(1) call] show ?thesis
    unfolding frozen_def by metis
qed

lemma fee_step_frozen:
  assumes "token_program_ok tr" and "sys \<notin> set (token_programs tr)"
    and "transfer_swap_fee_cpi tr L c ld fee rta rcp t = Inr L'"
    and "token_program_fee c \<in> set (token_programs tr)"
  shows "frozen sys L L'"
  using assms(3) token_step_frozen [OF assms(1,2) _ assms(4)]
  unfolding transfer_swap_fee_cpi_def check_receiver_Inr by blast

lemma swap_accounts_programs:
  "swap_accounts rt tr L c = Inr ld \<Longrightarrow>
     token_program_searcher c \<in> set (token_programs tr) \<and> token_program_user c \<in> set (token_programs tr) \<and>
     token_program_fee c \<in> set (token_programs tr)"
  unfolding swap_accounts_def check_token_interface_def ensure_Inr_iff rbind_Inr_iff by blast

lemma swap_internal_frozen:
  assumes "token_program_ok tr" and "sys \<notin> set (token_programs tr)"
    and "swap_accounts rt tr L0 c = Inr ld" and "swap_internal rt tr L c ld a = Inr L'"
  shows "frozen sys L L'"
proof -
  note progs = swap_accounts_programs [OF assms(3)]
  from assms(4) obtain t L3 L4 and post :: PostFeeSwapArgs where
    tf: "transfer_swap_fees_cpi tr L c ld t = Inr L3"
    and t4: "transfer_token_if_needed tr L3 (searcher_ta_mint_searcher c) (user_ata_mint_searcher c)
          (token_program_searcher c) (sw_searcher c) (mint_searcher c) (decimals_searcher ld)
          (amount_searcher_after_fees post) = Inr L4"
    and t5: "transfer_token_if_needed tr L4 (user_ata_mint_user c) (searcher_ta_mint_user c)
          (token_program_user c) (sw_user c) (mint_user c) (decimals_user ld)
          (amount_user_after_fees post) = Inr L'"
    unfolding swap_internal_Inr by blast
  have "frozen sys L L3"
    using tf fee_step_frozen [OF assms(1,2)] progs frozen_trans
    unfolding transfer_swap_fees_cpi_def rbind_Inr_iff by meson
  moreover have "frozen sys L3 L4" "frozen sys L4 L'"
    using token_step_frozen [OF assms(1,2) t4] token_step_frozen [OF assms(1,2) t5] progs by blast+
  ultimately show ?thesis using frozen_trans by blast
qed

lemma withdraw_spl_frozen:
  assumes "token_program_ok tr" and "sys \<notin> set (token_programs tr)"
    and "withdraw_spl_fees rt tr L c = Inr L'"
  shows "frozen sys L L'"
proof -
  from assms(3) obtain dec and ata :: token_account where "ws_token_program_fee c \<in> set (token_programs tr)"
    and "transfer_token_if_needed tr L (ws_express_relay_fee_receiver_ata c) (fee_receiver_admin_ta c)
      (ws_token_program_fee c) (ws_express_relay_metadata c) (ws_mint_fee c) dec (ta_amount ata) = Inr L'"
    unfolding withdraw_spl_fees_def check_token_interface_def rbind_Inr_iff ensure_Inr_iff empty_or_transfer
    by blast
  with token_step_frozen [OF assms(1,2)] show ?thesis by blast
qed

lemma submit_bid_frozen:
  assumes "system_program_ok rt" and "submit_bid rt L c a = Inr L'"
  shows "frozen sys L L'"
proof -
  from assms(2) obtain md where "handle_bid_payment rt L md c (bid_amount a) = Inr L'"
    unfolding submit_bid_Inr by blast
  from handle_bid_payment_Inr [OF assms(1) this] show ?thesis by (intro frozen_frame) blast
qed

lemma withdraw_fees_frozen:
  assumes "withdraw_fees rt L adm receiver mdk = Inr L'"
  shows "frozen sys L L'"
proof -
  from assms obtain x where "L' = L \<or> transfer_lamports L mdk receiver x = Inr L'"
    by (auto simp: withdraw_fees_def rbind_Inr_iff Let_def split: if_splits)
  then show ?thesis using direct.mv_frame by (intro frozen_frame) blast
qed

lemma exec_wf:
  assumes "env_ok pda sys rt tr" and "wf_ledger pda sys L" and "exec rt tr L i = Inr L'"
  shows "wf_ledger pda sys L'"
proof -
  have ok: "system_program_ok rt" "token_program_ok tr" "sys \<notin> set (token_programs tr)"
    using assms(1) by (simp_all add: env_ok_def)
  note step = update_ok_wf [OF assms(2)]
  note admin = step [OF admin_update [OF assms(2)]]
  show ?thesis
  proof (cases i)
    case (SetSplits adm mdk sr sl)
    with assms(3) obtain md where md: "admin_accounts rt L adm mdk = Inr md"
      and st: "store_metadata L mdk (md\<lparr>split_router_default := sr, split_relayer := sl\<rparr>) = Inr L'"
      and "unat sr \<le> 10000" "unat sl \<le> 10000"
      by (auto simp: set_splits_def rbind_Inr_iff validate_fee_split_Inr)
    then show ?thesis using admin [OF md st] by simp
  next
    case (SetSwapPlatformFee adm mdk fee)
    with assms(3) obtain md where md: "admin_accounts rt L adm mdk = Inr md"
      and st: "store_metadata L mdk (md\<lparr>swap_platform_fee_bps := fee\<rparr>) = Inr L'" and "unat fee \<le> 10000"
      by (auto simp: set_swap_platform_fee_def rbind_Inr_iff validate_fee_split_Inr)
    then show ?thesis using admin [OF md st] by simp
  next
    case (SetAdmin adm mdk new)
    with assms(3) obtain md where md: "admin_accounts rt L adm mdk = Inr md"
      and st: "store_metadata L mdk (md\<lparr>admin := new\<rparr>) = Inr L'"
      by (auto simp: set_admin_def rbind_Inr_iff)
    then show ?thesis using admin [OF md st] by simp
  next
    case (SetRelayer adm mdk relayer receiver)
    with assms(3) obtain md where md: "admin_accounts rt L adm mdk = Inr md"
      and st: "store_metadata L mdk (md\<lparr>relayer_signer := relayer, fee_receiver_relayer := receiver\<rparr>) = Inr L'"
      by (auto simp: set_relayer_def rbind_Inr_iff)
    then show ?thesis using admin [OF md st] by simp
  next
    case (SetSecondaryRelayer adm mdk k)
    with assms(3) obtain md where md: "admin_accounts rt L adm mdk = Inr md"
      and st: "store_metadata L mdk (md\<lparr>secondary_relayer_signer := k\<rparr>) = Inr L'"
      by (auto simp: set_secondary_relayer_def rbind_Inr_iff)
    then show ?thesis using admin [OF md st] by simp
  qed (use assms ok step initialize_update set_router_split_update step [OF frozen_update]
      submit_bid_frozen withdraw_fees_frozen withdraw_spl_frozen swap_internal_frozen in
      \<open>auto simp: swap_def swap_v2_def rbind_Inr_iff\<close>)
qed

lemma er_reachable_wf:
  assumes "er_reachable pda sys L"
  shows "wf_ledger pda sys L"
  using assms
proof (induction rule: er_reachable.induct)
  case (start L)
  then show ?case by (simp add: genesis_def wf_ledger_def)
next
  case (step L L')
  from step.hyps(2) step.IH show ?case
    by (cases rule: er_step.cases) (auto intro: exec_wf others_ok_wf)
qed


subsection \<open>Reachable ledgers\<close>

text \<open>
  Property C18. In every reachable ledger each metadata account of the program has both splits and
  the swap platform fee at most 10000 basis points, and each router configuration a split of at
  most 10000.
\<close>

theorem reachable_configuration_valid:
  assumes "er_reachable pda sys L" and "load_metadata rt L k = Inr md"
  shows "unat (split_router_default md) \<le> 10000 \<and> unat (split_relayer md) \<le> 10000 \<and>
    unat (swap_platform_fee_bps md) \<le> 10000 \<and>
    (\<forall>j c. load_config_router rt L j = Inr c \<longrightarrow> unat (split c) \<le> 10000)"
proof -
  have ok: "acc_owner (L j) = EXPRESS_RELAY_ID \<Longrightarrow> account_ok (acc_data (L j))" for j
    using er_reachable_wf [OF assms(1)] by (simp add: wf_ledger_def)
  have md: "acc_owner (L k) = EXPRESS_RELAY_ID"
    "try_deserialize metadata_discriminator deser_metadata (acc_data (L k)) = Inr md"
    using assms(2) by (simp_all add: load_metadata_def load_typed_Inr)
  have "unat (split c) \<le> 10000" if "load_config_router rt L j = Inr c" for j c
  proof -
    have "acc_owner (L j) = EXPRESS_RELAY_ID"
      "try_deserialize config_router_discriminator deser_config_router (acc_data (L j)) = Inr c"
      using that by (simp_all add: load_config_router_def load_typed_Inr)
    with ok account_ok_config show ?thesis by blast
  qed
  with ok [OF md(1)] account_ok_metadata [OF md(2)] show ?thesis by blast
qed

lemma er_wf_split:
  assumes wf: "wf_ledger pda sys L" and env: "env_ok pda sys rt tr"
    and acc: "submit_bid_accounts rt L c = Inr md" and s: "bid_split_router L md (sb_config_router c) = Inr s"
  shows "unat s \<le> 10000 \<and> unat (split_relayer md) \<le> 10000"
proof -
  have own: "acc_owner (L (sb_express_relay_metadata c)) = EXPRESS_RELAY_ID"
    and dec: "try_deserialize metadata_discriminator deser_metadata (acc_data (L (sb_express_relay_metadata c))) = Inr md"
    and cfg: "sb_config_router c = pda [SEED_CONFIG_ROUTER, to_le 32 (sb_router c)]"
    using acc env by (auto simp: submit_bid_accounts_Inr load_metadata_def load_typed_Inr env_ok_def)
  have md: "unat (split_router_default md) \<le> 10000" "unat (split_relayer md) \<le> 10000"
    using wf own account_ok_metadata [OF dec] by (simp_all add: wf_ledger_def)
  have "acc_data (L (sb_config_router c)) \<noteq> [] \<Longrightarrow> account_ok (acc_data (L (sb_config_router c)))"
    using wf unfolding cfg wf_ledger_def by metis
  then have "unat s \<le> 10000"
    using s md account_ok_config by (auto simp: bid_split_router_def rbind_Inr_iff split: if_splits)
  with md show ?thesis by simp
qed

text \<open>
  Property C27. On reachable ledgers the defensive error of the fee split is dead code and bids up to
  1844674407370955 lamports never overflow: once the accounts of a \<open>submit_bid\<close> are accepted and
  the router's split is read, the split of such a bid succeeds and the shares fit in it.
\<close>

theorem reachable_bids_split:
  assumes "er_reachable pda sys L" and "env_ok pda sys rt tr" and "submit_bid_accounts rt L c = Inr md"
    and "bid_split_router L md (sb_config_router c) = Inr s" and "unat b \<le> 1844674407370955"
  shows "\<exists>fr fl. perform_fee_splits b s (split_relayer md) = Inr (fr, fl) \<and> unat fr + unat fl \<le> unat b"
proof -
  have valid: "unat s \<le> 10000 \<and> unat (split_relayer md) \<le> 10000"
    using er_reachable_wf [OF assms(1)] assms(2-4) by (rule er_wf_split)
  then show ?thesis using perform_fee_splits_small [of s "split_relayer md" b] assms(5) by blast
qed


subsection \<open>Only the admin changes the configuration\<close>

lemma metadata_not_config:
  assumes "load_metadata rt L k = Inr md" and "load_config_router rt' L k = Inr c"
  shows False
  using assms metadata_codec.other_discriminator [of "acc_data (L k)" md config_router_discriminator
      deser_config_router]
  by (simp add: load_metadata_def load_config_router_def load_typed_Inr)

lemma store_changes:
  assumes "store_metadata L j md = Inr L'" and "acc_data (L' k) \<noteq> acc_data (L k)"
  shows "k = j"
proof -
  have "store_front L j (metadata_discriminator @ ser_metadata md) = Inr L'"
    using assms(1) by (simp add: store_metadata_def)
  from store_front_frame(3) [OF this, of k] assms(2) show ?thesis by fastforce
qed

lemma store_config_changes:
  assumes "store_config_router L j c = Inr L'" and "acc_data (L' k) \<noteq> acc_data (L k)"
  shows "k = j"
proof -
  have "store_front L j (config_router_discriminator @ ser_config_router c) = Inr L'"
    using assms(1) by (simp add: store_config_router_def)
  from store_front_frame(3) [OF this, of k] assms(2) show ?thesis by fastforce
qed

lemma create_changes:
  assumes "system_program_ok rt" and "sys_create rt L payer new space EXPRESS_RELAY_ID = Inr L1"
    and "acc_owner (L k) = EXPRESS_RELAY_ID"
  shows "k \<noteq> new \<and> acc_data (L1 k) = acc_data (L k)"
  using assms unfolding system_program_ok_def creates_accounts_def by metis

lemma initialize_keeps:
  assumes "system_program_ok rt" and "initialize rt L payer mdk adm relayer receiver sr sl = Inr L'"
    and "acc_owner (L k) = EXPRESS_RELAY_ID"
  shows "acc_data (L' k) = acc_data (L k)"
proof -
  from assms(2) obtain L1 where
    new: "sys_create rt L payer mdk RESERVE_EXPRESS_RELAY_METADATA EXPRESS_RELAY_ID = Inr L1"
    and store: "store_metadata L1 mdk \<lparr>admin = adm, relayer_signer = relayer, fee_receiver_relayer = receiver,
          split_router_default = sr, split_relayer = sl,
          swap_platform_fee_bps = 0, secondary_relayer_signer = 0\<rparr> = Inr L'"
    unfolding initialize_def rbind_Inr_iff by blast
  from create_changes [OF assms(1) new assms(3)] store_changes [OF store, of k] show ?thesis by metis
qed

lemma set_router_split_keeps:
  assumes "system_program_ok rt" and "set_router_split rt L adm cfg mdk rtr s = Inr L'"
    and "acc_owner (L k) = EXPRESS_RELAY_ID"
    and "try_deserialize metadata_discriminator deser_metadata (acc_data (L k)) = Inr md"
  shows "acc_data (L' k) = acc_data (L k)"
proof -
  from assms(2) obtain L1 where init: "init_config_router rt L adm cfg = Inr L1"
    and store: "store_config_router L1 cfg \<lparr>router = rtr, split = s\<rparr> = Inr L'"
    unfolding set_router_split_def rbind_Inr_iff by blast
  have "k \<noteq> cfg \<and> acc_data (L1 k) = acc_data (L k)"
  proof (cases "acc_owner (L cfg) = system_program_id rt")
    case True
    with init have "sys_create rt L adm cfg RESERVE_EXPRESS_RELAY_CONFIG_ROUTER EXPRESS_RELAY_ID = Inr L1"
      by (simp add: init_config_router_def)
    from create_changes [OF assms(1) this assms(3)] show ?thesis .
  next
    case False
    with init obtain c where "load_config_router rt L cfg = Inr c" and L1: "L1 = L"
      unfolding init_config_router_def by (simp only: if_False rbind_Inr_iff sum.inject) blast
    then have "try_deserialize config_router_discriminator deser_config_router (acc_data (L cfg)) = Inr c"
      by (simp only: load_config_router_def load_typed_Inr)
    moreover have "try_deserialize config_router_discriminator deser_config_router (acc_data (L k)) \<noteq> Inr c"
      using metadata_codec.other_discriminator [OF assms(4), of config_router_discriminator
          deser_config_router] by simp
    ultimately have "k \<noteq> cfg" by metis
    with L1 show ?thesis by simp
  qed
  with store_config_changes [OF store, of k] show ?thesis by metis
qed

text \<open>The instructions of the admin, with the metadata account they write.\<close>

fun admin_instruction :: "er_instruction \<Rightarrow> (pubkey \<times> pubkey) option" where
  "admin_instruction (SetAdmin adm mdk new) = Some (adm, mdk)"
| "admin_instruction (SetRelayer adm mdk relayer receiver) = Some (adm, mdk)"
| "admin_instruction (SetSecondaryRelayer adm mdk k) = Some (adm, mdk)"
| "admin_instruction (SetSplits adm mdk sr sl) = Some (adm, mdk)"
| "admin_instruction (SetSwapPlatformFee adm mdk fee) = Some (adm, mdk)"
| "admin_instruction _ = None"

lemma admin_instruction_runs:
  assumes "admin_instruction i = Some (adm, mdk)" and "exec rt tr L i = Inr L'"
  shows "\<exists>md md'. admin_accounts rt L adm mdk = Inr md \<and> store_metadata L mdk md' = Inr L'"
  using assms
  by (cases i) (auto simp: set_admin_def set_relayer_def set_secondary_relayer_def set_splits_def
      set_swap_platform_fee_def rbind_Inr_iff)

lemma frozen_keeps:
  "frozen sys L L' \<Longrightarrow> acc_owner (L k) = EXPRESS_RELAY_ID \<Longrightarrow> acc_data (L' k) = acc_data (L k)"
  by (simp add: frozen_def)

lemma other_instruction_keeps:
  assumes env: "env_ok pda sys rt tr" and run: "exec rt tr L i = Inr L'" and i: "admin_instruction i = None"
    and own: "acc_owner (L k) = EXPRESS_RELAY_ID"
    and md: "try_deserialize metadata_discriminator deser_metadata (acc_data (L k)) = Inr md"
  shows "acc_data (L' k) = acc_data (L k)"
proof -
  have ok: "system_program_ok rt" "token_program_ok tr" "sys \<notin> set (token_programs tr)"
    using env by (simp_all add: env_ok_def)
  note keeps = frozen_keeps [where L = L and k = k and sys = sys, OF _ own]
  show ?thesis
    using i run ok own md initialize_keeps [where L = L and k = k, OF ok(1) _ own]
      set_router_split_keeps [where L = L and k = k, OF ok(1) _ own md]
      keeps [OF submit_bid_frozen [OF ok(1)]] keeps [OF withdraw_fees_frozen]
      keeps [OF withdraw_spl_frozen [OF ok(2,3)]] keeps [OF swap_internal_frozen [OF ok(2,3)]]
    by (cases i) (auto simp: swap_def swap_v2_def rbind_Inr_iff)
qed



subsection \<open>A concrete run\<close>

definition sample_pda :: "u8 list list \<Rightarrow> pubkey" where
  "sample_pda seeds = (if tl seeds = [] then 100 else 200)"

lemma sample_env_ok: "env_ok sample_pda 0 sample_runtime sample_tokens"
  using sample_system_program_ok sample_token_program_ok
  by (simp add: env_ok_def sample_pda_def fun_eq_iff) (simp add: sample_runtime_def sample_tokens_def)

lemma sample_set_admin:
  "\<exists>L'. exec sample_runtime sample_tokens sample_ledger (SetAdmin 11 100 15) = Inr L' \<and>
     acc_data (L' 100) \<noteq> acc_data (sample_ledger 100)"
proof -
  have acc: "admin_accounts sample_runtime sample_ledger 11 100 = Inr sample_metadata"
    using load_sample_metadata
    by (simp add: admin_accounts_Inr) (simp add: sample_runtime_def sample_metadata_def SEED_METADATA_def)
  let ?md = "sample_metadata\<lparr>admin := 15\<rparr>"
  have old: "try_deserialize metadata_discriminator deser_metadata (acc_data (sample_ledger 100)) = Inr sample_metadata"
    using load_sample_metadata by (simp add: load_metadata_def load_typed_Inr)
  obtain new where "write_front (metadata_discriminator @ ser_metadata ?md) (acc_data (sample_ledger 100)) = Inr new"
    using metadata_codec.rewrite_ok [OF old] by blast
  then have "\<exists>L'. store_metadata sample_ledger 100 ?md = Inr L'"
    by (simp add: store_metadata_def store_front_def)
  then obtain L' where store: "store_metadata sample_ledger 100 ?md = Inr L'" by blast
  from store_metadata_loads [OF store] old have "acc_data (L' 100) \<noteq> acc_data (sample_ledger 100)"
    by (auto simp: sample_metadata_def)
  with acc store show ?thesis by (simp add: set_admin_def)
qed


definition empty_ledger :: ledger where
  "empty_ledger = (\<lambda>_. \<lparr>lamports = 5000, acc_data = [], acc_owner = 0\<rparr>)"

lemma sample_initialised:
  "\<exists>L. er_reachable sample_pda 0 L \<and>
     load_metadata sample_runtime L 100 = Inr (sample_metadata\<lparr>swap_platform_fee_bps := 0, secondary_relayer_signer := 0\<rparr>) \<and>
     acc_data (L 200) = []"
proof -
  let ?md = "sample_metadata\<lparr>swap_platform_fee_bps := 0, secondary_relayer_signer := 0\<rparr>"
  let ?L1 = "empty_ledger(100 := \<lparr>lamports = 420, acc_data = replicate RESERVE_EXPRESS_RELAY_METADATA 0,
      acc_owner = EXPRESS_RELAY_ID\<rparr>)"
  have len: "8 + 152 \<le> length (acc_data (?L1 100))" by (simp add: RESERVE_EXPRESS_RELAY_METADATA_def)
  obtain new where "write_front (metadata_discriminator @ ser_metadata ?md) (acc_data (?L1 100)) = Inr new"
    using metadata_codec.write_front_ok [OF len] by blast
  then have store: "store_metadata ?L1 100 ?md = Inr (?L1(100 := (?L1 100)\<lparr>acc_data := new\<rparr>))"
    by (simp add: store_metadata_def store_front_def)
  define L where "L = ?L1(100 := (?L1 100)\<lparr>acc_data := new\<rparr>)"
  have eq: "\<lparr>admin = 11, relayer_signer = 12, fee_receiver_relayer = 13, split_router_default = 4000,
      split_relayer = 2000, swap_platform_fee_bps = 0, secondary_relayer_signer = 0\<rparr> = ?md"
    by (simp add: sample_metadata_def)
  have "initialize sample_runtime empty_ledger 3 100 11 12 13 4000 2000 = Inr L"
    using store
    by (simp add: initialize_def eq validate_fee_split_def FEE_SPLIT_PRECISION_def constraint_defs)
      (simp add: sample_runtime_def sample_create_def empty_ledger_def SEED_METADATA_def L_def
        RESERVE_EXPRESS_RELAY_METADATA_def)
  then have "exec sample_runtime sample_tokens empty_ledger (Initialize 3 100 11 12 13 4000 2000) = Inr L"
    by simp
  then have "er_step sample_pda 0 empty_ledger L" using sample_env_ok er_step.instruction by blast
  moreover have "er_reachable sample_pda 0 empty_ledger"
    by (rule er_reachable.start) (simp add: genesis_def empty_ledger_def EXPRESS_RELAY_ID_def)
  ultimately have "er_reachable sample_pda 0 L" by (rule er_reachable.step [rotated])
  moreover have "load_metadata sample_runtime L 100 = Inr ?md"
    using store_metadata_loads [OF store]
    by (simp add: load_metadata_def load_typed_Inr L_def sample_runtime_def EXPRESS_RELAY_ID_def)
  moreover have "acc_data (L 200) = []" by (simp add: L_def empty_ledger_def)
  ultimately show ?thesis by blast
qed

theorem reachable_configuration_valid_witness:
  "\<exists>L md. er_reachable sample_pda 0 L \<and> load_metadata sample_runtime L 100 = Inr md \<and>
     unat (split_router_default md) \<le> 10000"
proof -
  obtain L where L: "er_reachable sample_pda 0 L" and md: "load_metadata sample_runtime L 100 =
      Inr (sample_metadata\<lparr>swap_platform_fee_bps := 0, secondary_relayer_signer := 0\<rparr>)"
    using sample_initialised by blast
  with reachable_configuration_valid [OF L md] show ?thesis by blast
qed

theorem reachable_bids_split_witness:
  "\<exists>fr fl. perform_fee_splits 1000 4000 2000 = Inr (fr, fl) \<and> unat fr + unat fl \<le> 1000"
proof -
  let ?md = "sample_metadata\<lparr>swap_platform_fee_bps := 0, secondary_relayer_signer := 0\<rparr>"
  obtain L where L: "er_reachable sample_pda 0 L" and md: "load_metadata sample_runtime L 100 = Inr ?md"
    and cfg: "acc_data (L 200) = []"
    using sample_initialised by blast
  have acc: "submit_bid_accounts sample_runtime L sample_bid = Inr ?md"
    by (simp add: submit_bid_accounts_Inr sample_bid_def md)
      (simp add: sample_runtime_def sample_metadata_def SEED_METADATA_def SEED_CONFIG_ROUTER_def)
  have s: "bid_split_router L ?md (sb_config_router sample_bid) = Inr 4000"
    using cfg by (simp add: bid_split_router_def sample_bid_def sample_metadata_def)
  from reachable_bids_split [OF L sample_env_ok acc s, of 1000] show ?thesis
    by (simp add: sample_metadata_def)
qed

end
