(* ===== verification/As_Bid.thy ===== *)
theory As_Bid
  imports Er_State
begin

section \<open>Auction server: bids and auctions\<close>

text \<open>
  The entities of \<open>auction/entities/bid.rs\<close> and \<open>auction/entities/auction.rs\<close>. Ids are
  128-bit words (UUIDs), signatures 512-bit words, times integers (nanoseconds), chain ids strings.
  Of a transaction the server's auction logic uses its signatures and its message; the type of
  messages stays a type variable.
\<close>

type_synonym uuid = "128 word"
type_synonym signature = "512 word"
type_synonym time = int

definition seconds :: "int \<Rightarrow> time" where
  "seconds n = n * 1000000000"

record 'm transaction =
  signatures :: "signature list"
  message :: 'm


subsection \<open>Status\<close>

record BidStatusAuction =
  sa_id :: uuid
  sa_tx_hash :: signature

datatype BidSubmissionFailedReason = SubmissionCancelled | SubmissionDeadlinePassed

datatype BidFailedReason =
    FailedInsufficientUserFunds | FailedInsufficientSearcherFunds | FailedInsufficientFundsSolTransfer
  | FailedDeadlinePassed | FailedOther

datatype InstructionError = Custom u32 | OtherInstructionError nat

datatype TransactionError = InstructionError u8 InstructionError | OtherTransactionError nat

definition get_failed_reason_from_transaction_error :: "TransactionError \<Rightarrow> BidFailedReason" where
  "get_failed_reason_from_transaction_error e =
     (case e of
        InstructionError _ (Custom code) \<Rightarrow>
          if code = 1 then FailedInsufficientFundsSolTransfer
          else if code = error_number DeadlinePassed then FailedDeadlinePassed
          else if code = error_number InsufficientSearcherFunds then FailedInsufficientSearcherFunds
          else if code = error_number InsufficientUserFunds then FailedInsufficientUserFunds
          else FailedOther
      | _ \<Rightarrow> FailedOther)"

datatype BidStatusSvm =
    Pending
  | AwaitingSignature BidStatusAuction
  | SentToUserForSubmission BidStatusAuction
  | Submitted BidStatusAuction
  | Lost "BidStatusAuction option"
  | Won BidStatusAuction
  | Failed BidStatusAuction "BidFailedReason option"
  | Expired BidStatusAuction
  | Cancelled BidStatusAuction
  | SubmissionFailed BidStatusAuction BidSubmissionFailedReason

fun is_pending :: "BidStatusSvm \<Rightarrow> bool" where
  "is_pending Pending = True" | "is_pending _ = False"

fun is_awaiting_signature :: "BidStatusSvm \<Rightarrow> bool" where
  "is_awaiting_signature (AwaitingSignature _) = True" | "is_awaiting_signature _ = False"

fun is_sent_to_user_for_submission :: "BidStatusSvm \<Rightarrow> bool" where
  "is_sent_to_user_for_submission (SentToUserForSubmission _) = True"
| "is_sent_to_user_for_submission _ = False"

fun is_submitted :: "BidStatusSvm \<Rightarrow> bool" where
  "is_submitted (Submitted _) = True" | "is_submitted _ = False"

fun is_cancelled :: "BidStatusSvm \<Rightarrow> bool" where
  "is_cancelled (Cancelled _) = True" | "is_cancelled _ = False"

fun is_concluded :: "BidStatusSvm \<Rightarrow> bool" where
  "is_concluded (Lost _) = True" | "is_concluded (Won _) = True" | "is_concluded (Failed _ _) = True"
| "is_concluded (Expired _) = True" | "is_concluded (Cancelled _) = True"
| "is_concluded (SubmissionFailed _ _) = True"
| "is_concluded _ = False"

definition new_lost :: BidStatusSvm where
  "new_lost = Lost None"

fun get_auction_id :: "BidStatusSvm \<Rightarrow> uuid option" where
  "get_auction_id Pending = None"
| "get_auction_id (AwaitingSignature a) = Some (sa_id a)"
| "get_auction_id (SentToUserForSubmission a) = Some (sa_id a)"
| "get_auction_id (Submitted a) = Some (sa_id a)"
| "get_auction_id (Lost a) = map_option sa_id a"
| "get_auction_id (Won a) = Some (sa_id a)"
| "get_auction_id (Failed a _) = Some (sa_id a)"
| "get_auction_id (Expired a) = Some (sa_id a)"
| "get_auction_id (Cancelled a) = Some (sa_id a)"
| "get_auction_id (SubmissionFailed a _) = Some (sa_id a)"

lemma concluded_or_live:
  "is_concluded s \<or> is_pending s \<or> is_awaiting_signature s \<or> is_sent_to_user_for_submission s \<or> is_submitted s"
  by (cases s) simp_all


subsection \<open>Chain data and permission keys\<close>

datatype BidPaymentInstructionType = SubmitBidPayment | SwapPayment

record 'm BidChainDataSvm =
  cd_transaction :: "'m transaction"
  bid_payment_instruction_type :: BidPaymentInstructionType
  cd_router :: pubkey
  cd_permission_account :: pubkey

definition payment_type_byte :: "BidPaymentInstructionType \<Rightarrow> u8" where
  "payment_type_byte t = (case t of SubmitBidPayment \<Rightarrow> 0 | SwapPayment \<Rightarrow> 1)"

definition payment_type_from_repr :: "nat \<Rightarrow> BidPaymentInstructionType option" where
  "payment_type_from_repr n =
     (if n = 0 then Some SubmitBidPayment else if n = 1 then Some SwapPayment else None)"

definition get_permission_key :: "'m BidChainDataSvm \<Rightarrow> u8 list" where
  "get_permission_key c =
     [payment_type_byte (bid_payment_instruction_type c)] @ to_le 32 (cd_router c) @
     to_le 32 (cd_permission_account c)"

definition get_bid_payment_instruction_type :: "u8 list \<Rightarrow> BidPaymentInstructionType option" where
  "get_bid_payment_instruction_type key = payment_type_from_repr (unat (hd key))"

definition get_router :: "u8 list \<Rightarrow> pubkey" where
  "get_router key = of_le (take 32 (drop 1 key))"

definition get_permission_account :: "u8 list \<Rightarrow> pubkey" where
  "get_permission_account key = of_le (drop 33 key)"

lemma length_permission_key [simp]: "length (get_permission_key c) = 65"
  by (simp add: get_permission_key_def)

lemma permission_key_parts [simp]:
  "get_bid_payment_instruction_type (get_permission_key c) = Some (bid_payment_instruction_type c)"
  "get_router (get_permission_key c) = cd_router c"
  "get_permission_account (get_permission_key c) = cd_permission_account c"
  by (simp_all add: get_permission_key_def get_bid_payment_instruction_type_def get_router_def
      get_permission_account_def payment_type_byte_def payment_type_from_repr_def
      split: BidPaymentInstructionType.split)


subsection \<open>Bids and auctions\<close>

record 'm Bid =
  b_id :: uuid
  b_chain_id :: string
  b_initiation_time :: time
  b_profile_id :: "uuid option"
  b_opportunity_id :: "uuid option"
  b_creation_time :: time
  b_conclusion_time :: "time option"
  b_submission_time :: "time option"
  b_amount :: u64
  b_status :: BidStatusSvm
  b_chain_data :: "'m BidChainDataSvm"

record 'm Auction =
  a_id :: uuid
  a_chain_id :: string
  a_permission_key :: "u8 list"
  a_creation_time :: time
  a_conclusion_time :: "time option"
  a_bid_collection_time :: time
  a_submission_time :: "time option"
  a_tx_hash :: "signature option"
  a_bids :: "'m Bid list"

text \<open>\<open>new_id\<close> and \<open>now\<close> are the fresh UUID and the clock reading the code obtains.\<close>

definition Auction_try_new :: "uuid \<Rightarrow> time \<Rightarrow> 'm Bid list \<Rightarrow> time \<Rightarrow> 'm Auction option" where
  "Auction_try_new new_id now bids bid_collection_time =
     (let bs = filter (\<lambda>b. is_pending (b_status b)) bids
      in case bs of
           [] \<Rightarrow> None
         | b # _ \<Rightarrow> Some \<lparr>a_id = new_id, a_chain_id = b_chain_id b,
             a_permission_key = get_permission_key (b_chain_data b), a_creation_time = now,
             a_conclusion_time = None, a_bid_collection_time = bid_collection_time,
             a_submission_time = None, a_tx_hash = None, a_bids = bs\<rparr>)"

definition is_ready :: "'m Auction \<Rightarrow> time \<Rightarrow> bool" where
  "is_ready a auction_minimum_lifetime \<longleftrightarrow>
     (\<exists>b\<in>set (a_bids a). a_bid_collection_time a - b_initiation_time b > auction_minimum_lifetime)"

lemma Auction_try_new_Some:
  "Auction_try_new i now bids t = Some a \<Longrightarrow>
     a_bids a = filter (\<lambda>b. is_pending (b_status b)) bids \<and> a_bids a \<noteq> [] \<and> a_id a = i \<and>
     a_permission_key a = get_permission_key (b_chain_data (hd (a_bids a))) \<and>
     a_bid_collection_time a = t \<and> a_submission_time a = None \<and> a_tx_hash a = None"
  by (auto simp: Auction_try_new_def Let_def split: list.splits)

text \<open>
  The reason recorded for a failed bid names exactly the program error the transaction
  ended with: the program's codes for a passed deadline and missing funds of user or searcher are
  recognised, code 1 is the failed lamport transfer, and no other program error is mistaken for
  one of them.
\<close>

theorem failed_reason_names_program_error:
  "get_failed_reason_from_transaction_error (InstructionError i (Custom (error_number e))) =
     (case e of
        DeadlinePassed \<Rightarrow> FailedDeadlinePassed
      | InsufficientUserFunds \<Rightarrow> FailedInsufficientUserFunds
      | InsufficientSearcherFunds \<Rightarrow> FailedInsufficientSearcherFunds
      | _ \<Rightarrow> FailedOther) \<and>
   get_failed_reason_from_transaction_error (InstructionError i (Custom 1)) =
     FailedInsufficientFundsSolTransfer"
  by (cases e) (simp_all add: get_failed_reason_from_transaction_error_def)

end
