(* ===== verification/As_Errors.thy ===== *)
theory As_Errors
  imports Er_Fees
begin

section \<open>Auction server: errors of the API\<close>

text \<open>
  The error types of \<open>api.rs\<close> with their payloads, and the HTTP status each error answers with
  (of the texts of messages only the fixed part is modelled). A constructor's payloads are in the order of the
  source; where the source names them \<open>expected\<close> and \<open>found\<close> the expected one is first.
\<close>

datatype InstructionValidationError =
    ProgramIdIndexOutOfBounds
  | UnsupportedSystemProgramInstruction
  | InvalidSplTokenInstruction
  | UnsupportedSplTokenInstruction string
  | InvalidAssociatedTokenAccountInstruction
  | UnsupportedAssociatedTokenAccountInstruction
  | UnsupportedProgram pubkey
  | TransferInstructionNotAllowed
  | CloseAccountInstructionNotAllowed
  | InvalidTransferInstructionsCount
  | InvalidFromAccountTransferInstruction pubkey pubkey
  | InvalidToAccountTransferInstruction pubkey pubkey
  | InvalidAmountTransferInstruction u64 u64
  | InvalidSyncNativeInstructionCount pubkey
  | InvalidCloseAccountInstructionCountUser nat
  | InvalidCloseAccountInstructionCountSearcher nat
  | InvalidAccountToCloseInCloseAccountInstruction pubkey
  | InvalidDestinationCloseAccountInstruction pubkey pubkey
  | InvalidOwnerCloseAccountInstruction pubkey pubkey
  | InvalidMintInCreateAtaInstruction pubkey pubkey
  | InvalidOwnerInCreateAtaInstruction pubkey pubkey
  | InvalidPayerInCreateAtaInstruction pubkey pubkey
  | InvalidTokenProgramInCreateAtaInstruction pubkey pubkey
  | InvalidSystemProgramInCreateAtaInstruction pubkey
  | MissingCreateAtaInstruction pubkey
  | InvalidMemoInstructionCount nat nat
  | InvalidMemoString "u8 list" "u8 list"

datatype SwapInstructionError =
    UserWalletAddressMismatch pubkey pubkey
  | MintSearcherMismatch pubkey pubkey
  | MintUserMismatch pubkey pubkey
  | TokenProgramSearcherMismatch pubkey pubkey
  | TokenProgramUserMismatch pubkey pubkey
  | AmountSearcherMismatch u64 u64
  | AmountUserMismatch u64 u64
  | FeeTokenMismatch FeeToken FeeToken
  | ReferralFeeMismatch u64 u64
  | PlatformFeeMismatch u64 u64
  | AssociatedRouterTokenAccountMismatch pubkey pubkey

datatype RestError =
    BadParameters string
  | InvalidOpportunity string
  | InvalidChainId
  | SimulationError string
  | OpportunityNotFound
  | BidNotFound
  | TemporarilyUnavailable
  | InvalidToken
  | Forbidden
  | Unauthorized
  | ProfileNotFound
  | QuoteNotFound
  | DuplicateOpportunity
  | SwapOpportunityNotFound
  | TransactionSizeTooLarge u64 nat
  | MultipleSetComputeUnitPriceInstructions
  | SetComputeUnitPriceInstructionNotFound u64
  | LowComputeUnitPrice u64
  | InvalidInstruction "nat option" InstructionValidationError
  | InvalidExpressRelayInstructionCount nat
  | InvalidSwapInstruction SwapInstructionError
  | InvalidDeadline int int
  | DeadlineTooLate int int
  | InvalidSignature pubkey
  | RelayerNotSigner pubkey
  | InvalidFirstSigner string
  | DuplicateBid
  | TooManyOpenWebsocketConnections
  | QuoteIsExpired
  | QuoteIsCancelled
  | QuoteIsFinalized
  | TokenMintNotAllowed string string
  | CancelQuoteAccessRevoked

text \<open>How a handler can stop early: with an error of type \<open>'e\<close>, or by a panic that aborts its task.\<close>

datatype 'e stop = Fails 'e | Panics

type_synonym 'a rest = "RestError stop + 'a"

fun rest_status :: "RestError \<Rightarrow> nat" where
  "rest_status InvalidChainId = 404"
| "rest_status OpportunityNotFound = 404"
| "rest_status BidNotFound = 404"
| "rest_status ProfileNotFound = 404"
| "rest_status QuoteNotFound = 404"
| "rest_status (TokenMintNotAllowed _ _) = 404"
| "rest_status TemporarilyUnavailable = 503"
| "rest_status InvalidToken = 401"
| "rest_status Unauthorized = 401"
| "rest_status Forbidden = 403"
| "rest_status CancelQuoteAccessRevoked = 403"
| "rest_status TooManyOpenWebsocketConnections = 429"
| "rest_status QuoteIsExpired = 410"
| "rest_status QuoteIsCancelled = 409"
| "rest_status QuoteIsFinalized = 409"
| "rest_status _ = 400"

end
