(* ===== verification/As_Db.thy ===== *)
theory As_Db
  imports As_Bid As_Errors
begin

section \<open>Auction server: the tables of bids and auctions\<close>

text \<open>
  The rows of \<open>auction/repository/models.rs\<close>, the conversions between rows and entities, and the
  queries of \<open>impl Database for DB\<close> on a store of rows keyed by id (both tables have the id as
  primary key; the foreign key between them is dropped by the migrations). \<open>db_up\<close> says whether
  the database answers; a query that does not reach it returns an error and changes nothing.
  \<open>now\<close> is the clock reading a query takes.
\<close>

datatype anyhow =
    DbError | BadTxHash | BadAmount | NoSignature | NoAuction | BadPermissionKey | BadPaymentType
  | CannotUpdateToPending | RpcError | NoWinner | UnexpectedStatus | Rest RestError

datatype DbBidStatus =
    DbPending | DbAwaitingSignature | DbSentToUserForSubmission | DbSubmitted | DbLost | DbWon
  | DbFailed | DbExpired | DbCancelled | DbSubmissionFailedCancelled | DbSubmissionFailedDeadlinePassed

datatype BidStatusReason =
    ReasonInsufficientUserFunds | ReasonInsufficientSearcherFunds | ReasonInsufficientFundsSolTransfer
  | ReasonDeadlinePassed | ReasonOther

fun reason_to_entity :: "BidStatusReason \<Rightarrow> BidFailedReason" where
  "reason_to_entity ReasonDeadlinePassed = FailedDeadlinePassed"
| "reason_to_entity ReasonInsufficientUserFunds = FailedInsufficientUserFunds"
| "reason_to_entity ReasonInsufficientSearcherFunds = FailedInsufficientSearcherFunds"
| "reason_to_entity ReasonInsufficientFundsSolTransfer = FailedInsufficientFundsSolTransfer"
| "reason_to_entity ReasonOther = FailedOther"

fun reason_from_entity :: "BidFailedReason \<Rightarrow> BidStatusReason" where
  "reason_from_entity FailedDeadlinePassed = ReasonDeadlinePassed"
| "reason_from_entity FailedInsufficientUserFunds = ReasonInsufficientUserFunds"
| "reason_from_entity FailedInsufficientSearcherFunds = ReasonInsufficientSearcherFunds"
| "reason_from_entity FailedInsufficientFundsSolTransfer = ReasonInsufficientFundsSolTransfer"
| "reason_from_entity FailedOther = ReasonOther"

lemma reason_round_trip [simp]:
  "reason_to_entity (reason_from_entity r) = r" "reason_from_entity (reason_to_entity s) = s"
  by (cases r; simp) (cases s; simp)

record AuctionRow =
  ar_id :: uuid
  ar_creation_time :: time
  ar_conclusion_time :: "time option"
  ar_permission_key :: "u8 list"
  ar_chain_id :: string
  ar_tx_hash :: "u8 list option"
  ar_bid_collection_time :: "time option"
  ar_submission_time :: "time option"

record 'm BidRow =
  r_id :: uuid
  r_creation_time :: time
  r_permission_key :: "u8 list"
  r_chain_id :: string
  r_bid_amount :: int
  r_status :: DbBidStatus
  r_auction_id :: "uuid option"
  r_initiation_time :: time
  r_conclusion_time :: "time option"
  r_profile_id :: "uuid option"
  r_transaction :: "'m transaction"
  r_status_reason :: "BidStatusReason option"


subsection \<open>Conversions\<close>

definition convert_tx_hash :: "signature \<Rightarrow> u8 list" where
  "convert_tx_hash = to_le 64"

definition get_bid_status_auction_entity :: "AuctionRow option \<Rightarrow> anyhow + BidStatusAuction option" where
  "get_bid_status_auction_entity auction =
     (case auction of
        None \<Rightarrow> Inr None
      | Some a \<Rightarrow>
         (case ar_tx_hash a of
            None \<Rightarrow> Inr None
          | Some h \<Rightarrow>
             if length h = 64 then Inr (Some \<lparr>sa_id = ar_id a, sa_tx_hash = of_le h\<rparr>) else Inl BadTxHash))"

definition get_bid_amount_entity :: "'m BidRow \<Rightarrow> anyhow + u64" where
  "get_bid_amount_entity r =
     (if 0 \<le> r_bid_amount r \<and> r_bid_amount r < 2 ^ 64 then Inr (of_int (r_bid_amount r)) else Inl BadAmount)"

fun get_bid_status_reason :: "BidStatusSvm \<Rightarrow> BidStatusReason option" where
  "get_bid_status_reason (Failed _ reason) = map_option reason_from_entity reason"
| "get_bid_status_reason _ = None"

definition get_chain_data_entity :: "'m BidRow \<Rightarrow> anyhow + 'm BidChainDataSvm" where
  "get_chain_data_entity r =
     rbind (if length (r_permission_key r) = 64
            then Inr (payment_type_byte SubmitBidPayment # r_permission_key r)
            else if length (r_permission_key r) = 65 then Inr (r_permission_key r)
            else Inl BadPermissionKey) (\<lambda>key.
     rbind (ok_or (get_bid_payment_instruction_type key) BadPaymentType) (\<lambda>t.
       Inr \<lparr>cd_transaction = r_transaction r, bid_payment_instruction_type = t,
            cd_router = get_router key, cd_permission_account = get_permission_account key\<rparr>))"

definition get_bid_status_entity :: "'m BidRow \<Rightarrow> AuctionRow option \<Rightarrow> anyhow + BidStatusSvm" where
  "get_bid_status_entity r auction =
     rbind (get_chain_data_entity r) (\<lambda>c.
     rbind (case signatures (cd_transaction c) of [] \<Rightarrow> Inl NoSignature | s # _ \<Rightarrow> Inr s) (\<lambda>sig.
       case r_status r of
         DbPending \<Rightarrow> Inr Pending
       | DbLost \<Rightarrow> rbind (get_bid_status_auction_entity auction) (\<lambda>a. Inr (Lost a))
       | st \<Rightarrow>
          (case auction of
             None \<Rightarrow> Inl NoAuction
           | Some a \<Rightarrow>
              let sa = \<lparr>sa_id = ar_id a, sa_tx_hash = sig\<rparr>
              in Inr (case st of
                   DbAwaitingSignature \<Rightarrow> AwaitingSignature sa
                 | DbSentToUserForSubmission \<Rightarrow> SentToUserForSubmission sa
                 | DbSubmitted \<Rightarrow> Submitted sa
                 | DbWon \<Rightarrow> Won sa
                 | DbExpired \<Rightarrow> Expired sa
                 | DbFailed \<Rightarrow> Failed sa (map_option reason_to_entity (r_status_reason r))
                 | DbCancelled \<Rightarrow> Cancelled sa
                 | DbSubmissionFailedCancelled \<Rightarrow> SubmissionFailed sa SubmissionCancelled
                 | _ \<Rightarrow> SubmissionFailed sa SubmissionDeadlinePassed))))"

fun convert_bid_status :: "BidStatusSvm \<Rightarrow> DbBidStatus" where
  "convert_bid_status Pending = DbPending"
| "convert_bid_status (AwaitingSignature _) = DbAwaitingSignature"
| "convert_bid_status (SentToUserForSubmission _) = DbSentToUserForSubmission"
| "convert_bid_status (Submitted _) = DbSubmitted"
| "convert_bid_status (Lost _) = DbLost"
| "convert_bid_status (Won _) = DbWon"
| "convert_bid_status (Failed _ _) = DbFailed"
| "convert_bid_status (Expired _) = DbExpired"
| "convert_bid_status (Cancelled _) = DbCancelled"
| "convert_bid_status (SubmissionFailed _ SubmissionCancelled) = DbSubmissionFailedCancelled"
| "convert_bid_status (SubmissionFailed _ SubmissionDeadlinePassed) = DbSubmissionFailedDeadlinePassed"

definition get_bid_entity ::
  "'m BidRow \<Rightarrow> AuctionRow option \<Rightarrow> uuid option \<Rightarrow> anyhow + 'm Bid" where
  "get_bid_entity r auction opportunity_id =
     rbind (get_bid_amount_entity r) (\<lambda>amount.
     rbind (get_bid_status_entity r auction) (\<lambda>status.
     rbind (get_chain_data_entity r) (\<lambda>chain_data.
       Inr \<lparr>b_id = r_id r, b_chain_id = r_chain_id r, b_initiation_time = r_initiation_time r,
            b_profile_id = r_profile_id r, b_opportunity_id = opportunity_id,
            b_creation_time = r_creation_time r, b_conclusion_time = r_conclusion_time r,
            b_submission_time = Option.bind auction ar_submission_time, b_amount = amount,
            b_status = status, b_chain_data = chain_data\<rparr>)))"

definition BidRow_new ::
  "uuid \<Rightarrow> time \<Rightarrow> string \<Rightarrow> time \<Rightarrow> uuid option \<Rightarrow> u64 \<Rightarrow> 'm BidChainDataSvm \<Rightarrow> 'm BidRow" where
  "BidRow_new new_id now chain_id initiation_time profile_id amount chain_data =
     \<lparr>r_id = new_id, r_creation_time = now, r_permission_key = get_permission_key chain_data,
      r_chain_id = chain_id, r_bid_amount = uint amount, r_status = DbPending, r_auction_id = None,
      r_initiation_time = initiation_time, r_conclusion_time = None, r_profile_id = profile_id,
      r_transaction = cd_transaction chain_data, r_status_reason = None\<rparr>"


subsection \<open>The update of a bid's status\<close>

text \<open>
  An \<open>UPDATE bid SET ... WHERE id = ... AND status IN (...)\<close>: the columns it sets (\<open>None\<close> leaves
  a column as it is) and the statuses it accepts.
\<close>

record bid_update =
  bu_status :: DbBidStatus
  bu_auction_id :: "uuid option"
  bu_conclusion_time :: "time option"
  bu_status_reason :: "BidStatusReason option"
  bu_where :: "DbBidStatus list"

fun get_update_bid_query :: "BidStatusSvm \<Rightarrow> time \<Rightarrow> anyhow + (bid_update \<times> time option)" where
  "get_update_bid_query Pending now = Inl CannotUpdateToPending"
| "get_update_bid_query (AwaitingSignature a) now =
     Inr (\<lparr>bu_status = DbAwaitingSignature, bu_auction_id = Some (sa_id a), bu_conclusion_time = None,
           bu_status_reason = None, bu_where = [DbPending]\<rparr>, None)"
| "get_update_bid_query (SentToUserForSubmission a) now =
     Inr (\<lparr>bu_status = DbSentToUserForSubmission, bu_auction_id = Some (sa_id a), bu_conclusion_time = None,
           bu_status_reason = None, bu_where = [DbPending]\<rparr>, None)"
| "get_update_bid_query (Submitted a) now =
     Inr (\<lparr>bu_status = DbSubmitted, bu_auction_id = Some (sa_id a), bu_conclusion_time = None,
           bu_status_reason = None,
           bu_where = [DbPending, DbAwaitingSignature, DbSentToUserForSubmission]\<rparr>, None)"
| "get_update_bid_query (Lost (Some a)) now =
     Inr (\<lparr>bu_status = DbLost, bu_auction_id = Some (sa_id a), bu_conclusion_time = Some now,
           bu_status_reason = None, bu_where = [DbPending]\<rparr>, Some now)"
| "get_update_bid_query (Lost None) now =
     Inr (\<lparr>bu_status = DbLost, bu_auction_id = None, bu_conclusion_time = Some now,
           bu_status_reason = None, bu_where = [DbPending]\<rparr>, Some now)"
| "get_update_bid_query (Won a) now =
     Inr (\<lparr>bu_status = DbWon, bu_auction_id = None, bu_conclusion_time = Some now,
           bu_status_reason = None, bu_where = [DbSubmitted, DbSentToUserForSubmission]\<rparr>, Some now)"
| "get_update_bid_query (Failed a reason) now =
     Inr (\<lparr>bu_status = DbFailed, bu_auction_id = None, bu_conclusion_time = Some now,
           bu_status_reason = map_option reason_from_entity reason,
           bu_where = [DbSubmitted, DbSentToUserForSubmission]\<rparr>, Some now)"
| "get_update_bid_query (Expired a) now =
     Inr (\<lparr>bu_status = DbExpired, bu_auction_id = Some (sa_id a), bu_conclusion_time = Some now,
           bu_status_reason = None,
           bu_where = [DbPending, DbSubmitted, DbAwaitingSignature, DbSentToUserForSubmission]\<rparr>, Some now)"
| "get_update_bid_query (Cancelled a) now =
     Inr (\<lparr>bu_status = DbCancelled, bu_auction_id = Some (sa_id a), bu_conclusion_time = Some now,
           bu_status_reason = None, bu_where = [DbAwaitingSignature]\<rparr>, Some now)"
| "get_update_bid_query (SubmissionFailed a SubmissionCancelled) now =
     Inr (\<lparr>bu_status = DbSubmissionFailedCancelled, bu_auction_id = Some (sa_id a),
           bu_conclusion_time = Some now, bu_status_reason = None, bu_where = [DbCancelled]\<rparr>, Some now)"
| "get_update_bid_query (SubmissionFailed a SubmissionDeadlinePassed) now =
     Inr (\<lparr>bu_status = DbSubmissionFailedDeadlinePassed, bu_auction_id = Some (sa_id a),
           bu_conclusion_time = Some now, bu_status_reason = None,
           bu_where = [DbAwaitingSignature, DbSentToUserForSubmission, DbCancelled]\<rparr>, Some now)"

definition set_or :: "'a option \<Rightarrow> 'a option \<Rightarrow> 'a option" where
  "set_or new old = (case new of Some x \<Rightarrow> Some x | None \<Rightarrow> old)"

definition apply_update :: "bid_update \<Rightarrow> 'm BidRow \<Rightarrow> 'm BidRow" where
  "apply_update u r = r\<lparr>r_status := bu_status u, r_auction_id := set_or (bu_auction_id u) (r_auction_id r),
     r_conclusion_time := set_or (bu_conclusion_time u) (r_conclusion_time r),
     r_status_reason := set_or (bu_status_reason u) (r_status_reason r)\<rparr>"


subsection \<open>Queries\<close>

record 'm db =
  db_up :: bool
  db_bids :: "uuid \<Rightarrow> 'm BidRow option"
  db_auctions :: "uuid \<Rightarrow> AuctionRow option"

definition AuctionRow_of :: "'m Auction \<Rightarrow> AuctionRow" where
  "AuctionRow_of a =
     \<lparr>ar_id = a_id a, ar_creation_time = a_creation_time a, ar_conclusion_time = None,
      ar_permission_key = a_permission_key a, ar_chain_id = a_chain_id a,
      ar_tx_hash = map_option convert_tx_hash (a_tx_hash a),
      ar_bid_collection_time = Some (a_bid_collection_time a), ar_submission_time = None\<rparr>"

definition db_add_auction :: "'m db \<Rightarrow> 'm Auction \<Rightarrow> anyhow + 'm db" where
  "db_add_auction d a =
     (if \<not> db_up d \<or> db_auctions d (a_id a) \<noteq> None then Inl DbError
      else Inr (d\<lparr>db_auctions := (db_auctions d)(a_id a \<mapsto> AuctionRow_of a)\<rparr>))"

definition db_add_bid :: "'m db \<Rightarrow> 'm BidRow \<Rightarrow> RestError + 'm db" where
  "db_add_bid d r =
     (if \<not> db_up d \<or> db_bids d (r_id r) \<noteq> None then Inl TemporarilyUnavailable
      else Inr (d\<lparr>db_bids := (db_bids d)(r_id r \<mapsto> r)\<rparr>))"

definition db_conclude_auction :: "'m db \<Rightarrow> uuid \<Rightarrow> time \<Rightarrow> anyhow + 'm db" where
  "db_conclude_auction d i now =
     (if \<not> db_up d then Inl DbError
      else case db_auctions d i of
             Some a \<Rightarrow>
               if ar_conclusion_time a = None
               then Inr (d\<lparr>db_auctions := (db_auctions d)(i \<mapsto> a\<lparr>ar_conclusion_time := Some now\<rparr>)\<rparr>)
               else Inr d
           | None \<Rightarrow> Inr d)"

definition db_get_bid :: "'m db \<Rightarrow> uuid \<Rightarrow> string \<Rightarrow> RestError + 'm BidRow" where
  "db_get_bid d i chain_id =
     (if \<not> db_up d then Inl TemporarilyUnavailable
      else case db_bids d i of
             Some r \<Rightarrow> if r_chain_id r = chain_id then Inr r else Inl BidNotFound
           | None \<Rightarrow> Inl BidNotFound)"

definition db_get_auction :: "'m db \<Rightarrow> uuid \<Rightarrow> RestError + AuctionRow" where
  "db_get_auction d i =
     (if \<not> db_up d then Inl TemporarilyUnavailable
      else ok_or (db_auctions d i) TemporarilyUnavailable)"

definition db_submit_auction ::
  "'m db \<Rightarrow> 'm Auction \<Rightarrow> signature \<Rightarrow> time \<Rightarrow> anyhow + ('m db \<times> 'm Auction option)" where
  "db_submit_auction d a transaction_hash now =
     (if \<not> db_up d then Inl DbError
      else case db_auctions d (a_id a) of
             Some row \<Rightarrow>
               if ar_submission_time row = None
               then Inr (d\<lparr>db_auctions := (db_auctions d)(a_id a \<mapsto> row\<lparr>ar_submission_time := Some now,
                             ar_tx_hash := Some (convert_tx_hash transaction_hash)\<rparr>)\<rparr>,
                         Some (a\<lparr>a_tx_hash := Some transaction_hash, a_submission_time := Some now\<rparr>))
               else Inr (d, None)
           | None \<Rightarrow> Inr (d, None))"

definition db_update_bid_status ::
  "'m db \<Rightarrow> uuid \<Rightarrow> BidStatusSvm \<Rightarrow> time \<Rightarrow> anyhow + ('m db \<times> bool \<times> time option)" where
  "db_update_bid_status d i new_status now =
     rbind (get_update_bid_query new_status now) (\<lambda>(u, conclusion).
       if \<not> db_up d then Inl DbError
       else case db_bids d i of
              Some r \<Rightarrow>
                if r_status r \<in> set (bu_where u)
                then Inr (d\<lparr>db_bids := (db_bids d)(i \<mapsto> apply_update u r)\<rparr>, True, conclusion)
                else Inr (d, False, conclusion)
            | None \<Rightarrow> Inr (d, False, conclusion))"


subsection \<open>The life of a bid in the database\<close>

definition concluded_db :: "DbBidStatus \<Rightarrow> bool" where
  "concluded_db s \<longleftrightarrow> s \<notin> {DbPending, DbAwaitingSignature, DbSentToUserForSubmission, DbSubmitted}"

text \<open>How far a bid has come: every accepted update moves it forward.\<close>

fun progress :: "DbBidStatus \<Rightarrow> nat" where
  "progress DbPending = 0"
| "progress DbAwaitingSignature = 1"
| "progress DbSentToUserForSubmission = 1"
| "progress DbSubmitted = 2"
| "progress DbCancelled = 2"
| "progress _ = 3"

definition bid_row_ok :: "uuid \<Rightarrow> 'm BidRow \<Rightarrow> bool" where
  "bid_row_ok i r \<longleftrightarrow>
     r_id r = i \<and> length (r_permission_key r) = 65 \<and> 0 \<le> r_bid_amount r \<and> r_bid_amount r < 2 ^ 64 \<and>
     (r_conclusion_time r \<noteq> None \<longleftrightarrow> concluded_db (r_status r)) \<and>
     (r_auction_id r = None \<longrightarrow> r_status r \<in> {DbPending, DbLost}) \<and>
     (r_status r = DbPending \<longrightarrow> r_auction_id r = None) \<and>
     (r_status_reason r \<noteq> None \<longrightarrow> r_status r = DbFailed)"

definition auction_row_ok :: "uuid \<Rightarrow> AuctionRow \<Rightarrow> bool" where
  "auction_row_ok i a \<longleftrightarrow>
     ar_id a = i \<and> (ar_submission_time a \<noteq> None \<longleftrightarrow> ar_tx_hash a \<noteq> None) \<and>
     (\<forall>h. ar_tx_hash a = Some h \<longrightarrow> length h = 64)"

definition db_ok :: "'m db \<Rightarrow> bool" where
  "db_ok d \<longleftrightarrow>
     (\<forall>i r. db_bids d i = Some r \<longrightarrow> bid_row_ok i r) \<and>
     (\<forall>i a. db_auctions d i = Some a \<longrightarrow> auction_row_ok i a)"

text \<open>The writes of the server, and the database becoming unreachable or reachable again.\<close>

inductive db_step :: "'m db \<Rightarrow> 'm db \<Rightarrow> bool" where
  add_bid: "db_add_bid d (BidRow_new i now ch t p amount c) = Inr d' \<Longrightarrow> db_step d d'"
| add_auction: "db_add_auction d a = Inr d' \<Longrightarrow> a_tx_hash a = None \<Longrightarrow> db_step d d'"
| update: "db_update_bid_status d i st now = Inr (d', res) \<Longrightarrow> db_step d d'"
| submit: "db_submit_auction d a h now = Inr (d', res) \<Longrightarrow> db_step d d'"
| conclude: "db_conclude_auction d i now = Inr d' \<Longrightarrow> db_step d d'"
| connection: "db_step d (d\<lparr>db_up := up\<rparr>)"

inductive_cases db_stepE: "db_step d d'"

lemma update_query_where:
  "get_update_bid_query st now = Inr (u, c) \<Longrightarrow> s \<in> set (bu_where u) \<Longrightarrow>
     progress s < progress (bu_status u) \<and>
     (s = DbPending \<longrightarrow> bu_auction_id u \<noteq> None \<or> bu_status u = DbLost) \<and>
     bu_conclusion_time u = c \<and> (c \<noteq> None \<longleftrightarrow> concluded_db (bu_status u)) \<and>
     (concluded_db s \<longrightarrow> s = DbCancelled) \<and>
     (bu_status_reason u \<noteq> None \<longrightarrow> bu_status u = DbFailed) \<and> s \<noteq> DbFailed"
  by (induction st now rule: get_update_bid_query.induct) (auto simp: concluded_db_def)

lemma apply_update_sel [simp]:
  "r_status (apply_update u r) = bu_status u"
  "r_auction_id (apply_update u r) = set_or (bu_auction_id u) (r_auction_id r)"
  "r_conclusion_time (apply_update u r) = set_or (bu_conclusion_time u) (r_conclusion_time r)"
  "r_status_reason (apply_update u r) = set_or (bu_status_reason u) (r_status_reason r)"
  "r_id (apply_update u r) = r_id r" "r_permission_key (apply_update u r) = r_permission_key r"
  "r_bid_amount (apply_update u r) = r_bid_amount r" "r_transaction (apply_update u r) = r_transaction r"
  "r_chain_id (apply_update u r) = r_chain_id r"
  by (simp_all add: apply_update_def)

lemma apply_update_ok:
  assumes ok: "bid_row_ok i r" and q: "get_update_bid_query st now = Inr (u, c)"
    and wh: "r_status r \<in> set (bu_where u)"
  shows "bid_row_ok i (apply_update u r)"
proof -
  note w = update_query_where [OF q wh]
  have "bu_status u \<noteq> DbPending" using w by (cases "bu_status u") auto
  moreover have "r_status_reason r = None" using ok w by (auto simp: bid_row_ok_def)
  moreover have "r_auction_id r \<noteq> None \<or> r_status r = DbPending"
  proof -
    have "r_status r \<noteq> DbLost" using w by (auto simp: concluded_db_def)
    with ok show ?thesis by (auto simp: bid_row_ok_def)
  qed
  moreover have "c = None \<longrightarrow> r_conclusion_time r = None"
  proof
    assume "c = None"
    with w have "\<not> concluded_db (bu_status u)" by simp
    moreover have "\<not> concluded_db (bu_status u) \<longrightarrow> r_status r \<noteq> DbCancelled"
      using w by (cases "bu_status u") (auto simp: concluded_db_def)
    ultimately have "\<not> concluded_db (r_status r)" using w by blast
    with ok show "r_conclusion_time r = None" by (auto simp: bid_row_ok_def)
  qed
  ultimately have au: "set_or (bu_auction_id u) (r_auction_id r) = None \<longrightarrow> bu_status u = DbLost"
    and ct: "set_or (bu_conclusion_time u) (r_conclusion_time r) \<noteq> None \<longleftrightarrow> concluded_db (bu_status u)"
    and sr: "set_or (bu_status_reason u) (r_status_reason r) \<noteq> None \<longrightarrow> bu_status u = DbFailed"
    and np: "bu_status u \<noteq> DbPending"
    using w by (auto simp: set_or_def split: option.split)
  from ok au ct sr np show ?thesis
    unfolding bid_row_ok_def apply_update_sel by blast
qed

lemma db_update_cases:
  assumes "db_update_bid_status d i st now = Inr (d', b, c)"
  shows "db_up d \<and> (\<exists>u. get_update_bid_query st now = Inr (u, c) \<and>
       (case db_bids d i of
          Some r \<Rightarrow> if r_status r \<in> set (bu_where u)
                    then b \<and> d' = d\<lparr>db_bids := (db_bids d)(i \<mapsto> apply_update u r)\<rparr>
                    else \<not> b \<and> d' = d
        | None \<Rightarrow> \<not> b \<and> d' = d))"
proof (cases "get_update_bid_query st now")
  case (Inl e)
  with assms show ?thesis by (simp add: db_update_bid_status_def)
next
  case (Inr p)
  obtain u c' where "p = (u, c')" by fastforce
  with Inr assms have run: "(if \<not> db_up d then Inl DbError
       else case db_bids d i of
              Some r \<Rightarrow>
                if r_status r \<in> set (bu_where u)
                then Inr (d\<lparr>db_bids := (db_bids d)(i \<mapsto> apply_update u r)\<rparr>, True, c')
                else Inr (d, False, c')
            | None \<Rightarrow> Inr (d, False, c')) = Inr (d', b, c)"
    by (simp add: db_update_bid_status_def)
  then have "db_up d" by (auto split: if_splits)
  moreover from run have "c' = c" by (auto split: if_splits option.splits)
  moreover from run have "case db_bids d i of
          Some r \<Rightarrow> if r_status r \<in> set (bu_where u)
                    then b \<and> d' = d\<lparr>db_bids := (db_bids d)(i \<mapsto> apply_update u r)\<rparr>
                    else \<not> b \<and> d' = d
        | None \<Rightarrow> \<not> b \<and> d' = d"
    by (auto split: if_splits option.splits)
  ultimately show ?thesis using Inr \<open>p = (u, c')\<close> by blast
qed

lemma db_step_ok:
  assumes "db_step d d'" and "db_ok d"
  shows "db_ok d'"
  using assms
proof (cases rule: db_step.cases)
  case (add_bid i now ch t p amount c)
  have "bid_row_ok i (BidRow_new i now ch t p amount c)"
    using unsigned_less [of amount, where 'a = int] by (simp add: bid_row_ok_def BidRow_new_def concluded_db_def)
  with add_bid assms(2) show ?thesis
    by (auto simp: db_add_bid_def db_ok_def BidRow_new_def split: if_splits)
next
  case (add_auction a)
  have "auction_row_ok (a_id a) (AuctionRow_of a)"
    using add_auction(2) by (simp add: auction_row_ok_def AuctionRow_of_def)
  with add_auction assms(2) show ?thesis
    by (auto simp: db_add_auction_def db_ok_def split: if_splits)
next
  case (update i st now res)
  obtain b c where res: "res = (b, c)" by fastforce
  have run: "db_update_bid_status d i st now = Inr (d', b, c)" using update res by simp
  from db_update_cases [OF run] obtain u where q: "get_update_bid_query st now = Inr (u, c)"
    and upd: "case db_bids d i of
          Some r \<Rightarrow> if r_status r \<in> set (bu_where u)
                    then b \<and> d' = d\<lparr>db_bids := (db_bids d)(i \<mapsto> apply_update u r)\<rparr>
                    else \<not> b \<and> d' = d
        | None \<Rightarrow> \<not> b \<and> d' = d"
    by blast
  then show ?thesis
    using assms(2) apply_update_ok [OF _ q]
    by (auto simp: db_ok_def split: option.splits if_splits)
next
  case (submit a h now res)
  have "auction_row_ok j row \<Longrightarrow> auction_row_ok j (row\<lparr>ar_submission_time := Some now,
      ar_tx_hash := Some (convert_tx_hash h)\<rparr>)" for j row
    by (simp add: auction_row_ok_def convert_tx_hash_def)
  with submit assms(2) show ?thesis
    by (auto simp: db_submit_auction_def db_ok_def split: if_splits option.splits)
next
  case (conclude i now)
  have "auction_row_ok j row \<Longrightarrow> auction_row_ok j (row\<lparr>ar_conclusion_time := Some now\<rparr>)" for j row
    by (simp add: auction_row_ok_def)
  with conclude assms(2) show ?thesis
    by (auto simp: db_conclude_auction_def db_ok_def split: if_splits option.splits)
next
  case (connection up)
  then show ?thesis using assms(2) by (simp add: db_ok_def)
qed

lemma db_step_progress:
  assumes "db_step d d'" and "db_bids d i = Some r"
  shows "\<exists>r'. db_bids d' i = Some r' \<and> (r' = r \<or> progress (r_status r) < progress (r_status r'))"
  using assms
proof (cases rule: db_step.cases)
  case (update j st now res)
  obtain b c where res: "res = (b, c)" by fastforce
  have run: "db_update_bid_status d j st now = Inr (d', b, c)" using update res by simp
  from db_update_cases [OF run] obtain u where q: "get_update_bid_query st now = Inr (u, c)"
    and upd: "case db_bids d j of
          Some r \<Rightarrow> if r_status r \<in> set (bu_where u)
                    then b \<and> d' = d\<lparr>db_bids := (db_bids d)(j \<mapsto> apply_update u r)\<rparr>
                    else \<not> b \<and> d' = d
        | None \<Rightarrow> \<not> b \<and> d' = d"
    by blast
  then show ?thesis
    using assms(2) update_query_where [OF q, of "r_status r"]
    by (auto simp: apply_update_def split: option.splits if_splits)
qed (auto simp: db_add_bid_def db_add_auction_def db_submit_auction_def db_conclude_auction_def
    BidRow_new_def split: if_splits option.splits)

definition db_empty :: "'m db" where
  "db_empty = \<lparr>db_up = True, db_bids = Map.empty, db_auctions = Map.empty\<rparr>"

lemma db_reachable_ok: "db_step\<^sup>*\<^sup>* db_empty d \<Longrightarrow> db_ok d"
proof (induction rule: rtranclp_induct)
  case base
  show ?case by (simp add: db_ok_def db_empty_def)
next
  case (step d1 d2)
  show ?case by (rule db_step_ok [OF step.hyps(2) step.IH])
qed

text \<open>
  In every database the server's writes can produce, a bid has a conclusion time exactly
  when its status is a concluded one, belongs to an auction unless it is pending or lost, has a
  failure reason only when it failed, and keeps a 65-byte permission key and a 64-bit amount; an
  auction has a transaction hash exactly when it has a submission time.
\<close>

theorem database_rows_consistent:
  assumes "db_step\<^sup>*\<^sup>* db_empty d"
  shows "(\<forall>i r. db_bids d i = Some r \<longrightarrow>
      r_id r = i \<and> length (r_permission_key r) = 65 \<and> 0 \<le> r_bid_amount r \<and> r_bid_amount r < 2 ^ 64 \<and>
      (r_conclusion_time r \<noteq> None \<longleftrightarrow> concluded_db (r_status r)) \<and>
      (r_auction_id r = None \<longrightarrow> r_status r \<in> {DbPending, DbLost}) \<and>
      (r_status_reason r \<noteq> None \<longrightarrow> r_status r = DbFailed)) \<and>
    (\<forall>i a. db_auctions d i = Some a \<longrightarrow> (ar_submission_time a \<noteq> None \<longleftrightarrow> ar_tx_hash a \<noteq> None))"
proof (intro conjI [of "\<forall>i r. P i r" for P] allI impI)
  fix i r
  assume "db_bids d i = Some r"
  with db_reachable_ok [OF assms] have "bid_row_ok i r" by (simp add: db_ok_def)
  then show "r_id r = i \<and> length (r_permission_key r) = 65 \<and> 0 \<le> r_bid_amount r \<and> r_bid_amount r < 2 ^ 64 \<and>
      (r_conclusion_time r \<noteq> None \<longleftrightarrow> concluded_db (r_status r)) \<and>
      (r_auction_id r = None \<longrightarrow> r_status r \<in> {DbPending, DbLost}) \<and>
      (r_status_reason r \<noteq> None \<longrightarrow> r_status r = DbFailed)"
    unfolding bid_row_ok_def by blast
next
  fix i a
  assume "db_auctions d i = Some a"
  with db_reachable_ok [OF assms] have "auction_row_ok i a" by (simp add: db_ok_def)
  then show "ar_submission_time a \<noteq> None \<longleftrightarrow> ar_tx_hash a \<noteq> None"
    unfolding auction_row_ok_def by blast
qed


end
