(* ===== verification/As_Repo.thy ===== *)
theory As_Repo
  imports As_Db "HOL-Library.AList"
begin

section \<open>Auction server: the repository\<close>

text \<open>
  The in-memory store of \<open>auction/repository/mod.rs\<close> beside the database, and the repository's
  operations, one source file each. Hash maps are association lists in the (unspecified) order of
  their iteration. An operation returns the new repository and its result; the database is written
  first and memory only after it succeeded.
\<close>

subsection \<open>Locks\<close>

text \<open>
  \<open>auction_lock\<close> and \<open>bid_lock\<close> are maps from a key to a reference-counted mutex. A mutex has an
  identity; the count is the map's own reference and one per holder. \<open>holders\<close> are the references
  handed out and not dropped yet.
\<close>

record 'k locks =
  lock_table :: "('k \<times> nat \<times> nat) list"
  next_mutex :: nat
  holders :: "('k \<times> nat) list"

definition no_locks :: "'k locks" where
  "no_locks = \<lparr>lock_table = [], next_mutex = 0, holders = []\<rparr>"

definition get_or_create_lock :: "'k \<Rightarrow> 'k locks \<Rightarrow> nat \<times> 'k locks" where
  "get_or_create_lock k l =
     (case map_of (lock_table l) k of
        Some (m, n) \<Rightarrow> (m, l\<lparr>lock_table := AList.update k (m, n + 1) (lock_table l),
                             holders := (k, m) # holders l\<rparr>)
      | None \<Rightarrow> (next_mutex l,
                 l\<lparr>lock_table := AList.update k (next_mutex l, 2) (lock_table l),
                   next_mutex := next_mutex l + 1, holders := (k, next_mutex l) # holders l\<rparr>))"

definition drop_lock :: "'k \<Rightarrow> nat \<Rightarrow> 'k locks \<Rightarrow> 'k locks" where
  "drop_lock k m l =
     (if (k, m) \<in> set (holders l) then
        l\<lparr>lock_table := (case map_of (lock_table l) k of
             Some (m', n) \<Rightarrow> if m' = m then AList.update k (m, n - 1) (lock_table l) else lock_table l
           | None \<Rightarrow> lock_table l),
          holders := remove1 (k, m) (holders l)\<rparr>
      else l)"

definition remove_lock :: "'k \<Rightarrow> 'k locks \<Rightarrow> 'k locks" where
  "remove_lock k l =
     (case map_of (lock_table l) k of
        Some (m, n) \<Rightarrow> if n = 1 then l\<lparr>lock_table := AList.delete k (lock_table l)\<rparr> else l
      | None \<Rightarrow> l)"

definition locks_ok :: "'k locks \<Rightarrow> bool" where
  "locks_ok l \<longleftrightarrow>
     (\<forall>k m n. map_of (lock_table l) k = Some (m, n) \<longrightarrow> n = Suc (count_list (holders l) (k, m)) \<and> m < next_mutex l) \<and>
     (\<forall>k m. (k, m) \<in> set (holders l) \<longrightarrow> (\<exists>n. map_of (lock_table l) k = Some (m, n)))"

lemma locks_ok_table:
  "locks_ok l \<Longrightarrow> map_of (lock_table l) k = Some (m, n) \<Longrightarrow> n = Suc (count_list (holders l) (k, m)) \<and> m < next_mutex l"
  by (simp add: locks_ok_def)

lemma locks_ok_holder:
  "locks_ok l \<Longrightarrow> (k, m) \<in> set (holders l) \<Longrightarrow> \<exists>n. map_of (lock_table l) k = Some (m, n)"
  by (simp add: locks_ok_def)

lemma locks_ok_same:
  "locks_ok l \<Longrightarrow> map_of (lock_table l) k = Some (m, n) \<Longrightarrow> (k, m') \<in> set (holders l) \<Longrightarrow> m' = m"
  using locks_ok_holder by fastforce

lemma locks_okI:
  assumes "\<And>k m n. map_of (lock_table l) k = Some (m, n) \<Longrightarrow>
      n = Suc (count_list (holders l) (k, m)) \<and> m < next_mutex l"
    and "\<And>k m. (k, m) \<in> set (holders l) \<Longrightarrow> \<exists>n. map_of (lock_table l) k = Some (m, n)"
  shows "locks_ok l"
  using assms by (simp add: locks_ok_def)

lemma get_or_create_lock_ok:
  assumes "locks_ok l"
  shows "locks_ok (snd (get_or_create_lock k l))"
proof (cases "map_of (lock_table l) k")
  case None
  then have free: "\<And>m. (k, m) \<notin> set (holders l)" using locks_ok_holder [OF assms] by fastforce
  then have "count_list (holders l) (k, m) = 0" for m by (simp add: count_list_0_iff)
  then show ?thesis
    using None free locks_ok_table [OF assms] locks_ok_holder [OF assms]
    by (intro locks_okI) (auto simp: get_or_create_lock_def update_conv' less_Suc_eq split: if_splits)
next
  case (Some p)
  obtain m n where p: "p = (m, n)" by fastforce
  then show ?thesis
    using Some locks_ok_table [OF assms] locks_ok_holder [OF assms] locks_ok_same [OF assms, of k m n]
    by (intro locks_okI) (auto simp: get_or_create_lock_def update_conv' split: if_splits)
qed

lemma count_list_remove1:
  "count_list (remove1 y xs) x = (if x = y then count_list xs x - 1 else count_list xs x)"
  by (induction xs) auto

lemma drop_lock_ok:
  assumes ok: "locks_ok l"
  shows "locks_ok (drop_lock k m l)"
proof (cases "(k, m) \<in> set (holders l)")
  case True
  from locks_ok_holder [OF ok True] obtain n where n: "map_of (lock_table l) k = Some (m, n)" by blast
  have pos: "0 < count_list (holders l) (k, m)" using True count_list_0_iff [of "holders l" "(k, m)"] by (meson neq0_conv)
  show ?thesis
  proof (rule locks_okI)
    fix k' m' n'
    assume "map_of (lock_table (drop_lock k m l)) k' = Some (m', n')"
    then show "n' = Suc (count_list (holders (drop_lock k m l)) (k', m')) \<and> m' < next_mutex (drop_lock k m l)"
      using True n locks_ok_table [OF ok] pos
      by (fastforce simp: drop_lock_def update_conv' count_list_remove1 split: if_splits)
  next
    fix k' m'
    assume "(k', m') \<in> set (holders (drop_lock k m l))"
    then have "(k', m') \<in> set (holders l)"
      using True set_remove1_subset [of "(k, m)" "holders l"] by (auto simp: drop_lock_def)
    with locks_ok_holder [OF ok] n True
    show "\<exists>n. map_of (lock_table (drop_lock k m l)) k' = Some (m', n)"
      by (fastforce simp: drop_lock_def update_conv')
  qed
qed (use ok in \<open>simp add: drop_lock_def\<close>)

lemma remove_lock_ok:
  assumes ok: "locks_ok l"
  shows "locks_ok (remove_lock k l)"
proof (cases "map_of (lock_table l) k")
  case (Some p)
  obtain m n where p: "p = (m, n)" by fastforce
  show ?thesis
  proof (cases "n = 1")
    case True
    with Some p locks_ok_table [OF ok] have free: "count_list (holders l) (k, m) = 0" by fastforce
    have "(k, m') \<notin> set (holders l)" for m'
      using locks_ok_holder [OF ok, of k m'] Some p free by (auto simp: count_list_0_iff)
    then show ?thesis
      using Some p True locks_ok_table [OF ok] locks_ok_holder [OF ok]
      by (intro locks_okI) (fastforce simp: remove_lock_def delete_conv' split: if_splits)+
  qed (use ok Some p in \<open>simp add: remove_lock_def\<close>)
qed (use ok in \<open>simp add: remove_lock_def\<close>)

datatype 'k lock_op = Acquire 'k | Release 'k nat | Remove 'k

fun lock_step :: "'k lock_op \<Rightarrow> 'k locks \<Rightarrow> 'k locks" where
  "lock_step (Acquire k) l = snd (get_or_create_lock k l)"
| "lock_step (Release k m) l = drop_lock k m l"
| "lock_step (Remove k) l = remove_lock k l"

text \<open>
  However tasks interleave fetching, dropping and removing locks, all tasks that hold a
  lock of the same auction or bid hold the same mutex: the removal never takes away a mutex
  somebody still holds, so two tasks never work on one auction or bid at the same time.
\<close>

theorem lock_holders_share_mutex:
  assumes "(k, m1) \<in> set (holders (fold lock_step ops no_locks))"
    and "(k, m2) \<in> set (holders (fold lock_step ops no_locks))"
  shows "m1 = m2"
proof -
  have step: "locks_ok (lock_step op l)" if "locks_ok l" for op l
    using that by (cases op) (simp_all add: get_or_create_lock_ok drop_lock_ok remove_lock_ok)
  have "locks_ok l \<Longrightarrow> locks_ok (fold lock_step ops l)" for l
    by (induction ops arbitrary: l) (simp_all add: step)
  moreover have "locks_ok no_locks" by (rule locks_okI) (simp_all add: no_locks_def)
  ultimately have "locks_ok (fold lock_step ops no_locks)" by blast
  from locks_ok_holder [OF this assms(1)] locks_ok_holder [OF this assms(2)] show ?thesis by auto
qed

theorem lock_holders_share_mutex_witness:
  "holders (fold lock_step [Acquire 7, Remove 7, Acquire (7::nat)] no_locks) = [(7, 0), (7, 0)]"
proof -
  let ?l = "fold lock_step [Acquire 7, Remove 7, Acquire (7::nat)] no_locks"
  have h: "(7, 0) \<in> set (holders ?l)"
    by (simp add: get_or_create_lock_def remove_lock_def no_locks_def)
  have "m = 0" if "(7, m) \<in> set (holders ?l)" for m
    using lock_holders_share_mutex [OF that h] .
  moreover have "\<exists>m1 m2. holders ?l = [(7, m1), (7, m2)]"
    by (simp add: get_or_create_lock_def remove_lock_def no_locks_def)
  ultimately show ?thesis by (metis list.set_intros)
qed


subsection \<open>The in-memory store\<close>

record PrioritizationFeeSample =
  fee :: u64
  sample_time :: time

record 'm repo =
  pending_bids :: "(u8 list \<times> 'm Bid list) list"
  auctions :: "(uuid \<times> 'm Auction) list"
  lookup_table :: "(pubkey \<times> pubkey list) list"
  recent_prioritization_fees :: "PrioritizationFeeSample list"
  repo_db :: "'m db"
  chain_id :: string

definition Repository_new :: "'m db \<Rightarrow> string \<Rightarrow> 'm repo" where
  "Repository_new d ch = \<lparr>pending_bids = [], auctions = [], lookup_table = [],
     recent_prioritization_fees = [], repo_db = d, chain_id = ch\<rparr>"

definition get_in_memory_pending_bids_by_permission_key :: "'m repo \<Rightarrow> u8 list \<Rightarrow> 'm Bid list" where
  "get_in_memory_pending_bids_by_permission_key r key =
     (case map_of (pending_bids r) key of Some bs \<Rightarrow> bs | None \<Rightarrow> [])"

definition push_pending_bid ::
  "(u8 list \<times> 'm Bid list) list \<Rightarrow> u8 list \<Rightarrow> 'm Bid \<Rightarrow> (u8 list \<times> 'm Bid list) list" where
  "push_pending_bid p key b =
     AList.update key ((case map_of p key of Some bs \<Rightarrow> bs | None \<Rightarrow> []) @ [b]) p"

definition remove_pending_bid ::
  "'m Bid \<Rightarrow> (u8 list \<times> 'm Bid list) list \<Rightarrow> (u8 list \<times> 'm Bid list) list" where
  "remove_pending_bid bid p =
     (let key = get_permission_key (b_chain_data bid)
      in case map_of p key of
           None \<Rightarrow> p
         | Some bs \<Rightarrow>
             let bs' = filter (\<lambda>b. b_id b \<noteq> b_id bid) bs
             in if bs' = [] then AList.delete key p else AList.update key bs' p)"

definition remove_in_memory_pending_bids :: "'m Bid list \<Rightarrow> 'm repo \<Rightarrow> 'm repo" where
  "remove_in_memory_pending_bids bids r = r\<lparr>pending_bids := fold remove_pending_bid bids (pending_bids r)\<rparr>"

definition get_in_memory_auctions :: "'m repo \<Rightarrow> 'm Auction list" where
  "get_in_memory_auctions r = map snd (auctions r)"

definition get_in_memory_auction_by_id :: "'m repo \<Rightarrow> uuid \<Rightarrow> 'm Auction option" where
  "get_in_memory_auction_by_id r i = map_of (auctions r) i"

definition get_in_memory_auction_bid_by_bid_id :: "'m repo \<Rightarrow> uuid \<Rightarrow> 'm Bid option" where
  "get_in_memory_auction_bid_by_bid_id r i =
     find (\<lambda>b. b_id b = i) (concat (map a_bids (get_in_memory_auctions r)))"

definition update_in_memory_auction :: "'m Auction \<Rightarrow> 'm repo \<Rightarrow> 'm repo" where
  "update_in_memory_auction a r =
     (case map_of (auctions r) (a_id a) of
        Some _ \<Rightarrow> r\<lparr>auctions := AList.update (a_id a) a (auctions r)\<rparr>
      | None \<Rightarrow> r)"

definition remove_in_memory_auction :: "uuid \<Rightarrow> 'm repo \<Rightarrow> 'm repo" where
  "remove_in_memory_auction i r = r\<lparr>auctions := AList.delete i (auctions r)\<rparr>"

definition set_bid_status :: "uuid \<Rightarrow> BidStatusSvm \<Rightarrow> 'm Bid list \<Rightarrow> 'm Bid list" where
  "set_bid_status i st bs =
     (case position (\<lambda>b. b_id b = i) bs of
        Some n \<Rightarrow> bs[n := (bs ! n)\<lparr>b_status := st\<rparr>]
      | None \<Rightarrow> bs)"

definition update_in_memory_auction_bid :: "'m Bid \<Rightarrow> BidStatusSvm \<Rightarrow> 'm repo \<Rightarrow> 'm repo" where
  "update_in_memory_auction_bid bid st r =
     (case get_auction_id st of
        None \<Rightarrow> r
      | Some i \<Rightarrow>
         (case map_of (auctions r) i of
            None \<Rightarrow> r
          | Some a \<Rightarrow> r\<lparr>auctions := AList.update i (a\<lparr>a_bids := set_bid_status (b_id bid) st (a_bids a)\<rparr>) (auctions r)\<rparr>))"

definition add_lookup_table :: "pubkey \<Rightarrow> pubkey list \<Rightarrow> 'm repo \<Rightarrow> 'm repo" where
  "add_lookup_table k addrs r = r\<lparr>lookup_table := AList.update k addrs (lookup_table r)\<rparr>"

definition get_lookup_table :: "'m repo \<Rightarrow> pubkey \<Rightarrow> pubkey list option" where
  "get_lookup_table r k = map_of (lookup_table r) k"


subsection \<open>Prioritization fees\<close>

definition RECENT_FEES_SLOT_WINDOW :: nat where
  "RECENT_FEES_SLOT_WINDOW = 12"

definition add_recent_prioritization_fee :: "u64 \<Rightarrow> time \<Rightarrow> 'm repo \<Rightarrow> 'm repo" where
  "add_recent_prioritization_fee f now r =
     (let q = recent_prioritization_fees r @ [\<lparr>fee = f, sample_time = now\<rparr>]
      in r\<lparr>recent_prioritization_fees := (if length q > RECENT_FEES_SLOT_WINDOW then tl q else q)\<rparr>)"

definition get_priority_fees :: "'m repo \<Rightarrow> time \<Rightarrow> PrioritizationFeeSample list" where
  "get_priority_fees r after = filter (\<lambda>s. sample_time s > after) (recent_prioritization_fees r)"

text \<open>
  Of the prioritization fees recorded so far the repository keeps exactly the last
  twelve, oldest first.
\<close>

theorem recent_fees_are_last_window:
  "recent_prioritization_fees (fold (\<lambda>(f, t). add_recent_prioritization_fee f t) samples (Repository_new d ch)) =
     (let all = map (\<lambda>(f, t). \<lparr>fee = f, sample_time = t\<rparr>) samples in drop (length all - 12) all)"
proof (induction samples rule: rev_induct)
  case Nil
  show ?case by (simp add: Repository_new_def)
next
  case (snoc s samples)
  obtain f t where s: "s = (f, t)" by fastforce
  have "tl (drop n xs @ [x]) = drop (Suc n) xs @ [x]" if "n < length xs" for n xs and x :: PrioritizationFeeSample
    using that by (simp add: drop_Suc tl_drop)
  moreover have "11 < n - (n - 12) \<Longrightarrow> Suc (n - 12) = n - 11" for n :: nat by arith
  ultimately show ?case
    using snoc s
    by (simp add: add_recent_prioritization_fee_def RECENT_FEES_SLOT_WINDOW_def Let_def Suc_diff_le)
qed


subsection \<open>Operations on memory and database\<close>

type_synonym ('m, 'a) repo_result = "'m repo \<times> (anyhow + 'a)"

definition repo_add_bid ::
  "uuid \<Rightarrow> time \<Rightarrow> time \<Rightarrow> uuid option \<Rightarrow> uuid option \<Rightarrow> 'm BidChainDataSvm \<Rightarrow> u64 \<Rightarrow> 'm repo \<Rightarrow>
   'm repo \<times> (RestError + 'm Bid)" where
  "repo_add_bid new_id now initiation_time profile_id opportunity_id chain_data amount r =
     (let row = BidRow_new new_id now (chain_id r) initiation_time profile_id amount chain_data
      in case get_bid_entity row None opportunity_id of
           Inl _ \<Rightarrow> (r, Inl TemporarilyUnavailable)
         | Inr bid \<Rightarrow>
            (case db_add_bid (repo_db r) row of
               Inl e \<Rightarrow> (r, Inl e)
             | Inr d \<Rightarrow>
                 (r\<lparr>repo_db := d,
                    pending_bids := push_pending_bid (pending_bids r) (get_permission_key (b_chain_data bid)) bid\<rparr>,
                  Inr bid)))"

definition repo_get_bid :: "'m repo \<Rightarrow> uuid \<Rightarrow> RestError + 'm Bid" where
  "repo_get_bid r i =
     rbind (db_get_bid (repo_db r) i (chain_id r)) (\<lambda>row.
     rbind (case r_auction_id row of
              Some a \<Rightarrow> rbind (db_get_auction (repo_db r) a) (\<lambda>x. Inr (Some x))
            | None \<Rightarrow> Inr None) (\<lambda>auction.
       case get_bid_entity row auction None of
         Inl _ \<Rightarrow> Inl TemporarilyUnavailable
       | Inr b \<Rightarrow> Inr b))"

definition repo_update_bid_status ::
  "'m Bid \<Rightarrow> BidStatusSvm \<Rightarrow> time \<Rightarrow> 'm repo \<Rightarrow> ('m, bool \<times> time option) repo_result" where
  "repo_update_bid_status bid st now r =
     (case db_update_bid_status (repo_db r) (b_id bid) st now of
        Inl e \<Rightarrow> (r, Inl e)
      | Inr (d, updated, conclusion) \<Rightarrow>
          let r1 = r\<lparr>repo_db := d\<rparr>
          in (if updated \<and> \<not> is_pending st
              then update_in_memory_auction_bid bid st (remove_in_memory_pending_bids [bid] r1)
              else r1, Inr (updated, conclusion)))"

definition repo_add_auction :: "'m Auction \<Rightarrow> 'm repo \<Rightarrow> ('m, 'm Auction) repo_result" where
  "repo_add_auction a r =
     (case db_add_auction (repo_db r) a of
        Inl e \<Rightarrow> (r, Inl e)
      | Inr d \<Rightarrow>
          let r1 = remove_in_memory_pending_bids (a_bids a) (r\<lparr>repo_db := d\<rparr>)
          in (r1\<lparr>auctions := AList.update (a_id a) a (auctions r1)\<rparr>, Inr a))"

definition repo_submit_auction ::
  "'m Auction \<Rightarrow> signature \<Rightarrow> uuid list \<Rightarrow> time \<Rightarrow> 'm repo \<Rightarrow> ('m, 'm Auction) repo_result" where
  "repo_submit_auction a transaction_hash winner_bid_ids now r =
     (case db_submit_auction (repo_db r) a transaction_hash now of
        Inl e \<Rightarrow> (r, Inl e)
      | Inr (d, None) \<Rightarrow> (r\<lparr>repo_db := d\<rparr>, Inr a)
      | Inr (d, Some updated) \<Rightarrow>
          let updated = updated\<lparr>a_bids := map (\<lambda>b. if b_id b \<in> set winner_bid_ids
                 then b\<lparr>b_submission_time := a_submission_time updated\<rparr> else b) (a_bids updated)\<rparr>
          in (update_in_memory_auction updated (r\<lparr>repo_db := d\<rparr>), Inr updated))"

definition repo_conclude_auction :: "uuid \<Rightarrow> time \<Rightarrow> 'm repo \<Rightarrow> ('m, unit) repo_result" where
  "repo_conclude_auction i now r =
     (case db_conclude_auction (repo_db r) i now of
        Inl e \<Rightarrow> (r, Inl e)
      | Inr d \<Rightarrow> (remove_in_memory_auction i (r\<lparr>repo_db := d\<rparr>), Inr ()))"


subsection \<open>Memory agrees with the database\<close>

lemma pending_remove_one:
  "(case map_of (remove_pending_bid bid p) k of Some bs \<Rightarrow> bs | None \<Rightarrow> []) =
     (if k = get_permission_key (b_chain_data bid)
      then filter (\<lambda>b. b_id b \<noteq> b_id bid) (case map_of p k of Some bs \<Rightarrow> bs | None \<Rightarrow> [])
      else case map_of p k of Some bs \<Rightarrow> bs | None \<Rightarrow> [])"
  by (auto simp: remove_pending_bid_def Let_def update_conv' delete_conv' split: option.splits)

lemma pending_remove:
  "get_in_memory_pending_bids_by_permission_key (remove_in_memory_pending_bids [bid] r) k =
     (if k = get_permission_key (b_chain_data bid)
      then filter (\<lambda>b. b_id b \<noteq> b_id bid) (get_in_memory_pending_bids_by_permission_key r k)
      else get_in_memory_pending_bids_by_permission_key r k)"
  by (simp add: get_in_memory_pending_bids_by_permission_key_def remove_in_memory_pending_bids_def
      pending_remove_one)

lemma pending_remove_subset:
  "set (get_in_memory_pending_bids_by_permission_key (remove_in_memory_pending_bids bids r) k)
     \<subseteq> set (get_in_memory_pending_bids_by_permission_key r k)"
proof (induction bids arbitrary: r)
  case (Cons b bids)
  have "remove_in_memory_pending_bids (b # bids) r =
      remove_in_memory_pending_bids bids (remove_in_memory_pending_bids [b] r)"
    by (simp add: remove_in_memory_pending_bids_def)
  moreover have "set (get_in_memory_pending_bids_by_permission_key (remove_in_memory_pending_bids [b] r) k)
      \<subseteq> set (get_in_memory_pending_bids_by_permission_key r k)"
    by (auto simp: pending_remove)
  ultimately show ?case using Cons.IH [of "remove_in_memory_pending_bids [b] r"] by auto
qed (simp add: remove_in_memory_pending_bids_def)

lemma pending_unaffected [simp]:
  "get_in_memory_pending_bids_by_permission_key (r\<lparr>repo_db := d\<rparr>) k = get_in_memory_pending_bids_by_permission_key r k"
  "get_in_memory_pending_bids_by_permission_key (r\<lparr>auctions := x\<rparr>) k = get_in_memory_pending_bids_by_permission_key r k"
  "get_in_memory_pending_bids_by_permission_key (update_in_memory_auction_bid bid st r) k =
     get_in_memory_pending_bids_by_permission_key r k"
  "get_in_memory_pending_bids_by_permission_key (update_in_memory_auction a r) k =
     get_in_memory_pending_bids_by_permission_key r k"
  "get_in_memory_pending_bids_by_permission_key (remove_in_memory_auction i r) k =
     get_in_memory_pending_bids_by_permission_key r k"
  by (auto simp: get_in_memory_pending_bids_by_permission_key_def update_in_memory_auction_bid_def
      update_in_memory_auction_def remove_in_memory_auction_def split: option.splits)

lemma repo_db_unaffected [simp]:
  "repo_db (remove_in_memory_pending_bids bids r) = repo_db r"
  "repo_db (update_in_memory_auction_bid bid st r) = repo_db r"
  "repo_db (update_in_memory_auction a r) = repo_db r"
  "repo_db (remove_in_memory_auction i r) = repo_db r"
  "chain_id (remove_in_memory_pending_bids bids r) = chain_id r"
  "chain_id (update_in_memory_auction_bid bid st r) = chain_id r"
  "chain_id (update_in_memory_auction a r) = chain_id r"
  "chain_id (remove_in_memory_auction i r) = chain_id r"
  by (simp_all add: remove_in_memory_pending_bids_def update_in_memory_auction_bid_def
      update_in_memory_auction_def remove_in_memory_auction_def split: option.split)

text \<open>A bid whose row, if any, carries its permission key; bids the repository handed out are.\<close>

definition bid_known :: "'m db \<Rightarrow> 'm Bid \<Rightarrow> bool" where
  "bid_known d b \<longleftrightarrow>
     (\<forall>row. db_bids d (b_id b) = Some row \<longrightarrow> r_permission_key row = get_permission_key (b_chain_data b))"

definition pending_ok :: "'m repo \<Rightarrow> bool" where
  "pending_ok r \<longleftrightarrow>
     (\<forall>k. \<forall>b\<in>set (get_in_memory_pending_bids_by_permission_key r k).
        get_permission_key (b_chain_data b) = k \<and> b_status b = Pending \<and>
        (\<exists>row. db_bids (repo_db r) (b_id b) = Some row \<and> r_status row = DbPending \<and> r_permission_key row = k))"

inductive repo_step :: "'m repo \<Rightarrow> 'm repo \<Rightarrow> bool" where
  add_bid: "repo_add_bid i now t p oid c amount r = (r', res) \<Longrightarrow> repo_step r r'"
| update: "bid_known (repo_db r) bid \<Longrightarrow> repo_update_bid_status bid st now r = (r', res) \<Longrightarrow> repo_step r r'"
| add_auction: "a_tx_hash a = None \<Longrightarrow> repo_add_auction a r = (r', res) \<Longrightarrow> repo_step r r'"
| submit: "repo_submit_auction a h ids now r = (r', res) \<Longrightarrow> repo_step r r'"
| conclude: "repo_conclude_auction i now r = (r', res) \<Longrightarrow> repo_step r r'"
| connection: "repo_step r (r\<lparr>repo_db := (repo_db r)\<lparr>db_up := up\<rparr>\<rparr>)"

lemma get_chain_data_new [simp]:
  "get_chain_data_entity (BidRow_new i now ch t p amount c) = Inr c"
  by (simp add: get_chain_data_entity_def BidRow_new_def)

lemma get_bid_entity_new:
  "get_bid_entity (BidRow_new i now ch t p amount c) None oid = Inr b \<Longrightarrow>
     b_status b = Pending \<and> b_chain_data b = c \<and> b_id b = i \<and> b_amount b = amount"
  by (auto simp: get_bid_entity_def get_bid_status_entity_def rbind_Inr_iff get_bid_amount_entity_def
      split: list.splits if_splits) (simp_all add: BidRow_new_def)

lemma pending_okI:
  assumes ok: "pending_ok r" and bids: "db_bids (repo_db r') = db_bids (repo_db r)"
    and sub: "\<And>k. set (get_in_memory_pending_bids_by_permission_key r' k)
      \<subseteq> set (get_in_memory_pending_bids_by_permission_key r k)"
  shows "pending_ok r'"
  unfolding pending_ok_def
proof (intro allI ballI)
  fix k b
  assume "b \<in> set (get_in_memory_pending_bids_by_permission_key r' k)"
  with sub have "b \<in> set (get_in_memory_pending_bids_by_permission_key r k)" by blast
  with ok bids show "get_permission_key (b_chain_data b) = k \<and> b_status b = Pending \<and>
      (\<exists>row. db_bids (repo_db r') (b_id b) = Some row \<and> r_status row = DbPending \<and> r_permission_key row = k)"
    by (simp add: pending_ok_def)
qed

lemma db_bids_unchanged:
  "db_add_auction d a = Inr d' \<Longrightarrow> db_bids d' = db_bids d"
  "db_submit_auction d a h now = Inr (d', x) \<Longrightarrow> db_bids d' = db_bids d"
  "db_conclude_auction d i now = Inr d' \<Longrightarrow> db_bids d' = db_bids d"
  by (auto simp: db_add_auction_def db_submit_auction_def db_conclude_auction_def
      split: if_splits option.splits)

lemma pending_ok_add_bid:
  assumes ok: "pending_ok r" and run: "repo_add_bid i now t p oid c amount r = (r', res)"
  shows "pending_ok r'"
proof (cases "get_bid_entity (BidRow_new i now (chain_id r) t p amount c) None oid")
  case (Inl e)
  with run ok show ?thesis by (simp add: repo_add_bid_def Let_def)
next
  case (Inr bid)
  let ?row = "BidRow_new i now (chain_id r) t p amount c"
  note b = get_bid_entity_new [OF Inr]
  show ?thesis
  proof (cases "db_add_bid (repo_db r) ?row")
    case (Inl e)
    with run ok Inr show ?thesis by (simp add: repo_add_bid_def Let_def)
  next
    case db: (Inr d)
    have fresh: "db_bids (repo_db r) i = None" and d: "db_bids d = (db_bids (repo_db r))(i \<mapsto> ?row)"
      using db by (auto simp: db_add_bid_def BidRow_new_def split: if_splits)
    have r': "r' = r\<lparr>repo_db := d,
        pending_bids := push_pending_bid (pending_bids r) (get_permission_key (b_chain_data bid)) bid\<rparr>"
      using run Inr db by (simp add: repo_add_bid_def Let_def)
    have row: "r_status ?row = DbPending" "r_permission_key ?row = get_permission_key c"
      by (simp_all add: BidRow_new_def)
    have mem: "get_in_memory_pending_bids_by_permission_key r' k =
        get_in_memory_pending_bids_by_permission_key r k @
        (if k = get_permission_key c then [bid] else [])" for k
      using b by (simp add: r' get_in_memory_pending_bids_by_permission_key_def push_pending_bid_def update_conv')
    show ?thesis
      unfolding pending_ok_def
    proof (intro allI ballI)
      fix k x
      assume "x \<in> set (get_in_memory_pending_bids_by_permission_key r' k)"
      then consider "x \<in> set (get_in_memory_pending_bids_by_permission_key r k)"
        | "x = bid" "k = get_permission_key c"
        by (auto simp: mem split: if_splits)
      then show "get_permission_key (b_chain_data x) = k \<and> b_status x = Pending \<and>
          (\<exists>row. db_bids (repo_db r') (b_id x) = Some row \<and> r_status row = DbPending \<and> r_permission_key row = k)"
      proof cases
        case 1
        with ok fresh show ?thesis by (fastforce simp: pending_ok_def r' d)
      next
        case 2
        with b row show ?thesis by (simp add: r' d)
      qed
    qed
  qed
qed

lemma pending_ok_update:
  assumes ok: "pending_ok r" and known: "bid_known (repo_db r) bid"
    and run: "repo_update_bid_status bid st now r = (r', res)"
  shows "pending_ok r'"
proof (cases "db_update_bid_status (repo_db r) (b_id bid) st now")
  case (Inl e)
  with run ok show ?thesis by (simp add: repo_update_bid_status_def)
next
  case (Inr q)
  obtain d b c where q: "q = (d, b, c)" by (metis prod_cases3)
  with Inr have upd: "db_update_bid_status (repo_db r) (b_id bid) st now = Inr (d, b, c)" by simp
  have np: "\<not> is_pending st" using upd by (cases st) (auto simp: db_update_bid_status_def)
  from db_update_cases [OF upd] obtain u where
    cs: "case db_bids (repo_db r) (b_id bid) of
          Some row \<Rightarrow> if r_status row \<in> set (bu_where u)
                    then b \<and> d = (repo_db r)\<lparr>db_bids := (db_bids (repo_db r))(b_id bid \<mapsto> apply_update u row)\<rparr>
                    else \<not> b \<and> d = repo_db r
        | None \<Rightarrow> \<not> b \<and> d = repo_db r" by blast
  show ?thesis
  proof (cases b)
    case False
    with cs have "d = repo_db r" by (auto split: option.splits if_splits)
    with run Inr q False ok show ?thesis by (simp add: repo_update_bid_status_def Let_def)
  next
    case True
    with cs obtain row where row: "db_bids (repo_db r) (b_id bid) = Some row"
      and d: "db_bids d = (db_bids (repo_db r))(b_id bid \<mapsto> apply_update u row)"
      by (auto split: option.splits if_splits)
    have r': "r' = update_in_memory_auction_bid bid st (remove_in_memory_pending_bids [bid] (r\<lparr>repo_db := d\<rparr>))"
      using run Inr q True np by (simp add: repo_update_bid_status_def Let_def)
    have key: "r_permission_key row = get_permission_key (b_chain_data bid)"
      using known row by (simp add: bid_known_def)
    show ?thesis
      unfolding pending_ok_def
    proof (intro allI ballI)
      fix k x
      assume "x \<in> set (get_in_memory_pending_bids_by_permission_key r' k)"
      then have x: "x \<in> set (get_in_memory_pending_bids_by_permission_key r k)"
        and other: "k = get_permission_key (b_chain_data bid) \<Longrightarrow> b_id x \<noteq> b_id bid"
        by (auto simp: r' pending_remove split: if_splits)
      from ok x obtain row' where row': "db_bids (repo_db r) (b_id x) = Some row'"
        "r_status row' = DbPending" "r_permission_key row' = k"
        and fx: "get_permission_key (b_chain_data x) = k" "b_status x = Pending"
        by (auto simp: pending_ok_def)
      have "b_id x \<noteq> b_id bid" using other row' row key by auto
      with row' fx show "get_permission_key (b_chain_data x) = k \<and> b_status x = Pending \<and>
          (\<exists>row. db_bids (repo_db r') (b_id x) = Some row \<and> r_status row = DbPending \<and> r_permission_key row = k)"
        by (simp add: r' d)
    qed
  qed
qed

lemma pending_ok_step:
  assumes "repo_step r r'" and ok: "pending_ok r"
  shows "pending_ok r'"
  using assms(1)
proof cases
  case (add_bid i now t p oid c amount res)
  with ok pending_ok_add_bid show ?thesis by blast
next
  case (update bid st now res)
  with ok pending_ok_update show ?thesis by blast
next
  case (add_auction a res)
  show ?thesis
  proof (cases "db_add_auction (repo_db r) a")
    case (Inl e)
    with add_auction ok show ?thesis by (simp add: repo_add_auction_def)
  next
    case (Inr d)
    with add_auction have r': "r' = remove_in_memory_pending_bids (a_bids a) (r\<lparr>repo_db := d\<rparr>)\<lparr>auctions :=
        AList.update (a_id a) a (auctions (remove_in_memory_pending_bids (a_bids a) (r\<lparr>repo_db := d\<rparr>)))\<rparr>"
      by (simp add: repo_add_auction_def Let_def)
    show ?thesis
    proof (rule pending_okI [OF ok])
      show "db_bids (repo_db r') = db_bids (repo_db r)" using Inr db_bids_unchanged(1) by (simp add: r')
      show "set (get_in_memory_pending_bids_by_permission_key r' k)
          \<subseteq> set (get_in_memory_pending_bids_by_permission_key r k)" for k
        using pending_remove_subset [of "a_bids a" "r\<lparr>repo_db := d\<rparr>" k] by (simp add: r')
    qed
  qed
next
  case (submit a h ids now res)
  then show ?thesis
    using ok db_bids_unchanged(2)
    by (cases "db_submit_auction (repo_db r) a h now")
      (auto simp: repo_submit_auction_def Let_def intro!: pending_okI [OF ok] split: option.splits prod.splits)
next
  case (conclude i now res)
  then show ?thesis
    using ok db_bids_unchanged(3)
    by (cases "db_conclude_auction (repo_db r) i now")
      (auto simp: repo_conclude_auction_def intro!: pending_okI [OF ok])
next
  case (connection up)
  then show ?thesis by (auto intro!: pending_okI [OF ok])
qed

lemma pending_ok_reachable:
  "repo_step\<^sup>*\<^sup>* (Repository_new db_empty ch) r \<Longrightarrow> pending_ok r"
proof (induction rule: rtranclp_induct)
  case base
  show ?case by (simp add: pending_ok_def get_in_memory_pending_bids_by_permission_key_def Repository_new_def)
next
  case (step r1 r2)
  show ?case by (rule pending_ok_step [OF step.hyps(2) step.IH])
qed

text \<open>
  Property C34. Whatever operations ran since the server started, a bid that memory offers for an
  auction is stored under its own permission key and is pending in the database: a bid that was
  submitted, won, lost, cancelled or expired is never auctioned again.
\<close>

theorem pending_in_memory_is_pending_in_database:
  assumes "repo_step\<^sup>*\<^sup>* (Repository_new db_empty ch) r"
    and "b \<in> set (get_in_memory_pending_bids_by_permission_key r k)"
  shows "get_permission_key (b_chain_data b) = k \<and>
    (\<exists>row. db_bids (repo_db r) (b_id b) = Some row \<and> r_status row = DbPending)"
  using pending_ok_reachable [OF assms(1)] assms(2) by (auto simp: pending_ok_def)


subsection \<open>What was written is read back\<close>

fun status_auction :: "BidStatusSvm \<Rightarrow> BidStatusAuction option" where
  "status_auction Pending = None"
| "status_auction (AwaitingSignature a) = Some a"
| "status_auction (SentToUserForSubmission a) = Some a"
| "status_auction (Submitted a) = Some a"
| "status_auction (Lost a) = a"
| "status_auction (Won a) = Some a"
| "status_auction (Failed a _) = Some a"
| "status_auction (Expired a) = Some a"
| "status_auction (Cancelled a) = Some a"
| "status_auction (SubmissionFailed a _) = Some a"

text \<open>
  The auction a status names is the one the row belongs to (or will), with the hash the status is
  read back with: the bid's own signature, for a lost bid the hash of the auction.
\<close>

definition auction_matches :: "'m db \<Rightarrow> 'm BidRow \<Rightarrow> signature \<Rightarrow> BidStatusSvm \<Rightarrow> bool" where
  "auction_matches d row sig st \<longleftrightarrow>
     (case status_auction st of
        None \<Rightarrow> True
      | Some sa \<Rightarrow>
         (r_status row = DbPending \<or> r_auction_id row = Some (sa_id sa)) \<and>
         (\<exists>arow. db_auctions d (sa_id sa) = Some arow \<and>
            (if \<exists>x. st = Lost x then ar_tx_hash arow = Some (convert_tx_hash (sa_tx_hash sa))
             else sa_tx_hash sa = sig)))"

lemma of_le_convert_tx_hash [simp]: "of_le (convert_tx_hash h) = h"
  unfolding convert_tx_hash_def by (rule of_le_to_le) simp

lemma get_chain_data_update [simp]:
  "get_chain_data_entity (apply_update u row) = get_chain_data_entity row"
  by (simp add: get_chain_data_entity_def)

lemma status_entity_of_update:
  assumes q: "get_update_bid_query st now = Inr (u, c)" and wh: "r_status row \<in> set (bu_where u)"
    and ok: "bid_row_ok i row" and cd: "get_chain_data_entity row = Inr cd"
    and sig: "signatures (cd_transaction cd) = sig # sigs"
    and m: "auction_matches d row sig st" and dok: "db_ok d"
  shows "\<exists>a. set_or (bu_auction_id u) (r_auction_id row) = map_option sa_id (status_auction st) \<and>
    (case status_auction st of None \<Rightarrow> a = None | Some sa \<Rightarrow> a = db_auctions d (sa_id sa) \<and> a \<noteq> None) \<and>
    get_bid_status_entity (apply_update u row) a = Inr st"
proof -
  have cd': "get_chain_data_entity (apply_update u row) = Inr cd"
    using cd by simp
  have reason: "r_status_reason row = None"
    using ok update_query_where [OF q wh] by (auto simp: bid_row_ok_def)
  show ?thesis
  proof (cases "status_auction st")
    case None
    then have "st = Lost None" using q by (cases st) auto
    with q wh ok cd' sig show ?thesis
      by (auto simp: get_bid_status_entity_def get_bid_status_auction_entity_def set_or_def bid_row_ok_def)
  next
    case (Some sa)
    with m obtain arow where arow: "db_auctions d (sa_id sa) = Some arow"
      and own: "r_status row = DbPending \<or> r_auction_id row = Some (sa_id sa)"
      and hash: "if \<exists>x. st = Lost x then ar_tx_hash arow = Some (convert_tx_hash (sa_tx_hash sa))
             else sa_tx_hash sa = sig"
      by (auto simp: auction_matches_def)
    have id: "ar_id arow = sa_id sa" using dok arow by (auto simp: db_ok_def auction_row_ok_def)
    have sa: "\<lparr>sa_id = sa_id sa, sa_tx_hash = sa_tx_hash sa\<rparr> = sa" by simp
    have none: "r_status row = DbPending \<Longrightarrow> r_auction_id row = None" using ok by (auto simp: bid_row_ok_def)
    have "get_bid_status_entity (apply_update u row) (Some arow) = Inr st"
      using q wh Some cd' sig hash id reason sa
      by (cases "(st, now)" rule: get_update_bid_query.cases)
        (auto simp: get_bid_status_entity_def get_bid_status_auction_entity_def convert_tx_hash_def
          set_or_def option.map_comp comp_def map_option_idI split: option.splits)
    moreover have "set_or (bu_auction_id u) (r_auction_id row) = Some (sa_id sa)"
      using q wh Some own none
      by (cases "(st, now)" rule: get_update_bid_query.cases) (auto simp: set_or_def)
    ultimately show ?thesis using Some arow by auto
  qed
qed

lemma get_chain_data_signatures:
  "get_chain_data_entity row = Inr cd \<Longrightarrow> cd_transaction cd = r_transaction row"
  by (auto simp: get_chain_data_entity_def rbind_Inr_iff)

text \<open>
  A status update that reports success is what reading the bid afterwards returns: the
  stored status is converted back to the very status that was written, with its auction, hash and
  failure reason, and a concluding status has the conclusion time the update reported.
\<close>

theorem updated_status_reads_back:
  assumes "db_step\<^sup>*\<^sup>* db_empty (repo_db r)"
    and "repo_update_bid_status bid st now r = (r', Inr (True, c))"
    and "db_bids (repo_db r) (b_id bid) = Some row" and "r_chain_id row = chain_id r"
    and "get_chain_data_entity row = Inr cd" and "signatures (r_transaction row) = sig # sigs"
    and "auction_matches (repo_db r) row sig st"
  shows "\<exists>b'. repo_get_bid r' (b_id bid) = Inr b' \<and> b_status b' = st \<and> b_id b' = b_id bid \<and>
    b_chain_data b' = cd \<and> (is_concluded st \<longrightarrow> b_conclusion_time b' = Some now \<and> c = Some now)"
proof -
  have dok: "db_ok (repo_db r)" using assms(1) by (rule db_reachable_ok)
  then have ok: "bid_row_ok (b_id bid) row" using assms(3) by (simp add: db_ok_def)
  from assms(2) obtain d where upd: "db_update_bid_status (repo_db r) (b_id bid) st now = Inr (d, True, c)"
    by (auto simp: repo_update_bid_status_def Let_def split: sum.splits if_splits)
  have np: "\<not> is_pending st" using upd by (cases st) (auto simp: db_update_bid_status_def)
  have r': "repo_db r' = d" "chain_id r' = chain_id r"
    using assms(2) upd np by (auto simp: repo_update_bid_status_def Let_def)
  from db_update_cases [OF upd] assms(3) obtain u where q: "get_update_bid_query st now = Inr (u, c)"
    and up: "db_up (repo_db r)" and wh: "r_status row \<in> set (bu_where u)"
    and d: "d = (repo_db r)\<lparr>db_bids := (db_bids (repo_db r))(b_id bid \<mapsto> apply_update u row)\<rparr>"
    by (auto split: if_splits)
  have sig: "signatures (cd_transaction cd) = sig # sigs"
    using assms(6) get_chain_data_signatures [OF assms(5)] by simp
  from status_entity_of_update [OF q wh ok assms(5) sig assms(7) dok] obtain a where
    aid: "set_or (bu_auction_id u) (r_auction_id row) = map_option sa_id (status_auction st)"
    and a: "case status_auction st of None \<Rightarrow> a = None | Some sa \<Rightarrow> a = db_auctions (repo_db r) (sa_id sa) \<and> a \<noteq> None"
    and st: "get_bid_status_entity (apply_update u row) a = Inr st" by blast
  have amount: "get_bid_amount_entity (apply_update u row) = Inr (of_int (r_bid_amount row))"
    using ok by (simp add: get_bid_amount_entity_def bid_row_ok_def)
  have fetch: "(case set_or (bu_auction_id u) (r_auction_id row) of
        Some x \<Rightarrow> rbind (db_get_auction d x) (\<lambda>y. Inr (Some y)) | None \<Rightarrow> Inr None) = Inr a"
    using a up by (cases "status_auction st") (auto simp: aid d db_get_auction_def ok_or_def)
  have concl: "is_concluded st \<Longrightarrow> set_or (bu_conclusion_time u) (r_conclusion_time row) = Some now \<and> c = Some now"
    using q by (cases "(st, now)" rule: get_update_bid_query.cases) (auto simp: set_or_def)
  have row: "db_get_bid d (b_id bid) (chain_id r') = Inr (apply_update u row)"
    using up assms(4) r' by (simp add: d db_get_bid_def)
  have ident: "r_id row = b_id bid" using ok by (simp add: bid_row_ok_def)
  show ?thesis
    using row amount st assms(5) concl ident
    by (simp add: repo_get_bid_def r' fetch [folded r'(1)] get_bid_entity_def)
qed


subsection \<open>A concrete repository\<close>

definition sample_chain_data :: "unit BidChainDataSvm" where
  "sample_chain_data = \<lparr>cd_transaction = \<lparr>signatures = [7], message = ()\<rparr>,
     bid_payment_instruction_type = SubmitBidPayment, cd_router = 22, cd_permission_account = 30\<rparr>"

definition sample_row :: "unit BidRow" where
  "sample_row = BidRow_new 1 10 ''solana'' 9 None 500 sample_chain_data"

definition sample_entity :: "unit Bid" where
  "sample_entity = \<lparr>b_id = 1, b_chain_id = ''solana'', b_initiation_time = 9, b_profile_id = None,
     b_opportunity_id = None, b_creation_time = 10, b_conclusion_time = None, b_submission_time = None,
     b_amount = 500, b_status = Pending, b_chain_data = sample_chain_data\<rparr>"

lemma sample_row_entity: "get_bid_entity sample_row None None = Inr sample_entity"
  by (simp add: get_bid_entity_def sample_row_def get_bid_status_entity_def get_bid_amount_entity_def)
    (simp add: BidRow_new_def sample_entity_def sample_chain_data_def)

definition sample_db :: "unit db" where
  "sample_db = \<lparr>db_up = True, db_bids = [1 \<mapsto> sample_row], db_auctions = Map.empty\<rparr>"

definition sample_repo :: "unit repo" where
  "sample_repo = (Repository_new sample_db ''solana'')\<lparr>
     pending_bids := [(get_permission_key sample_chain_data, [sample_entity])]\<rparr>"

lemma sample_add_bid:
  "repo_add_bid 1 10 9 None None sample_chain_data 500 (Repository_new db_empty ''solana'') =
     (sample_repo, Inr sample_entity)"
proof -
  have "db_add_bid db_empty sample_row = Inr sample_db"
    by (simp add: db_add_bid_def db_empty_def sample_db_def) (simp add: sample_row_def BidRow_new_def)
  then show ?thesis
    using sample_row_entity
    by (simp add: repo_add_bid_def Repository_new_def sample_repo_def push_pending_bid_def Let_def
        sample_row_def [symmetric]) (simp add: sample_entity_def)
qed

lemma sample_db_reachable: "db_step\<^sup>*\<^sup>* db_empty sample_db"
proof -
  have "db_add_bid db_empty sample_row = Inr sample_db"
    by (simp add: db_add_bid_def db_empty_def sample_db_def) (simp add: sample_row_def BidRow_new_def)
  then show ?thesis unfolding sample_row_def by (intro r_into_rtranclp) (rule db_step.add_bid)
qed

theorem database_rows_consistent_witness:
  "db_bids sample_db 1 = Some sample_row \<and> length (r_permission_key sample_row) = 65"
  using database_rows_consistent [OF sample_db_reachable] by (simp add: sample_db_def)


theorem pending_in_memory_is_pending_in_database_witness:
  "\<exists>row. db_bids (repo_db sample_repo) 1 = Some row \<and> r_status row = DbPending"
proof -
  have reach: "repo_step\<^sup>*\<^sup>* (Repository_new db_empty ''solana'') sample_repo"
    using repo_step.add_bid [OF sample_add_bid] by (rule r_into_rtranclp)
  have mem: "sample_entity \<in> set (get_in_memory_pending_bids_by_permission_key sample_repo
      (get_permission_key sample_chain_data))"
    by (simp add: sample_repo_def get_in_memory_pending_bids_by_permission_key_def)
  from pending_in_memory_is_pending_in_database [OF reach mem] show ?thesis by (simp add: sample_entity_def)
qed

theorem updated_status_reads_back_witness:
  "\<exists>r' b'. repo_update_bid_status sample_entity (Lost None) 20 sample_repo = (r', Inr (True, Some 20)) \<and>
     repo_get_bid r' 1 = Inr b' \<and> b_status b' = Lost None"
proof -
  have row: "db_bids (repo_db sample_repo) (b_id sample_entity) = Some sample_row"
    "r_chain_id sample_row = chain_id sample_repo" "r_status sample_row = DbPending"
    "get_chain_data_entity sample_row = Inr sample_chain_data" "signatures (r_transaction sample_row) = 7 # []"
    by (simp_all add: sample_repo_def sample_db_def sample_entity_def Repository_new_def sample_row_def)
      (simp_all add: BidRow_new_def sample_chain_data_def)
  have "db_update_bid_status (repo_db sample_repo) (b_id sample_entity) (Lost None) 20 =
      Inr (sample_db\<lparr>db_bids := (db_bids sample_db)(1 \<mapsto> apply_update
        \<lparr>bu_status = DbLost, bu_auction_id = None, bu_conclusion_time = Some 20,
         bu_status_reason = None, bu_where = [DbPending]\<rparr> sample_row)\<rparr>, True, Some 20)"
    using row(3) by (simp add: db_update_bid_status_def sample_db_def sample_repo_def Repository_new_def sample_entity_def)
  then obtain r' where run: "repo_update_bid_status sample_entity (Lost None) 20 sample_repo = (r', Inr (True, Some 20))"
    by (simp add: repo_update_bid_status_def Let_def)
  have db: "db_step\<^sup>*\<^sup>* db_empty (repo_db sample_repo)"
    using sample_db_reachable by (simp add: sample_repo_def Repository_new_def)
  have m: "auction_matches (repo_db sample_repo) sample_row 7 (Lost None)" by (simp add: auction_matches_def)
  from updated_status_reads_back [OF db run row(1,2,4,5) m] run show ?thesis
    by (auto simp: sample_entity_def)
qed

end
