(* ===== verification/As_Config.thy ===== *)
theory As_Config
  imports As_Bid As_Errors "HOL-Library.List_Lexorder"
begin

section \<open>Auction server: configuration of quotes\<close>

text \<open>
  The per-chain configuration of the opportunity service (\<open>opportunity/service/mod.rs\<close>): the
  whitelist of token mints, the minimum referral and platform fees, and the check of a quote
  request against them. Public keys are ordered by their bytes.
\<close>

subsection \<open>Whitelist\<close>

record TokenWhitelist =
  wl_enabled :: bool
  whitelist_mints :: "pubkey list"

text \<open>\<open>binary_search\<close> of the standard library on the interval from \<open>lo\<close> up to \<open>hi\<close>.\<close>

function binary_search :: "'a::linorder list \<Rightarrow> 'a \<Rightarrow> nat \<Rightarrow> nat \<Rightarrow> bool" where
  "binary_search xs x lo hi =
     (if hi \<le> lo then False
      else let mid = (lo + hi) div 2
           in if xs ! mid = x then True
              else if xs ! mid < x then binary_search xs x (Suc mid) hi
              else binary_search xs x lo mid)"
  by pat_completeness auto
termination by (relation "measure (\<lambda>(xs, x, lo, hi). hi - lo)") auto

declare binary_search.simps [simp del]

lemma binary_search_correct:
  "sorted xs \<Longrightarrow> hi \<le> length xs \<Longrightarrow> binary_search xs x lo hi \<longleftrightarrow> (\<exists>i. lo \<le> i \<and> i < hi \<and> xs ! i = x)"
proof (induction xs x lo hi rule: binary_search.induct)
  case (1 xs x lo hi)
  define mid where "mid = (lo + hi) div 2"
  note unf = binary_search.simps [of xs x lo hi, folded mid_def, unfolded Let_def]
  show ?case
  proof (cases "hi \<le> lo")
    case True
    then show ?thesis by (simp add: unf)
  next
    case False
    then have m: "lo \<le> mid" "mid < hi" by (auto simp: mid_def)
    have mono: "i \<le> j \<Longrightarrow> j < hi \<Longrightarrow> xs ! i \<le> xs ! j" for i j
      using "1.prems" by (simp add: sorted_nth_mono)
    consider "xs ! mid = x" | "xs ! mid < x" | "x < xs ! mid" by fastforce
    then show ?thesis
    proof cases
      case 1
      then have "binary_search xs x lo hi" using False unfolding unf by simp
      moreover have "lo \<le> mid \<and> mid < hi \<and> xs ! mid = x" using 1 m by simp
      ultimately show ?thesis by (metis (full_types))
    next
      case 2
      then have ne: "xs ! mid \<noteq> x" by simp
      have out: "i \<le> mid \<Longrightarrow> xs ! i \<noteq> x" for i using mono [of i mid] m 2 by fastforce
      have "binary_search xs x (Suc mid) hi \<longleftrightarrow> (\<exists>i. Suc mid \<le> i \<and> i < hi \<and> xs ! i = x)"
        using "1.IH"(1) [OF False mid_def ne 2] "1.prems" by blast
      also have "\<dots> \<longleftrightarrow> (\<exists>i. lo \<le> i \<and> i < hi \<and> xs ! i = x)"
      proof (rule iff_exI)
        fix i
        show "(Suc mid \<le> i \<and> i < hi \<and> xs ! i = x) \<longleftrightarrow> (lo \<le> i \<and> i < hi \<and> xs ! i = x)"
          using out [of i] m by (cases "i \<le> mid") auto
      qed
      finally show ?thesis using False ne 2 by (simp add: unf)
    next
      case 3
      then have ne: "xs ! mid \<noteq> x" "\<not> xs ! mid < x" by auto
      have out: "mid \<le> i \<Longrightarrow> i < hi \<Longrightarrow> xs ! i \<noteq> x" for i using mono [of mid i] m 3 by fastforce
      have "binary_search xs x lo mid \<longleftrightarrow> (\<exists>i. lo \<le> i \<and> i < mid \<and> xs ! i = x)"
        using "1.IH"(2) [OF False mid_def ne] "1.prems" m by simp
      also have "\<dots> \<longleftrightarrow> (\<exists>i. lo \<le> i \<and> i < hi \<and> xs ! i = x)"
      proof (rule iff_exI)
        fix i
        show "(lo \<le> i \<and> i < mid \<and> xs ! i = x) \<longleftrightarrow> (lo \<le> i \<and> i < hi \<and> xs ! i = x)"
          using out [of i] m by (cases "mid \<le> i") auto
      qed
      finally show ?thesis using False ne by (simp add: unf)
    qed
  qed
qed

definition is_token_mint_allowed :: "TokenWhitelist \<Rightarrow> pubkey \<Rightarrow> bool" where
  "is_token_mint_allowed w mint \<longleftrightarrow>
     \<not> wl_enabled w \<or>
     binary_search (map (to_le 32) (whitelist_mints w)) (to_le 32 mint) 0 (length (whitelist_mints w))"

text \<open>\<open>From<TokenWhitelistConfig>\<close> sorts the configured mints.\<close>

definition TokenWhitelist_from :: "bool \<Rightarrow> pubkey list \<Rightarrow> TokenWhitelist" where
  "TokenWhitelist_from enabled mints = \<lparr>wl_enabled = enabled, whitelist_mints = sort_key (to_le 32) mints\<rparr>"

lemma allowed_from:
  "is_token_mint_allowed (TokenWhitelist_from enabled mints) mint \<longleftrightarrow> \<not> enabled \<or> mint \<in> set mints"
proof -
  let ?key = "to_le 32 :: pubkey \<Rightarrow> u8 list"
  let ?ks = "map ?key (sort_key ?key mints)"
  have "binary_search ?ks (?key mint) 0 (length ?ks) \<longleftrightarrow> (\<exists>i. 0 \<le> i \<and> i < length ?ks \<and> ?ks ! i = ?key mint)"
    by (rule binary_search_correct) simp_all
  also have "\<dots> \<longleftrightarrow> ?key mint \<in> set ?ks" unfolding in_set_conv_nth by simp
  also have "\<dots> \<longleftrightarrow> mint \<in> set mints" by (auto simp: to_le_inject)
  finally show ?thesis by (simp add: is_token_mint_allowed_def TokenWhitelist_from_def)
qed

text \<open>
  The whitelist check, a binary search in the sorted list built from the configuration,
  accepts exactly the configured mints, and every mint when the whitelist is disabled.
\<close>

theorem whitelist_is_membership:
  "is_token_mint_allowed (TokenWhitelist_from enabled mints) mint \<longleftrightarrow> \<not> enabled \<or> mint \<in> set mints"
  by (rule allowed_from)


subsection \<open>Minimum fees\<close>

record MinimumFee =
  mf_mint :: pubkey
  mf_fee_ppm :: u64

record MinimumFeeProfile =
  mfp_profile_id :: "uuid option"
  mfp_minimum_fees :: "MinimumFee list"

definition fee_of_mint :: "MinimumFee list \<Rightarrow> pubkey \<Rightarrow> u64 option" where
  "fee_of_mint fs mint = map_option mf_fee_ppm (find (\<lambda>f. mf_mint f = mint) fs)"

definition get_minimum_fee :: "MinimumFeeProfile list \<Rightarrow> pubkey \<Rightarrow> uuid option \<Rightarrow> u64 option" where
  "get_minimum_fee profiles mint profile_id =
     (let minimum_fee = Option.bind (find (\<lambda>p. mfp_profile_id p = profile_id) profiles)
            (\<lambda>p. fee_of_mint (mfp_minimum_fees p) mint)
      in if minimum_fee = None
         then Option.bind (find (\<lambda>p. mfp_profile_id p = None) profiles)
            (\<lambda>p. fee_of_mint (mfp_minimum_fees p) mint)
         else minimum_fee)"

definition option_max :: "u64 option \<Rightarrow> u64 option \<Rightarrow> u64 option" where
  "option_max a b =
     (case a of None \<Rightarrow> b | Some x \<Rightarrow> (case b of None \<Rightarrow> a | Some y \<Rightarrow> Some (max x y)))"

definition unwrap_or :: "'a option \<Rightarrow> 'a \<Rightarrow> 'a" where
  "unwrap_or x d = (case x of Some y \<Rightarrow> y | None \<Rightarrow> d)"


subsection \<open>The configuration of a chain\<close>

record ConfigSvm =
  accepted_token_programs :: "pubkey list"
  ordered_fee_tokens :: "pubkey list"
  token_whitelist :: TokenWhitelist
  minimum_referral_fee_list :: "MinimumFeeProfile list"
  minimum_platform_fee_list :: "MinimumFee list"
  allow_permissionless_quote_requests :: bool

definition validate_quote ::
  "ConfigSvm \<Rightarrow> pubkey \<Rightarrow> pubkey \<Rightarrow> uuid option \<Rightarrow> u64 \<Rightarrow> RestError + unit" where
  "validate_quote c mint_user mint_searcher profile_id referral_ppm =
     (if \<not> is_token_mint_allowed (token_whitelist c) mint_user
      then Inl (TokenMintNotAllowed ''Input'' ''mint_user'')
      else if \<not> is_token_mint_allowed (token_whitelist c) mint_searcher
      then Inl (TokenMintNotAllowed ''Output'' ''mint_searcher'')
      else if \<not> allow_permissionless_quote_requests c \<and> profile_id = None then Inl Unauthorized
      else
        let minimum_fee_searcher = get_minimum_fee (minimum_referral_fee_list c) mint_searcher profile_id;
            minimum_fee_user = get_minimum_fee (minimum_referral_fee_list c) mint_user profile_id
        in if referral_ppm < max (unwrap_or minimum_fee_searcher 0) (unwrap_or minimum_fee_user 0)
           then Inl QuoteNotFound else Inr ())"

definition get_platform_fee_ppm :: "ConfigSvm \<Rightarrow> pubkey \<Rightarrow> pubkey \<Rightarrow> u64 option" where
  "get_platform_fee_ppm c mint_user mint_searcher =
     option_max (fee_of_mint (minimum_platform_fee_list c) mint_user)
       (fee_of_mint (minimum_platform_fee_list c) mint_searcher)"

definition get_config :: "(string \<Rightarrow> ConfigSvm option) \<Rightarrow> string \<Rightarrow> RestError + ConfigSvm" where
  "get_config configs ch = ok_or (configs ch) (BadParameters ''Chain not found'')"

text \<open>The tokens in the order they are preferred for fees; a token not listed comes last.\<close>

datatype OppFeeToken = UserToken | SearcherToken

definition get_fee_token :: "pubkey \<Rightarrow> pubkey \<Rightarrow> pubkey list \<Rightarrow> OppFeeToken" where
  "get_fee_token user_mint searcher_mint ordered =
     (let user_tier = unwrap_or (position (\<lambda>x. x = user_mint) ordered) (2 ^ 64 - 1);
          searcher_tier = unwrap_or (position (\<lambda>x. x = searcher_mint) ordered) (2 ^ 64 - 1)
      in if user_tier \<le> searcher_tier then UserToken else SearcherToken)"

lemma fee_of_mint_at_least:
  "referral_ppm \<ge> max (unwrap_or a 0) (unwrap_or b 0) \<longleftrightarrow> (\<forall>f. a = Some f \<or> b = Some f \<longrightarrow> f \<le> (referral_ppm :: u64))"
  by (cases a; cases b) (auto simp: unwrap_or_def)

text \<open>
  A quote request is accepted exactly when both mints are whitelisted, the requester has a
  profile or the chain allows anonymous requests, and the referral fee reaches every minimum
  configured for either mint (the profile's own, else the default one).
\<close>

theorem validate_quote_accepts:
  "validate_quote c mint_user mint_searcher profile_id referral_ppm = Inr () \<longleftrightarrow>
     is_token_mint_allowed (token_whitelist c) mint_user \<and>
     is_token_mint_allowed (token_whitelist c) mint_searcher \<and>
     (allow_permissionless_quote_requests c \<or> profile_id \<noteq> None) \<and>
     (\<forall>mint\<in>{mint_user, mint_searcher}. \<forall>f.
        get_minimum_fee (minimum_referral_fee_list c) mint profile_id = Some f \<longrightarrow> f \<le> referral_ppm)"
proof -
  have "(\<forall>mint\<in>{mint_user, mint_searcher}. \<forall>f.
        get_minimum_fee (minimum_referral_fee_list c) mint profile_id = Some f \<longrightarrow> f \<le> referral_ppm) \<longleftrightarrow>
      \<not> referral_ppm < max (unwrap_or (get_minimum_fee (minimum_referral_fee_list c) mint_searcher profile_id) 0)
            (unwrap_or (get_minimum_fee (minimum_referral_fee_list c) mint_user profile_id) 0)"
    unfolding not_less fee_of_mint_at_least by blast
  then show ?thesis by (simp add: validate_quote_def Let_def)
qed

definition sample_config :: ConfigSvm where
  "sample_config = \<lparr>accepted_token_programs = [1], ordered_fee_tokens = [5],
     token_whitelist = TokenWhitelist_from True [9, 5], minimum_referral_fee_list =
       [\<lparr>mfp_profile_id = None, mfp_minimum_fees = [\<lparr>mf_mint = 5, mf_fee_ppm = 100\<rparr>]\<rparr>],
     minimum_platform_fee_list = [\<lparr>mf_mint = 9, mf_fee_ppm = 3000\<rparr>],
     allow_permissionless_quote_requests = True\<rparr>"

theorem validate_quote_accepts_witness:
  "validate_quote sample_config 5 9 None 100 = Inr ()"
proof -
  have mints: "is_token_mint_allowed (token_whitelist sample_config) 5"
    "is_token_mint_allowed (token_whitelist sample_config) 9"
    by (simp_all add: sample_config_def allowed_from)
  have "get_minimum_fee (minimum_referral_fee_list sample_config) 5 None = Some 100"
    "get_minimum_fee (minimum_referral_fee_list sample_config) 9 None = None"
    by (simp_all add: get_minimum_fee_def fee_of_mint_def sample_config_def)
  with mints show ?thesis
    unfolding validate_quote_accepts by (simp add: sample_config_def)
qed

end
