(* ===== verification/As_Messages.thy ===== *)
theory As_Messages
  imports As_Repo As_Config Er_Bid
begin

section \<open>Auction server: transactions and the data in them\<close>

text \<open>
  Transactions as the server reads them: resolving an instruction's account to a public key
  (static keys, then address lookup tables, with the server's cache of tables), finding the
  instructions of a program, and decoding the Express Relay instruction
  (\<open>auction/service/verification.rs\<close>, \<open>auction/service/get_bid_transaction_data.rs\<close>).

  Steps that read or fill a cache are actions: they take the state and return the new state with a
  result or a reason to stop; \<open>seq\<close> runs one after the other and stops at the first that does.
\<close>

subsection \<open>Actions\<close>

type_synonym ('s, 'a) action = "'s \<Rightarrow> 's \<times> 'a rest"

definition yields :: "'e + 'a \<Rightarrow> 's \<Rightarrow> 's \<times> ('e + 'a)" where
  "yields r s = (s, r)"

definition fails :: "RestError \<Rightarrow> ('s, 'a) action" where
  "fails e s = (s, Inl (Fails e))"

definition seq ::
  "('s \<Rightarrow> 's \<times> ('e + 'a)) \<Rightarrow> ('a \<Rightarrow> 's \<Rightarrow> 's \<times> ('e + 'b)) \<Rightarrow> 's \<Rightarrow> 's \<times> ('e + 'b)" where
  "seq m f s = (case m s of (s', Inl e) \<Rightarrow> (s', Inl e) | (s', Inr x) \<Rightarrow> f x s')"

fun each :: "('a \<Rightarrow> ('s, 'b) action) \<Rightarrow> 'a list \<Rightarrow> ('s, 'b list) action" where
  "each f [] = yields (Inr [])"
| "each f (x # xs) = seq (f x) (\<lambda>y. seq (each f xs) (\<lambda>ys. yields (Inr (y # ys))))"

fun each_rest :: "('a \<Rightarrow> 'e + 'b) \<Rightarrow> 'a list \<Rightarrow> 'e + 'b list" where
  "each_rest f [] = Inr []"
| "each_rest f (x # xs) = rbind (f x) (\<lambda>y. rbind (each_rest f xs) (\<lambda>ys. Inr (y # ys)))"

text \<open>
  The interface between the checks and the caches: a query whose answer does not depend on what is
  cached and which keeps the cache truthful.
\<close>

definition answers :: "('s \<Rightarrow> bool) \<Rightarrow> ('s, 'a) action \<Rightarrow> 'a rest \<Rightarrow> bool" where
  "answers ok m r \<longleftrightarrow> (\<forall>s. ok s \<longrightarrow> ok (fst (m s)) \<and> snd (m s) = r)"

named_theorems answer_intros

lemma answersI: "(\<And>s. ok s \<Longrightarrow> ok (fst (m s)) \<and> snd (m s) = r) \<Longrightarrow> answers ok m r"
  by (simp add: answers_def)

lemma answers_yields [answer_intros]: "answers ok (yields r) r"
  by (simp add: answers_def yields_def)

lemma answers_fails [answer_intros]: "answers ok (fails e) (Inl (Fails e))"
  by (simp add: answers_def fails_def)

lemma answers_seq [answer_intros]:
  assumes "answers ok m r" and "\<And>x. answers ok (f x) (g x)"
  shows "answers ok (seq m f) (rbind r g)"
proof (rule answersI)
  fix s
  assume "ok s"
  obtain s' y where ms: "m s = (s', y)" by fastforce
  with assms(1) \<open>ok s\<close> have "ok s'" "y = r" by (auto simp: answers_def)
  with ms assms(2) show "ok (fst (seq m f s)) \<and> snd (seq m f s) = rbind r g"
    by (cases y) (auto simp: seq_def answers_def)
qed

lemma answers_if [answer_intros]:
  "answers ok m r \<Longrightarrow> answers ok m' r' \<Longrightarrow> answers ok (if b then m else m') (if b then r else r')"
  by simp

lemma answers_prod [answer_intros]:
  "(\<And>a b. answers ok (m a b) (r a b)) \<Longrightarrow>
     answers ok (case p of (a, b) \<Rightarrow> m a b) (case p of (a, b) \<Rightarrow> r a b)"
  by (cases p) simp

lemma answers_option [answer_intros]:
  "answers ok m r \<Longrightarrow> (\<And>a. answers ok (n a) (q a)) \<Longrightarrow>
     answers ok (case x of None \<Rightarrow> m | Some a \<Rightarrow> n a) (case x of None \<Rightarrow> r | Some a \<Rightarrow> q a)"
  by (cases x) simp_all

lemma answers_cong: "answers ok m r \<Longrightarrow> r = r' \<Longrightarrow> answers ok m r'"
  by simp

locale cached_query =
  fixes ok :: "'s \<Rightarrow> bool"
    and query :: "'k \<Rightarrow> ('s, 'v) action"
    and direct :: "'k \<Rightarrow> 'v rest"
  assumes query_answers: "answers ok (query k) (direct k)"
begin

lemma each_answers: "answers ok (each query ks) (each_rest direct ks)"
  by (induction ks) (auto intro!: answer_intros query_answers)

lemma query_twice: "ok s \<Longrightarrow> snd (query k (fst (query j s))) = snd (query k s)"
  using query_answers by (simp add: answers_def)

end


subsection \<open>Transactions\<close>

record CompiledInstruction =
  program_id_index :: u8
  ci_accounts :: "u8 list"
  ci_data :: "u8 list"

record MessageAddressTableLookup =
  account_key :: pubkey
  writable_indexes :: "u8 list"
  readonly_indexes :: "u8 list"

text \<open>
  A message; \<open>msg_rest\<close> stands for its header and recent blockhash, of which only equality is used.
  A legacy message has no table lookups.
\<close>

record VersionedMessage =
  static_account_keys :: "pubkey list"
  instructions :: "CompiledInstruction list"
  address_table_lookups :: "MessageAddressTableLookup list option"
  msg_rest :: "u8 list"

type_synonym tx = "VersionedMessage transaction"

datatype TokenInstruction = CloseAccount | SyncNative | OtherTokenInstruction string

datatype AssociatedTokenAccountInstruction = CreateAta | CreateIdempotentAta | RecoverNestedAta

text \<open>
  What the server relies on and does not implement: the RPC node (accounts), the libraries'
  decoders of foreign instructions, signatures, program-derived addresses, and the rent of a token
  account (\<open>Rent::default().minimum_balance(TokenAccount::LEN)\<close>). An instruction
  decoder returns \<open>None\<close> where the library's fails.
\<close>

record env =
  rpc_get_account :: "pubkey \<Rightarrow> unit + u8 list option"
  deserialize_lookup_table :: "u8 list \<Rightarrow> pubkey list option"
  serialize_message :: "VersionedMessage \<Rightarrow> u8 list"
  serialized_size :: "tx \<Rightarrow> nat"
  verify_signature :: "signature \<Rightarrow> pubkey \<Rightarrow> u8 list \<Rightarrow> bool"
  relayer_pubkey :: pubkey
  relayer_sign :: "u8 list \<Rightarrow> signature"
  express_relay_program :: pubkey
  system_transfer :: "u8 list \<Rightarrow> u64 option"
  unpack_token_instruction :: "u8 list \<Rightarrow> TokenInstruction option"
  parse_ata_instruction :: "u8 list \<Rightarrow> AssociatedTokenAccountInstruction option"
  set_compute_unit_price :: "u8 list \<Rightarrow> u64 option"
  associated_token_address :: "pubkey \<Rightarrow> pubkey \<Rightarrow> pubkey \<Rightarrow> pubkey"
  find_program_address :: "u8 list list \<Rightarrow> pubkey \<Rightarrow> pubkey"
  opp_configs :: "string \<Rightarrow> ConfigSvm option"
  rent_of_token_account :: u64

text \<open>The addresses of the programs the server knows, decoded from base 58.\<close>

definition SYSTEM_PROGRAM :: pubkey where "SYSTEM_PROGRAM = 0"

definition SPL_TOKEN :: pubkey where
  "SPL_TOKEN = 76442634766951278574851011470472957949510043171089429576505158730255542181126"

definition SPL_ASSOCIATED_TOKEN_ACCOUNT :: pubkey where
  "SPL_ASSOCIATED_TOKEN_ACCOUNT = 40695635629901152665410025302173295360073252240518262094500050880242748069772"

definition SPL_MEMO :: pubkey where
  "SPL_MEMO = 63896293518582907320295649682395513112860751922152869605101951310153771076101"

definition COMPUTE_BUDGET :: pubkey where
  "COMPUTE_BUDGET = 1731608570859680351256770061668080106359286076089926184483795371427331"

definition NATIVE_MINT :: pubkey where
  "NATIVE_MINT = 452312848682254728109074716018410578554233241794521621781515434726607330054"


subsection \<open>State shared by the two services\<close>

record TokenMint =
  tm_mint :: pubkey
  tm_decimals :: u8
  tm_token_program :: pubkey

record caches =
  auction_repo :: "VersionedMessage repo"
  express_relay_metadata :: "ExpressRelayMetadata option"
  token_mint_cache :: "(pubkey \<times> TokenMint) list"


subsection \<open>Resolving accounts\<close>

definition query_lookup_table :: "env \<Rightarrow> pubkey \<Rightarrow> nat \<Rightarrow> ('z caches_scheme, pubkey) action" where
  "query_lookup_table env table index s =
     (case Option.bind (get_lookup_table (auction_repo s) table) (\<lambda>addresses. nth_opt addresses index) of
        Some account \<Rightarrow> (s, Inr account)
      | None \<Rightarrow>
         (case rpc_get_account env table of
            Inl _ \<Rightarrow> (s, Inl (Fails TemporarilyUnavailable))
          | Inr None \<Rightarrow> (s, Inl (Fails (BadParameters ''Lookup table account not found'')))
          | Inr (Some table_data) \<Rightarrow>
             (case deserialize_lookup_table env table_data of
                None \<Rightarrow> (s, Inl (Fails (BadParameters ''Failed deserializing lookup table account data'')))
              | Some addresses \<Rightarrow>
                 (case nth_opt addresses index of
                    None \<Rightarrow> (s, Inl (Fails (BadParameters ''Account not found in lookup table'')))
                  | Some account \<Rightarrow>
                      (s\<lparr>auction_repo := add_lookup_table table addresses (auction_repo s)\<rparr>, Inr account)))))"

definition find_and_query_lookup_table ::
  "env \<Rightarrow> (pubkey \<times> u8) list \<Rightarrow> nat \<Rightarrow> ('z caches_scheme, pubkey) action" where
  "find_and_query_lookup_table env lookup_accounts account_position =
     (case nth_opt lookup_accounts account_position of
        None \<Rightarrow> fails (BadParameters ''Lookup table not found in lookup accounts'')
      | Some (table, index) \<Rightarrow> query_lookup_table env table (unat index))"

text \<open>The accounts of the lookup tables in the order a transaction numbers them: writable first.\<close>

definition lookup_accounts_of :: "MessageAddressTableLookup list \<Rightarrow> (pubkey \<times> u8) list" where
  "lookup_accounts_of ls =
     concat (map (\<lambda>x. map (\<lambda>y. (account_key x, y)) (writable_indexes x)) ls) @
     concat (map (\<lambda>x. map (\<lambda>y. (account_key x, y)) (readonly_indexes x)) ls)"

definition extract_account ::
  "env \<Rightarrow> tx \<Rightarrow> CompiledInstruction \<Rightarrow> nat \<Rightarrow> ('z caches_scheme, pubkey) action" where
  "extract_account env t ix pos =
     (case nth_opt (ci_accounts ix) pos of
        None \<Rightarrow> fails (BadParameters ''Account not found in instruction'')
      | Some p \<Rightarrow>
         (case nth_opt (static_account_keys (message t)) (unat p) of
            Some account \<Rightarrow> yields (Inr account)
          | None \<Rightarrow>
             (case address_table_lookups (message t) of
                Some ls \<Rightarrow> find_and_query_lookup_table env (lookup_accounts_of ls)
                             (unat p - length (static_account_keys (message t)))
              | None \<Rightarrow> fails (BadParameters ''No lookup tables found''))))"


subsection \<open>The instructions of a program\<close>

text \<open>\<open>program_id\<close> indexes the static keys and panics when the index is out of range.\<close>

definition ix_program_id_of :: "tx \<Rightarrow> CompiledInstruction \<Rightarrow> pubkey rest" where
  "ix_program_id_of t ix = ok_or (nth_opt (static_account_keys (message t)) (unat (program_id_index ix))) Panics"

fun filter_program :: "tx \<Rightarrow> pubkey \<Rightarrow> (nat \<times> CompiledInstruction) list \<Rightarrow> (nat \<times> CompiledInstruction) list rest" where
  "filter_program t program [] = Inr []"
| "filter_program t program ((i, ix) # ixs) =
     rbind (ix_program_id_of t ix) (\<lambda>p.
     rbind (filter_program t program ixs) (\<lambda>rest.
       Inr (if p = program then (i, ix) # rest else rest)))"

definition extract_program_instructions :: "tx \<Rightarrow> pubkey \<Rightarrow> (nat \<times> CompiledInstruction) list rest" where
  "extract_program_instructions t program =
     filter_program t program (List.enumerate 0 (instructions (message t)))"

definition programs_in_range :: "tx \<Rightarrow> bool" where
  "programs_in_range t \<longleftrightarrow>
     (\<forall>ix\<in>set (instructions (message t)). unat (program_id_index ix) < length (static_account_keys (message t)))"

definition program_of :: "tx \<Rightarrow> CompiledInstruction \<Rightarrow> pubkey" where
  "program_of t ix = static_account_keys (message t) ! unat (program_id_index ix)"

lemma filter_program_eq:
  "filter_program t program ixs =
     (if \<forall>(i, ix)\<in>set ixs. unat (program_id_index ix) < length (static_account_keys (message t))
      then Inr (filter (\<lambda>(i, ix). program_of t ix = program) ixs) else Inl Panics)"
  by (induction ixs) (auto simp: ix_program_id_of_def nth_opt_def program_of_def)

lemma set_snd_enumerate: "snd ` set (List.enumerate n xs) = set xs"
  by (metis list.set_map map_snd_enumerate)

lemma extract_program_instructions_eq:
  "extract_program_instructions t program =
     (if programs_in_range t
      then Inr (filter (\<lambda>(i, ix). program_of t ix = program) (List.enumerate 0 (instructions (message t))))
      else Inl Panics)"
proof -
  have "(\<forall>(i, ix)\<in>set (List.enumerate 0 (instructions (message t))).
      unat (program_id_index ix) < length (static_account_keys (message t))) \<longleftrightarrow> programs_in_range t"
    using set_snd_enumerate [of 0 "instructions (message t)"]
    by (force simp: programs_in_range_def case_prod_beta)
  then show ?thesis by (simp add: extract_program_instructions_def filter_program_eq)
qed


subsection \<open>Arguments of the swap instructions\<close>

definition swap_discriminator :: "u8 list" where
  "swap_discriminator = [248, 198, 158, 145, 225, 117, 135, 200]"

definition swap_v2_discriminator :: "u8 list" where
  "swap_v2_discriminator = [43, 4, 237, 11, 26, 201, 30, 98]"

definition ser_fee_token :: "FeeToken \<Rightarrow> u8 list" where
  "ser_fee_token f = (case f of Searcher \<Rightarrow> [0] | User \<Rightarrow> [1])"

definition deser_fee_token :: "u8 list \<Rightarrow> (FeeToken \<times> u8 list) option" where
  "deser_fee_token bs =
     (case bs of b # r \<Rightarrow> if b = 0 then Some (Searcher, r) else if b = 1 then Some (User, r) else None
      | [] \<Rightarrow> None)"

definition ser_swap_args :: "SwapArgs \<Rightarrow> u8 list" where
  "ser_swap_args a = to_le 8 (v1_deadline a) @ to_le 8 (v1_amount_searcher a) @ to_le 8 (v1_amount_user a) @
     to_le 2 (referral_fee_bps a) @ ser_fee_token (v1_fee_token a)"

definition deser_swap_args :: "u8 list \<Rightarrow> (SwapArgs \<times> u8 list) option" where
  "deser_swap_args bs = do {
     (d, bs) \<leftarrow> read_word 8 bs;
     (s, bs) \<leftarrow> read_word 8 bs;
     (u, bs) \<leftarrow> read_word 8 bs;
     (r, bs) \<leftarrow> read_word 2 bs;
     (f, bs) \<leftarrow> deser_fee_token bs;
     Some (\<lparr>v1_deadline = d, v1_amount_searcher = s, v1_amount_user = u, referral_fee_bps = r,
            v1_fee_token = f\<rparr>, bs)
   }"

definition ser_swap_v2_args :: "SwapV2Args \<Rightarrow> u8 list" where
  "ser_swap_v2_args a = to_le 8 (deadline a) @ to_le 8 (amount_searcher a) @ to_le 8 (amount_user a) @
     to_le 8 (referral_fee_ppm a) @ ser_fee_token (fee_token a) @ to_le 8 (swap_platform_fee_ppm a)"

definition deser_swap_v2_args :: "u8 list \<Rightarrow> (SwapV2Args \<times> u8 list) option" where
  "deser_swap_v2_args bs = do {
     (d, bs) \<leftarrow> read_word 8 bs;
     (s, bs) \<leftarrow> read_word 8 bs;
     (u, bs) \<leftarrow> read_word 8 bs;
     (r, bs) \<leftarrow> read_word 8 bs;
     (f, bs) \<leftarrow> deser_fee_token bs;
     (p, bs) \<leftarrow> read_word 8 bs;
     Some (\<lparr>deadline = d, amount_searcher = s, amount_user = u, referral_fee_ppm = r, fee_token = f,
            swap_platform_fee_ppm = p\<rparr>, bs)
   }"

lemma fee_token_codec [simp]:
  "deser_fee_token (ser_fee_token f @ r) = Some (f, r)" "length (ser_fee_token f) = 1"
  by (simp_all add: deser_fee_token_def ser_fee_token_def split: FeeToken.split)

lemma fee_token_inverse: "deser_fee_token bs = Some (f, r) \<Longrightarrow> bs = ser_fee_token f @ r"
  by (auto simp: deser_fee_token_def ser_fee_token_def split: list.splits if_splits)

lemma ser_deser_swap_args: "deser_swap_args bs = Some (a, r) \<Longrightarrow> bs = ser_swap_args a @ r"
  by (auto simp: deser_swap_args_def ser_swap_args_def bind_eq_Some_conv
      dest!: read_word_inverse fee_token_inverse)

lemma ser_deser_swap_v2_args: "deser_swap_v2_args bs = Some (a, r) \<Longrightarrow> bs = ser_swap_v2_args a @ r"
  by (auto simp: deser_swap_v2_args_def ser_swap_v2_args_def bind_eq_Some_conv
      dest!: read_word_inverse fee_token_inverse)

lemma length_swap [simp]:
  "length swap_discriminator = 8" "length swap_v2_discriminator = 8"
  "length (ser_swap_args a) = 27" "length (ser_swap_v2_args b) = 41"
  by (simp_all add: swap_discriminator_def swap_v2_discriminator_def ser_swap_args_def ser_swap_v2_args_def)

interpretation swap_codec: account_codec swap_discriminator ser_swap_args deser_swap_args 27
proof unfold_locales
  show "deser_swap_args (ser_swap_args a @ r) = Some (a, r)" for a r
    by (simp add: deser_swap_args_def ser_swap_args_def)
qed (simp_all add: ser_deser_swap_args)

interpretation swap_v2_codec: account_codec swap_v2_discriminator ser_swap_v2_args deser_swap_v2_args 41
proof unfold_locales
  show "deser_swap_v2_args (ser_swap_v2_args a @ r) = Some (a, r)" for a r
    by (simp add: deser_swap_v2_args_def ser_swap_v2_args_def)
qed (simp_all add: ser_deser_swap_v2_args)

lemma swap_discriminators_distinct [simp]:
  "swap_discriminator \<noteq> swap_v2_discriminator" "submit_bid_discriminator \<noteq> swap_discriminator"
  "submit_bid_discriminator \<noteq> swap_v2_discriminator"
  by (simp_all add: swap_discriminator_def swap_v2_discriminator_def submit_bid_discriminator_def)

text \<open>\<open>try_from_slice\<close> refuses bytes left over.\<close>

definition whole :: "('a \<times> u8 list) option \<Rightarrow> 'a option" where
  "whole x = (case x of Some (a, []) \<Rightarrow> Some a | _ \<Rightarrow> None)"



subsection \<open>Account positions\<close>

text \<open>
  \<open>build.rs\<close> looks the positions up in the IDL, whose account lists are the fields of the
  program's \<open>SubmitBid\<close> and \<open>Swap\<close> structs in their order.
\<close>

definition submit_bid_accounts_idl :: "string list" where
  "submit_bid_accounts_idl = [''searcher'', ''relayer_signer'', ''permission'', ''router'', ''config_router'',
     ''express_relay_metadata'', ''fee_receiver_relayer'', ''system_program'', ''sysvar_instructions'']"

definition swap_accounts_idl :: "string list" where
  "swap_accounts_idl = [''searcher'', ''user'', ''searcher_ta_mint_searcher'', ''searcher_ta_mint_user'',
     ''user_ata_mint_searcher'', ''user_ata_mint_user'', ''router_fee_receiver_ta'',
     ''relayer_fee_receiver_ata'', ''express_relay_fee_receiver_ata'', ''mint_searcher'', ''mint_user'',
     ''mint_fee'', ''token_program_searcher'', ''token_program_user'', ''token_program_fee'',
     ''express_relay_metadata'', ''relayer_signer'']"

definition extract_account_position :: "string list \<Rightarrow> string \<Rightarrow> nat" where
  "extract_account_position accounts name = the (position (\<lambda>a. a = name) accounts)"

lemma account_positions [simp]:
  "extract_account_position submit_bid_accounts_idl ''permission'' = 2"
  "extract_account_position submit_bid_accounts_idl ''router'' = 3"
  "extract_account_position swap_accounts_idl ''searcher'' = 0"
  "extract_account_position swap_accounts_idl ''user'' = 1"
  "extract_account_position swap_accounts_idl ''router_fee_receiver_ta'' = 6"
  "extract_account_position swap_accounts_idl ''mint_searcher'' = 9"
  "extract_account_position swap_accounts_idl ''mint_user'' = 10"
  "extract_account_position swap_accounts_idl ''token_program_searcher'' = 12"
  "extract_account_position swap_accounts_idl ''token_program_user'' = 13"
  by (simp_all add: extract_account_position_def position_def submit_bid_accounts_idl_def swap_accounts_idl_def)


subsection \<open>The program's metadata, cached\<close>

definition calculate_metadata_address :: "env \<Rightarrow> pubkey" where
  "calculate_metadata_address env = find_program_address env [SEED_METADATA] (express_relay_program env)"

definition fetch_express_relay_metadata :: "env \<Rightarrow> string \<Rightarrow> ExpressRelayMetadata rest" where
  "fetch_express_relay_metadata env ch =
     (case get_config (opp_configs env) ch of
        Inl e \<Rightarrow> Inl (Fails e)
      | Inr _ \<Rightarrow>
         (case rpc_get_account env (calculate_metadata_address env) of
            Inr (Some account_data) \<Rightarrow>
              (case try_deserialize metadata_discriminator deser_metadata account_data of
                 Inr m \<Rightarrow> Inr m
               | Inl _ \<Rightarrow> Inl (Fails TemporarilyUnavailable))
          | _ \<Rightarrow> Inl (Fails TemporarilyUnavailable)))"

definition get_express_relay_metadata :: "env \<Rightarrow> string \<Rightarrow> ('z caches_scheme, ExpressRelayMetadata) action" where
  "get_express_relay_metadata env ch s =
     (case express_relay_metadata s of
        Some m \<Rightarrow> (s, Inr m)
      | None \<Rightarrow>
         (case fetch_express_relay_metadata env ch of
            Inl e \<Rightarrow> (s, Inl e)
          | Inr m \<Rightarrow> (s\<lparr>express_relay_metadata := Some m\<rparr>, Inr m)))"


subsection \<open>The data of a bid's transaction\<close>

record SwapAccounts =
  sa_searcher :: pubkey
  sa_user_wallet :: pubkey
  sa_mint_searcher :: pubkey
  sa_mint_user :: pubkey
  sa_router_token_account :: pubkey
  sa_token_program_searcher :: pubkey
  sa_token_program_user :: pubkey

record BidTransactionDataSwap =
  swap_data :: SwapV2Args
  swap_tx_accounts :: SwapAccounts
  swap_ix_index :: nat

record BidTransactionDataSubmitBid =
  submit_data :: SubmitBidArgs
  submit_router :: pubkey
  submit_permission_account :: pubkey
  submit_ix_index :: nat

datatype BidTransactionData = SubmitBidData BidTransactionDataSubmitBid | SwapData BidTransactionDataSwap

definition starts_with :: "u8 list \<Rightarrow> u8 list \<Rightarrow> bool" where
  "starts_with bs prefix \<longleftrightarrow> take (length prefix) bs = prefix"

definition valid_discriminators :: "BidPaymentInstructionType \<Rightarrow> u8 list list" where
  "valid_discriminators ty =
     (case ty of SubmitBidPayment \<Rightarrow> [submit_bid_discriminator]
      | SwapPayment \<Rightarrow> [swap_discriminator, swap_v2_discriminator])"

definition extract_express_relay_instruction ::
  "env \<Rightarrow> tx \<Rightarrow> BidPaymentInstructionType \<Rightarrow> (nat \<times> CompiledInstruction) rest" where
  "extract_express_relay_instruction env t ty =
     rbind (extract_program_instructions t (express_relay_program env)) (\<lambda>ixs.
       case ixs of
         [(i, ix)] \<Rightarrow>
           if \<forall>d\<in>set (valid_discriminators ty). \<not> starts_with (ci_data ix) d
           then Inl (Fails (BadParameters ''Wrong instruction type for Express Relay Program''))
           else Inr (i, ix)
       | _ \<Rightarrow> Inl (Fails (InvalidExpressRelayInstructionCount (length ixs))))"

text \<open>Slicing the data behind the discriminator panics when the data is shorter than that.\<close>

definition extract_submit_bid_data :: "CompiledInstruction \<Rightarrow> SubmitBidArgs rest" where
  "extract_submit_bid_data ix =
     (if length (ci_data ix) < 8 then Inl Panics
      else ok_or (whole (deser_submit_bid_args (drop 8 (ci_data ix))))
             (Fails (BadParameters ''Invalid submit_bid instruction data'')))"

definition extract_swap_data :: "env \<Rightarrow> string \<Rightarrow> CompiledInstruction \<Rightarrow> ('z caches_scheme, SwapV2Args) action" where
  "extract_swap_data env ch ix =
     (if starts_with (ci_data ix) swap_discriminator
      then seq (get_express_relay_metadata env ch) (\<lambda>md.
           seq (yields (ok_or (whole (deser_swap_args (drop 8 (ci_data ix))))
                 (Fails (BadParameters ''Invalid swap instruction data'')))) (\<lambda>args.
           yields (case SwapArgs_convert_to_v2 args (swap_platform_fee_bps md) of
                     Inr a \<Rightarrow> Inr a | Inl _ \<Rightarrow> Inl Panics)))
      else if length (ci_data ix) < 8 then yields (Inl Panics)
      else yields (ok_or (whole (deser_swap_v2_args (drop 8 (ci_data ix))))
             (Fails (BadParameters ''Invalid swap instruction data''))))"

definition extract_swap_accounts :: "env \<Rightarrow> tx \<Rightarrow> CompiledInstruction \<Rightarrow> ('z caches_scheme, SwapAccounts) action" where
  "extract_swap_accounts env t ix =
     (let at = (\<lambda>name. extract_account env t ix (extract_account_position swap_accounts_idl name))
      in seq (at ''searcher'') (\<lambda>searcher.
         seq (at ''user'') (\<lambda>user.
         seq (at ''mint_searcher'') (\<lambda>ms.
         seq (at ''mint_user'') (\<lambda>mu.
         seq (at ''router_fee_receiver_ta'') (\<lambda>rta.
         seq (at ''token_program_searcher'') (\<lambda>tps.
         seq (at ''token_program_user'') (\<lambda>tpu.
           yields (Inr \<lparr>sa_searcher = searcher, sa_user_wallet = user, sa_mint_searcher = ms,
             sa_mint_user = mu, sa_router_token_account = rta, sa_token_program_searcher = tps,
             sa_token_program_user = tpu\<rparr>)))))))))"

definition get_bid_transaction_data_swap ::
  "env \<Rightarrow> string \<Rightarrow> tx \<Rightarrow> ('z caches_scheme, BidTransactionDataSwap) action" where
  "get_bid_transaction_data_swap env ch t =
     seq (yields (extract_express_relay_instruction env t SwapPayment)) (\<lambda>(i, ix).
     seq (extract_swap_data env ch ix) (\<lambda>data.
     seq (extract_swap_accounts env t ix) (\<lambda>accounts.
       yields (Inr \<lparr>swap_data = data, swap_tx_accounts = accounts, swap_ix_index = i\<rparr>))))"

definition get_bid_transaction_data_submit_bid ::
  "env \<Rightarrow> tx \<Rightarrow> ('z caches_scheme, BidTransactionDataSubmitBid) action" where
  "get_bid_transaction_data_submit_bid env t =
     seq (yields (extract_express_relay_instruction env t SubmitBidPayment)) (\<lambda>(i, ix).
     seq (yields (extract_submit_bid_data ix)) (\<lambda>data.
     seq (extract_account env t ix (extract_account_position submit_bid_accounts_idl ''permission'')) (\<lambda>permission.
     seq (extract_account env t ix (extract_account_position submit_bid_accounts_idl ''router'')) (\<lambda>router.
       yields (Inr \<lparr>submit_data = data, submit_router = router, submit_permission_account = permission,
         submit_ix_index = i\<rparr>)))))"

definition get_bid_transaction_data ::
  "env \<Rightarrow> string \<Rightarrow> VersionedMessage Bid \<Rightarrow> ('z caches_scheme, BidTransactionData) action" where
  "get_bid_transaction_data env ch bid =
     (case bid_payment_instruction_type (b_chain_data bid) of
        SubmitBidPayment \<Rightarrow>
          seq (yields (extract_express_relay_instruction env (cd_transaction (b_chain_data bid)) SubmitBidPayment)) (\<lambda>(i, ix).
          seq (yields (extract_submit_bid_data ix)) (\<lambda>data.
            yields (Inr (SubmitBidData \<lparr>submit_data = data, submit_router = cd_router (b_chain_data bid),
              submit_permission_account = cd_permission_account (b_chain_data bid), submit_ix_index = i\<rparr>))))
      | SwapPayment \<Rightarrow>
          seq (get_bid_transaction_data_swap env ch (cd_transaction (b_chain_data bid))) (\<lambda>d.
            yields (Inr (SwapData d))))"



subsection \<open>The caches change no answer\<close>

text \<open>
  A cached table is a prefix of the table on the chain, since lookup tables only grow; cached
  metadata are those the chain answers with (the code caches them for its lifetime).
\<close>

definition caches_ok :: "env \<Rightarrow> string \<Rightarrow> 'z caches_scheme \<Rightarrow> bool" where
  "caches_ok env ch s \<longleftrightarrow>
     (\<forall>k addrs. get_lookup_table (auction_repo s) k = Some addrs \<longrightarrow>
        (\<exists>d more. rpc_get_account env k = Inr (Some d) \<and> deserialize_lookup_table env d = Some (addrs @ more))) \<and>
     (\<forall>m. express_relay_metadata s = Some m \<longrightarrow> fetch_express_relay_metadata env ch = Inr m)"

text \<open>The invariant of the queries: truthful caches beside a rest \<open>z\<close> of the state they never touch.\<close>

definition caches_at :: "env \<Rightarrow> string \<Rightarrow> 'z \<Rightarrow> 'z caches_scheme \<Rightarrow> bool" where
  "caches_at env ch z s \<longleftrightarrow> caches_ok env ch s \<and> caches.more s = z"

lemma caches_at_self: "caches_ok env ch s \<Longrightarrow> caches_at env ch (caches.more s) s"
  by (simp add: caches_at_def)

definition lookup_entry :: "env \<Rightarrow> pubkey \<Rightarrow> nat \<Rightarrow> pubkey rest" where
  "lookup_entry env table index =
     (case rpc_get_account env table of
        Inl _ \<Rightarrow> Inl (Fails TemporarilyUnavailable)
      | Inr None \<Rightarrow> Inl (Fails (BadParameters ''Lookup table account not found''))
      | Inr (Some d) \<Rightarrow>
         (case deserialize_lookup_table env d of
            None \<Rightarrow> Inl (Fails (BadParameters ''Failed deserializing lookup table account data''))
          | Some addresses \<Rightarrow>
              ok_or (nth_opt addresses index) (Fails (BadParameters ''Account not found in lookup table''))))"

text \<open>All accounts of a transaction in the order its instructions number them.\<close>

definition loaded_accounts :: "env \<Rightarrow> tx \<Rightarrow> pubkey rest list" where
  "loaded_accounts env t =
     map Inr (static_account_keys (message t)) @
     (case address_table_lookups (message t) of
        None \<Rightarrow> [] | Some ls \<Rightarrow> map (\<lambda>(k, i). lookup_entry env k (unat i)) (lookup_accounts_of ls))"

definition account_at :: "env \<Rightarrow> tx \<Rightarrow> CompiledInstruction \<Rightarrow> nat \<Rightarrow> pubkey rest" where
  "account_at env t ix pos =
     (case nth_opt (ci_accounts ix) pos of
        None \<Rightarrow> Inl (Fails (BadParameters ''Account not found in instruction''))
      | Some p \<Rightarrow>
         (case nth_opt (loaded_accounts env t) (unat p) of
            Some r \<Rightarrow> r
          | None \<Rightarrow> Inl (Fails (BadParameters
              (if address_table_lookups (message t) = None then ''No lookup tables found''
               else ''Lookup table not found in lookup accounts'')))))"

lemma get_lookup_table_add [simp]:
  "get_lookup_table (add_lookup_table k addrs r) k' = (if k' = k then Some addrs else get_lookup_table r k')"
  by (simp add: get_lookup_table_def add_lookup_table_def update_conv')

lemma nth_opt_append_left: "nth_opt xs i = Some x \<Longrightarrow> nth_opt (xs @ ys) i = Some x"
  by (auto simp: nth_opt_Some_iff nth_append)

lemma query_lookup_table_keeps:
  "caches_ok env ch s \<Longrightarrow> caches_ok env ch (fst (query_lookup_table env k i s)) \<and>
     caches.more (fst (query_lookup_table env k i s)) = caches.more s"
  by (auto simp: query_lookup_table_def caches_ok_def split: sum.splits option.splits)

lemma query_lookup_table_answers: "answers (caches_at env ch z) (query_lookup_table env k i) (lookup_entry env k i)"
proof (rule answersI)
  fix s
  assume at: "caches_at env ch z s"
  then have ok: "caches_ok env ch s" by (simp add: caches_at_def)
  have keeps: "caches_at env ch z (fst (query_lookup_table env k i s))"
    using at query_lookup_table_keeps [OF ok, of k i] by (simp add: caches_at_def)
  have "snd (query_lookup_table env k i s) = lookup_entry env k i"
  proof (cases "Option.bind (get_lookup_table (auction_repo s) k) (\<lambda>addresses. nth_opt addresses i)")
    case (Some account)
    then obtain addrs where addrs: "get_lookup_table (auction_repo s) k = Some addrs" "nth_opt addrs i = Some account"
      by (auto simp: bind_eq_Some_conv)
    from ok addrs(1) obtain d more where "rpc_get_account env k = Inr (Some d)"
      "deserialize_lookup_table env d = Some (addrs @ more)"
      unfolding caches_ok_def by blast
    with addrs nth_opt_append_left [OF addrs(2)] Some ok show ?thesis
      by (simp add: query_lookup_table_def lookup_entry_def)
  next
    case None
    then show ?thesis
      by (auto simp: query_lookup_table_def lookup_entry_def split: sum.splits option.splits)
  qed
  with keeps show "caches_at env ch z (fst (query_lookup_table env k i s)) \<and>
      snd (query_lookup_table env k i s) = lookup_entry env k i" by simp
qed

interpretation lut: cached_query "caches_at env ch z" "\<lambda>(k, i). query_lookup_table env k i"
    "\<lambda>(k, i). lookup_entry env k i" for env ch z
  by unfold_locales (auto simp: query_lookup_table_answers split: prod.splits)

lemma nth_opt_append_right: "length xs \<le> i \<Longrightarrow> nth_opt (xs @ ys) i = nth_opt ys (i - length xs)"
  by (auto simp: nth_opt_def nth_append)

lemma nth_opt_map: "nth_opt (map f xs) i = map_option f (nth_opt xs i)"
  by (simp add: nth_opt_def)

lemma extract_account_answers: "answers (caches_at env ch z) (extract_account env t ix pos) (account_at env t ix pos)"
proof (cases "nth_opt (ci_accounts ix) pos")
  case (Some p)
  let ?ks = "static_account_keys (message t)"
  show ?thesis
  proof (cases "unat p < length ?ks")
    case True
    then have "nth_opt ?ks (unat p) = Some (?ks ! unat p)" by (simp add: nth_opt_def)
    moreover from this have "nth_opt (loaded_accounts env t) (unat p) = Some (Inr (?ks ! unat p))"
      unfolding loaded_accounts_def by (intro nth_opt_append_left) (simp add: nth_opt_map)
    ultimately show ?thesis
      using Some by (simp add: extract_account_def account_at_def answers_yields)
  next
    case False
    then have none: "nth_opt ?ks (unat p) = None" and right: "nth_opt (loaded_accounts env t) (unat p) =
        nth_opt (case address_table_lookups (message t) of None \<Rightarrow> []
          | Some ls \<Rightarrow> map (\<lambda>(k, i). lookup_entry env k (unat i)) (lookup_accounts_of ls)) (unat p - length ?ks)"
      by (simp_all add: nth_opt_def [of ?ks] loaded_accounts_def nth_opt_append_right)
    show ?thesis
    proof (cases "address_table_lookups (message t)")
      case None
      with Some none right show ?thesis by (simp add: extract_account_def account_at_def answers_fails)
    next
      case (Some ls)
      with \<open>nth_opt (ci_accounts ix) pos = Some p\<close> none right show ?thesis
        by (auto simp: extract_account_def account_at_def find_and_query_lookup_table_def nth_opt_map
            answers_fails query_lookup_table_answers split: option.splits prod.splits)
    qed
  qed
qed (simp add: extract_account_def account_at_def answers_fails)

interpretation accounts: cached_query "caches_at env ch z" "extract_account env t ix" "account_at env t ix"
    for env ch z t ix
  by unfold_locales (rule extract_account_answers)

lemma metadata_answers:
  "answers (caches_at env ch z) (get_express_relay_metadata env ch) (fetch_express_relay_metadata env ch)"
  by (rule answersI)
    (auto simp: get_express_relay_metadata_def caches_at_def caches_ok_def split: option.splits sum.splits)

interpretation metadata: cached_query "caches_at env ch z" "\<lambda>_ :: unit. get_express_relay_metadata env ch"
    "\<lambda>_. fetch_express_relay_metadata env ch" for env ch z
  by unfold_locales (rule metadata_answers)

text \<open>
  Resolving an instruction's account is indexing the transaction's complete account list
  (static keys, then the writable and then the read-only entries of its lookup tables, as the chain
  has them): the server's cache of lookup tables never changes the answer and stays truthful.
\<close>

theorem extract_account_refines_account_list:
  assumes "caches_ok env ch s"
  shows "snd (extract_account env t ix pos s) = account_at env t ix pos \<and>
    caches_ok env ch (fst (extract_account env t ix pos s))"
  using extract_account_answers [of env ch "caches.more s" t ix pos] caches_at_self [OF assms]
  unfolding answers_def caches_at_def by blast



subsection \<open>What the decoded data mean\<close>

definition swap_arguments :: "env \<Rightarrow> string \<Rightarrow> CompiledInstruction \<Rightarrow> SwapV2Args rest" where
  "swap_arguments env ch ix =
     (if starts_with (ci_data ix) swap_discriminator
      then rbind (fetch_express_relay_metadata env ch) (\<lambda>md.
           rbind (ok_or (whole (deser_swap_args (drop 8 (ci_data ix))))
                 (Fails (BadParameters ''Invalid swap instruction data''))) (\<lambda>args.
           case SwapArgs_convert_to_v2 args (swap_platform_fee_bps md) of Inr a \<Rightarrow> Inr a | Inl _ \<Rightarrow> Inl Panics))
      else if length (ci_data ix) < 8 then Inl Panics
      else ok_or (whole (deser_swap_v2_args (drop 8 (ci_data ix))))
             (Fails (BadParameters ''Invalid swap instruction data'')))"

definition swap_accounts_at :: "env \<Rightarrow> tx \<Rightarrow> CompiledInstruction \<Rightarrow> SwapAccounts rest" where
  "swap_accounts_at env t ix =
     rbind (account_at env t ix 0) (\<lambda>searcher.
     rbind (account_at env t ix 1) (\<lambda>user.
     rbind (account_at env t ix 9) (\<lambda>ms.
     rbind (account_at env t ix 10) (\<lambda>mu.
     rbind (account_at env t ix 6) (\<lambda>rta.
     rbind (account_at env t ix 12) (\<lambda>tps.
     rbind (account_at env t ix 13) (\<lambda>tpu.
       Inr \<lparr>sa_searcher = searcher, sa_user_wallet = user, sa_mint_searcher = ms,
             sa_mint_user = mu, sa_router_token_account = rta, sa_token_program_searcher = tps,
             sa_token_program_user = tpu\<rparr>)))))))"

definition swap_transaction_data :: "env \<Rightarrow> string \<Rightarrow> tx \<Rightarrow> BidTransactionDataSwap rest" where
  "swap_transaction_data env ch t =
     rbind (extract_express_relay_instruction env t SwapPayment) (\<lambda>(i, ix).
     rbind (swap_arguments env ch ix) (\<lambda>data.
     rbind (swap_accounts_at env t ix) (\<lambda>accounts.
       Inr \<lparr>swap_data = data, swap_tx_accounts = accounts, swap_ix_index = i\<rparr>)))"

lemma extract_swap_data_answers [answer_intros]:
  "answers (caches_at env ch z) (extract_swap_data env ch ix) (swap_arguments env ch ix)"
  unfolding extract_swap_data_def swap_arguments_def
  by (intro answer_intros metadata_answers)

lemma extract_swap_accounts_answers [answer_intros]:
  "answers (caches_at env ch z) (extract_swap_accounts env t ix) (swap_accounts_at env t ix)"
  unfolding extract_swap_accounts_def swap_accounts_at_def Let_def account_positions
  by (intro answer_intros extract_account_answers)

lemma get_bid_transaction_data_swap_answers [answer_intros]:
  "answers (caches_at env ch z) (get_bid_transaction_data_swap env ch t) (swap_transaction_data env ch t)"
  unfolding get_bid_transaction_data_swap_def swap_transaction_data_def
  by (intro answer_intros)

definition only_program_instruction :: "tx \<Rightarrow> pubkey \<Rightarrow> nat \<Rightarrow> bool" where
  "only_program_instruction t program i \<longleftrightarrow>
     programs_in_range t \<and> i < length (instructions (message t)) \<and>
     (\<forall>j<length (instructions (message t)). program_of t (instructions (message t) ! j) = program \<longleftrightarrow> j = i)"

lemma filter_enumerate_singleton:
  assumes "filter (\<lambda>(i, x). P x) (List.enumerate 0 xs) = [(i, x)]"
  shows "i < length xs \<and> x = xs ! i \<and> (\<forall>j<length xs. P (xs ! j) \<longleftrightarrow> j = i)"
proof -
  let ?f = "filter (\<lambda>(i, x). P x) (List.enumerate 0 xs)"
  have mem: "(j, y) \<in> set ?f \<longleftrightarrow> j < length xs \<and> y = xs ! j \<and> P y" for j y
    by (auto simp: in_set_enumerate_eq)
  then have "(j, y) = (i, x) \<longleftrightarrow> j < length xs \<and> y = xs ! j \<and> P y" for j y
    by (simp add: assms)
  then show ?thesis by (metis prod.inject)
qed

lemma express_relay_instruction_Inr:
  assumes "extract_express_relay_instruction env t ty = Inr (i, ix)"
  shows "only_program_instruction t (express_relay_program env) i \<and> ix = instructions (message t) ! i \<and>
    (\<exists>d\<in>set (valid_discriminators ty). starts_with (ci_data ix) d)"
proof -
  from assms obtain ixs where ixs: "extract_program_instructions t (express_relay_program env) = Inr ixs"
    and res: "(case ixs of
         [(i, ix)] \<Rightarrow>
           if \<forall>d\<in>set (valid_discriminators ty). \<not> starts_with (ci_data ix) d
           then Inl (Fails (BadParameters ''Wrong instruction type for Express Relay Program''))
           else Inr (i, ix)
       | _ \<Rightarrow> Inl (Fails (InvalidExpressRelayInstructionCount (length ixs)))) = Inr (i, ix)"
    unfolding extract_express_relay_instruction_def rbind_Inr_iff by blast
  from res have one: "ixs = [(i, ix)]"
    by (cases ixs rule: list.exhaust; cases "tl ixs") (auto split: if_splits)
  with res have d: "\<exists>d\<in>set (valid_discriminators ty). starts_with (ci_data ix) d"
    by (auto split: if_splits)
  from ixs one have range: "programs_in_range t" and
    f: "filter (\<lambda>(i, ix). program_of t ix = express_relay_program env) (List.enumerate 0 (instructions (message t))) = [(i, ix)]"
    by (auto simp: extract_program_instructions_eq split: if_splits)
  from filter_enumerate_singleton [OF f] range d show ?thesis
    unfolding only_program_instruction_def by blast
qed

lemma starts_with_iff: "starts_with bs p \<longleftrightarrow> (\<exists>r. bs = p @ r)"
  unfolding starts_with_def by (metis append_eq_conv_conj append_take_drop_id)

lemma whole_Some: "whole x = Some a \<longleftrightarrow> x = Some (a, [])"
  by (auto simp: whole_def split: option.splits prod.splits list.splits)

lemma swap_arguments_Inr:
  assumes "swap_arguments env ch ix = Inr a"
    and "\<exists>d\<in>set (valid_discriminators SwapPayment). starts_with (ci_data ix) d"
  shows "ci_data ix = swap_v2_discriminator @ ser_swap_v2_args a \<or>
    (\<exists>v1 md. ci_data ix = swap_discriminator @ ser_swap_args v1 \<and>
       fetch_express_relay_metadata env ch = Inr md \<and>
       SwapArgs_convert_to_v2 v1 (swap_platform_fee_bps md) = Inr a)"
proof (cases "starts_with (ci_data ix) swap_discriminator")
  case True
  then obtain r where r: "ci_data ix = swap_discriminator @ r" by (auto simp: starts_with_iff)
  from assms(1) True obtain md v1 where md: "fetch_express_relay_metadata env ch = Inr md"
    and v1: "whole (deser_swap_args r) = Some v1"
    and conv: "(case SwapArgs_convert_to_v2 v1 (swap_platform_fee_bps md) of Inr a \<Rightarrow> Inr a | Inl _ \<Rightarrow> Inl Panics) = (Inr a :: SwapV2Args rest)"
    unfolding swap_arguments_def rbind_Inr_iff if_P [OF True] ok_or_Inr_iff by (auto simp: r)
  from conv have "SwapArgs_convert_to_v2 v1 (swap_platform_fee_bps md) = Inr a"
    by (simp split: sum.splits)
  moreover from v1 have "r = ser_swap_args v1"
    using ser_deser_swap_args by (fastforce simp: whole_Some)
  ultimately show ?thesis using r md by blast
next
  case False
  with assms(2) obtain r where r: "ci_data ix = swap_v2_discriminator @ r"
    by (auto simp: valid_discriminators_def starts_with_iff)
  with assms(1) False have "deser_swap_v2_args r = Some (a, [])"
    by (simp add: swap_arguments_def ok_or_Inr_iff whole_Some)
  from ser_deser_swap_v2_args [OF this] r show ?thesis by simp
qed

text \<open>
  The swap data the server reads from a transaction are what the on-chain program will run:
  they come from the transaction's only Express Relay instruction, are exactly the arguments encoded in
  it (a first-version instruction converted with the program's platform fee), and name the accounts
  that stand at the positions of the program's account list.
\<close>

theorem swap_data_is_what_runs:
  assumes "caches_ok env ch s"
    and "snd (get_bid_transaction_data_swap env ch t s) = Inr d"
  shows "\<exists>ix. only_program_instruction t (express_relay_program env) (swap_ix_index d) \<and>
    ix = instructions (message t) ! swap_ix_index d \<and>
    (ci_data ix = swap_v2_discriminator @ ser_swap_v2_args (swap_data d) \<or>
     (\<exists>v1 md. ci_data ix = swap_discriminator @ ser_swap_args v1 \<and>
        fetch_express_relay_metadata env ch = Inr md \<and>
        SwapArgs_convert_to_v2 v1 (swap_platform_fee_bps md) = Inr (swap_data d))) \<and>
    account_at env t ix 0 = Inr (sa_searcher (swap_tx_accounts d)) \<and>
    account_at env t ix 1 = Inr (sa_user_wallet (swap_tx_accounts d)) \<and>
    account_at env t ix 6 = Inr (sa_router_token_account (swap_tx_accounts d)) \<and>
    account_at env t ix 9 = Inr (sa_mint_searcher (swap_tx_accounts d)) \<and>
    account_at env t ix 10 = Inr (sa_mint_user (swap_tx_accounts d))"
proof -
  have "swap_transaction_data env ch t = Inr d"
    using get_bid_transaction_data_swap_answers [of env ch "caches.more s" t] caches_at_self [OF assms(1)] assms(2)
    unfolding answers_def by metis
  then obtain i ix data accs where ix: "extract_express_relay_instruction env t SwapPayment = Inr (i, ix)"
    and data: "swap_arguments env ch ix = Inr data" and accs: "swap_accounts_at env t ix = Inr accs"
    and d: "d = \<lparr>swap_data = data, swap_tx_accounts = accs, swap_ix_index = i\<rparr>"
    by (auto simp: swap_transaction_data_def rbind_Inr_iff)
  from express_relay_instruction_Inr [OF ix] swap_arguments_Inr [OF data] accs show ?thesis
    by (intro exI [of _ ix]) (auto simp: d swap_accounts_at_def rbind_Inr_iff)
qed



subsection \<open>A concrete transaction\<close>

text \<open>
  A swap between searcher 11 and user 12 whose router token account comes from lookup table 77.
  Signatures are checked by a toy scheme: the signature of a key is its number.
\<close>

definition sample_env :: env where
  "sample_env = \<lparr>rpc_get_account = (\<lambda>k. if k = 77 then Inr (Some [1])
       else if k = of_le SEED_METADATA then Inr (Some (metadata_discriminator @ ser_metadata sample_metadata)) else Inr None),
     deserialize_lookup_table = (\<lambda>d. if d = [1] then Some [31] else None),
     serialize_message = msg_rest, serialized_size = (\<lambda>_. 400),
     verify_signature = (\<lambda>sig k m. sig = ucast k), relayer_pubkey = 13, relayer_sign = (\<lambda>_. 13),
     express_relay_program = EXPRESS_RELAY_ID, system_transfer = (\<lambda>_. None),
     unpack_token_instruction = (\<lambda>_. None), parse_ata_instruction = (\<lambda>_. None),
     set_compute_unit_price = (\<lambda>_. None), associated_token_address = (\<lambda>w m p. w + m),
     find_program_address = (\<lambda>seeds p. of_le (concat seeds)), opp_configs = (\<lambda>_. Some sample_config),
     rent_of_token_account = 2039280\<rparr>"

definition sample_swap_v2 :: SwapV2Args where
  "sample_swap_v2 = \<lparr>deadline = 130, amount_searcher = 1000, amount_user = 500, referral_fee_ppm = 100,
     fee_token = User, swap_platform_fee_ppm = 0\<rparr>"

definition sample_swap_ix :: CompiledInstruction where
  "sample_swap_ix = \<lparr>program_id_index = 3, ci_accounts = [0, 1, 4, 4, 4, 4, 7, 4, 4, 4, 5, 4, 6, 6, 6, 4, 2],
     ci_data = swap_v2_discriminator @ ser_swap_v2_args sample_swap_v2\<rparr>"

definition sample_message :: VersionedMessage where
  "sample_message = \<lparr>static_account_keys = [11, 12, 13, EXPRESS_RELAY_ID, 21, 22, SPL_TOKEN],
     instructions = [sample_swap_ix],
     address_table_lookups = Some [\<lparr>account_key = 77, writable_indexes = [0], readonly_indexes = []\<rparr>],
     msg_rest = []\<rparr>"

definition sample_tx :: tx where
  "sample_tx = \<lparr>signatures = [11, 0, 0], message = sample_message\<rparr>"

definition sample_caches :: caches where
  "sample_caches = \<lparr>auction_repo = Repository_new db_empty ''solana'', express_relay_metadata = None,
     token_mint_cache = []\<rparr>"

lemma sample_caches_ok: "caches_ok sample_env ''solana'' sample_caches"
  by (simp add: caches_ok_def sample_caches_def get_lookup_table_def Repository_new_def)

definition sample_swap_accounts :: SwapAccounts where
  "sample_swap_accounts = \<lparr>sa_searcher = 11, sa_user_wallet = 12, sa_mint_searcher = 21, sa_mint_user = 22,
     sa_router_token_account = 31, sa_token_program_searcher = SPL_TOKEN, sa_token_program_user = SPL_TOKEN\<rparr>"

lemma sample_account_at:
  "account_at sample_env sample_tx sample_swap_ix 0 = Inr 11"
  "account_at sample_env sample_tx sample_swap_ix (Suc 0) = Inr 12"
  "account_at sample_env sample_tx sample_swap_ix 6 = Inr 31"
  "account_at sample_env sample_tx sample_swap_ix 9 = Inr 21"
  "account_at sample_env sample_tx sample_swap_ix 10 = Inr 22"
  "account_at sample_env sample_tx sample_swap_ix 12 = Inr SPL_TOKEN"
  "account_at sample_env sample_tx sample_swap_ix 13 = Inr SPL_TOKEN"
  by (simp_all add: account_at_def sample_swap_ix_def loaded_accounts_def sample_tx_def sample_message_def
      lookup_accounts_of_def lookup_entry_def sample_env_def)

lemma sample_swap_transaction_data:
  "swap_transaction_data sample_env ''solana'' sample_tx =
     Inr \<lparr>swap_data = sample_swap_v2, swap_tx_accounts = sample_swap_accounts, swap_ix_index = 0\<rparr>"
proof -
  have ixs: "extract_program_instructions sample_tx EXPRESS_RELAY_ID = Inr [(0, sample_swap_ix)]"
    by (simp add: extract_program_instructions_def sample_tx_def sample_message_def
        ix_program_id_of_def) (simp add: sample_swap_ix_def)
  have data: "ci_data sample_swap_ix = swap_v2_discriminator @ ser_swap_v2_args sample_swap_v2"
    by (simp add: sample_swap_ix_def)
  have start: "starts_with (ci_data sample_swap_ix) swap_v2_discriminator"
    "\<not> starts_with (ci_data sample_swap_ix) swap_discriminator"
    by (simp_all add: data starts_with_def) (simp_all add: swap_discriminator_def swap_v2_discriminator_def)
  have "swap_arguments sample_env ''solana'' sample_swap_ix = Inr sample_swap_v2"
    using start swap_v2_codec.deser_ser [of sample_swap_v2 "[]"]
    by (simp add: swap_arguments_def data whole_def)
  moreover have "extract_express_relay_instruction sample_env sample_tx SwapPayment = Inr (0, sample_swap_ix)"
    using start by (simp add: extract_express_relay_instruction_def sample_env_def ixs valid_discriminators_def)
  ultimately show ?thesis
    by (simp add: swap_transaction_data_def swap_accounts_at_def sample_account_at sample_swap_accounts_def)
qed

theorem extract_account_refines_account_list_witness:
  "snd (extract_account sample_env sample_tx sample_swap_ix 6 sample_caches) = Inr 31"
  using extract_account_refines_account_list [OF sample_caches_ok, of sample_tx sample_swap_ix 6]
    sample_account_at(3) by simp

theorem swap_data_is_what_runs_witness:
  "only_program_instruction sample_tx EXPRESS_RELAY_ID 0 \<and>
   account_at sample_env sample_tx sample_swap_ix 6 = Inr 31"
proof -
  have "snd (get_bid_transaction_data_swap sample_env ''solana'' sample_tx sample_caches) =
      Inr \<lparr>swap_data = sample_swap_v2, swap_tx_accounts = sample_swap_accounts, swap_ix_index = 0\<rparr>"
    using get_bid_transaction_data_swap_answers [of sample_env "''solana''" "caches.more sample_caches" sample_tx]
      caches_at_self [OF sample_caches_ok]
    unfolding answers_def sample_swap_transaction_data by blast
  from swap_data_is_what_runs [OF sample_caches_ok this] show ?thesis
    by (simp add: sample_tx_def sample_message_def sample_swap_accounts_def) (simp add: sample_env_def)
qed

end
