(* ===== verification/As_Opportunity.thy ===== *)
theory As_Opportunity
  imports As_Messages
begin

section \<open>Auction server: opportunities\<close>

text \<open>
  The opportunity subsystem: its entities (\<open>opportunity/entities\<close>), its repository with the in-memory
  store and the database table (\<open>opportunity/repository\<close>), and the operations of its service that
  add, refresh, list and remove opportunities (\<open>opportunity/service\<close>).
\<close>

subsection \<open>Entities\<close>

record TokenAmountSvm =
  ta_token :: pubkey
  ta_amount :: u64

datatype QuoteTokens =
    UserTokenSpecified TokenAmountSvm pubkey
  | SearcherTokenSpecified pubkey TokenAmountSvm

datatype TokenAccountInitializationConfig = Unneeded | SearcherPayer | UserPayer

record TokenAccountInitializationConfigs =
  user_ata_mint_searcher :: TokenAccountInitializationConfig
  user_ata_mint_user :: TokenAccountInitializationConfig
  router_fee_receiver_ta :: TokenAccountInitializationConfig
  relayer_fee_receiver_ata :: TokenAccountInitializationConfig
  express_relay_fee_receiver_ata :: TokenAccountInitializationConfig

definition none_needed :: TokenAccountInitializationConfigs where
  "none_needed = \<lparr>user_ata_mint_searcher = Unneeded, user_ata_mint_user = Unneeded,
     router_fee_receiver_ta = Unneeded, relayer_fee_receiver_ata = Unneeded,
     express_relay_fee_receiver_ata = Unneeded\<rparr>"

record OpportunitySvmProgramSwap =
  os_user_wallet_address :: pubkey
  os_user_mint_user_balance :: u64
  os_fee_token :: OppFeeToken
  os_referral_fee_bps :: u16
  os_referral_fee_ppm :: u64
  os_platform_fee_bps :: u64
  os_platform_fee_ppm :: u64
  os_token_program_user :: pubkey
  os_token_program_searcher :: pubkey
  os_initialization :: TokenAccountInitializationConfigs
  os_memo :: "string option"
  os_cancellable :: bool
  os_minimum_lifetime :: "u32 option"
  os_minimum_deadline :: time

record OpportunitySvmProgramLimo =
  ol_order :: "u8 list"
  ol_order_address :: pubkey
  ol_slot :: u64

datatype OpportunitySvmProgram = Limo OpportunitySvmProgramLimo | SwapProgram OpportunitySvmProgramSwap

type_synonym OpportunityKey = "string \<times> u8 list"

record OpportunityCreateSvm =
  o_permission_key :: "u8 list"
  o_chain_id :: string
  o_sell_tokens :: "TokenAmountSvm list"
  o_buy_tokens :: "TokenAmountSvm list"
  o_router :: pubkey
  o_permission_account :: pubkey
  o_program :: OpportunitySvmProgram
  o_profile_id :: "uuid option"

text \<open>A stored opportunity has the fields of a created one, an id and its times.\<close>

record OpportunitySvm = OpportunityCreateSvm +
  o_id :: uuid
  o_creation_time :: time
  o_refresh_time :: time

definition get_key :: "'z OpportunityCreateSvm_scheme \<Rightarrow> OpportunityKey" where
  "get_key o1 = (o_chain_id o1, o_permission_key o1)"

definition new_with_current_time :: "uuid \<Rightarrow> time \<Rightarrow> OpportunityCreateSvm \<Rightarrow> OpportunitySvm" where
  "new_with_current_time new_id now c = OpportunityCreateSvm.extend c
     \<lparr>o_id = new_id, o_creation_time = now, o_refresh_time = now\<rparr>"

definition to_create :: "OpportunitySvm \<Rightarrow> OpportunityCreateSvm" where
  "to_create x = OpportunityCreateSvm.truncate x"

datatype OpportunityComparison = New | Duplicate | NeedsRefresh

definition MIN_REFRESH_TIME :: time where
  "MIN_REFRESH_TIME = seconds 30"

text \<open>Of two limo opportunities the slot is not compared.\<close>

definition with_slot_of :: "OpportunitySvmProgram \<Rightarrow> OpportunitySvmProgram \<Rightarrow> OpportunitySvmProgram" where
  "with_slot_of other mine =
     (case (mine, other) of (Limo l, Limo l') \<Rightarrow> Limo (l\<lparr>ol_slot := ol_slot l'\<rparr>) | _ \<Rightarrow> mine)"

definition same_opportunity :: "OpportunitySvm \<Rightarrow> OpportunityCreateSvm \<Rightarrow> bool" where
  "same_opportunity x c \<longleftrightarrow> c = (to_create x)\<lparr>o_program := with_slot_of (o_program c) (o_program x)\<rparr>"

definition compare_opportunity :: "time \<Rightarrow> OpportunitySvm \<Rightarrow> OpportunityCreateSvm \<Rightarrow> OpportunityComparison" where
  "compare_opportunity now x c =
     (if same_opportunity x c
      then if o_refresh_time x + MIN_REFRESH_TIME < now then NeedsRefresh else Duplicate
      else New)"

definition refresh :: "time \<Rightarrow> OpportunitySvm \<Rightarrow> OpportunitySvm" where
  "refresh now x = x\<lparr>o_refresh_time := now\<rparr>"

text \<open>The code panics where these return \<open>Inl Panics\<close>.\<close>

definition get_swap_quote_tokens :: "OpportunitySvm \<Rightarrow> QuoteTokens rest" where
  "get_swap_quote_tokens x =
     (case o_program x of
        Limo _ \<Rightarrow> Inl Panics
      | SwapProgram _ \<Rightarrow>
         (case (o_sell_tokens x, o_buy_tokens x) of
            (sell # _, buy # _) \<Rightarrow>
              if ta_amount sell = 0 then Inr (UserTokenSpecified buy (ta_token sell))
              else if ta_amount buy = 0 then Inr (SearcherTokenSpecified (ta_token buy) sell)
              else Inl Panics
          | _ \<Rightarrow> Inl Panics))"

definition get_opportunity_swap_data :: "OpportunitySvm \<Rightarrow> OpportunitySvmProgramSwap rest" where
  "get_opportunity_swap_data x = (case o_program x of SwapProgram p \<Rightarrow> Inr p | Limo _ \<Rightarrow> Inl Panics)"

definition get_user_sol_amount_paid_for_token_account_initializations ::
  "env \<Rightarrow> OpportunitySvmProgramSwap \<Rightarrow> u64" where
  "get_user_sol_amount_paid_for_token_account_initializations env p =
     of_nat (length (filter (\<lambda>c. c = UserPayer)
       [user_ata_mint_user (os_initialization p), user_ata_mint_searcher (os_initialization p)])) *
     rent_of_token_account env"

definition get_user_amount_to_wrap :: "env \<Rightarrow> OpportunitySvmProgramSwap \<Rightarrow> u64 \<Rightarrow> u64" where
  "get_user_amount_to_wrap env p amount =
     min amount (saturating_sub (os_user_mint_user_balance p)
       (get_user_sol_amount_paid_for_token_account_initializations env p))"

definition check_fee_payer :: "OpportunitySvm \<Rightarrow> pubkey list \<Rightarrow> pubkey \<Rightarrow> string + unit" where
  "check_fee_payer x signers relayer =
     (case signers of
        [] \<Rightarrow> Inl ''Accounts should not be empty''
      | fee_payer # _ \<Rightarrow>
         (case o_program x of
            SwapProgram data \<Rightarrow>
              if os_user_wallet_address data = fee_payer then Inl ''Fee payer should not be user''
              else if relayer = fee_payer then Inl ''Fee payer should not be relayer signer''
              else Inr ()
          | Limo _ \<Rightarrow> Inr ()))"

definition get_missing_signers :: "OpportunitySvm \<Rightarrow> pubkey list" where
  "get_missing_signers x = (case o_program x of SwapProgram d \<Rightarrow> [os_user_wallet_address d] | Limo _ \<Rightarrow> [])"

text \<open>
  What a searcher is shown of a quote for a given user amount: the amount left when the fees are taken
  from the user token. The products are taken at 128 bits and the quotients cut to 64.
\<close>

definition fee_part :: "u64 \<Rightarrow> u64 \<Rightarrow> u64" where
  "fee_part amount ppm = ucast ((ucast amount * ucast ppm :: 128 word) div ucast FEE_SPLIT_PRECISION_PPM)"

definition user_amount_excluding_fees :: "OpportunitySvmProgramSwap \<Rightarrow> u64 \<Rightarrow> u64" where
  "user_amount_excluding_fees p amount =
     (case os_fee_token p of
        UserToken \<Rightarrow> saturating_sub (saturating_sub amount (fee_part amount (os_referral_fee_ppm p)))
                       (fee_part amount (os_platform_fee_ppm p))
      | SearcherToken \<Rightarrow> amount)"



subsection \<open>Repository\<close>

datatype OpportunityRemovalReason = OppExpired | OppInvalid

text \<open>
  A row of the table; its metadata and token columns are kept as the opportunity they were written
  from (the JSON encoding is not modelled).
\<close>

record opp_row =
  or_opportunity :: OpportunitySvm
  or_removal_time :: "time option"
  or_removal_reason :: "OpportunityRemovalReason option"

datatype ProgramSvm = ProgramSwap | ProgramLimo

fun program_svm :: "OpportunitySvmProgram \<Rightarrow> ProgramSvm" where
  "program_svm (Limo _) = ProgramLimo"
| "program_svm (SwapProgram _) = ProgramSwap"

record OpportunityDelete =
  od_chain_id :: string
  od_permission_account :: pubkey
  od_router :: pubkey
  od_program :: ProgramSvm

definition get_opportunity_delete :: "OpportunitySvm \<Rightarrow> OpportunityDelete" where
  "get_opportunity_delete x = \<lparr>od_chain_id = o_chain_id x, od_permission_account = o_permission_account x,
     od_router = o_router x, od_program = program_svm (o_program x)\<rparr>"

text \<open>The events of the broadcast channel; a chain update has the chain, its blockhash and a fee.\<close>

datatype UpdateEvent =
    NewOpportunity OpportunitySvm
  | RemoveOpportunitiesEvent OpportunityDelete
  | BidStatusUpdate uuid BidStatusSvm
  | SvmChainUpdate string "256 word" u64

record opp_state = caches +
  opportunities :: "(OpportunityKey \<times> OpportunitySvm list) list"
  opp_db_up :: bool
  opp_rows :: "(uuid \<times> opp_row) list"
  events :: "UpdateEvent list"

definition get_in_memory_opportunities_by_key :: "'z opp_state_scheme \<Rightarrow> OpportunityKey \<Rightarrow> OpportunitySvm list" where
  "get_in_memory_opportunities_by_key s k = (case map_of (opportunities s) k of Some xs \<Rightarrow> xs | None \<Rightarrow> [])"

definition get_in_memory_opportunity_by_id :: "'z opp_state_scheme \<Rightarrow> uuid \<Rightarrow> OpportunitySvm option" where
  "get_in_memory_opportunity_by_id s i = find (\<lambda>x. o_id x = i) (concat (map snd (opportunities s)))"

definition db_add_opportunity :: "OpportunitySvm \<Rightarrow> ('z opp_state_scheme, unit) action" where
  "db_add_opportunity x s =
     (if \<not> opp_db_up s \<or> map_of (opp_rows s) (o_id x) \<noteq> None then (s, Inl (Fails TemporarilyUnavailable))
      else (s\<lparr>opp_rows := opp_rows s @ [(o_id x, \<lparr>or_opportunity = x, or_removal_time = None,
              or_removal_reason = None\<rparr>)]\<rparr>, Inr ()))"

definition repo_add_opportunity ::
  "uuid \<Rightarrow> time \<Rightarrow> OpportunityCreateSvm \<Rightarrow> ('z opp_state_scheme, OpportunitySvm) action" where
  "repo_add_opportunity new_id now c =
     (let x = new_with_current_time new_id now c
      in seq (db_add_opportunity x) (\<lambda>_ s.
        (s\<lparr>opportunities := AList.update (get_key x) (get_in_memory_opportunities_by_key s (get_key x) @ [x])
             (opportunities s)\<rparr>, Inr x)))"

definition refresh_in_memory_opportunity :: "time \<Rightarrow> OpportunitySvm \<Rightarrow> 'z opp_state_scheme \<Rightarrow> 'z opp_state_scheme \<times> OpportunitySvm" where
  "refresh_in_memory_opportunity now x s =
     (let refreshed = refresh now x
      in case map_of (opportunities s) (get_key x) of
           Some xs \<Rightarrow>
             (case position (\<lambda>y. y = x) xs of
                Some n \<Rightarrow> (s\<lparr>opportunities := AList.update (get_key x) (xs[n := refreshed]) (opportunities s)\<rparr>, refreshed)
              | None \<Rightarrow> (s, refreshed))
         | None \<Rightarrow> (s, refreshed))"

definition mark_removed :: "time \<Rightarrow> OpportunityRemovalReason \<Rightarrow> opp_row \<Rightarrow> opp_row" where
  "mark_removed now reason r =
     (if or_removal_time r = None then r\<lparr>or_removal_time := Some now, or_removal_reason := Some reason\<rparr> else r)"

definition db_remove_opportunity ::
  "time \<Rightarrow> OpportunitySvm \<Rightarrow> OpportunityRemovalReason \<Rightarrow> ('z opp_state_scheme, time option) action" where
  "db_remove_opportunity now x reason s =
     (if \<not> opp_db_up s then (s, Inl (Fails TemporarilyUnavailable))
      else (s\<lparr>opp_rows := map (\<lambda>(i, r). (i, if i = o_id x then mark_removed now reason r else r)) (opp_rows s)\<rparr>,
            Inr (if \<exists>(i, r)\<in>set (opp_rows s). i = o_id x \<and> or_removal_time r = None then Some now else None)))"

definition db_remove_opportunities ::
  "time \<Rightarrow> OpportunityKey \<Rightarrow> OpportunityRemovalReason \<Rightarrow> ('z opp_state_scheme, time) action" where
  "db_remove_opportunities now k reason s =
     (if \<not> opp_db_up s then (s, Inl (Fails TemporarilyUnavailable))
      else (s\<lparr>opp_rows := map (\<lambda>(i, r). (i, if get_key (or_opportunity r) = k then mark_removed now reason r else r))
              (opp_rows s)\<rparr>, Inr now))"

definition repo_remove_opportunity ::
  "time \<Rightarrow> OpportunitySvm \<Rightarrow> OpportunityRemovalReason \<Rightarrow> ('z opp_state_scheme, time option) action" where
  "repo_remove_opportunity now x reason =
     seq (db_remove_opportunity now x reason) (\<lambda>removal_time s.
       let left = filter (\<lambda>y. y \<noteq> x) (get_in_memory_opportunities_by_key s (get_key x))
       in (s\<lparr>opportunities := (if left = [] then AList.delete (get_key x) (opportunities s)
             else AList.update (get_key x) left (opportunities s))\<rparr>, Inr removal_time))"

definition repo_remove_opportunities ::
  "time \<Rightarrow> OpportunityKey \<Rightarrow> OpportunityRemovalReason \<Rightarrow> ('z opp_state_scheme, OpportunitySvm list \<times> time) action" where
  "repo_remove_opportunities now k reason =
     seq (db_remove_opportunities now k reason) (\<lambda>removal_time s.
       (s\<lparr>opportunities := AList.delete k (opportunities s)\<rparr>,
        Inr (get_in_memory_opportunities_by_key s k, removal_time)))"


subsection \<open>Service\<close>

datatype OpportunityAction = AddIt | RefreshIt OpportunitySvm | IgnoreIt

fun assess :: "time \<Rightarrow> OpportunityCreateSvm \<Rightarrow> OpportunitySvm list \<Rightarrow> OpportunityAction" where
  "assess now c [] = AddIt"
| "assess now c (x # xs) =
     (case compare_opportunity now x c of
        Duplicate \<Rightarrow> IgnoreIt
      | NeedsRefresh \<Rightarrow> RefreshIt x
      | New \<Rightarrow> assess now c xs)"

definition assess_action :: "time \<Rightarrow> OpportunityCreateSvm \<Rightarrow> 'z opp_state_scheme \<Rightarrow> OpportunityAction" where
  "assess_action now c s = assess now c (get_in_memory_opportunities_by_key s (get_key c))"

definition emit :: "UpdateEvent \<Rightarrow> 'z opp_state_scheme \<Rightarrow> 'z opp_state_scheme" where
  "emit e s = s\<lparr>events := events s @ [e]\<rparr>"

definition lift_rest :: "RestError + 'a \<Rightarrow> 'a rest" where
  "lift_rest r = (case r of Inl e \<Rightarrow> Inl (Fails e) | Inr x \<Rightarrow> Inr x)"

text \<open>The broadcast never fails: the store keeps a receiver of its own.\<close>

definition add_opportunity ::
  "env \<Rightarrow> uuid \<Rightarrow> time \<Rightarrow> OpportunityCreateSvm \<Rightarrow> ('z opp_state_scheme, OpportunitySvm) action" where
  "add_opportunity env new_id now c =
     seq (yields (lift_rest (get_config (opp_configs env) (o_chain_id c)))) (\<lambda>_.
     seq (\<lambda>s. case assess_action now c s of
            IgnoreIt \<Rightarrow> (s, Inl (Fails DuplicateOpportunity))
          | RefreshIt x \<Rightarrow> (case refresh_in_memory_opportunity now x s of (s', y) \<Rightarrow> (s', Inr y))
          | AddIt \<Rightarrow> repo_add_opportunity new_id now c s) (\<lambda>x s.
       (emit (NewOpportunity x) s, Inr x)))"

definition remove_opportunity ::
  "env \<Rightarrow> time \<Rightarrow> OpportunitySvm \<Rightarrow> OpportunityRemovalReason \<Rightarrow> ('z opp_state_scheme, unit) action" where
  "remove_opportunity env now x reason =
     seq (yields (lift_rest (get_config (opp_configs env) (o_chain_id x)))) (\<lambda>_.
     seq (repo_remove_opportunity now x reason) (\<lambda>_. yields (Inr ())))"

definition remove_opportunities ::
  "env \<Rightarrow> time \<Rightarrow> string \<Rightarrow> pubkey \<Rightarrow> pubkey \<Rightarrow> ('z opp_state_scheme, unit) action" where
  "remove_opportunities env now ch permission_account router_key =
     seq (yields (lift_rest (get_config (opp_configs env) ch))) (\<lambda>_.
     let key = [payment_type_byte SubmitBidPayment] @ to_le 32 router_key @ to_le 32 permission_account
     in seq (repo_remove_opportunities now (ch, key) OppInvalid) (\<lambda>(removed, removal_time) s.
          (case removed of
             [] \<Rightarrow> (s, Inr ())
           | x # _ \<Rightarrow> (emit (RemoveOpportunitiesEvent (get_opportunity_delete x)) s, Inr ()))))"

definition MAX_STALE_OPPORTUNITY_DURATION :: time where
  "MAX_STALE_OPPORTUNITY_DURATION = seconds 120"

text \<open>One opportunity of the sweep; errors are only logged.\<close>

definition sweep_one :: "env \<Rightarrow> time \<Rightarrow> OpportunitySvm \<Rightarrow> 'z opp_state_scheme \<Rightarrow> 'z opp_state_scheme" where
  "sweep_one env now x s =
     (if now - o_refresh_time x \<le> MAX_STALE_OPPORTUNITY_DURATION then s
      else case remove_opportunity env now x OppExpired s of
             (s', Inr _) \<Rightarrow>
               if get_in_memory_opportunities_by_key s' (get_key x) = []
               then emit (RemoveOpportunitiesEvent (get_opportunity_delete x)) s'
               else s'
           | (s', Inl _) \<Rightarrow> s')"

definition remove_invalid_or_expired_opportunities :: "env \<Rightarrow> time \<Rightarrow> 'z opp_state_scheme \<Rightarrow> 'z opp_state_scheme" where
  "remove_invalid_or_expired_opportunities env now s =
     fold (sweep_one env now) (concat (map snd (opportunities s))) s"

definition OPPORTUNITY_PAGE_SIZE_CAP :: nat where
  "OPPORTUNITY_PAGE_SIZE_CAP = 100"

datatype OpportunityMode = Live | Historical

text \<open>
  Reading an opportunity back from the database: its refresh time is its creation time, and the
  minimum deadline of a swap starts from now again. Rounding to seconds goes through a 64-bit float,
  which is exact up to 128 nanoseconds around the half second.
\<close>

definition get_current_time_rounded_with_offset :: "time \<Rightarrow> time \<Rightarrow> time" where
  "get_current_time_rounded_with_offset now off = seconds ((now + 500000000) div 1000000000) + off"

definition BID_MINIMUM_LIFE_TIME_SVM_OTHER :: time where
  "BID_MINIMUM_LIFE_TIME_SVM_OTHER = seconds 10"

definition deadline_from_lifetime :: "time \<Rightarrow> u32 option \<Rightarrow> time" where
  "deadline_from_lifetime now lifetime =
     get_current_time_rounded_with_offset now
       (case lifetime of Some l \<Rightarrow> seconds (uint l) | None \<Rightarrow> BID_MINIMUM_LIFE_TIME_SVM_OTHER)"

definition opportunity_of_row :: "time \<Rightarrow> opp_row \<Rightarrow> OpportunitySvm rest" where
  "opportunity_of_row now r =
     (let x = or_opportunity r
      in if length (o_permission_key x) \<noteq> 65 then Inl (Fails TemporarilyUnavailable)
         else Inr (x\<lparr>o_refresh_time := o_creation_time x,
           o_program := (case o_program x of Limo l \<Rightarrow> Limo l
             | SwapProgram p \<Rightarrow> SwapProgram (p\<lparr>os_minimum_deadline := deadline_from_lifetime now (os_minimum_lifetime p)\<rparr>))\<rparr>))"

definition db_get_opportunities :: "time \<Rightarrow> string \<Rightarrow> time option \<Rightarrow> ('z opp_state_scheme, OpportunitySvm list) action" where
  "db_get_opportunities now ch from_time s =
     (if \<not> opp_db_up s then (s, Inl (Fails TemporarilyUnavailable))
      else (s, each_rest (opportunity_of_row now)
        (take OPPORTUNITY_PAGE_SIZE_CAP (sort_key (\<lambda>r. o_creation_time (or_opportunity r))
          (filter (\<lambda>r. o_chain_id (or_opportunity r) = ch \<and>
             (case from_time of Some t \<Rightarrow> t \<le> o_creation_time (or_opportunity r) | None \<Rightarrow> True))
           (map snd (opp_rows s)))))))"

definition live_opportunities :: "string option \<Rightarrow> time option \<Rightarrow> 'z opp_state_scheme \<Rightarrow> OpportunitySvm list rest" where
  "live_opportunities ch from_time s =
     rbind (each_rest (\<lambda>(k, xs). if xs = [] then Inl Panics else Inr (last xs)) (opportunities s)) (\<lambda>xs.
       Inr (filter (\<lambda>x. (case from_time of Some t \<Rightarrow> t \<le> o_creation_time x | None \<Rightarrow> True) \<and>
              (case ch of Some c \<Rightarrow> o_chain_id x = c | None \<Rightarrow> True)) xs))"

definition get_opportunities ::
  "env \<Rightarrow> time \<Rightarrow> OpportunityMode \<Rightarrow> string option \<Rightarrow> time option \<Rightarrow> ('z opp_state_scheme, OpportunitySvm list) action" where
  "get_opportunities env now mode ch from_time =
     seq (case ch of Some c \<Rightarrow> seq (yields (lift_rest (get_config (opp_configs env) c))) (\<lambda>_. yields (Inr ()))
          | None \<Rightarrow> yields (Inr ())) (\<lambda>_.
     (case mode of
        Live \<Rightarrow> (\<lambda>s. (s, live_opportunities ch from_time s))
      | Historical \<Rightarrow>
         (case ch of
            None \<Rightarrow> fails (BadParameters ''Chain id is required on historical mode'')
          | Some c \<Rightarrow> db_get_opportunities now c from_time)))"

definition query_token_mint_cache :: "'z caches_scheme \<Rightarrow> pubkey \<Rightarrow> TokenMint option" where
  "query_token_mint_cache s mint = map_of (token_mint_cache s) mint"

text \<open>\<open>rpc_mint\<close> answers with owner and decimals of a mint account, or fails as the code maps it.\<close>

definition get_token_mint ::
  "env \<Rightarrow> (pubkey \<Rightarrow> RestError + (pubkey \<times> u8)) \<Rightarrow> string \<Rightarrow> pubkey \<Rightarrow> ('z caches_scheme, TokenMint) action" where
  "get_token_mint env rpc_mint ch mint =
     seq (yields (lift_rest (get_config (opp_configs env) ch))) (\<lambda>config.
     seq (\<lambda>s. case query_token_mint_cache s mint of
            Some d \<Rightarrow> (s, Inr d)
          | None \<Rightarrow>
             (case rpc_mint mint of
                Inl e \<Rightarrow> (s, Inl (Fails e))
              | Inr (owner, decimals) \<Rightarrow>
                  let m = \<lparr>tm_mint = mint, tm_decimals = decimals, tm_token_program = owner\<rparr>
                  in (s\<lparr>token_mint_cache := AList.update mint m (token_mint_cache s)\<rparr>, Inr m))) (\<lambda>m.
       if tm_token_program m \<in> set (accepted_token_programs config) then yields (Inr m)
       else fails (BadParameters ''Provided mint belongs to unapproved token program'')))"

definition unwrap_referral_fee_info ::
  "env \<Rightarrow> string \<Rightarrow> (pubkey \<times> u64) option \<Rightarrow> (pubkey \<times> u64) rest" where
  "unwrap_referral_fee_info env ch info =
     (case info of
        Some i \<Rightarrow> Inr i
      | None \<Rightarrow> rbind (lift_rest (get_config (opp_configs env) ch)) (\<lambda>_. Inr (calculate_metadata_address env, 0)))"



subsection \<open>The live opportunities\<close>

text \<open>What two opportunities are compared by: everything but ids, times and the slot of a limo order.\<close>

definition identity :: "'z OpportunityCreateSvm_scheme \<Rightarrow> OpportunityCreateSvm" where
  "identity x = (OpportunityCreateSvm.truncate x)\<lparr>o_program :=
     (case o_program x of Limo l \<Rightarrow> Limo (l\<lparr>ol_slot := 0\<rparr>) | SwapProgram p \<Rightarrow> SwapProgram p)\<rparr>"

definition list_ok :: "OpportunityKey \<Rightarrow> OpportunitySvm list \<Rightarrow> bool" where
  "list_ok k xs \<longleftrightarrow> xs \<noteq> [] \<and> (\<forall>x\<in>set xs. get_key x = k) \<and> distinct (map identity xs)"

definition opp_ok :: "'z opp_state_scheme \<Rightarrow> bool" where
  "opp_ok s \<longleftrightarrow> distinct (map fst (opportunities s)) \<and>
     (\<forall>k xs. map_of (opportunities s) k = Some xs \<longrightarrow> list_ok k xs)"

inductive opp_step :: "env \<Rightarrow> 'z opp_state_scheme \<Rightarrow> 'z opp_state_scheme \<Rightarrow> bool" for env where
  add: "add_opportunity env new_id now c s = (s', res) \<Longrightarrow> opp_step env s s'"
| remove: "remove_opportunity env now x reason s = (s', res') \<Longrightarrow> opp_step env s s'"
| remove_key: "remove_opportunities env now ch permission_account router_key s = (s', res'') \<Longrightarrow> opp_step env s s'"
| sweep: "opp_step env s (remove_invalid_or_expired_opportunities env now s)"
| connection: "opp_step env s (s\<lparr>opp_db_up := up\<rparr>)"

lemma same_opportunity_iff: "same_opportunity x c \<longleftrightarrow> identity x = identity c"
proof -
  have limo: "l\<lparr>ol_slot := 0\<rparr> = l'\<lparr>ol_slot := 0\<rparr> \<longleftrightarrow> l' = l\<lparr>ol_slot := ol_slot l'\<rparr>" for l l'
    by (cases l; cases l') auto
  show ?thesis
    unfolding same_opportunity_def identity_def to_create_def with_slot_of_def
    by (cases c; cases x; cases "o_program c"; cases "o_program x")
      (auto simp: OpportunityCreateSvm.truncate_def limo)
qed

lemma get_key_create [simp]: "get_key (new_with_current_time i now c) = get_key c"
  by (simp add: get_key_def new_with_current_time_def OpportunityCreateSvm.extend_def)

lemma identity_create [simp]: "identity (new_with_current_time i now c) = identity c"
  by (simp add: identity_def new_with_current_time_def OpportunityCreateSvm.extend_def
      OpportunityCreateSvm.truncate_def)

lemma refresh_simps [simp]:
  "get_key (refresh now x) = get_key x" "identity (refresh now x) = identity x"
  by (simp_all add: get_key_def identity_def refresh_def OpportunityCreateSvm.truncate_def)

lemma assess_AddIt: "assess now c xs = AddIt \<Longrightarrow> identity c \<notin> set (map identity xs)"
  by (induction xs) (auto simp: compare_opportunity_def same_opportunity_iff split: if_splits)

lemma assess_RefreshIt: "assess now c xs = RefreshIt x \<Longrightarrow> x \<in> set xs \<and> identity x = identity c"
  by (induction xs) (auto simp: compare_opportunity_def same_opportunity_iff split: if_splits)

lemma opp_ok_emit [simp]: "opp_ok (emit e s) = opp_ok s"
  by (simp add: opp_ok_def emit_def)

lemma opp_ok_update:
  assumes "opp_ok s" and "list_ok k xs"
  shows "opp_ok (s\<lparr>opportunities := AList.update k xs (opportunities s)\<rparr>)"
  using assms by (auto simp: opp_ok_def update_conv' distinct_update split: if_splits)

lemma opp_ok_delete: "opp_ok s \<Longrightarrow> opp_ok (s\<lparr>opportunities := AList.delete k (opportunities s)\<rparr>)"
  unfolding opp_ok_def by (simp add: delete_conv' distinct_delete del: map_of_eq_Some_iff)

lemma opp_ok_same: "opp_ok s \<Longrightarrow> opportunities s' = opportunities s \<Longrightarrow> opp_ok s'"
  by (simp add: opp_ok_def)

lemma opp_ok_list: "opp_ok s \<Longrightarrow> map_of (opportunities s) k = Some xs \<Longrightarrow> list_ok k xs"
  unfolding opp_ok_def by blast

lemma seq_cases:
  assumes "seq m f s = (s', r)"
  obtains (err) e where "m s = (s', Inl e)" "r = Inl e"
  | (ok) s1 x where "m s = (s1, Inr x)" "f x s1 = (s', r)"
proof (cases "m s")
  case (Pair s1 y)
  with assms that show ?thesis by (cases y) (auto simp: seq_def)
qed

lemma opp_ok_repo_add:
  assumes ok: "opp_ok s" and new: "assess_action now c s = AddIt"
    and run: "repo_add_opportunity i now c s = (s', r)"
  shows "opp_ok s'"
proof -
  let ?x = "new_with_current_time i now c"
  let ?xs = "get_in_memory_opportunities_by_key s (get_key c)"
  from run show ?thesis unfolding repo_add_opportunity_def Let_def
  proof (cases rule: seq_cases)
    case (err e)
    then show ?thesis using ok by (auto simp: db_add_opportunity_def split: if_splits)
  next
    case (ok s1 u)
    then have same: "opportunities s1 = opportunities s" "opp_ok s1"
      using \<open>opp_ok s\<close> by (auto simp: db_add_opportunity_def opp_ok_def split: if_splits)
    have "list_ok (get_key c) (?xs @ [?x])"
      using assess_AddIt [OF new [unfolded assess_action_def]] opp_ok_list [OF \<open>opp_ok s\<close>, of "get_key c"]
      by (auto simp: list_ok_def get_in_memory_opportunities_by_key_def split: option.splits)
    from opp_ok_update [OF same(2) this] ok same show ?thesis
      by (auto simp: get_in_memory_opportunities_by_key_def)
  qed
qed

lemma opp_ok_refresh:
  assumes ok: "opp_ok s"
  shows "opp_ok (fst (refresh_in_memory_opportunity now x s))"
proof (cases "map_of (opportunities s) (get_key x)")
  case (Some xs)
  show ?thesis
  proof (cases "position (\<lambda>y. y = x) xs")
    case None
    then show ?thesis using Some ok by (simp add: refresh_in_memory_opportunity_def Let_def)
  next
    case (Some n)
    from position_Some [OF Some] have n: "n < length xs" "xs ! n = x" by simp_all
    have "map identity (xs[n := refresh now x]) = map identity xs"
      using n by (metis list_update_id map_update refresh_simps(2))
    moreover have "\<forall>y\<in>set (xs[n := refresh now x]). get_key y = get_key x"
      using opp_ok_list [OF ok \<open>map_of _ _ = Some xs\<close>] set_update_subset_insert [of xs n "refresh now x"]
      by (auto simp: list_ok_def)
    ultimately have "list_ok (get_key x) (xs[n := refresh now x])"
      using opp_ok_list [OF ok \<open>map_of _ _ = Some xs\<close>] by (simp add: list_ok_def)
    from opp_ok_update [OF ok this] show ?thesis
      using Some \<open>map_of _ _ = Some xs\<close> by (simp add: refresh_in_memory_opportunity_def Let_def)
  qed
qed (use ok in \<open>simp add: refresh_in_memory_opportunity_def Let_def\<close>)

lemma opp_ok_add: 
  assumes "opp_ok s" and "add_opportunity env i now c s = (s', r)"
  shows "opp_ok s'"
  using assms(2) unfolding add_opportunity_def
proof (cases rule: seq_cases)
  case (err e)
  then show ?thesis using assms(1) by (simp add: yields_def)
next
  case (ok s1 u)
  then have s1: "s1 = s" by (simp add: yields_def)
  from ok(2) show ?thesis
  proof (cases rule: seq_cases)
    case (err e)
    then show ?thesis
      using assms(1) s1 opp_ok_repo_add [OF assms(1)]
      by (auto split: OpportunityAction.splits prod.splits)
  next
    case (ok s2 x)
    then have "opp_ok s2"
      using assms(1) s1 opp_ok_repo_add [OF assms(1)] opp_ok_refresh [OF assms(1), of now]
      by (auto split: OpportunityAction.splits prod.splits) (metis fst_conv)
    with ok(2) show ?thesis by auto
  qed
qed

lemma opps_by_key_ok:
  "opp_ok s \<Longrightarrow> (\<forall>x\<in>set (get_in_memory_opportunities_by_key s k). get_key x = k) \<and>
     distinct (map identity (get_in_memory_opportunities_by_key s k))"
  using opp_ok_list [of s k] by (auto simp: get_in_memory_opportunities_by_key_def list_ok_def split: option.splits)

lemma distinct_map_filter': "distinct (map f xs) \<Longrightarrow> distinct (map f (filter P xs))"
  by (induction xs) auto

definition without :: "OpportunitySvm \<Rightarrow> 'z opp_state_scheme \<Rightarrow> (OpportunityKey \<times> OpportunitySvm list) list" where
  "without x s = (let left = filter (\<lambda>y. y \<noteq> x) (get_in_memory_opportunities_by_key s (get_key x))
     in if left = [] then AList.delete (get_key x) (opportunities s)
        else AList.update (get_key x) left (opportunities s))"

lemma opp_ok_without: 
  assumes "opp_ok s"
  shows "opp_ok (s\<lparr>opportunities := without x s\<rparr>)"
proof (cases "filter (\<lambda>y. y \<noteq> x) (get_in_memory_opportunities_by_key s (get_key x)) = []")
  case True
  then show ?thesis using opp_ok_delete [OF assms] by (simp add: without_def)
next
  case False
  then have "list_ok (get_key x) (filter (\<lambda>y. y \<noteq> x) (get_in_memory_opportunities_by_key s (get_key x)))"
    using opps_by_key_ok [OF assms, of "get_key x"] by (simp add: list_ok_def distinct_map_filter')
  from opp_ok_update [OF assms this] False show ?thesis by (simp add: without_def)
qed

lemma by_key_unaffected [simp]:
  "get_in_memory_opportunities_by_key (s\<lparr>opp_rows := r\<rparr>) k = get_in_memory_opportunities_by_key s k"
  "get_in_memory_opportunities_by_key (s\<lparr>events := e\<rparr>) k = get_in_memory_opportunities_by_key s k"
  by (simp_all add: get_in_memory_opportunities_by_key_def)

definition rows_without :: "time \<Rightarrow> OpportunitySvm \<Rightarrow> OpportunityRemovalReason \<Rightarrow> (uuid \<times> opp_row) list \<Rightarrow> (uuid \<times> opp_row) list" where
  "rows_without now x reason rows = map (\<lambda>(i, r). (i, if i = o_id x then mark_removed now reason r else r)) rows"

lemma remove_opportunity_eq:
  "remove_opportunity env now x reason s =
     (case opp_configs env (o_chain_id x) of
        None \<Rightarrow> (s, Inl (Fails (BadParameters ''Chain not found'')))
      | Some _ \<Rightarrow>
         if opp_db_up s
         then (s\<lparr>opp_rows := rows_without now x reason (opp_rows s), opportunities := without x s\<rparr>, Inr ())
         else (s, Inl (Fails TemporarilyUnavailable)))"
  by (cases "opp_configs env (o_chain_id x)"; cases "opp_db_up s")
    (simp_all add: remove_opportunity_def seq_def yields_def lift_rest_def get_config_def
      repo_remove_opportunity_def db_remove_opportunity_def without_def rows_without_def Let_def)

lemma remove_opportunity_state:
  assumes "remove_opportunity env now x reason s = (s', r)"
  shows "s' = s \<or> opportunities s' = without x s"
  using assms by (auto simp: remove_opportunity_eq split: option.splits if_splits)

lemma opp_ok_remove:
  "opp_ok s \<Longrightarrow> remove_opportunity env now x reason s = (s', r) \<Longrightarrow> opp_ok s'"
  using remove_opportunity_state [of env now x reason s s' r] opp_ok_without [of s x]
  by (auto simp: opp_ok_def)

lemma opp_ok_remove_key:
  assumes "opp_ok s" and "remove_opportunities env now ch pa rk s = (s', r)"
  shows "opp_ok s'"
  using assms opp_ok_delete [OF assms(1)]
  by (auto simp: remove_opportunities_def repo_remove_opportunities_def db_remove_opportunities_def seq_def
      yields_def lift_rest_def get_config_def ok_or_def Let_def opp_ok_def emit_def
      split: option.splits prod.splits sum.splits if_splits list.splits)

lemma sweep_one_state:
  "opportunities (sweep_one env now x s) =
     (if now - o_refresh_time x \<le> MAX_STALE_OPPORTUNITY_DURATION \<or> opp_configs env (o_chain_id x) = None \<or>
         \<not> opp_db_up s then opportunities s else without x s) \<and>
   opp_db_up (sweep_one env now x s) = opp_db_up s"
  by (cases "opp_configs env (o_chain_id x)"; cases "opp_db_up s")
    (simp_all add: sweep_one_def remove_opportunity_eq emit_def)

lemma opp_ok_sweep_one: "opp_ok s \<Longrightarrow> opp_ok (sweep_one env now x s)"
  using sweep_one_state [of env now x s] opp_ok_without [of s x]
  by (auto simp: opp_ok_def split: if_splits)

lemma opp_ok_sweep: "opp_ok s \<Longrightarrow> opp_ok (remove_invalid_or_expired_opportunities env now s)"
proof -
  have "opp_ok s \<Longrightarrow> opp_ok (fold (sweep_one env now) xs s)" for xs and s :: "'z opp_state_scheme"
    by (induction xs arbitrary: s) (simp_all add: opp_ok_sweep_one)
  then show "opp_ok s \<Longrightarrow> ?thesis" by (simp add: remove_invalid_or_expired_opportunities_def)
qed

lemma opp_ok_step: "opp_step env s s' \<Longrightarrow> opp_ok s \<Longrightarrow> opp_ok s'"
  by (induction rule: opp_step.induct)
    (auto intro: opp_ok_add opp_ok_remove opp_ok_remove_key opp_ok_sweep opp_ok_same)

lemma opp_ok_reachable: "(opp_step env)\<^sup>*\<^sup>* s s' \<Longrightarrow> opp_ok s \<Longrightarrow> opp_ok s'"
  by (induction rule: rtranclp_induct) (auto intro: opp_ok_step)

lemma opp_ok_start: "opportunities s = [] \<Longrightarrow> opp_ok s"
  by (simp add: opp_ok_def)

text \<open>
  From an empty store on, no two live opportunities under one key describe the same
  opportunity (up to the slot of a limo order), however additions, refreshes, removals and sweeps
  follow each other, and each is stored under its own key.
\<close>

theorem live_opportunities_distinct:
  assumes "(opp_step env)\<^sup>*\<^sup>* s0 s" and "opportunities s0 = []"
  shows "(\<forall>x\<in>set (get_in_memory_opportunities_by_key s k). get_key x = k) \<and>
    distinct (map identity (get_in_memory_opportunities_by_key s k))"
  using opps_by_key_ok [OF opp_ok_reachable [OF assms(1) opp_ok_start [OF assms(2)]]] .

lemma each_rest_Inr:
  "(\<And>x. x \<in> set xs \<Longrightarrow> \<exists>y. f x = Inr y) \<Longrightarrow> \<exists>ys. each_rest f xs = Inr ys"
proof (induction xs)
  case (Cons x xs)
  then obtain y ys where "f x = Inr y" "each_rest f xs = Inr ys" by (metis list.set_intros)
  then show ?case by simp
qed simp

text \<open>
  Property C37. Listing the live opportunities never panics: the code takes the last opportunity of every
  key and expects there to be one, and no operation leaves a key without opportunities behind.
\<close>

theorem live_listing_never_panics:
  assumes "(opp_step env)\<^sup>*\<^sup>* s0 s" and "opportunities s0 = []"
  shows "\<exists>xs. live_opportunities ch from_time s = Inr xs"
proof -
  have ok: "opp_ok s" by (rule opp_ok_reachable [OF assms(1) opp_ok_start [OF assms(2)]])
  have "\<exists>y. (case p of (k, xs) \<Rightarrow> if xs = [] then Inl Panics else Inr (last xs)) = (Inr y :: OpportunitySvm rest)"
    if "p \<in> set (opportunities s)" for p
  proof -
    obtain k xs where p: "p = (k, xs)" by fastforce
    with that ok have "map_of (opportunities s) k = Some xs" by (simp add: opp_ok_def)
    with opp_ok_list [OF ok this] p show ?thesis by (simp add: list_ok_def)
  qed
  from each_rest_Inr [of "opportunities s" "\<lambda>(k, xs). if xs = [] then Inl Panics else Inr (last xs)", OF this]
  obtain ys where "each_rest (\<lambda>(k, xs). if xs = [] then Inl Panics else Inr (last xs)) (opportunities s) =
      (Inr ys :: OpportunitySvm list rest)"
    by blast
  then show ?thesis by (simp add: live_opportunities_def)
qed

definition live :: "'z opp_state_scheme \<Rightarrow> OpportunitySvm set" where
  "live s = set (concat (map snd (opportunities s)))"

lemma live_iff:
  assumes "opp_ok s"
  shows "x \<in> live s \<longleftrightarrow> x \<in> set (get_in_memory_opportunities_by_key s (get_key x))"
proof
  assume "x \<in> live s"
  then obtain k xs where mem: "(k, xs) \<in> set (opportunities s)" and x: "x \<in> set xs" by (auto simp: live_def)
  from mem assms have m: "map_of (opportunities s) k = Some xs" by (simp add: opp_ok_def)
  with opp_ok_list [OF assms m] x have "get_key x = k" by (simp add: list_ok_def)
  with m x show "x \<in> set (get_in_memory_opportunities_by_key s (get_key x))"
    by (simp add: get_in_memory_opportunities_by_key_def del: map_of_eq_Some_iff)
next
  assume "x \<in> set (get_in_memory_opportunities_by_key s (get_key x))"
  then obtain xs where xs: "map_of (opportunities s) (get_key x) = Some xs" "x \<in> set xs"
    by (cases "map_of (opportunities s) (get_key x)") (simp_all add: get_in_memory_opportunities_by_key_def)
  from map_of_SomeD [OF xs(1)] xs(2) show "x \<in> live s" unfolding live_def by force
qed

lemma by_key_set:
  "get_in_memory_opportunities_by_key (s\<lparr>opportunities := m\<rparr>) k = (case map_of m k of Some xs \<Rightarrow> xs | None \<Rightarrow> [])"
  by (simp add: get_in_memory_opportunities_by_key_def)

lemma by_key_without:
  "get_in_memory_opportunities_by_key (s\<lparr>opportunities := without x s\<rparr>) k =
     (if k = get_key x then filter (\<lambda>y. y \<noteq> x) (get_in_memory_opportunities_by_key s k)
      else get_in_memory_opportunities_by_key s k)"
proof (cases "k = get_key x")
  case True
  then show ?thesis unfolding by_key_set by (simp add: without_def Let_def update_conv' delete_conv')
next
  case False
  then have "map_of (without x s) k = map_of (opportunities s) k"
    by (simp add: without_def Let_def update_conv' delete_conv')
  then show ?thesis
    using False unfolding by_key_set by (simp only: get_in_memory_opportunities_by_key_def if_False)
qed

lemma live_without:
  assumes "opp_ok s"
  shows "live (s\<lparr>opportunities := without x s\<rparr>) = live s - {x}"
  using live_iff [OF assms] live_iff [OF opp_ok_without [OF assms, of x]]
  by (auto simp: by_key_without split: if_splits)

lemma live_cong: "opportunities s' = opportunities s \<Longrightarrow> live s' = live s"
  by (simp add: live_def)

lemma live_sweep_one:
  assumes "opp_ok s" and "opp_db_up s" and "\<And>c. opp_configs env c \<noteq> None"
  shows "live (sweep_one env now x s) =
    (if now - o_refresh_time x \<le> MAX_STALE_OPPORTUNITY_DURATION then live s else live s - {x})"
  using sweep_one_state [of env now x s] assms(2,3) live_without [OF assms(1), of x]
  by (auto simp: live_def)

lemma live_sweep:
  assumes "opp_ok s" and "opp_db_up s" and "\<And>c. opp_configs env c \<noteq> None"
  shows "live (fold (sweep_one env now) xs s) =
    live s - {x \<in> set xs. MAX_STALE_OPPORTUNITY_DURATION < now - o_refresh_time x}"
  using assms(1,2)
proof (induction xs arbitrary: s)
  case (Cons x xs)
  have "opp_ok (sweep_one env now x s)" "opp_db_up (sweep_one env now x s)"
    using Cons.prems opp_ok_sweep_one sweep_one_state [of env now x s] by auto
  from Cons.IH [OF this] live_sweep_one [OF Cons.prems(1,2) assms(3), of now x] show ?case
    by auto
qed simp

text \<open>
  One sweep over the opportunities leaves exactly those that were refreshed within the last
  two minutes: every stale opportunity is gone from memory, and no fresh one is touched.
\<close>

theorem sweep_leaves_fresh_opportunities:
  assumes "(opp_step env)\<^sup>*\<^sup>* s0 s" and "opportunities s0 = []"
    and "opp_db_up s" and "\<And>c. opp_configs env c \<noteq> None"
  shows "live (remove_invalid_or_expired_opportunities env now s) =
    {x \<in> live s. now - o_refresh_time x \<le> MAX_STALE_OPPORTUNITY_DURATION}"
proof -
  have "opp_ok s" by (rule opp_ok_reachable [OF assms(1) opp_ok_start [OF assms(2)]])
  from live_sweep [OF this assms(3,4), of now "concat (map snd (opportunities s))"] show ?thesis
    by (auto simp: remove_invalid_or_expired_opportunities_def live_def)
qed


subsection \<open>The amount a searcher is shown\<close>

lemma unat_fee_part:
  assumes "unat ppm \<le> 1000000"
  shows "unat (fee_part amount ppm) = ppm_of (unat amount) (unat ppm)"
proof -
  have a: "unat (ucast w :: 128 word) = unat w" for w :: u64
    using unat_u64_less [of w] by (simp add: unsigned_ucast_eq unsigned_take_bit_eq take_bit_nat_eq_self)
  have "unat amount * unat ppm < 2 ^ 64 * 2 ^ 64"
    by (rule mult_strict_mono [OF unat_u64_less unat_u64_less]) simp_all
  then have m: "unat (ucast amount * ucast ppm :: 128 word) = unat amount * unat ppm"
    by (simp add: unat_mult_small a)
  have "ppm_of (unat amount) (unat ppm) \<le> unat amount" by (rule fraction_le [OF assms])
  then have "ppm_of (unat amount) (unat ppm) < 2 ^ 64"
    using unat_u64_less [of amount] by (rule le_less_trans)
  then show ?thesis
    by (simp add: fee_part_def unsigned_ucast_eq unsigned_take_bit_eq m a take_bit_nat_eq_self)
qed

text \<open>
  The amount a searcher is shown for a quote whose fees are taken from the user token is the
  amount the on-chain program leaves the user after its own fee computation, whenever that
  computation succeeds; with fees in the searcher token it is the whole amount.
\<close>

theorem shown_amount_is_amount_after_fees:
  assumes "compute_swap_fees md (os_referral_fee_ppm p) (os_platform_fee_ppm p) amount = Inr res"
    and "unat (os_platform_fee_ppm p) \<le> 1000000"
  shows "user_amount_excluding_fees p amount =
    (case os_fee_token p of UserToken \<Rightarrow> remaining_amount res | SearcherToken \<Rightarrow> amount)"
proof -
  have r: "unat (os_referral_fee_ppm p) \<le> 1000000"
    and fees: "abs_fees res = swap_fees_spec (unat (split_relayer md)) (unat (os_referral_fee_ppm p))
        (unat (os_platform_fee_ppm p)) (unat amount)"
    using assms(1) unfolding compute_swap_fees_refines swap_fees_ok_def by blast+
  from fees have "unat (remaining_amount res) = unat amount -
      ppm_of (unat amount) (unat (os_referral_fee_ppm p)) - ppm_of (unat amount) (unat (os_platform_fee_ppm p))"
    by (simp add: abs_fees_def swap_fees_spec_def Let_def)
  then show ?thesis
    using unat_fee_part [OF r, of amount] unat_fee_part [OF assms(2), of amount]
    by (simp add: user_amount_excluding_fees_def word_unat_eq_iff split: OppFeeToken.split)
qed


subsection \<open>A concrete opportunity\<close>

definition sample_create :: OpportunityCreateSvm where
  "sample_create = \<lparr>o_permission_key = replicate 65 1, o_chain_id = ''solana'',
     o_sell_tokens = [\<lparr>ta_token = 21, ta_amount = 0\<rparr>], o_buy_tokens = [\<lparr>ta_token = 22, ta_amount = 500\<rparr>],
     o_router = 31, o_permission_account = 41,
     o_program = SwapProgram \<lparr>os_user_wallet_address = 12, os_user_mint_user_balance = 0,
       os_fee_token = UserToken, os_referral_fee_bps = 1, os_referral_fee_ppm = 100, os_platform_fee_bps = 30,
       os_platform_fee_ppm = 3000, os_token_program_user = SPL_TOKEN, os_token_program_searcher = SPL_TOKEN,
       os_initialization = none_needed, os_memo = None, os_cancellable = True, os_minimum_lifetime = None,
       os_minimum_deadline = 0\<rparr>,
     o_profile_id = None\<rparr>"

definition sample_opp_state :: opp_state where
  "sample_opp_state = \<lparr>auction_repo = Repository_new db_empty ''solana'', express_relay_metadata = None,
     token_mint_cache = [], opportunities = [], opp_db_up = True, opp_rows = [], events = []\<rparr>"

definition sample_opportunity :: OpportunitySvm where
  "sample_opportunity = new_with_current_time 1 100 sample_create"

definition sample_one_live :: opp_state where
  "sample_one_live = fst (add_opportunity sample_env 1 100 sample_create sample_opp_state)"

lemma sample_reachable: "(opp_step sample_env)\<^sup>*\<^sup>* sample_opp_state sample_one_live"
  unfolding sample_one_live_def by (rule r_into_rtranclp, rule opp_step.add) (rule surjective_pairing)

lemma sample_start: "opportunities sample_opp_state = []"
  by (simp add: sample_opp_state_def)

lemma sample_one_live_eq:
  "opportunities sample_one_live = [(get_key sample_create, [sample_opportunity])]"
  "opp_db_up sample_one_live"
  by (simp_all add: sample_one_live_def add_opportunity_def seq_def yields_def lift_rest_def get_config_def
      sample_env_def sample_opp_state_def assess_action_def get_in_memory_opportunities_by_key_def
      repo_add_opportunity_def Let_def db_add_opportunity_def emit_def sample_opportunity_def)

lemma sample_refresh_time: "o_refresh_time sample_opportunity = 100"
  by (simp add: sample_opportunity_def new_with_current_time_def OpportunityCreateSvm.extend_def)

theorem live_opportunities_distinct_witness:
  "distinct (map identity [sample_opportunity])"
  using live_opportunities_distinct [OF sample_reachable sample_start, of "get_key sample_create"]
  by (simp add: get_in_memory_opportunities_by_key_def sample_one_live_eq)

theorem live_listing_never_panics_witness:
  "\<exists>xs. live_opportunities None None sample_one_live = Inr xs"
  by (rule live_listing_never_panics [OF sample_reachable sample_start])

theorem sweep_leaves_fresh_opportunities_witness:
  "live (remove_invalid_or_expired_opportunities sample_env (seconds 121) sample_one_live) = {}"
proof -
  have "opp_configs sample_env c \<noteq> None" for c by (simp add: sample_env_def)
  from sweep_leaves_fresh_opportunities [OF sample_reachable sample_start sample_one_live_eq(2) this]
  show ?thesis
    by (auto simp: live_def sample_one_live_eq sample_refresh_time MAX_STALE_OPPORTUNITY_DURATION_def
        seconds_def)
qed

definition sample_quote_terms :: OpportunitySvmProgramSwap where
  "sample_quote_terms = (case o_program sample_create of SwapProgram p \<Rightarrow> p)"

theorem shown_amount_is_amount_after_fees_witness:
  "user_amount_excluding_fees sample_quote_terms 1000000 = 996900"
proof -
  let ?res = "\<lparr>fees = \<lparr>router_fee = 100, relayer_fee = 600, express_relay_fee = 2400\<rparr>, remaining_amount = 996900\<rparr>"
  have fields: "os_referral_fee_ppm sample_quote_terms = 100" "os_platform_fee_ppm sample_quote_terms = 3000"
    "os_fee_token sample_quote_terms = UserToken"
    by (simp_all add: sample_quote_terms_def sample_create_def)
  have "compute_swap_fees sample_metadata 100 3000 1000000 = Inr ?res"
    unfolding compute_swap_fees_refines
    by (simp add: swap_fees_ok_def abs_fees_def swap_fees_spec_def sample_metadata_def)
  with shown_amount_is_amount_after_fees [of sample_metadata sample_quote_terms 1000000 ?res] fields
  show ?thesis by simp
qed

end
