(* ===== verification/As_Verify.thy ===== *)
theory As_Verify
  imports As_Opportunity
begin

section \<open>Auction server: verification of bids\<close>

text \<open>
  \<open>auction/service/verification.rs\<close>: what the server checks of a bid's transaction before it
  accepts it, and \<open>get_quote_virtual_permission_account\<close>, by which swap bids find their quote. Every
  check is one definition, in the order of the file; \<open>verify_bid\<close> composes them. The RPC node's
  and the local simulator's answers are parameters, clock readings are arguments.
\<close>

subsection \<open>Bids as they are created\<close>

record BidChainDataOnChainCreateSvm =
  oc_transaction :: tx
  oc_slot :: "u64 option"

record BidChainDataSwapCreateSvm =
  sc_transaction :: tx
  sc_opportunity_id :: uuid

datatype BidChainDataCreateSvm = OnChain BidChainDataOnChainCreateSvm | Swap BidChainDataSwapCreateSvm

fun get_transaction :: "BidChainDataCreateSvm \<Rightarrow> tx" where
  "get_transaction (OnChain d) = oc_transaction d"
| "get_transaction (Swap d) = sc_transaction d"

fun get_opportunity_id :: "BidChainDataCreateSvm \<Rightarrow> uuid option" where
  "get_opportunity_id (OnChain _) = None"
| "get_opportunity_id (Swap d) = Some (sc_opportunity_id d)"

record BidCreate =
  bc_chain_id :: string
  bc_initiation_time :: time
  bc_profile :: "uuid option"
  bc_chain_data :: BidChainDataCreateSvm

definition same_bid :: "BidCreate \<Rightarrow> VersionedMessage Bid \<Rightarrow> bool" where
  "same_bid c b \<longleftrightarrow> get_transaction (bc_chain_data c) = cd_transaction (b_chain_data b) \<and> bc_chain_id c = b_chain_id b"

datatype SubmitType = ByServer | ByOther | InvalidSubmitType

record BidDataSvm =
  bd_amount :: u64
  bd_router :: pubkey
  bd_permission_account :: pubkey
  bd_deadline :: time
  bd_submit_type :: SubmitType
  bd_instruction_index :: nat
  bd_user_wallet_address :: "pubkey option"
  bd_minimum_deadline :: time

definition BID_MINIMUM_LIFE_TIME_SVM_SERVER :: time where
  "BID_MINIMUM_LIFE_TIME_SVM_SERVER = seconds 5"

definition BID_MAXIMUM_LIFE_TIME_SVM :: time where
  "BID_MAXIMUM_LIFE_TIME_SVM = seconds 45"

text \<open>\<open>OffsetDateTime\<close> covers the years -9999 to 9999.\<close>

definition from_unix_timestamp :: "i64 \<Rightarrow> time option" where
  "from_unix_timestamp t =
     (if -377705116800 \<le> sint t \<and> sint t \<le> 253402300799 then Some (seconds (sint t)) else None)"


subsection \<open>Quotes and their permission accounts\<close>

definition INDICATIVE_PRICE_TAKER_BASE :: pubkey where
  "INDICATIVE_PRICE_TAKER_BASE = 452312868849793083571886649910257498431828403181215075571124665517881612805"

definition generate_indicative_price_taker :: "u8 list \<Rightarrow> pubkey" where
  "generate_indicative_price_taker rand_bytes = of_le (take 24 (to_le 32 INDICATIVE_PRICE_TAKER_BASE) @ rand_bytes)"

definition is_indicative_price_taker :: "pubkey \<Rightarrow> bool" where
  "is_indicative_price_taker wallet_address \<longleftrightarrow>
     take 24 (to_le 32 wallet_address) = take 24 (to_le 32 INDICATIVE_PRICE_TAKER_BASE)"

definition permission_seeds :: "QuoteTokens \<Rightarrow> pubkey \<Rightarrow> pubkey \<Rightarrow> u64 \<Rightarrow> u8 list list" where
  "permission_seeds tokens user_wallet_address router_token_account referral_ppm =
     (case tokens of
        UserTokenSpecified user_token searcher_token \<Rightarrow>
          [to_le 32 router_token_account, to_le 32 user_wallet_address, to_le 32 searcher_token,
           to_le 32 (ta_token user_token), to_le 8 (ta_amount user_token), to_le 8 referral_ppm]
      | SearcherTokenSpecified user_token searcher_token \<Rightarrow>
          [to_le 32 router_token_account, to_le 32 user_wallet_address, to_le 32 (ta_token searcher_token),
           to_le 8 (ta_amount searcher_token), to_le 32 user_token, to_le 8 referral_ppm])"

definition get_quote_virtual_permission_account ::
  "env \<Rightarrow> QuoteTokens \<Rightarrow> pubkey \<Rightarrow> pubkey \<Rightarrow> u64 \<Rightarrow> pubkey" where
  "get_quote_virtual_permission_account env tokens user_wallet_address router_token_account referral_ppm =
     find_program_address env
       (permission_seeds tokens user_wallet_address router_token_account referral_ppm) 0"


subsection \<open>Which instructions a swap may contain\<close>

definition validate_swap_transaction_instruction ::
  "env \<Rightarrow> pubkey \<Rightarrow> CompiledInstruction \<Rightarrow> InstructionValidationError + unit" where
  "validate_swap_transaction_instruction env program_id ix =
     (if program_id = SYSTEM_PROGRAM then
        (if system_transfer env (ci_data ix) \<noteq> None then Inr () else Inl UnsupportedSystemProgramInstruction)
      else if program_id = SPL_TOKEN then
        (case unpack_token_instruction env (ci_data ix) of
           None \<Rightarrow> Inl InvalidSplTokenInstruction
         | Some CloseAccount \<Rightarrow> Inr ()
         | Some SyncNative \<Rightarrow> Inr ()
         | Some (OtherTokenInstruction d) \<Rightarrow> Inl (UnsupportedSplTokenInstruction d))
      else if program_id = SPL_ASSOCIATED_TOKEN_ACCOUNT then
        (case parse_ata_instruction env (ci_data ix) of
           None \<Rightarrow> Inl InvalidAssociatedTokenAccountInstruction
         | Some CreateAta \<Rightarrow> Inr ()
         | Some CreateIdempotentAta \<Rightarrow> Inr ()
         | Some RecoverNestedAta \<Rightarrow> Inl UnsupportedAssociatedTokenAccountInstruction)
      else if program_id = express_relay_program env \<or> program_id = SPL_MEMO \<or> program_id = COMPUTE_BUDGET
      then Inr ()
      else Inl (UnsupportedProgram program_id))"

fun validate_at :: "env \<Rightarrow> tx \<Rightarrow> nat \<times> CompiledInstruction \<Rightarrow> unit rest" where
  "validate_at env t (index, ix) =
     rbind (ix_program_id_of t ix) (\<lambda>program_id.
       case validate_swap_transaction_instruction env program_id ix of
         Inl e \<Rightarrow> Inl (Fails (InvalidInstruction (Some index) e))
       | Inr _ \<Rightarrow> Inr ())"

definition validate_swap_transaction_instructions :: "env \<Rightarrow> tx \<Rightarrow> unit rest" where
  "validate_swap_transaction_instructions env t =
     rbind (each_rest (validate_at env t) (List.enumerate 0 (instructions (message t)))) (\<lambda>_. Inr ())"


subsection \<open>The terms of the quote\<close>

definition program_fee_token :: "OppFeeToken \<Rightarrow> FeeToken" where
  "program_fee_token f = (case f of UserToken \<Rightarrow> User | SearcherToken \<Rightarrow> Searcher)"

definition differs :: "'a \<Rightarrow> 'a \<Rightarrow> SwapInstructionError \<Rightarrow> unit rest" where
  "differs expected found e = ensure (expected = found) (Fails (InvalidSwapInstruction e))"

text \<open>The pure part of each check is a definition of its own, ending in \<open>_check\<close>.\<close>

definition swap_fields_check :: "OpportunitySvmProgramSwap \<Rightarrow> QuoteTokens \<Rightarrow> BidTransactionDataSwap \<Rightarrow> unit rest" where
  "swap_fields_check opp quote_tokens d =
     (let a = swap_tx_accounts d; s = swap_data d;
         (expected_mint_user, expected_amount_user, expected_mint_searcher, expected_amount_searcher) =
           (case quote_tokens of
              UserTokenSpecified user_token searcher_token \<Rightarrow>
                (ta_token user_token, Some (ta_amount user_token), searcher_token, None)
            | SearcherTokenSpecified user_token searcher_token \<Rightarrow>
                (user_token, None, ta_token searcher_token, Some (ta_amount searcher_token)))
      in
     rbind (differs (os_user_wallet_address opp) (sa_user_wallet a)
       (UserWalletAddressMismatch (os_user_wallet_address opp) (sa_user_wallet a))) (\<lambda>_.
     rbind (differs expected_mint_searcher (sa_mint_searcher a)
       (MintSearcherMismatch expected_mint_searcher (sa_mint_searcher a))) (\<lambda>_.
     rbind (differs expected_mint_user (sa_mint_user a)
       (MintUserMismatch expected_mint_user (sa_mint_user a))) (\<lambda>_.
     rbind (differs (os_token_program_searcher opp) (sa_token_program_searcher a)
       (TokenProgramSearcherMismatch (os_token_program_searcher opp) (sa_token_program_searcher a))) (\<lambda>_.
     rbind (differs (os_token_program_user opp) (sa_token_program_user a)
       (TokenProgramUserMismatch (os_token_program_user opp) (sa_token_program_user a))) (\<lambda>_.
     rbind (case expected_amount_searcher of
              Some x \<Rightarrow> differs x (amount_searcher s) (AmountSearcherMismatch x (amount_searcher s))
            | None \<Rightarrow> Inr ()) (\<lambda>_.
     rbind (case expected_amount_user of
              Some x \<Rightarrow> differs x (amount_user s) (AmountUserMismatch x (amount_user s))
            | None \<Rightarrow> Inr ()) (\<lambda>_.
     rbind (differs (program_fee_token (os_fee_token opp)) (fee_token s)
       (FeeTokenMismatch (program_fee_token (os_fee_token opp)) (fee_token s))) (\<lambda>_.
     rbind (differs (os_referral_fee_ppm opp) (referral_fee_ppm s)
       (ReferralFeeMismatch (os_referral_fee_ppm opp) (referral_fee_ppm s))) (\<lambda>_.
     differs (os_platform_fee_ppm opp) (swap_platform_fee_ppm s)
       (PlatformFeeMismatch (os_platform_fee_ppm opp) (swap_platform_fee_ppm s))))))))))))"

definition check_svm_swap_bid_fields ::
  "env \<Rightarrow> string \<Rightarrow> tx \<Rightarrow> OpportunitySvmProgramSwap \<Rightarrow> QuoteTokens \<Rightarrow> ('z caches_scheme, unit) action" where
  "check_svm_swap_bid_fields env ch t opp quote_tokens =
     seq (get_bid_transaction_data_swap env ch t) (\<lambda>d. yields (swap_fields_check opp quote_tokens d))"


subsection \<open>Lamport transfers\<close>

record TransferInstructionData =
  ti_index :: nat
  ti_from :: pubkey
  ti_to :: pubkey
  ti_lamports :: u64

definition invalid_ix :: "nat option \<Rightarrow> InstructionValidationError \<Rightarrow> 'a rest" where
  "invalid_ix i e = Inl (Fails (InvalidInstruction i e))"

definition extract_transfer_instructions :: "env \<Rightarrow> tx \<Rightarrow> ('z caches_scheme, TransferInstructionData list) action" where
  "extract_transfer_instructions env t =
     seq (yields (extract_program_instructions t SYSTEM_PROGRAM)) (\<lambda>ixs.
       each (\<lambda>(index, ix).
         case system_transfer env (ci_data ix) of
           None \<Rightarrow> fails (BadParameters ''Invalid sol transfer instruction data'')
         | Some amount \<Rightarrow>
             seq (extract_account env t ix 0) (\<lambda>from_account.
             seq (extract_account env t ix 1) (\<lambda>to_account.
               yields (Inr \<lparr>ti_index = index, ti_from = from_account, ti_to = to_account, ti_lamports = amount\<rparr>))))
        (filter (\<lambda>(index, ix). system_transfer env (ci_data ix) \<noteq> None) ixs))"

definition native_ata :: "env \<Rightarrow> pubkey \<Rightarrow> pubkey" where
  "native_ata env wallet = associated_token_address env wallet NATIVE_MINT SPL_TOKEN"

definition transfer_check ::
  "env \<Rightarrow> BidTransactionDataSwap \<Rightarrow> OpportunitySvmProgramSwap \<Rightarrow> TransferInstructionData list \<Rightarrow> unit rest" where
  "transfer_check env d opp transfers =
      (let a = swap_tx_accounts d in
       if length transfers > 1
       then invalid_ix (map_option ti_index (nth_opt transfers 1)) InvalidTransferInstructionsCount
       else if sa_mint_user a = NATIVE_MINT then
         (let to_wrap = get_user_amount_to_wrap env opp (amount_user (swap_data d)) in
          case transfers of
            [x] \<Rightarrow>
              if ti_from x \<noteq> sa_user_wallet a
              then invalid_ix (Some (ti_index x)) (InvalidFromAccountTransferInstruction (sa_user_wallet a) (ti_from x))
              else if ti_to x \<noteq> native_ata env (sa_user_wallet a)
              then invalid_ix (Some (ti_index x))
                     (InvalidToAccountTransferInstruction (native_ata env (sa_user_wallet a)) (ti_to x))
              else if amount_user (swap_data d) \<noteq> ti_lamports x \<and> to_wrap \<noteq> ti_lamports x
              then invalid_ix (Some (ti_index x)) (InvalidAmountTransferInstruction to_wrap (ti_lamports x))
              else Inr ()
          | _ \<Rightarrow> invalid_ix None InvalidTransferInstructionsCount)
       else
         (case transfers of
            [] \<Rightarrow> Inr ()
          | x # xs \<Rightarrow>
              if sa_mint_searcher a = NATIVE_MINT \<and> xs = [] then
                (if ti_from x \<noteq> sa_searcher a
                 then invalid_ix (Some (ti_index x)) (InvalidFromAccountTransferInstruction (sa_searcher a) (ti_from x))
                 else if ti_to x \<noteq> native_ata env (sa_searcher a)
                 then invalid_ix (Some (ti_index x))
                        (InvalidToAccountTransferInstruction (native_ata env (sa_searcher a)) (ti_to x))
                 else Inr ())
              else invalid_ix (Some (ti_index x)) TransferInstructionNotAllowed))"

definition check_transfer_instruction ::
  "env \<Rightarrow> tx \<Rightarrow> BidTransactionDataSwap \<Rightarrow> OpportunitySvmProgramSwap \<Rightarrow> ('z caches_scheme, unit) action" where
  "check_transfer_instruction env t d opp =
     seq (extract_transfer_instructions env t) (\<lambda>transfers. yields (transfer_check env d opp transfers))"


subsection \<open>Wrapping and unwrapping\<close>

definition extract_sync_native_instructions :: "env \<Rightarrow> tx \<Rightarrow> CompiledInstruction list rest" where
  "extract_sync_native_instructions env t =
     rbind (extract_program_instructions t SPL_TOKEN) (\<lambda>ixs.
       Inr (map snd (filter (\<lambda>(i, ix). unpack_token_instruction env (ci_data ix) = Some SyncNative) ixs)))"

definition check_sync_native_instruction_exists ::
  "env \<Rightarrow> tx \<Rightarrow> pubkey \<Rightarrow> ('z caches_scheme, unit) action" where
  "check_sync_native_instruction_exists env t wallet_address =
     seq (yields (extract_sync_native_instructions env t)) (\<lambda>ixs.
     seq (each (\<lambda>ix. extract_account env t ix 0) ixs) (\<lambda>accounts.
       yields (if length (filter (\<lambda>a. a = native_ata env wallet_address) accounts) \<noteq> 1
         then invalid_ix None (InvalidSyncNativeInstructionCount (native_ata env wallet_address))
         else Inr ())))"

record CloseAccountInstructionData =
  cl_index :: nat
  cl_account :: pubkey
  cl_destination :: pubkey
  cl_owner :: pubkey

definition extract_close_account_instructions ::
  "env \<Rightarrow> tx \<Rightarrow> ('z caches_scheme, CloseAccountInstructionData list) action" where
  "extract_close_account_instructions env t =
     seq (yields (extract_program_instructions t SPL_TOKEN)) (\<lambda>ixs.
       each (\<lambda>(index, ix).
           seq (extract_account env t ix 0) (\<lambda>account.
           seq (extract_account env t ix 1) (\<lambda>destination.
           seq (extract_account env t ix 2) (\<lambda>owner.
             yields (Inr \<lparr>cl_index = index, cl_account = account, cl_destination = destination, cl_owner = owner\<rparr>)))))
        (filter (\<lambda>(index, ix). unpack_token_instruction env (ci_data ix) = Some CloseAccount) ixs))"

definition close_check :: "env \<Rightarrow> SwapAccounts \<Rightarrow> CloseAccountInstructionData list \<Rightarrow> unit rest" where
  "close_check env a closes =
      (let user_ata = native_ata env (sa_user_wallet a); searcher_ata = native_ata env (sa_searcher a);
           user = filter (\<lambda>x. cl_account x = user_ata) closes;
           other = filter (\<lambda>x. cl_account x \<noteq> user_ata) closes;
           searcher = filter (\<lambda>x. cl_account x = searcher_ata) other;
           rest = filter (\<lambda>x. cl_account x \<noteq> searcher_ata) other
       in case rest of
            x # _ \<Rightarrow> invalid_ix (Some (cl_index x)) (InvalidAccountToCloseInCloseAccountInstruction (cl_account x))
          | [] \<Rightarrow>
             if sa_mint_searcher a = NATIVE_MINT \<or> sa_mint_user a = NATIVE_MINT then
               rbind (case user of
                   x # user' \<Rightarrow>
                     if cl_destination x \<noteq> sa_user_wallet a
                     then invalid_ix (Some (cl_index x))
                            (InvalidDestinationCloseAccountInstruction (sa_user_wallet a) (cl_destination x))
                     else if cl_owner x \<noteq> sa_user_wallet a
                     then invalid_ix (Some (cl_index x)) (InvalidOwnerCloseAccountInstruction (sa_user_wallet a) (cl_owner x))
                     else Inr user'
                 | [] \<Rightarrow>
                     if sa_mint_user a \<noteq> NATIVE_MINT
                     then invalid_ix None (InvalidCloseAccountInstructionCountUser 0)
                     else Inr []) (\<lambda>user'.
               if user' \<noteq> []
               then invalid_ix (Some (cl_index (hd user'))) (InvalidCloseAccountInstructionCountUser (1 + length user'))
               else if length searcher > 1
               then invalid_ix (map_option cl_index (nth_opt searcher 1))
                      (InvalidCloseAccountInstructionCountSearcher (length searcher))
               else Inr ())
             else if user \<noteq> [] \<or> searcher \<noteq> []
             then invalid_ix (Some (cl_index (hd (user @ searcher)))) CloseAccountInstructionNotAllowed
             else Inr ())"

definition check_close_account_instruction :: "env \<Rightarrow> tx \<Rightarrow> SwapAccounts \<Rightarrow> ('z caches_scheme, unit) action" where
  "check_close_account_instruction env t a =
     seq (extract_close_account_instructions env t) (\<lambda>closes. yields (close_check env a closes))"

definition check_wrap_unwrap_native_token_instructions ::
  "env \<Rightarrow> tx \<Rightarrow> BidTransactionDataSwap \<Rightarrow> OpportunitySvmProgramSwap \<Rightarrow> ('z caches_scheme, unit) action" where
  "check_wrap_unwrap_native_token_instructions env t d opp =
     seq (check_transfer_instruction env t d opp) (\<lambda>_.
     seq (if sa_mint_user (swap_tx_accounts d) = NATIVE_MINT
          then check_sync_native_instruction_exists env t (sa_user_wallet (swap_tx_accounts d))
          else yields (Inr ())) (\<lambda>_.
       check_close_account_instruction env t (swap_tx_accounts d)))"


subsection \<open>Memo\<close>

definition as_bytes :: "string \<Rightarrow> u8 list" where
  "as_bytes s = map (\<lambda>c. word_of_nat (of_char c)) s"

text \<open>The error shows the memo found as a string (empty when it is not UTF-8); here it keeps the bytes.\<close>

definition check_memo_instructions :: "tx \<Rightarrow> string option \<Rightarrow> unit rest" where
  "check_memo_instructions t memo =
     rbind (extract_program_instructions t SPL_MEMO) (\<lambda>ixs.
       case (memo, ixs) of
         (None, []) \<Rightarrow> Inr ()
       | (Some m, [(index, ix)]) \<Rightarrow>
           if ci_data ix \<noteq> as_bytes m then invalid_ix (Some index) (InvalidMemoString (as_bytes m) (ci_data ix))
           else Inr ()
       | (Some _, []) \<Rightarrow> Inr ()
       | _ \<Rightarrow> invalid_ix None (InvalidMemoInstructionCount (case memo of None \<Rightarrow> 0 | Some _ \<Rightarrow> 1) (length ixs)))"


subsection \<open>Creating token accounts\<close>

record CreateAtaInstructionData =
  at_index :: nat
  at_payer :: pubkey
  at_ata :: pubkey
  at_owner :: pubkey
  at_mint :: pubkey
  at_token_program :: pubkey

definition is_create_ata :: "env \<Rightarrow> CompiledInstruction \<Rightarrow> bool" where
  "is_create_ata env ix \<longleftrightarrow> parse_ata_instruction env (ci_data ix) \<in> {Some CreateAta, Some CreateIdempotentAta}"

definition extract_create_ata_instructions ::
  "env \<Rightarrow> tx \<Rightarrow> ('z caches_scheme, CreateAtaInstructionData list) action" where
  "extract_create_ata_instructions env t =
     seq (yields (extract_program_instructions t SPL_ASSOCIATED_TOKEN_ACCOUNT)) (\<lambda>ixs.
       each (\<lambda>(index, ix).
           seq (extract_account env t ix 0) (\<lambda>payer.
           seq (extract_account env t ix 1) (\<lambda>ata.
           seq (extract_account env t ix 2) (\<lambda>owner.
           seq (extract_account env t ix 3) (\<lambda>mint.
           seq (extract_account env t ix 4) (\<lambda>system_program.
           seq (extract_account env t ix 5) (\<lambda>token_program.
             yields (if system_program \<noteq> SYSTEM_PROGRAM
               then invalid_ix (Some index) (InvalidSystemProgramInCreateAtaInstruction system_program)
               else Inr \<lparr>at_index = index, at_payer = payer, at_ata = ata, at_owner = owner, at_mint = mint,
                          at_token_program = token_program\<rparr>))))))))
        (filter (\<lambda>(index, ix). is_create_ata env ix) ixs))"

definition swap_remove :: "'a list \<Rightarrow> nat \<Rightarrow> 'a list" where
  "swap_remove xs i = butlast (xs[i := last xs])"

definition validate_and_remove_create_user_ata_instruction ::
  "env \<Rightarrow> SwapAccounts \<Rightarrow> pubkey \<Rightarrow> pubkey \<Rightarrow> TokenAccountInitializationConfig \<Rightarrow>
   CreateAtaInstructionData list \<Rightarrow> CreateAtaInstructionData list rest" where
  "validate_and_remove_create_user_ata_instruction env a mint token_program config ixs =
     (if config \<noteq> UserPayer then Inr ixs
      else
        let ata = associated_token_address env (sa_user_wallet a) mint token_program
        in case position (\<lambda>x. at_ata x = ata) ixs of
             None \<Rightarrow> invalid_ix None (MissingCreateAtaInstruction ata)
           | Some i \<Rightarrow>
              let x = ixs ! i in
              if at_mint x \<noteq> mint
              then invalid_ix (Some (at_index x)) (InvalidMintInCreateAtaInstruction mint (at_mint x))
              else if at_owner x \<noteq> sa_user_wallet a
              then invalid_ix (Some (at_index x)) (InvalidOwnerInCreateAtaInstruction (sa_user_wallet a) (at_owner x))
              else if at_token_program x \<noteq> token_program
              then invalid_ix (Some (at_index x))
                     (InvalidTokenProgramInCreateAtaInstruction token_program (at_token_program x))
              else if at_payer x \<noteq> sa_searcher a \<and> at_payer x \<noteq> sa_user_wallet a
              then invalid_ix (Some (at_index x)) (InvalidPayerInCreateAtaInstruction (sa_user_wallet a) (at_payer x))
              else Inr (swap_remove ixs i))"

fun searcher_pays_all :: "pubkey \<Rightarrow> CreateAtaInstructionData list \<Rightarrow> unit rest" where
  "searcher_pays_all searcher [] = Inr ()"
| "searcher_pays_all searcher (x # xs) =
     (if at_payer x \<noteq> searcher
      then invalid_ix (Some (at_index x)) (InvalidPayerInCreateAtaInstruction searcher (at_payer x))
      else searcher_pays_all searcher xs)"

definition create_ata_check ::
  "env \<Rightarrow> SwapAccounts \<Rightarrow> TokenAccountInitializationConfigs \<Rightarrow> CreateAtaInstructionData list \<Rightarrow> unit rest" where
  "create_ata_check env a configs ixs =
     rbind (validate_and_remove_create_user_ata_instruction env a (sa_mint_user a) (sa_token_program_user a)
              (user_ata_mint_user configs) ixs) (\<lambda>ixs.
     rbind (validate_and_remove_create_user_ata_instruction env a (sa_mint_searcher a) (sa_token_program_searcher a)
              (user_ata_mint_searcher configs) ixs) (\<lambda>ixs.
       searcher_pays_all (sa_searcher a) ixs))"

definition check_create_ata_instructions ::
  "env \<Rightarrow> tx \<Rightarrow> SwapAccounts \<Rightarrow> TokenAccountInitializationConfigs \<Rightarrow> ('z caches_scheme, unit) action" where
  "check_create_ata_instructions env t a configs =
     seq (extract_create_ata_instructions env t) (\<lambda>ixs. yields (create_ata_check env a configs ixs))"


subsection \<open>The data of a bid\<close>

definition get_live_opportunity_by_id :: "uuid \<Rightarrow> ('z opp_state_scheme, OpportunitySvm option) action" where
  "get_live_opportunity_by_id i s = (s, Inr (get_in_memory_opportunity_by_id s i))"

definition get_live_opportunities :: "OpportunityKey \<Rightarrow> ('z opp_state_scheme, OpportunitySvm list) action" where
  "get_live_opportunities k s = (s, Inr (get_in_memory_opportunities_by_key s k))"

definition deadline_of :: "i64 \<Rightarrow> time rest" where
  "deadline_of d = ok_or (from_unix_timestamp d) (Fails (BadParameters ''Invalid deadline''))"

definition bid_amount_of :: "QuoteTokens \<Rightarrow> SwapV2Args \<Rightarrow> u64" where
  "bid_amount_of quote_tokens args =
     (case quote_tokens of UserTokenSpecified _ _ \<Rightarrow> amount_searcher args
      | SearcherTokenSpecified _ _ \<Rightarrow> amount_user args)"

definition expected_router_token_account :: "env \<Rightarrow> pubkey \<Rightarrow> BidTransactionDataSwap \<Rightarrow> pubkey" where
  "expected_router_token_account env opp_router d =
     (let a = swap_tx_accounts d;
          (fee_mint, fee_program) = (case fee_token (swap_data d) of
              Searcher \<Rightarrow> (sa_mint_searcher a, sa_token_program_searcher a)
            | User \<Rightarrow> (sa_mint_user a, sa_token_program_user a))
      in associated_token_address env opp_router fee_mint fee_program)"

definition swap_bid_data :: "env \<Rightarrow> OpportunitySvm \<Rightarrow> OpportunitySvmProgramSwap \<Rightarrow> QuoteTokens \<Rightarrow>
    BidTransactionDataSwap \<Rightarrow> time \<Rightarrow> BidDataSvm" where
  "swap_bid_data env opp terms quote_tokens d dl =
     \<lparr>bd_amount = bid_amount_of quote_tokens (swap_data d), bd_router = o_router opp,
      bd_permission_account = get_quote_virtual_permission_account env quote_tokens
        (sa_user_wallet (swap_tx_accounts d)) (sa_router_token_account (swap_tx_accounts d))
        (referral_fee_ppm (swap_data d)),
      bd_deadline = dl, bd_submit_type = ByOther, bd_instruction_index = swap_ix_index d,
      bd_user_wallet_address = Some (sa_user_wallet (swap_tx_accounts d)),
      bd_minimum_deadline = os_minimum_deadline terms\<rparr>"

definition extract_bid_data ::
  "env \<Rightarrow> string \<Rightarrow> time \<Rightarrow> BidChainDataCreateSvm \<Rightarrow> ('z opp_state_scheme, BidDataSvm) action" where
  "extract_bid_data env ch now chain_data =
     (case chain_data of
        OnChain c \<Rightarrow>
          seq (get_bid_transaction_data_submit_bid env (oc_transaction c)) (\<lambda>d.
          seq (yields (deadline_of (sb_deadline (submit_data d)))) (\<lambda>dl.
            yields (Inr \<lparr>bd_amount = bid_amount (submit_data d), bd_router = submit_router d,
              bd_permission_account = submit_permission_account d, bd_deadline = dl,
              bd_submit_type = ByServer, bd_instruction_index = submit_ix_index d,
              bd_user_wallet_address = None,
              bd_minimum_deadline = get_current_time_rounded_with_offset now BID_MINIMUM_LIFE_TIME_SVM_SERVER\<rparr>)))
      | Swap c \<Rightarrow>
          let t = sc_transaction c in
          seq (get_live_opportunity_by_id (sc_opportunity_id c)) (\<lambda>found.
          seq (yields (ok_or found (Fails SwapOpportunityNotFound))) (\<lambda>opp.
          seq (yields (validate_swap_transaction_instructions env t)) (\<lambda>_.
          seq (yields (get_swap_quote_tokens opp)) (\<lambda>quote_tokens.
          seq (yields (get_opportunity_swap_data opp)) (\<lambda>terms.
          seq (check_svm_swap_bid_fields env ch t terms quote_tokens) (\<lambda>_.
          seq (get_bid_transaction_data_swap env ch t) (\<lambda>d.
          seq (yields (check_memo_instructions t (os_memo terms))) (\<lambda>_.
          seq (check_create_ata_instructions env t (swap_tx_accounts d) (os_initialization terms)) (\<lambda>_.
          seq (check_wrap_unwrap_native_token_instructions env t d terms) (\<lambda>_.
          let expected = expected_router_token_account env (o_router opp) d;
              found_account = sa_router_token_account (swap_tx_accounts d) in
          seq (yields (differs expected found_account
                (AssociatedRouterTokenAccountMismatch expected found_account))) (\<lambda>_.
          seq (yields (deadline_of (deadline (swap_data d)))) (\<lambda>dl.
            yields (Inr (swap_bid_data env opp terms quote_tokens d dl)))))))))))))))"


subsection \<open>Signatures\<close>

definition relayer_signer_exists :: "env \<Rightarrow> pubkey list \<Rightarrow> unit rest" where
  "relayer_signer_exists env signers =
     ensure (relayer_pubkey env \<in> set signers) (Fails (RelayerNotSigner (relayer_pubkey env)))"

fun all_signatures_exists ::
  "env \<Rightarrow> u8 list \<Rightarrow> (signature \<times> pubkey) list \<Rightarrow> pubkey list \<Rightarrow> unit rest" where
  "all_signatures_exists env message_bytes [] missing = Inr ()"
| "all_signatures_exists env message_bytes ((sig, pubkey) # xs) missing =
     (if pubkey \<in> set missing then all_signatures_exists env message_bytes xs missing
      else if \<not> verify_signature env sig pubkey message_bytes then Inl (Fails (InvalidSignature pubkey))
      else all_signatures_exists env message_bytes xs missing)"

text \<open>Slicing the first keys panics when there are more signatures than keys.\<close>

definition signers_of :: "tx \<Rightarrow> pubkey list rest" where
  "signers_of t =
     (if length (signatures t) \<le> length (static_account_keys (message t))
      then Inr (take (length (signatures t)) (static_account_keys (message t))) else Inl Panics)"

definition verify_signatures ::
  "env \<Rightarrow> BidCreate \<Rightarrow> VersionedMessage BidChainDataSvm \<Rightarrow> SubmitType \<Rightarrow> ('z opp_state_scheme, unit) action" where
  "verify_signatures env bid chain_data submit_type =
     (let t = cd_transaction chain_data; message_bytes = serialize_message env (message t) in
      seq (yields (signers_of t)) (\<lambda>signers.
        case submit_type of
          InvalidSubmitType \<Rightarrow> fails (BadParameters ''The permission key is not valid for auction anymore'')
        | ByOther \<Rightarrow>
            seq (get_live_opportunities (bc_chain_id bid, get_permission_key chain_data)) (\<lambda>opps.
            seq (yields (case opps of [] \<Rightarrow> Inl (Fails (BadParameters ''Opportunity not found'')) | x # _ \<Rightarrow> Inr x)) (\<lambda>opp.
              yields (
                rbind (case check_fee_payer opp signers (relayer_pubkey env) of
                         Inl e \<Rightarrow> Inl (Fails (InvalidFirstSigner e)) | Inr _ \<Rightarrow> Inr ()) (\<lambda>_.
                rbind (relayer_signer_exists env signers) (\<lambda>_.
                  all_signatures_exists env message_bytes (zip (signatures t) signers)
                    (get_missing_signers opp @ [relayer_pubkey env]))))))
        | ByServer \<Rightarrow>
            yields (rbind (relayer_signer_exists env signers) (\<lambda>_.
              all_signatures_exists env message_bytes (zip (signatures t) signers) [relayer_pubkey env]))))"


subsection \<open>Simulation and compute budget\<close>

text \<open>
  \<open>rpc_simulate\<close> is the RPC node's simulation of a transaction: the error it ended with, if any, and
  its logs. \<open>simulate_attempt n\<close> is the local simulator's answer at the n-th attempt: the slot it
  simulated at, and the logs of a failed transaction. \<open>Inl ()\<close> is an answer that did not come.
\<close>

record simulation =
  rpc_simulate :: "tx \<Rightarrow> unit + (TransactionError option \<times> string)"
  simulate_attempt :: "nat \<Rightarrow> tx \<Rightarrow> unit + (u64 \<times> (string + unit))"

definition simulate_swap_bid :: "simulation \<Rightarrow> BidCreate \<Rightarrow> nat \<Rightarrow> unit rest" where
  "simulate_swap_bid sim bid swap_instruction_index =
     (case rpc_simulate sim (get_transaction (bc_chain_data bid)) of
        Inl _ \<Rightarrow> Inl (Fails TemporarilyUnavailable)
      | Inr (None, _) \<Rightarrow> Inr ()
      | Inr (Some e, logs) \<Rightarrow>
         (case e of
            InstructionError index err \<Rightarrow>
              if unat index = swap_instruction_index \<and> err = Custom (error_number InsufficientUserFunds)
              then Inr () else Inl (Fails (SimulationError logs))
          | _ \<Rightarrow> Inl (Fails (SimulationError logs))))"

definition RETRY_LIMIT :: nat where
  "RETRY_LIMIT = 5"

function simulate_loop :: "(nat \<Rightarrow> unit + (u64 \<times> (string + unit))) \<Rightarrow> u64 \<Rightarrow> nat \<Rightarrow> unit rest" where
  "simulate_loop attempt bid_slot retry_count =
     (case attempt retry_count of
        Inl _ \<Rightarrow> Inl (Fails TemporarilyUnavailable)
      | Inr (slot, Inr _) \<Rightarrow> Inr ()
      | Inr (slot, Inl logs) \<Rightarrow>
         if slot < bid_slot \<and> retry_count < RETRY_LIMIT
         then simulate_loop attempt bid_slot (retry_count + 1)
         else Inl (Fails (SimulationError logs)))"
  by pat_completeness auto
termination by (relation "measure (\<lambda>(attempt, bid_slot, n). RETRY_LIMIT - n)") auto

declare simulate_loop.simps [simp del]

definition simulate_bid :: "simulation \<Rightarrow> BidCreate \<Rightarrow> unit rest" where
  "simulate_bid sim bid =
     simulate_loop (\<lambda>n. simulate_attempt sim n (get_transaction (bc_chain_data bid)))
       (case bc_chain_data bid of OnChain c \<Rightarrow> (case oc_slot c of Some x \<Rightarrow> x | None \<Rightarrow> 0) | Swap _ \<Rightarrow> 0) 0"

definition least_fee :: "PrioritizationFeeSample list \<Rightarrow> u64" where
  "least_fee samples = (case map fee samples of [] \<Rightarrow> 0 | f # fs \<Rightarrow> fold min fs f)"

definition check_compute_budget :: "env \<Rightarrow> time \<Rightarrow> tx \<Rightarrow> ('z caches_scheme, unit) action" where
  "check_compute_budget env now t s =
     (let compute_unit_price = least_fee (get_priority_fees (auction_repo s) (now - seconds 15))
      in (s, rbind (extract_program_instructions t COMPUTE_BUDGET) (\<lambda>ixs.
           let budgets = List.map_filter (\<lambda>(i, ix). set_compute_unit_price env (ci_data ix)) ixs
           in if length budgets > 1 then Inl (Fails MultipleSetComputeUnitPriceInstructions)
              else case budgets of
                     [] \<Rightarrow> if compute_unit_price > 0
                           then Inl (Fails (SetComputeUnitPriceInstructionNotFound compute_unit_price)) else Inr ()
                   | budget # _ \<Rightarrow> if budget < compute_unit_price
                           then Inl (Fails (LowComputeUnitPrice compute_unit_price)) else Inr ())))"

definition PACKET_DATA_SIZE :: nat where
  "PACKET_DATA_SIZE = 1232"

definition check_tx_size :: "env \<Rightarrow> tx \<Rightarrow> unit rest" where
  "check_tx_size env t =
     (if serialized_size env t > PACKET_DATA_SIZE
      then Inl (Fails (TransactionSizeTooLarge (of_nat (serialized_size env t)) PACKET_DATA_SIZE)) else Inr ())"


subsection \<open>Verifying a bid\<close>

text \<open>The clock is read three times: for recent fees, the minimum deadline and the maximum deadline.\<close>

record clock_readings =
  at_budget :: time
  at_extract :: time
  at_deadline :: time

definition verify_bid ::
  "env \<Rightarrow> string \<Rightarrow> simulation \<Rightarrow> clock_readings \<Rightarrow> BidCreate \<Rightarrow>
   ('z opp_state_scheme, VersionedMessage BidChainDataSvm \<times> u64) action" where
  "verify_bid env ch sim clk bid =
     (let t = get_transaction (bc_chain_data bid) in
      seq (yields (check_tx_size env t)) (\<lambda>_.
      seq (check_compute_budget env (at_budget clk) t) (\<lambda>_.
      seq (extract_bid_data env ch (at_extract clk) (bc_chain_data bid)) (\<lambda>d.
      seq (yields (case bd_submit_type d of
             ByServer \<Rightarrow> Inr SubmitBidPayment
           | ByOther \<Rightarrow> Inr SwapPayment
           | InvalidSubmitType \<Rightarrow> Inl (Fails (BadParameters ''Invalid submit type for bid'')))) (\<lambda>ty.
      let c = \<lparr>cd_transaction = t, bid_payment_instruction_type = ty, cd_router = bd_router d,
               cd_permission_account = bd_permission_account d\<rparr>;
          max_deadline = get_current_time_rounded_with_offset (at_deadline clk) BID_MAXIMUM_LIFE_TIME_SVM in
      seq (yields (ensure (\<not> bd_deadline d < bd_minimum_deadline d)
             (Fails (InvalidDeadline (bd_deadline d) (bd_minimum_deadline d))))) (\<lambda>_.
      seq (yields (ensure (\<not> bd_deadline d > max_deadline)
             (Fails (DeadlineTooLate (bd_deadline d) max_deadline)))) (\<lambda>_.
      seq (verify_signatures env bid c (bd_submit_type d)) (\<lambda>_.
      seq (yields (case ty of
             SwapPayment \<Rightarrow>
               if case bd_user_wallet_address d of Some w \<Rightarrow> is_indicative_price_taker w | None \<Rightarrow> False
               then Inr () else simulate_swap_bid sim bid (bd_instruction_index d)
           | SubmitBidPayment \<Rightarrow> simulate_bid sim bid)) (\<lambda>_ s.
        if \<exists>b\<in>set (get_in_memory_pending_bids_by_permission_key (auction_repo s) (get_permission_key c)). same_bid bid b
        then (s, Inl (Fails DuplicateBid)) else (s, Inr (c, bd_amount d)))))))))))"


subsection \<open>What an action guarantees\<close>

definition guarantees :: "('s \<Rightarrow> bool) \<Rightarrow> ('s, 'a) action \<Rightarrow> ('a \<Rightarrow> bool) \<Rightarrow> bool" where
  "guarantees ok m Q \<longleftrightarrow> (\<forall>s. ok s \<longrightarrow> ok (fst (m s)) \<and> (\<forall>y. snd (m s) = Inr y \<longrightarrow> Q y))"

lemma guarantees_answers: "answers ok m r \<Longrightarrow> (\<And>y. r = Inr y \<Longrightarrow> Q y) \<Longrightarrow> guarantees ok m Q"
  by (simp add: guarantees_def answers_def)

lemma guarantees_yields: "(\<And>y. r = Inr y \<Longrightarrow> Q y) \<Longrightarrow> guarantees ok (yields r) Q"
  by (simp add: guarantees_def yields_def)

lemma guarantees_fails: "guarantees ok (fails e) Q"
  by (simp add: guarantees_def fails_def)

lemma guarantees_seq:
  assumes "guarantees ok m P" and "\<And>x. P x \<Longrightarrow> guarantees ok (f x) Q"
  shows "guarantees ok (seq m f) Q"
  unfolding guarantees_def
proof (intro allI impI)
  fix s
  assume "ok s"
  obtain s' y where m: "m s = (s', y)" by fastforce
  show "ok (fst (seq m f s)) \<and> (\<forall>y. snd (seq m f s) = Inr y \<longrightarrow> Q y)"
  proof (cases y)
    case (Inl e)
    with assms(1) \<open>ok s\<close> m show ?thesis by (auto simp: guarantees_def seq_def)
  next
    case (Inr x)
    with assms(1) \<open>ok s\<close> m have "ok s'" "P x" by (auto simp: guarantees_def)
    with assms(2) m Inr show ?thesis by (simp add: guarantees_def seq_def)
  qed
qed

lemma guarantees_pure: "guarantees ok m P \<Longrightarrow> guarantees ok (seq m (\<lambda>x. yields (g x))) (\<lambda>y. \<exists>x. P x \<and> g x = Inr y)"
  by (erule guarantees_seq) (auto intro: guarantees_yields)

lemma guarantees_each:
  assumes "\<And>x. x \<in> set xs \<Longrightarrow> guarantees ok (f x) (R x)"
  shows "guarantees ok (each f xs) (list_all2 R xs)"
  using assms
proof (induction xs)
  case (Cons x xs)
  have "guarantees ok (f x) (R x)" "guarantees ok (each f xs) (list_all2 R xs)"
    using Cons by simp_all
  then show ?case
    by (auto intro!: guarantees_seq [where P = "R x"] guarantees_seq [where P = "list_all2 R xs"] guarantees_yields)
qed (auto intro: guarantees_yields)

lemma guarantees_weaken: "guarantees ok m P \<Longrightarrow> (\<And>x. P x \<Longrightarrow> Q x) \<Longrightarrow> guarantees ok m Q"
  by (simp add: guarantees_def)

lemma guaranteesD: "guarantees ok m Q \<Longrightarrow> ok s \<Longrightarrow> m s = (s', Inr y) \<Longrightarrow> ok s' \<and> Q y"
  unfolding guarantees_def by (metis fst_conv snd_conv)

named_theorems guarantee_intros

lemma yields_seq [guarantee_intros]:
  "(\<And>x. r = Inr x \<Longrightarrow> guarantees ok (f x) Q) \<Longrightarrow> guarantees ok (seq (yields r) f) Q"
  by (rule guarantees_seq [where P = "\<lambda>x. r = Inr x"]) (auto intro: guarantees_yields)

lemma account_seq [guarantee_intros]:
  "(\<And>a. account_at env t ix pos = Inr a \<Longrightarrow> guarantees (caches_at env ch z) (f a) Q) \<Longrightarrow>
     guarantees (caches_at env ch z) (seq (extract_account env t ix pos) f) Q"
  by (rule guarantees_seq [where P = "\<lambda>a. account_at env t ix pos = Inr a"])
    (auto intro: guarantees_answers [OF extract_account_answers])

lemma swap_data_seq [guarantee_intros]:
  "(\<And>d. swap_transaction_data env ch t = Inr d \<Longrightarrow> guarantees (caches_at env ch z) (f d) Q) \<Longrightarrow>
     guarantees (caches_at env ch z) (seq (get_bid_transaction_data_swap env ch t) f) Q"
  by (rule guarantees_seq [where P = "\<lambda>d. swap_transaction_data env ch t = Inr d"])
    (auto intro: guarantees_answers [OF get_bid_transaction_data_swap_answers])

lemmas guarantee_ends [guarantee_intros] = guarantees_yields guarantees_fails

definition instructions_of :: "tx \<Rightarrow> pubkey \<Rightarrow> (nat \<times> CompiledInstruction) list" where
  "instructions_of t program = filter (\<lambda>(i, ix). program_of t ix = program) (List.enumerate 0 (instructions (message t)))"

lemma program_instructions_Inr:
  "extract_program_instructions t program = Inr ixs \<longleftrightarrow> programs_in_range t \<and> ixs = instructions_of t program"
  by (auto simp: extract_program_instructions_eq instructions_of_def)

lemma instructions_of_iff:
  "(i, ix) \<in> set (instructions_of t program) \<longleftrightarrow>
     i < length (instructions (message t)) \<and> ix = instructions (message t) ! i \<and> program_of t ix = program"
  by (auto simp: instructions_of_def in_set_enumerate_eq)


subsection \<open>What each check establishes\<close>

lemma invalid_ix_Inr [simp]: "invalid_ix i e \<noteq> Inr x"
  by (simp add: invalid_ix_def)

lemma rbind_invalid_ix [simp]: "rbind (invalid_ix i e) f = invalid_ix i e"
  by (simp add: invalid_ix_def)

text \<open>The transfers of an accepted swap: none, or one that wraps quoted SOL of the user or SOL of the searcher.\<close>

definition transfer_of :: "env \<Rightarrow> tx \<Rightarrow> nat \<times> CompiledInstruction \<Rightarrow> TransferInstructionData \<Rightarrow> bool" where
  "transfer_of env t p x \<longleftrightarrow> (case p of (i, ix) \<Rightarrow>
     ti_index x = i \<and> system_transfer env (ci_data ix) = Some (ti_lamports x) \<and>
     account_at env t ix 0 = Inr (ti_from x) \<and> account_at env t ix 1 = Inr (ti_to x))"

lemma transfers_guarantee:
  "guarantees (caches_at env ch z) (extract_transfer_instructions env t)
     (list_all2 (transfer_of env t)
       (filter (\<lambda>(i, ix). system_transfer env (ci_data ix) \<noteq> None) (instructions_of t SYSTEM_PROGRAM)))"
  unfolding extract_transfer_instructions_def
proof (rule yields_seq)
  fix ixs
  assume "extract_program_instructions t SYSTEM_PROGRAM = Inr ixs"
  then have ixs: "ixs = instructions_of t SYSTEM_PROGRAM" by (simp add: program_instructions_Inr)
  have one: "guarantees (caches_at env ch z) (case system_transfer env (ci_data ix) of
         None \<Rightarrow> fails (BadParameters ''Invalid sol transfer instruction data'')
       | Some amount \<Rightarrow>
           seq (extract_account env t ix 0) (\<lambda>from_account.
           seq (extract_account env t ix 1) (\<lambda>to_account.
             yields (Inr \<lparr>ti_index = i, ti_from = from_account, ti_to = to_account, ti_lamports = amount\<rparr>))))
     (transfer_of env t (i, ix))" for i ix
    by (cases "system_transfer env (ci_data ix)")
      (auto intro!: guarantee_intros simp: transfer_of_def)
  show "guarantees (caches_at env ch z) (each (\<lambda>(index, ix).
         case system_transfer env (ci_data ix) of
           None \<Rightarrow> fails (BadParameters ''Invalid sol transfer instruction data'')
         | Some amount \<Rightarrow>
             seq (extract_account env t ix 0) (\<lambda>from_account.
             seq (extract_account env t ix 1) (\<lambda>to_account.
               yields (Inr \<lparr>ti_index = index, ti_from = from_account, ti_to = to_account, ti_lamports = amount\<rparr>))))
        (filter (\<lambda>(index, ix). system_transfer env (ci_data ix) \<noteq> None) ixs))
     (list_all2 (transfer_of env t)
       (filter (\<lambda>(i, ix). system_transfer env (ci_data ix) \<noteq> None) (instructions_of t SYSTEM_PROGRAM)))"
    unfolding ixs by (rule guarantees_each) (auto intro: one)
qed


definition transfer_quoted ::
  "env \<Rightarrow> BidTransactionDataSwap \<Rightarrow> OpportunitySvmProgramSwap \<Rightarrow> TransferInstructionData \<Rightarrow> bool" where
  "transfer_quoted env d terms x \<longleftrightarrow>
     (let a = swap_tx_accounts d in
       sa_mint_user a = NATIVE_MINT \<and> ti_from x = sa_user_wallet a \<and> ti_to x = native_ata env (sa_user_wallet a) \<and>
         ti_lamports x \<in> {amount_user (swap_data d), get_user_amount_to_wrap env terms (amount_user (swap_data d))} \<or>
       sa_mint_user a \<noteq> NATIVE_MINT \<and> sa_mint_searcher a = NATIVE_MINT \<and> ti_from x = sa_searcher a \<and>
         ti_to x = native_ata env (sa_searcher a))"

definition transfer_instructions :: "env \<Rightarrow> tx \<Rightarrow> (nat \<times> CompiledInstruction) list" where
  "transfer_instructions env t =
     filter (\<lambda>(i, ix). system_transfer env (ci_data ix) \<noteq> None) (instructions_of t SYSTEM_PROGRAM)"

definition transfers_quoted :: "env \<Rightarrow> tx \<Rightarrow> BidTransactionDataSwap \<Rightarrow> OpportunitySvmProgramSwap \<Rightarrow> bool" where
  "transfers_quoted env t d terms \<longleftrightarrow>
     (\<exists>xs. list_all2 (transfer_of env t) (transfer_instructions env t) xs \<and> length xs \<le> 1 \<and>
        (\<forall>x\<in>set xs. transfer_quoted env d terms x))"

lemma transfer_check_Inr:
  assumes "transfer_check env d terms xs = Inr u"
  shows "length xs \<le> 1 \<and> (\<forall>x\<in>set xs. transfer_quoted env d terms x)"
proof -
  from assms have "xs = [] \<or> (\<exists>x. xs = [x] \<and> transfer_quoted env d terms x)"
    unfolding transfer_check_def transfer_quoted_def Let_def by (auto split: if_splits list.splits)
  then show ?thesis by auto
qed

lemma check_transfer_guarantee:
  "guarantees (caches_at env ch z) (check_transfer_instruction env t d terms) (\<lambda>_. transfers_quoted env t d terms)"
  unfolding check_transfer_instruction_def
proof (rule guarantees_weaken [OF guarantees_pure [OF transfers_guarantee]])
  fix u
  assume "\<exists>xs. list_all2 (transfer_of env t)
        (filter (\<lambda>(i, ix). system_transfer env (ci_data ix) \<noteq> None) (instructions_of t SYSTEM_PROGRAM)) xs \<and>
      transfer_check env d terms xs = Inr u"
  with transfer_check_Inr show "transfers_quoted env t d terms"
    unfolding transfers_quoted_def transfer_instructions_def by blast
qed

text \<open>
  The accounts an accepted swap closes: the wrapped-SOL accounts of user and searcher, and only when
  SOL is traded; the user's is closed to the user.
\<close>

definition close_instructions :: "env \<Rightarrow> tx \<Rightarrow> (nat \<times> CompiledInstruction) list" where
  "close_instructions env t =
     filter (\<lambda>(i, ix). unpack_token_instruction env (ci_data ix) = Some CloseAccount) (instructions_of t SPL_TOKEN)"

definition close_of :: "env \<Rightarrow> tx \<Rightarrow> nat \<times> CompiledInstruction \<Rightarrow> CloseAccountInstructionData \<Rightarrow> bool" where
  "close_of env t p x \<longleftrightarrow> (case p of (i, ix) \<Rightarrow>
     cl_index x = i \<and> account_at env t ix 0 = Inr (cl_account x) \<and>
     account_at env t ix 1 = Inr (cl_destination x) \<and> account_at env t ix 2 = Inr (cl_owner x))"

definition close_quoted :: "env \<Rightarrow> SwapAccounts \<Rightarrow> CloseAccountInstructionData \<Rightarrow> bool" where
  "close_quoted env a x \<longleftrightarrow>
     (sa_mint_searcher a = NATIVE_MINT \<or> sa_mint_user a = NATIVE_MINT) \<and>
     (cl_account x = native_ata env (sa_user_wallet a) \<and> cl_destination x = sa_user_wallet a \<and>
        cl_owner x = sa_user_wallet a \<or>
      cl_account x \<noteq> native_ata env (sa_user_wallet a) \<and> cl_account x = native_ata env (sa_searcher a))"

definition closes_quoted :: "env \<Rightarrow> tx \<Rightarrow> SwapAccounts \<Rightarrow> bool" where
  "closes_quoted env t a \<longleftrightarrow>
     (\<exists>xs. list_all2 (close_of env t) (close_instructions env t) xs \<and> (\<forall>x\<in>set xs. close_quoted env a x))"

lemma closes_guarantee:
  "guarantees (caches_at env ch z) (extract_close_account_instructions env t)
     (list_all2 (close_of env t) (close_instructions env t))"
  unfolding extract_close_account_instructions_def
proof (rule yields_seq)
  fix ixs
  assume "extract_program_instructions t SPL_TOKEN = Inr ixs"
  then have ixs: "ixs = instructions_of t SPL_TOKEN" by (simp add: program_instructions_Inr)
  show "guarantees (caches_at env ch z) (each (\<lambda>(index, ix).
           seq (extract_account env t ix 0) (\<lambda>account.
           seq (extract_account env t ix 1) (\<lambda>destination.
           seq (extract_account env t ix 2) (\<lambda>owner.
             yields (Inr \<lparr>cl_index = index, cl_account = account, cl_destination = destination, cl_owner = owner\<rparr>)))))
        (filter (\<lambda>(index, ix). unpack_token_instruction env (ci_data ix) = Some CloseAccount) ixs))
      (list_all2 (close_of env t) (close_instructions env t))"
    unfolding ixs close_instructions_def
    by (rule guarantees_each) (auto intro!: guarantee_intros simp: close_of_def)
qed

lemma close_check_Inr:
  assumes "close_check env a xs = Inr u" and "x \<in> set xs"
  shows "close_quoted env a x"
proof -
  let ?ua = "native_ata env (sa_user_wallet a)" and ?sa = "native_ata env (sa_searcher a)"
  let ?user = "filter (\<lambda>x. cl_account x = ?ua) xs" and ?other = "filter (\<lambda>x. cl_account x \<noteq> ?ua) xs"
  let ?searcher = "filter (\<lambda>x. cl_account x = ?sa) ?other" and ?rest = "filter (\<lambda>x. cl_account x \<noteq> ?sa) ?other"
  from assms(1) have rest: "?rest = []"
    unfolding close_check_def Let_def by (cases ?rest) simp_all
  with assms(2) have side: "cl_account x = ?ua \<or> cl_account x \<noteq> ?ua \<and> cl_account x = ?sa"
    by (auto simp: filter_empty_conv)
  from assms(1) rest have native: "sa_mint_searcher a = NATIVE_MINT \<or> sa_mint_user a = NATIVE_MINT"
    if "?user \<noteq> [] \<or> ?searcher \<noteq> []"
    using that unfolding close_check_def Let_def by (auto split: if_splits)
  from side assms(2) have ne: "?user \<noteq> [] \<or> ?searcher \<noteq> []" by (auto simp: filter_empty_conv)
  have user: "cl_destination y = sa_user_wallet a \<and> cl_owner y = sa_user_wallet a \<and> ys = []" if "?user = y # ys" for y ys
    using assms(1) rest native [OF ne] that unfolding close_check_def Let_def by (auto split: if_splits)
  show ?thesis
  proof (cases "cl_account x = ?ua")
    case True
    with assms(2) have "x \<in> set ?user" by simp
    with user obtain "cl_destination x = sa_user_wallet a" "cl_owner x = sa_user_wallet a"
      by (cases ?user) auto
    with True native [OF ne] show ?thesis by (simp add: close_quoted_def)
  qed (use side native [OF ne] in \<open>simp add: close_quoted_def\<close>)
qed

lemma check_close_guarantee:
  "guarantees (caches_at env ch z) (check_close_account_instruction env t a) (\<lambda>_. closes_quoted env t a)"
  unfolding check_close_account_instruction_def
  by (rule guarantees_weaken [OF guarantees_pure [OF closes_guarantee]])
    (unfold closes_quoted_def, blast dest: close_check_Inr)


text \<open>The token accounts an accepted swap creates: the searcher pays, or the user for its own quoted ones.\<close>

definition create_ata_instructions :: "env \<Rightarrow> tx \<Rightarrow> (nat \<times> CompiledInstruction) list" where
  "create_ata_instructions env t =
     filter (\<lambda>(i, ix). is_create_ata env ix) (instructions_of t SPL_ASSOCIATED_TOKEN_ACCOUNT)"

definition create_ata_of :: "env \<Rightarrow> tx \<Rightarrow> nat \<times> CompiledInstruction \<Rightarrow> CreateAtaInstructionData \<Rightarrow> bool" where
  "create_ata_of env t p x \<longleftrightarrow> (case p of (i, ix) \<Rightarrow>
     at_index x = i \<and> account_at env t ix 0 = Inr (at_payer x) \<and> account_at env t ix 1 = Inr (at_ata x) \<and>
     account_at env t ix 2 = Inr (at_owner x) \<and> account_at env t ix 3 = Inr (at_mint x) \<and>
     account_at env t ix 5 = Inr (at_token_program x))"

definition user_ata_quoted ::
  "env \<Rightarrow> SwapAccounts \<Rightarrow> pubkey \<Rightarrow> pubkey \<Rightarrow> TokenAccountInitializationConfig \<Rightarrow> CreateAtaInstructionData \<Rightarrow> bool" where
  "user_ata_quoted env a mint token_program config x \<longleftrightarrow>
     config = UserPayer \<and> at_ata x = associated_token_address env (sa_user_wallet a) mint token_program \<and>
     at_mint x = mint \<and> at_owner x = sa_user_wallet a \<and> at_token_program x = token_program \<and>
     at_payer x \<in> {sa_searcher a, sa_user_wallet a}"

definition create_ata_quoted ::
  "env \<Rightarrow> SwapAccounts \<Rightarrow> TokenAccountInitializationConfigs \<Rightarrow> CreateAtaInstructionData \<Rightarrow> bool" where
  "create_ata_quoted env a configs x \<longleftrightarrow>
     at_payer x = sa_searcher a \<or>
     user_ata_quoted env a (sa_mint_user a) (sa_token_program_user a) (user_ata_mint_user configs) x \<or>
     user_ata_quoted env a (sa_mint_searcher a) (sa_token_program_searcher a) (user_ata_mint_searcher configs) x"

definition create_atas_quoted :: "env \<Rightarrow> tx \<Rightarrow> SwapAccounts \<Rightarrow> TokenAccountInitializationConfigs \<Rightarrow> bool" where
  "create_atas_quoted env t a configs \<longleftrightarrow>
     (\<exists>xs. list_all2 (create_ata_of env t) (create_ata_instructions env t) xs \<and>
        (\<forall>x\<in>set xs. create_ata_quoted env a configs x))"

lemma create_atas_guarantee:
  "guarantees (caches_at env ch z) (extract_create_ata_instructions env t)
     (list_all2 (create_ata_of env t) (create_ata_instructions env t))"
  unfolding extract_create_ata_instructions_def
proof (rule yields_seq)
  fix ixs
  assume "extract_program_instructions t SPL_ASSOCIATED_TOKEN_ACCOUNT = Inr ixs"
  then have ixs: "ixs = instructions_of t SPL_ASSOCIATED_TOKEN_ACCOUNT" by (simp add: program_instructions_Inr)
  show "guarantees (caches_at env ch z) (each (\<lambda>(index, ix).
           seq (extract_account env t ix 0) (\<lambda>payer.
           seq (extract_account env t ix 1) (\<lambda>ata.
           seq (extract_account env t ix 2) (\<lambda>owner.
           seq (extract_account env t ix 3) (\<lambda>mint.
           seq (extract_account env t ix 4) (\<lambda>system_program.
           seq (extract_account env t ix 5) (\<lambda>token_program.
             yields (if system_program \<noteq> SYSTEM_PROGRAM
               then invalid_ix (Some index) (InvalidSystemProgramInCreateAtaInstruction system_program)
               else Inr \<lparr>at_index = index, at_payer = payer, at_ata = ata, at_owner = owner, at_mint = mint,
                          at_token_program = token_program\<rparr>))))))))
        (filter (\<lambda>(index, ix). is_create_ata env ix) ixs))
      (list_all2 (create_ata_of env t) (create_ata_instructions env t))"
    unfolding ixs create_ata_instructions_def
    by (rule guarantees_each) (auto intro!: guarantee_intros simp: create_ata_of_def split: if_splits)
qed

lemma set_swap_remove:
  assumes "i < length xs" and "x \<in> set xs" and "x \<noteq> xs ! i"
  shows "x \<in> set (swap_remove xs i)"
proof -
  from assms(1) have ne: "xs \<noteq> []" by auto
  from assms(2) obtain j where j: "j < length xs" "xs ! j = x" by (auto simp: in_set_conv_nth)
  with assms(3) have ji: "j \<noteq> i" by auto
  show ?thesis
  proof (cases "j = length xs - 1")
    case True
    with j ne have "x = last xs" by (simp add: last_conv_nth)
    moreover have "i < length xs - 1" using True ji assms(1) by linarith
    ultimately have "swap_remove xs i ! i = x" "i < length (swap_remove xs i)"
      by (simp_all add: swap_remove_def nth_butlast)
    then show ?thesis by (metis nth_mem)
  next
    case False
    then have "j < length (swap_remove xs i)" using j by (simp add: swap_remove_def)
    moreover from this have "swap_remove xs i ! j = x" using j ji by (simp add: swap_remove_def nth_butlast)
    ultimately show ?thesis by (metis nth_mem)
  qed
qed

lemma validate_and_remove_Inr:
  assumes "validate_and_remove_create_user_ata_instruction env a mint token_program config xs = Inr ys"
    and "x \<in> set xs"
  shows "x \<in> set ys \<or> user_ata_quoted env a mint token_program config x"
proof (cases "config = UserPayer")
  case True
  let ?p = "\<lambda>x. at_ata x = associated_token_address env (sa_user_wallet a) mint token_program"
  show ?thesis
  proof (cases "position ?p xs")
    case None
    with assms(1) True show ?thesis
      by (simp add: validate_and_remove_create_user_ata_instruction_def Let_def)
  next
    case (Some i)
    from assms(1) True Some have ys: "ys = swap_remove xs i" and q: "user_ata_quoted env a mint token_program config (xs ! i)"
      using position_Some(2) [OF Some]
      by (auto simp: validate_and_remove_create_user_ata_instruction_def Let_def user_ata_quoted_def split: if_splits)
    with set_swap_remove [OF position_Some(1) [OF Some] assms(2)] show ?thesis by blast
  qed
qed (use assms in \<open>simp add: validate_and_remove_create_user_ata_instruction_def\<close>)

lemma searcher_pays_all_Inr: "searcher_pays_all searcher xs = Inr u \<Longrightarrow> x \<in> set xs \<Longrightarrow> at_payer x = searcher"
  by (induction xs) (auto split: if_splits)

lemma create_ata_check_Inr:
  assumes "create_ata_check env a configs xs = Inr u" and "x \<in> set xs"
  shows "create_ata_quoted env a configs x"
proof -
  from assms(1) obtain ys zs where
    "validate_and_remove_create_user_ata_instruction env a (sa_mint_user a) (sa_token_program_user a)
       (user_ata_mint_user configs) xs = Inr ys"
    "validate_and_remove_create_user_ata_instruction env a (sa_mint_searcher a) (sa_token_program_searcher a)
       (user_ata_mint_searcher configs) ys = Inr zs"
    "searcher_pays_all (sa_searcher a) zs = Inr u"
    by (auto simp: create_ata_check_def rbind_Inr_iff)
  with validate_and_remove_Inr assms(2) searcher_pays_all_Inr show ?thesis
    unfolding create_ata_quoted_def by metis
qed

lemma check_create_atas_guarantee:
  "guarantees (caches_at env ch z) (check_create_ata_instructions env t a configs)
     (\<lambda>_. create_atas_quoted env t a configs)"
  unfolding check_create_ata_instructions_def
  by (rule guarantees_weaken [OF guarantees_pure [OF create_atas_guarantee]])
    (unfold create_atas_quoted_def, blast dest: create_ata_check_Inr)


text \<open>The terms of a quote, and the instructions a swap may consist of.\<close>

definition terms_met :: "OpportunitySvmProgramSwap \<Rightarrow> QuoteTokens \<Rightarrow> BidTransactionDataSwap \<Rightarrow> bool" where
  "terms_met terms tokens d \<longleftrightarrow>
     (let a = swap_tx_accounts d; s = swap_data d in
       sa_user_wallet a = os_user_wallet_address terms \<and>
       (case tokens of
          UserTokenSpecified u m \<Rightarrow> sa_mint_user a = ta_token u \<and> amount_user s = ta_amount u \<and> sa_mint_searcher a = m
        | SearcherTokenSpecified m u \<Rightarrow>
            sa_mint_user a = m \<and> sa_mint_searcher a = ta_token u \<and> amount_searcher s = ta_amount u) \<and>
       sa_token_program_searcher a = os_token_program_searcher terms \<and>
       sa_token_program_user a = os_token_program_user terms \<and>
       fee_token s = program_fee_token (os_fee_token terms) \<and>
       referral_fee_ppm s = os_referral_fee_ppm terms \<and> swap_platform_fee_ppm s = os_platform_fee_ppm terms)"

definition instruction_allowed :: "env \<Rightarrow> tx \<Rightarrow> CompiledInstruction \<Rightarrow> bool" where
  "instruction_allowed env t ix \<longleftrightarrow>
     (let p = program_of t ix in
       p = SYSTEM_PROGRAM \<and> system_transfer env (ci_data ix) \<noteq> None \<or>
       p = SPL_TOKEN \<and> unpack_token_instruction env (ci_data ix) \<in> {Some CloseAccount, Some SyncNative} \<or>
       p = SPL_ASSOCIATED_TOKEN_ACCOUNT \<and> is_create_ata env ix \<or>
       p \<in> {express_relay_program env, SPL_MEMO, COMPUTE_BUDGET})"

lemma differs_Inr [simp]: "differs x y e = Inr u \<longleftrightarrow> x = y"
  by (simp add: differs_def ensure_Inr_iff)

lemma swap_fields_check_Inr: "swap_fields_check terms tokens d = Inr u \<longleftrightarrow> terms_met terms tokens d"
  unfolding swap_fields_check_def terms_met_def Let_def
  by (cases tokens) (auto simp: rbind_Inr_iff)

lemma check_fields_guarantee:
  "guarantees (caches_at env ch z) (check_svm_swap_bid_fields env ch t terms tokens)
     (\<lambda>_. \<exists>d. swap_transaction_data env ch t = Inr d \<and> terms_met terms tokens d)"
  unfolding check_svm_swap_bid_fields_def
  by (intro guarantee_intros) (auto simp: swap_fields_check_Inr)

lemma each_rest_Inr_all: "each_rest f xs = Inr ys \<Longrightarrow> x \<in> set xs \<Longrightarrow> \<exists>y. f x = Inr y"
  by (induction xs arbitrary: ys) (auto simp: rbind_Inr_iff)

lemma validate_instruction_Inr:
  assumes "validate_swap_transaction_instruction env (program_of t ix) ix = Inr u"
  shows "instruction_allowed env t ix"
  using assms
  unfolding validate_swap_transaction_instruction_def instruction_allowed_def Let_def is_create_ata_def
  by (auto split: if_splits option.splits TokenInstruction.splits AssociatedTokenAccountInstruction.splits)

lemma validate_instructions_Inr:
  assumes "validate_swap_transaction_instructions env t = Inr u" and "ix \<in> set (instructions (message t))"
  shows "instruction_allowed env t ix"
proof -
  from assms(2) obtain i where mem: "(i, ix) \<in> set (List.enumerate 0 (instructions (message t)))"
    using set_snd_enumerate [of 0 "instructions (message t)"] by force
  from assms(1) obtain ys where
    "each_rest (validate_at env t) (List.enumerate 0 (instructions (message t))) = Inr ys"
    unfolding validate_swap_transaction_instructions_def rbind_Inr_iff by blast
  from each_rest_Inr_all [OF this mem] obtain y where "validate_at env t (i, ix) = Inr y" ..
  then obtain p where "ix_program_id_of t ix = Inr p"
    and v: "(case validate_swap_transaction_instruction env p ix of
        Inl e \<Rightarrow> Inl (Fails (InvalidInstruction (Some i) e)) | Inr _ \<Rightarrow> Inr ()) = (Inr y :: unit rest)"
    unfolding validate_at.simps rbind_Inr_iff by blast
  then have "p = program_of t ix" by (simp add: ix_program_id_of_def ok_or_Inr_iff nth_opt_Some_iff program_of_def)
  with v show ?thesis
    by (cases "validate_swap_transaction_instruction env p ix") (auto intro: validate_instruction_Inr)
qed

lemma wrap_unwrap_guarantee:
  "guarantees (caches_at env ch z) (check_wrap_unwrap_native_token_instructions env t d terms)
     (\<lambda>_. transfers_quoted env t d terms \<and> closes_quoted env t (swap_tx_accounts d))"
proof -
  have sync: "guarantees (caches_at env ch z) (check_sync_native_instruction_exists env t w) (\<lambda>_. True)" for w
    unfolding check_sync_native_instruction_exists_def
    by (intro guarantee_intros guarantees_seq [where P = "\<lambda>_. True"]
        guarantees_weaken [OF guarantees_each [where R = "\<lambda>_ _. True"]] guarantees_answers [OF extract_account_answers])
      simp_all
  show ?thesis
    unfolding check_wrap_unwrap_native_token_instructions_def
    by (rule guarantees_seq [OF check_transfer_guarantee], rule guarantees_seq [where P = "\<lambda>_. True"])
      (auto intro: sync guarantees_yields guarantees_weaken [OF check_close_guarantee])
qed



subsection \<open>What an accepted bid is\<close>

text \<open>All that acceptance of a swap says about its transaction \<open>t\<close>, decoded as \<open>d\<close>.\<close>

definition swap_safe :: "env \<Rightarrow> tx \<Rightarrow> OpportunitySvmProgramSwap \<Rightarrow> BidTransactionDataSwap \<Rightarrow> bool" where
  "swap_safe env t terms d \<longleftrightarrow>
     (\<forall>ix\<in>set (instructions (message t)). instruction_allowed env t ix) \<and>
     transfers_quoted env t d terms \<and> closes_quoted env t (swap_tx_accounts d) \<and>
     create_atas_quoted env t (swap_tx_accounts d) (os_initialization terms)"

definition swap_bid_ok :: "env \<Rightarrow> string \<Rightarrow> BidChainDataSwapCreateSvm \<Rightarrow> OpportunitySvm option \<Rightarrow> BidDataSvm \<Rightarrow> bool" where
  "swap_bid_ok env ch sc found b \<longleftrightarrow>
     (\<exists>opp terms tokens d. found = Some opp \<and> o_program opp = SwapProgram terms \<and>
        get_swap_quote_tokens opp = Inr tokens \<and> swap_transaction_data env ch (sc_transaction sc) = Inr d \<and>
        terms_met terms tokens d \<and> swap_safe env (sc_transaction sc) terms d \<and>
        sa_router_token_account (swap_tx_accounts d) = expected_router_token_account env (o_router opp) d \<and>
        b = swap_bid_data env opp terms tokens d (seconds (sint (deadline (swap_data d)))))"

lemma more_opportunities: "caches.more s = caches.more s' \<Longrightarrow> opportunities s = opportunities s'"
  by (cases s; cases s') simp

lemma live_by_id_answers:
  "answers (caches_at env ch (caches.more s0)) (get_live_opportunity_by_id i) (Inr (get_in_memory_opportunity_by_id s0 i))"
  by (rule answersI)
    (auto simp: caches_at_def get_live_opportunity_by_id_def get_in_memory_opportunity_by_id_def
      dest: more_opportunities)

lemma live_by_key_answers:
  "answers (caches_at env ch (caches.more s0)) (get_live_opportunities k) (Inr (get_in_memory_opportunities_by_key s0 k))"
  by (rule answersI)
    (auto simp: caches_at_def get_live_opportunities_def get_in_memory_opportunities_by_key_def
      dest: more_opportunities)

lemma deadline_of_Inr: "deadline_of d = Inr t \<Longrightarrow> t = seconds (sint d)"
  by (auto simp: deadline_of_def ok_or_Inr_iff from_unix_timestamp_def split: if_splits)

lemma get_opportunity_swap_data_Inr: "get_opportunity_swap_data opp = Inr terms \<longleftrightarrow> o_program opp = SwapProgram terms"
  by (simp add: get_opportunity_swap_data_def split: OpportunitySvmProgram.split)

lemma extract_swap_guarantee:
  "guarantees (caches_at env ch (caches.more s0)) (extract_bid_data env ch now (Swap sc))
    (swap_bid_ok env ch sc (get_in_memory_opportunity_by_id s0 (sc_opportunity_id sc)))"
  unfolding extract_bid_data_def BidChainDataCreateSvm.case Let_def
  apply (rule guarantees_seq [OF guarantees_answers [OF live_by_id_answers,
        where Q = "\<lambda>x. x = get_in_memory_opportunity_by_id s0 (sc_opportunity_id sc)"]])
   apply simp
  apply (rule yields_seq, rule yields_seq, rule yields_seq, rule yields_seq)
  apply (rule guarantees_seq [OF check_fields_guarantee])
  apply (rule swap_data_seq, rule yields_seq)
  apply (rule guarantees_seq [OF check_create_atas_guarantee])
  apply (rule guarantees_seq [OF wrap_unwrap_guarantee])
  apply (rule yields_seq, rule yields_seq, rule guarantees_yields)
  unfolding swap_bid_ok_def swap_safe_def
  by (auto simp: ok_or_Inr_iff get_opportunity_swap_data_Inr dest!: deadline_of_Inr dest: validate_instructions_Inr)

definition on_chain_bid_ok :: "env \<Rightarrow> time \<Rightarrow> BidChainDataOnChainCreateSvm \<Rightarrow> BidDataSvm \<Rightarrow> bool" where
  "on_chain_bid_ok env now oc b \<longleftrightarrow>
     (\<exists>i ix args. extract_express_relay_instruction env (oc_transaction oc) SubmitBidPayment = Inr (i, ix) \<and>
        extract_submit_bid_data ix = Inr args \<and> bd_amount b = bid_amount args \<and>
        bd_deadline b = seconds (sint (sb_deadline args)) \<and>
        account_at env (oc_transaction oc) ix 2 = Inr (bd_permission_account b) \<and>
        account_at env (oc_transaction oc) ix 3 = Inr (bd_router b) \<and>
        bd_submit_type b = ByServer \<and> bd_user_wallet_address b = None \<and> bd_instruction_index b = i \<and>
        bd_minimum_deadline b = get_current_time_rounded_with_offset now BID_MINIMUM_LIFE_TIME_SVM_SERVER)"

lemma extract_on_chain_guarantee:
  "guarantees (caches_at env ch z) (extract_bid_data env ch now (OnChain oc)) (on_chain_bid_ok env now oc)"
proof -
  have data: "guarantees (caches_at env ch z) (get_bid_transaction_data_submit_bid env (oc_transaction oc))
     (\<lambda>d. \<exists>ix. extract_express_relay_instruction env (oc_transaction oc) SubmitBidPayment = Inr (submit_ix_index d, ix) \<and>
        extract_submit_bid_data ix = Inr (submit_data d) \<and>
        account_at env (oc_transaction oc) ix 2 = Inr (submit_permission_account d) \<and>
        account_at env (oc_transaction oc) ix 3 = Inr (submit_router d))"
    unfolding get_bid_transaction_data_submit_bid_def account_positions
    by (rule yields_seq) (auto intro!: guarantee_intros)
  show ?thesis
    unfolding extract_bid_data_def BidChainDataCreateSvm.case
    by (rule guarantees_seq [OF data], rule yields_seq, rule guarantees_yields)
      (auto simp: on_chain_bid_ok_def dest!: deadline_of_Inr)
qed

text \<open>The signatures of an accepted bid: the relayer signs, and every other signer but those in \<open>missing\<close> has.\<close>

definition signed_but :: "env \<Rightarrow> tx \<Rightarrow> pubkey list \<Rightarrow> bool" where
  "signed_but env t missing \<longleftrightarrow>
     (let signers = take (length (signatures t)) (static_account_keys (message t)) in
       length (signatures t) \<le> length (static_account_keys (message t)) \<and> relayer_pubkey env \<in> set signers \<and>
       (\<forall>(sig, k)\<in>set (zip (signatures t) signers).
          k \<in> set missing \<or> verify_signature env sig k (serialize_message env (message t))))"

definition signatures_ok ::
  "env \<Rightarrow> BidCreate \<Rightarrow> VersionedMessage BidChainDataSvm \<Rightarrow> OpportunitySvm list \<Rightarrow> SubmitType \<Rightarrow> bool" where
  "signatures_ok env bid c opps ty \<longleftrightarrow>
     (case ty of
        ByServer \<Rightarrow> signed_but env (cd_transaction c) [relayer_pubkey env]
      | ByOther \<Rightarrow>
         (\<exists>opp rest. opps = opp # rest \<and>
            check_fee_payer opp (take (length (signatures (cd_transaction c)))
              (static_account_keys (message (cd_transaction c)))) (relayer_pubkey env) = Inr () \<and>
            signed_but env (cd_transaction c) (get_missing_signers opp @ [relayer_pubkey env]))
      | InvalidSubmitType \<Rightarrow> False)"

lemma all_signatures_exists_Inr:
  "all_signatures_exists env m xs missing = Inr u \<longleftrightarrow>
     (\<forall>(sig, k)\<in>set xs. k \<in> set missing \<or> verify_signature env sig k m)"
  by (induction xs) (auto split: if_splits)

lemma signed_butI:
  assumes "signers_of t = Inr signers" and "relayer_signer_exists env signers = Inr u"
    and "all_signatures_exists env (serialize_message env (message t)) (zip (signatures t) signers) missing = Inr v"
  shows "signed_but env t missing"
  using assms
  by (auto simp: signers_of_def relayer_signer_exists_def ensure_Inr_iff all_signatures_exists_Inr signed_but_def
      split: if_splits)

lemma signers_of_Inr:
  "signers_of t = Inr signers \<Longrightarrow> take (length (signatures t)) (static_account_keys (message t)) = signers"
  by (auto simp: signers_of_def split: if_splits)

lemma verify_signatures_guarantee:
  "guarantees (caches_at env ch (caches.more s0)) (verify_signatures env bid c ty)
     (\<lambda>_. signatures_ok env bid c (get_in_memory_opportunities_by_key s0 (bc_chain_id bid, get_permission_key c)) ty)"
proof (cases ty)
  case ByServer
  show ?thesis
    unfolding ByServer verify_signatures_def Let_def SubmitType.case
    by (rule yields_seq, rule guarantees_yields) (auto intro: signed_butI simp: signatures_ok_def rbind_Inr_iff)
next
  case ByOther
  let ?opps = "get_in_memory_opportunities_by_key s0 (bc_chain_id bid, get_permission_key c)"
  show ?thesis
    unfolding ByOther verify_signatures_def Let_def SubmitType.case
    by (rule yields_seq,
        rule guarantees_seq [OF guarantees_answers [OF live_by_key_answers, where Q = "\<lambda>x. x = ?opps"]], simp,
        rule yields_seq, rule guarantees_yields)
      (auto simp: signatures_ok_def rbind_Inr_iff signers_of_Inr intro: signed_butI
        split: list.splits sum.splits)
next
  case InvalidSubmitType
  show ?thesis
    unfolding InvalidSubmitType verify_signatures_def Let_def SubmitType.case
    by (rule yields_seq) (rule guarantees_fails)
qed


definition bid_data_ok :: "env \<Rightarrow> string \<Rightarrow> time \<Rightarrow> 'z opp_state_scheme \<Rightarrow> BidChainDataCreateSvm \<Rightarrow> BidDataSvm \<Rightarrow> bool" where
  "bid_data_ok env ch now s chain_data b \<longleftrightarrow>
     (case chain_data of
        OnChain oc \<Rightarrow> on_chain_bid_ok env now oc b
      | Swap sc \<Rightarrow> swap_bid_ok env ch sc (get_in_memory_opportunity_by_id s (sc_opportunity_id sc)) b)"

definition verified ::
  "env \<Rightarrow> string \<Rightarrow> clock_readings \<Rightarrow> 'z opp_state_scheme \<Rightarrow> BidCreate \<Rightarrow> VersionedMessage BidChainDataSvm \<times> u64 \<Rightarrow> bool" where
  "verified env ch clk s bid res \<longleftrightarrow>
     (\<exists>b. bid_data_ok env ch (at_extract clk) s (bc_chain_data bid) b \<and>
        cd_transaction (fst res) = get_transaction (bc_chain_data bid) \<and>
        bid_payment_instruction_type (fst res) =
          (if bd_submit_type b = ByServer then SubmitBidPayment else SwapPayment) \<and>
        cd_router (fst res) = bd_router b \<and> cd_permission_account (fst res) = bd_permission_account b \<and>
        snd res = bd_amount b \<and> bd_minimum_deadline b \<le> bd_deadline b \<and>
        bd_deadline b \<le> get_current_time_rounded_with_offset (at_deadline clk) BID_MAXIMUM_LIFE_TIME_SVM \<and>
        signatures_ok env bid (fst res)
          (get_in_memory_opportunities_by_key s (bc_chain_id bid, get_permission_key (fst res))) (bd_submit_type b))"

lemma extract_bid_data_guarantee:
  "guarantees (caches_at env ch (caches.more s0)) (extract_bid_data env ch now chain_data)
    (bid_data_ok env ch now s0 chain_data)"
  by (cases chain_data)
    (auto simp: bid_data_ok_def intro: guarantees_weaken [OF extract_on_chain_guarantee]
      guarantees_weaken [OF extract_swap_guarantee])

lemma guarantees_test:
  "(\<And>s. Q (x s)) \<Longrightarrow> guarantees ok (\<lambda>s. if b s then (s, Inl e) else (s, Inr (x s))) Q"
  by (simp add: guarantees_def)

lemma verify_bid_guarantee:
  "guarantees (caches_at env ch (caches.more s0)) (verify_bid env ch sim clk bid) (verified env ch clk s0 bid)"
proof -
  have budget: "guarantees ok (check_compute_budget env now t) (\<lambda>_. True)" for ok now t
    by (simp add: guarantees_def check_compute_budget_def Let_def)
  show ?thesis
    unfolding verify_bid_def Let_def
    apply (rule yields_seq, rule guarantees_seq [OF budget])
    apply (rule guarantees_seq [OF extract_bid_data_guarantee])
    apply (rule yields_seq, rule yields_seq, rule yields_seq)
    apply (rule guarantees_seq [OF verify_signatures_guarantee])
    apply (rule yields_seq, rule guarantees_test)
    unfolding verified_def
    by (rule exI, rule conjI, assumption) (auto simp: ensure_Inr_iff split: SubmitType.splits)
qed

lemma verified_bid:
  assumes "caches_ok env ch s" and "verify_bid env ch sim clk bid s = (s', Inr res)"
  shows "verified env ch clk s bid res"
  using guaranteesD [OF verify_bid_guarantee caches_at_self [OF assms(1)] assms(2)] by simp

text \<open>
  Property C9. A swap bid the server accepts answers the quote it names: its transaction has exactly the
  quote's user, mints, token programs, specified amount, fee token and fees, the referral fee goes to the router's own
  token account, the recorded bid amount is the unspecified amount in the transaction, and its
  deadline lies between the quote's minimum and 45 seconds from now.
\<close>

theorem verified_swap_answers_its_quote:
  assumes "caches_ok env ch s" and "verify_bid env ch sim clk bid s = (s', Inr (c, amount))"
    and "bc_chain_data bid = Swap sc"
  shows "\<exists>opp terms tokens d. get_in_memory_opportunity_by_id s (sc_opportunity_id sc) = Some opp \<and>
    o_program opp = SwapProgram terms \<and> get_swap_quote_tokens opp = Inr tokens \<and>
    swap_transaction_data env ch (sc_transaction sc) = Inr d \<and> terms_met terms tokens d \<and>
    sa_router_token_account (swap_tx_accounts d) = expected_router_token_account env (o_router opp) d \<and>
    amount = bid_amount_of tokens (swap_data d) \<and> cd_transaction c = sc_transaction sc \<and> cd_router c = o_router opp \<and>
    os_minimum_deadline terms \<le> seconds (sint (deadline (swap_data d))) \<and>
    seconds (sint (deadline (swap_data d))) \<le> get_current_time_rounded_with_offset (at_deadline clk) (seconds 45)"
proof -
  from verified_bid [OF assms(1,2)] obtain b where
    b: "swap_bid_ok env ch sc (get_in_memory_opportunity_by_id s (sc_opportunity_id sc)) b"
    "cd_transaction c = sc_transaction sc" "cd_router c = bd_router b" "amount = bd_amount b"
    "bd_minimum_deadline b \<le> bd_deadline b"
    "bd_deadline b \<le> get_current_time_rounded_with_offset (at_deadline clk) (seconds 45)"
    unfolding verified_def bid_data_ok_def assms(3) BID_MAXIMUM_LIFE_TIME_SVM_def by auto
  from b(1) obtain opp terms tokens d where found:
    "get_in_memory_opportunity_by_id s (sc_opportunity_id sc) = Some opp" "o_program opp = SwapProgram terms"
    "get_swap_quote_tokens opp = Inr tokens" "swap_transaction_data env ch (sc_transaction sc) = Inr d"
    "terms_met terms tokens d"
    "sa_router_token_account (swap_tx_accounts d) = expected_router_token_account env (o_router opp) d"
    and data: "b = swap_bid_data env opp terms tokens d (seconds (sint (deadline (swap_data d))))"
    unfolding swap_bid_ok_def by blast
  with b(2-6) show ?thesis by (simp add: swap_bid_data_def)
qed

text \<open>
  Property C3. A swap bid the server accepts does nothing but the swap with the assets of the user: it has
  only the allowed instructions; at most one lamport transfer, from the user only to wrap the quoted
  SOL into the user's own account; accounts closed only when SOL is traded, the user's only to
  the user; and the user pays only for those of its own token accounts the quote says it pays for.
\<close>

theorem verified_swap_moves_only_quoted_assets:
  assumes "caches_ok env ch s" and "verify_bid env ch sim clk bid s = (s', Inr res)"
    and "bc_chain_data bid = Swap sc"
  shows "\<exists>opp terms d. get_in_memory_opportunity_by_id s (sc_opportunity_id sc) = Some opp \<and>
    o_program opp = SwapProgram terms \<and> swap_transaction_data env ch (sc_transaction sc) = Inr d \<and>
    swap_safe env (sc_transaction sc) terms d"
  using verified_bid [OF assms(1,2)]
  unfolding verified_def bid_data_ok_def assms(3) BidChainDataCreateSvm.case swap_bid_ok_def by blast




subsection \<open>Simulation is retried at most five times\<close>

definition stale_failure :: "u64 \<Rightarrow> unit + (u64 \<times> (string + unit)) \<Rightarrow> bool" where
  "stale_failure bid_slot r = (case r of Inr (slot, Inl logs) \<Rightarrow> slot < bid_slot | _ \<Rightarrow> False)"

definition simulation_verdict :: "unit + (u64 \<times> (string + unit)) \<Rightarrow> unit rest" where
  "simulation_verdict r =
     (case r of
        Inl _ \<Rightarrow> Inl (Fails TemporarilyUnavailable)
      | Inr (_, Inr _) \<Rightarrow> Inr ()
      | Inr (_, Inl logs) \<Rightarrow> Inl (Fails (SimulationError logs)))"

lemma simulate_loop_first:
  "k \<le> 5 \<Longrightarrow> simulate_loop f slot k =
     simulation_verdict (f (k + length (takeWhile (\<lambda>n. stale_failure slot (f n)) [k..<5])))"
proof (induction "5 - k" arbitrary: k)
  case 0
  then have "k = 5" by simp
  then show ?case
    by (subst simulate_loop.simps) (auto simp: simulation_verdict_def RETRY_LIMIT_def split: sum.splits)
next
  case (Suc n)
  then have upt: "[k..<5] = k # [Suc k..<5]" and k: "k < 5" by (simp_all add: upt_rec)
  from Suc.hyps(1) [of "Suc k"] Suc.hyps(2) k
  have IH: "simulate_loop f slot (Suc k) =
      simulation_verdict (f (Suc k + length (takeWhile (\<lambda>n. stale_failure slot (f n)) [Suc k..<5])))" by simp
  show ?case
    by (subst simulate_loop.simps, cases "f k")
      (auto simp: upt IH stale_failure_def simulation_verdict_def RETRY_LIMIT_def k simp del: upt_Suc split: sum.splits)
qed

text \<open>
  Property C38. Simulating an on-chain bid ends after at most six attempts: the verdict is that of the first
  attempt that is not a failure at a slot older than the bid's, and of the sixth when the first five all are.
\<close>

theorem simulation_retried_at_most_five_times:
  "simulate_bid sim bid =
     (let attempt = (\<lambda>n. simulate_attempt sim n (get_transaction (bc_chain_data bid)));
          slot = (case bc_chain_data bid of OnChain c \<Rightarrow> (case oc_slot c of Some x \<Rightarrow> x | None \<Rightarrow> 0) | Swap _ \<Rightarrow> 0)
      in simulation_verdict (attempt (length (takeWhile (\<lambda>n. stale_failure slot (attempt n)) [0..<5]))))"
  unfolding simulate_bid_def Let_def by (subst simulate_loop_first) simp_all


subsection \<open>Permission accounts identify quotes\<close>

text \<open>
  The seeds of a quote's permission account determine its terms: two quotes that specify the
  same side have equal seed bytes only when router account, user, mints, amount and referral fee are equal, so
  quotes share an auction only if they ask for the same trade (up to collisions of the address derivation).
\<close>

theorem permission_seeds_determine_terms:
  "(concat (permission_seeds (UserTokenSpecified u m) w r f) =
      concat (permission_seeds (UserTokenSpecified u' m') w' r' f') \<longleftrightarrow>
      u = u' \<and> m = m' \<and> w = w' \<and> r = r' \<and> f = f') \<and>
   (concat (permission_seeds (SearcherTokenSpecified m u) w r f) =
      concat (permission_seeds (SearcherTokenSpecified m' u') w' r' f') \<longleftrightarrow>
      u = u' \<and> m = m' \<and> w = w' \<and> r = r' \<and> f = f')"
proof -
  have p: "to_le 32 x = to_le 32 y \<longleftrightarrow> x = y" for x y :: pubkey by (rule to_le_inject) simp
  have w: "to_le 8 x = to_le 8 y \<longleftrightarrow> x = y" for x y :: u64 by (rule to_le_inject) simp
  show ?thesis
    by (cases u; cases u') (auto simp: permission_seeds_def p w)
qed

lemma generated_price_taker_recognised:
  assumes "length rand_bytes = 8"
  shows "is_indicative_price_taker (generate_indicative_price_taker rand_bytes)"
proof -
  have "to_le 32 (generate_indicative_price_taker rand_bytes) =
      take 24 (to_le 32 INDICATIVE_PRICE_TAKER_BASE) @ rand_bytes"
    unfolding generate_indicative_price_taker_def using assms by (intro to_le_of_le) simp_all
  then show ?thesis by (simp add: is_indicative_price_taker_def)
qed


subsection \<open>A concrete bid\<close>

text \<open>The swap of the sample transaction with all its accounts in the message, and the quote it answers.\<close>

definition sample_plain_tx :: tx where
  "sample_plain_tx = \<lparr>signatures = [11, 0, 0], message =
     \<lparr>static_account_keys = [11, 12, 13, EXPRESS_RELAY_ID, 21, 22, SPL_TOKEN, 31], instructions = [sample_swap_ix],
      address_table_lookups = None, msg_rest = []\<rparr>\<rparr>"

definition sample_terms :: OpportunitySvmProgramSwap where
  "sample_terms = sample_quote_terms\<lparr>os_platform_fee_ppm := 0\<rparr>"

definition sample_bid_chain_data :: "VersionedMessage BidChainDataSvm" where
  "sample_bid_chain_data = \<lparr>cd_transaction = sample_plain_tx, bid_payment_instruction_type = SwapPayment,
     cd_router = 9, cd_permission_account = get_quote_virtual_permission_account sample_env
       (UserTokenSpecified \<lparr>ta_token = 22, ta_amount = 500\<rparr> 21) 12 31 100\<rparr>"

definition sample_quote :: OpportunitySvm where
  "sample_quote = sample_opportunity\<lparr>o_permission_key := get_permission_key sample_bid_chain_data, o_router := 9,
     o_permission_account := cd_permission_account sample_bid_chain_data, o_program := SwapProgram sample_terms\<rparr>"

definition sample_quoted :: opp_state where
  "sample_quoted = sample_opp_state\<lparr>opportunities :=
     [((''solana'', get_permission_key sample_bid_chain_data), [sample_quote])]\<rparr>"

definition sample_bid_create :: BidCreate where
  "sample_bid_create = \<lparr>bc_chain_id = ''solana'', bc_initiation_time = 0, bc_profile = None,
     bc_chain_data = Swap \<lparr>sc_transaction = sample_plain_tx, sc_opportunity_id = 1\<rparr>\<rparr>"

definition sample_simulation :: simulation where
  "sample_simulation = \<lparr>rpc_simulate = (\<lambda>_. Inr (None, [])), simulate_attempt = (\<lambda>_ _. Inl ())\<rparr>"

definition sample_clock :: clock_readings where
  "sample_clock = \<lparr>at_budget = seconds 100, at_extract = seconds 100, at_deadline = seconds 100\<rparr>"


lemma sample_plain_programs:
  "extract_program_instructions sample_plain_tx p = Inr (if p = EXPRESS_RELAY_ID then [(0, sample_swap_ix)] else [])"
  by (simp add: extract_program_instructions_def sample_plain_tx_def ix_program_id_of_def) (simp add: sample_swap_ix_def)

lemma sample_plain_account:
  "extract_account sample_env sample_plain_tx sample_swap_ix 0 s = (s, Inr 11)"
  "extract_account sample_env sample_plain_tx sample_swap_ix (Suc 0) s = (s, Inr 12)"
  "extract_account sample_env sample_plain_tx sample_swap_ix 6 s = (s, Inr 31)"
  "extract_account sample_env sample_plain_tx sample_swap_ix 9 s = (s, Inr 21)"
  "extract_account sample_env sample_plain_tx sample_swap_ix 10 s = (s, Inr 22)"
  "extract_account sample_env sample_plain_tx sample_swap_ix 12 s = (s, Inr SPL_TOKEN)"
  "extract_account sample_env sample_plain_tx sample_swap_ix 13 s = (s, Inr SPL_TOKEN)"
  by (simp_all add: extract_account_def sample_swap_ix_def sample_plain_tx_def yields_def)

definition sample_decoded :: BidTransactionDataSwap where
  "sample_decoded = \<lparr>swap_data = sample_swap_v2, swap_tx_accounts = sample_swap_accounts, swap_ix_index = 0\<rparr>"

lemma seq_run: "m s = (s', Inr x) \<Longrightarrow> seq m f s = f x s'"
  by (simp add: seq_def)

lemma sample_plain_data:
  "get_bid_transaction_data_swap sample_env ''solana'' sample_plain_tx s = (s, Inr sample_decoded)"
proof -
  have data: "ci_data sample_swap_ix = swap_v2_discriminator @ ser_swap_v2_args sample_swap_v2"
    by (simp add: sample_swap_ix_def)
  have start: "starts_with (ci_data sample_swap_ix) swap_v2_discriminator"
    "\<not> starts_with (ci_data sample_swap_ix) swap_discriminator"
    by (simp_all add: data starts_with_def) (simp_all add: swap_discriminator_def swap_v2_discriminator_def)
  have ix: "extract_express_relay_instruction sample_env sample_plain_tx SwapPayment = Inr (0, sample_swap_ix)"
    using start by (simp add: extract_express_relay_instruction_def sample_env_def sample_plain_programs valid_discriminators_def)
  have args: "extract_swap_data sample_env ''solana'' sample_swap_ix s = (s, Inr sample_swap_v2)"
    using start swap_v2_codec.deser_ser [of sample_swap_v2 "[]"]
    by (simp add: extract_swap_data_def yields_def data whole_def)
  have accounts: "extract_swap_accounts sample_env sample_plain_tx sample_swap_ix s = (s, Inr sample_swap_accounts)"
    by (simp add: extract_swap_accounts_def seq_def yields_def sample_plain_account sample_swap_accounts_def)
  show ?thesis
    by (simp add: get_bid_transaction_data_swap_def yields_def ix args accounts seq_run sample_decoded_def)
qed

lemma sample_distinct_programs:
  "SYSTEM_PROGRAM \<noteq> EXPRESS_RELAY_ID" "SPL_TOKEN \<noteq> EXPRESS_RELAY_ID" "SPL_ASSOCIATED_TOKEN_ACCOUNT \<noteq> EXPRESS_RELAY_ID"
  "SPL_MEMO \<noteq> EXPRESS_RELAY_ID" "COMPUTE_BUDGET \<noteq> EXPRESS_RELAY_ID"
  by (simp_all add: SYSTEM_PROGRAM_def SPL_TOKEN_def SPL_ASSOCIATED_TOKEN_ACCOUNT_def SPL_MEMO_def COMPUTE_BUDGET_def
      EXPRESS_RELAY_ID_def)

lemma sample_terms_met:
  "terms_met sample_terms (UserTokenSpecified \<lparr>ta_token = 22, ta_amount = 500\<rparr> 21) sample_decoded"
  by (simp add: terms_met_def sample_terms_def sample_quote_terms_def sample_create_def sample_decoded_def
      sample_swap_accounts_def sample_swap_v2_def program_fee_token_def)

text \<open>All that the checks read of the state.\<close>

definition quoted :: "'z opp_state_scheme \<Rightarrow> bool" where
  "quoted s \<longleftrightarrow> opportunities s = opportunities sample_quoted \<and>
     recent_prioritization_fees (auction_repo s) = [] \<and> pending_bids (auction_repo s) = []"

lemma quoted_sample: "quoted sample_quoted"
  by (simp add: quoted_def sample_quoted_def sample_opp_state_def Repository_new_def)

lemma sample_bid_data:
  fixes st :: "'z opp_state_scheme"
  assumes "quoted st"
  shows "extract_bid_data sample_env ''solana'' now (bc_chain_data sample_bid_create) st =
     (st, Inr (swap_bid_data sample_env sample_quote sample_terms
       (UserTokenSpecified \<lparr>ta_token = 22, ta_amount = 500\<rparr> 21) sample_decoded (seconds 130)))"
proof -
  have found: "get_in_memory_opportunity_by_id st 1 = Some sample_quote"
    using assms by (simp add: get_in_memory_opportunity_by_id_def quoted_def sample_quoted_def)
      (simp add: sample_quote_def sample_opportunity_def new_with_current_time_def OpportunityCreateSvm.extend_def)
  have tokens: "get_swap_quote_tokens sample_quote = Inr (UserTokenSpecified \<lparr>ta_token = 22, ta_amount = 500\<rparr> 21)"
    by (simp add: get_swap_quote_tokens_def sample_quote_def sample_opportunity_def new_with_current_time_def
        OpportunityCreateSvm.extend_def) (simp add: sample_create_def)
  have terms: "get_opportunity_swap_data sample_quote = Inr sample_terms"
    by (simp add: get_opportunity_swap_data_def sample_quote_def)
  have valid: "validate_swap_transaction_instructions sample_env sample_plain_tx = Inr ()"
    by (simp add: validate_swap_transaction_instructions_def sample_plain_tx_def ix_program_id_of_def)
      (simp add: sample_swap_ix_def validate_swap_transaction_instruction_def sample_distinct_programs
        sample_distinct_programs [symmetric] sample_env_def)
  have fields: "check_svm_swap_bid_fields sample_env ''solana'' sample_plain_tx sample_terms
      (UserTokenSpecified \<lparr>ta_token = 22, ta_amount = 500\<rparr> 21) s = (s, Inr ())" for s :: "'z opp_state_scheme"
    using sample_terms_met by (simp add: check_svm_swap_bid_fields_def sample_plain_data seq_run yields_def
        swap_fields_check_Inr)
  have mints: "sa_mint_user sample_swap_accounts \<noteq> NATIVE_MINT" "sa_mint_searcher sample_swap_accounts \<noteq> NATIVE_MINT"
    by (simp_all add: sample_swap_accounts_def NATIVE_MINT_def)
  have atas: "check_create_ata_instructions sample_env sample_plain_tx sample_swap_accounts (os_initialization sample_terms) s =
      (s, Inr ())" for s :: "'z opp_state_scheme"
    by (simp add: check_create_ata_instructions_def extract_create_ata_instructions_def sample_plain_programs
        sample_distinct_programs seq_def yields_def create_ata_check_def
        validate_and_remove_create_user_ata_instruction_def)
      (simp add: sample_terms_def sample_quote_terms_def sample_create_def none_needed_def)
  have wraps: "check_wrap_unwrap_native_token_instructions sample_env sample_plain_tx sample_decoded sample_terms s =
      (s, Inr ())" for s :: "'z opp_state_scheme"
    using mints
    by (simp add: check_wrap_unwrap_native_token_instructions_def check_transfer_instruction_def
        extract_transfer_instructions_def sample_plain_programs sample_distinct_programs seq_def yields_def
        transfer_check_def sample_decoded_def check_close_account_instruction_def
        extract_close_account_instructions_def close_check_def)
  have memo: "check_memo_instructions sample_plain_tx (os_memo sample_terms) = Inr ()"
    by (simp add: check_memo_instructions_def sample_plain_programs sample_distinct_programs)
      (simp add: sample_terms_def sample_quote_terms_def sample_create_def)
  have account: "expected_router_token_account sample_env (o_router sample_quote) sample_decoded =
      sa_router_token_account sample_swap_accounts"
    by (simp add: expected_router_token_account_def sample_quote_def sample_decoded_def sample_swap_accounts_def
        sample_swap_v2_def sample_env_def)
  have parts: "swap_tx_accounts sample_decoded = sample_swap_accounts" "swap_data sample_decoded = sample_swap_v2"
    by (simp_all add: sample_decoded_def)
  have dl: "deadline_of (deadline sample_swap_v2) = Inr (seconds 130)"
    by (simp add: deadline_of_def from_unix_timestamp_def sample_swap_v2_def)
  show ?thesis
    by (simp add: sample_bid_create_def extract_bid_data_def get_live_opportunity_by_id_def found seq_run yields_def
        valid tokens terms fields sample_plain_data memo parts atas wraps account dl Let_def)
qed


lemma sample_by_key:
  "quoted s \<Longrightarrow> get_in_memory_opportunities_by_key s (''solana'', get_permission_key sample_bid_chain_data) = [sample_quote]"
  by (simp add: get_in_memory_opportunities_by_key_def quoted_def sample_quoted_def)

lemma sample_bid_verified:
  fixes st :: "'z opp_state_scheme"
  assumes st: "quoted st" and bid: "bc_chain_data bid = bc_chain_data sample_bid_create" "bc_chain_id bid = ''solana''"
  shows "verify_bid sample_env ''solana'' sample_simulation sample_clock bid st = (st, Inr (sample_bid_chain_data, 1000))"
proof -
  obtain b where data: "b = swap_bid_data sample_env sample_quote sample_terms
    (UserTokenSpecified \<lparr>ta_token = 22, ta_amount = 500\<rparr> 21) sample_decoded (seconds 130)" by simp
  have tx: "get_transaction (bc_chain_data sample_bid_create) = sample_plain_tx" by (simp add: sample_bid_create_def)
  have size: "check_tx_size sample_env sample_plain_tx = Inr ()"
    by (simp add: check_tx_size_def sample_env_def PACKET_DATA_SIZE_def)
  have fees: "recent_prioritization_fees (auction_repo st) = []" "pending_bids (auction_repo st) = []"
    using st by (simp_all add: quoted_def)
  have budget: "check_compute_budget sample_env now sample_plain_tx st = (st, Inr ())" for now
    by (simp add: check_compute_budget_def sample_plain_programs sample_distinct_programs get_priority_fees_def fees
        least_fee_def List.map_filter_def)
  have b: "bd_submit_type b = ByOther" "bd_router b = 9" "bd_amount b = 1000" "bd_deadline b = seconds 130"
    "bd_minimum_deadline b = 0" "bd_user_wallet_address b = Some 12" "bd_instruction_index b = 0"
    "bd_permission_account b = cd_permission_account sample_bid_chain_data"
    by (simp_all add: data swap_bid_data_def sample_quote_def bid_amount_of_def sample_decoded_def sample_swap_v2_def
        sample_swap_accounts_def sample_bid_chain_data_def sample_terms_def sample_quote_terms_def sample_create_def)
  have c: "\<lparr>cd_transaction = sample_plain_tx, bid_payment_instruction_type = SwapPayment, cd_router = 9,
      cd_permission_account = cd_permission_account sample_bid_chain_data\<rparr> = sample_bid_chain_data"
    by (simp add: sample_bid_chain_data_def)
  have max_deadline: "get_current_time_rounded_with_offset (at_deadline sample_clock) BID_MAXIMUM_LIFE_TIME_SVM = seconds 145"
    by (simp add: get_current_time_rounded_with_offset_def sample_clock_def BID_MAXIMUM_LIFE_TIME_SVM_def seconds_def)
  have deadlines: "\<not> seconds 130 < 0" "\<not> seconds 145 < seconds 130" by (simp_all add: seconds_def)
  have sigs: "verify_signatures sample_env bid sample_bid_chain_data ByOther st = (st, Inr ())"
  proof -
    have signers: "signers_of (cd_transaction sample_bid_chain_data) = Inr [11, 12, 13]"
      and sg: "signatures (cd_transaction sample_bid_chain_data) = [11, 0, 0]"
      by (simp_all add: signers_of_def sample_bid_chain_data_def sample_plain_tx_def)
    have payer: "check_fee_payer sample_quote [11, 12, 13] 13 = Inr ()"
      "get_missing_signers sample_quote = [12]" "relayer_pubkey sample_env = 13"
      by (simp_all add: check_fee_payer_def get_missing_signers_def sample_quote_def sample_terms_def
          sample_quote_terms_def sample_create_def sample_env_def)
    have ok: "verify_signature sample_env 11 11 m" for m by (simp add: sample_env_def)
    show ?thesis
      by (simp add: verify_signatures_def Let_def signers sg payer ok bid(2) seq_run yields_def get_live_opportunities_def
          sample_by_key [OF st] relayer_signer_exists_def)
  qed
  have sim: "simulate_swap_bid sample_simulation bid 0 = Inr ()"
    by (simp add: simulate_swap_bid_def sample_simulation_def)
  show ?thesis
    by (simp add: verify_bid_def Let_def bid(1) tx size budget seq_run yields_def sample_bid_data [OF st] data [symmetric] b c max_deadline sigs sim
        get_in_memory_pending_bids_by_permission_key_def fees deadlines)
qed

lemma sample_verified:
  "verify_bid sample_env ''solana'' sample_simulation sample_clock sample_bid_create sample_quoted =
     (sample_quoted, Inr (sample_bid_chain_data, 1000))"
  by (rule sample_bid_verified [OF quoted_sample]) (simp_all add: sample_bid_create_def)

lemma sample_quoted_caches_ok: "caches_ok sample_env ''solana'' sample_quoted"
  by (simp add: caches_ok_def sample_quoted_def sample_opp_state_def get_lookup_table_def Repository_new_def)

lemma sample_swap_decoded: "swap_transaction_data sample_env ''solana'' sample_plain_tx = Inr sample_decoded"
  using get_bid_transaction_data_swap_answers [of sample_env "''solana''" "caches.more sample_quoted" sample_plain_tx]
    caches_at_self [OF sample_quoted_caches_ok] sample_plain_data [of sample_quoted]
  unfolding answers_def by (metis snd_conv)

lemma sample_bid_is_swap:
  "bc_chain_data sample_bid_create = Swap \<lparr>sc_transaction = sample_plain_tx, sc_opportunity_id = 1\<rparr>"
  by (simp add: sample_bid_create_def)

theorem verified_swap_answers_its_quote_witness:
  "\<exists>terms tokens. terms_met terms tokens sample_decoded \<and> bid_amount_of tokens (swap_data sample_decoded) = 1000"
  using verified_swap_answers_its_quote [OF sample_quoted_caches_ok sample_verified sample_bid_is_swap]
  by (auto simp: sample_swap_decoded)

theorem verified_swap_moves_only_quoted_assets_witness:
  "\<exists>terms d. swap_safe sample_env sample_plain_tx terms d"
  using verified_swap_moves_only_quoted_assets [OF sample_quoted_caches_ok sample_verified sample_bid_is_swap] by auto


end
