(* ===== verification/As_Simulator.thy ===== *)
theory As_Simulator
  imports As_Bid "HOL-Library.Sublist" "HOL-Library.Mapping"
begin

section \<open>Auction server: the simulator\<close>

text \<open>
  \<open>auction/service/simulator.rs\<close>: the transactions sent and not confirmed yet, the cache of
  rarely changing accounts, fetching accounts in chunks, and choosing the bids that succeed when
  they run after each other. The local chain simulation (LiteSVM), the RPC node and its accounts are
  parameters: \<open>send\<close> runs a transaction on a simulated chain state and tells whether it
  succeeded, \<open>rpc\<close> answers a request for accounts with the slot it was answered at.
\<close>

subsection \<open>Pending transactions\<close>

type_synonym 'm pending = "('m transaction \<times> time) list"

definition MAX_PENDING_DURATION :: time where
  "MAX_PENDING_DURATION = seconds 15"

definition ACCOUNT_CACHE_DURATION :: time where
  "ACCOUNT_CACHE_DURATION = seconds 3600"

definition fetch_pending_and_remove_old_txs :: "time \<Rightarrow> 'm pending \<Rightarrow> 'm pending \<times> 'm transaction list" where
  "fetch_pending_and_remove_old_txs now p =
     (let q = filter (\<lambda>(tx, t). now - t < MAX_PENDING_DURATION) p in (q, map fst q))"

definition add_pending_transaction :: "'m transaction \<Rightarrow> time \<Rightarrow> 'm pending \<Rightarrow> 'm pending" where
  "add_pending_transaction tx now p = p @ [(tx, now)]"

definition remove_pending_transaction :: "signature \<Rightarrow> 'm pending \<Rightarrow> 'm pending" where
  "remove_pending_transaction sig p =
     filter (\<lambda>(tx, t). \<not> (case signatures tx of s # _ \<Rightarrow> s = sig | [] \<Rightarrow> False)) p"


subsection \<open>Fetching accounts\<close>

definition MAX_RPC_ACCOUNT_LIMIT :: nat where
  "MAX_RPC_ACCOUNT_LIMIT = 100"

function chunks :: "nat \<Rightarrow> 'a list \<Rightarrow> 'a list list" where
  "chunks n xs = (if xs = [] \<or> n = 0 then [] else take n xs # chunks n (drop n xs))"
  by pat_completeness auto
termination by (relation "measure (\<lambda>(n, xs). length xs)") auto

declare chunks.simps [simp del]

type_synonym 'e slot_response = "'e \<times> u64"

fun collect_chunks ::
  "('err + ('acc option list \<times> u64)) list \<Rightarrow> 'acc option list \<Rightarrow> u64 option \<Rightarrow>
   'err + ('acc option list \<times> u64 option)" where
  "collect_chunks [] result slot = Inr (result, slot)"
| "collect_chunks (Inl e # rs) result slot = Inl e"
| "collect_chunks (Inr (accs, s) # rs) result slot =
     collect_chunks rs (result @ accs)
       (case slot of None \<Rightarrow> Some s | Some s0 \<Rightarrow> if s0 > s then Some s else Some s0)"

definition get_multiple_accounts_chunked ::
  "(pubkey list \<Rightarrow> 'err + ('acc option list \<times> u64)) \<Rightarrow> pubkey list \<Rightarrow> 'err + ('acc option list \<times> u64)" where
  "get_multiple_accounts_chunked rpc keys =
     (let key_chunks = (if keys = [] then [[]] else chunks MAX_RPC_ACCOUNT_LIMIT keys)
      in rbind (collect_chunks (map rpc key_chunks) [] None) (\<lambda>(result, slot). Inr (result, the slot)))"

type_synonym 'acc cache = "(pubkey, 'acc \<times> time) mapping"

fun try_get_accounts_from_cache :: "time \<Rightarrow> 'acc cache \<Rightarrow> pubkey list \<Rightarrow> 'acc list option" where
  "try_get_accounts_from_cache now c [] = Some []"
| "try_get_accounts_from_cache now c (k # ks) =
     (case Mapping.lookup c k of
        Some (acc, update_time) \<Rightarrow>
          if now - update_time > ACCOUNT_CACHE_DURATION then None
          else map_option ((#) acc) (try_get_accounts_from_cache now c ks)
      | None \<Rightarrow> None)"

fun insert_fetched :: "time \<Rightarrow> (pubkey \<times> 'acc option) list \<Rightarrow> 'acc cache \<Rightarrow> 'acc cache" where
  "insert_fetched now [] c = c"
| "insert_fetched now ((k, Some acc) # xs) c = insert_fetched now xs (Mapping.update k (acc, now) c)"
| "insert_fetched now ((k, None) # xs) c = insert_fetched now xs c"

definition get_multiple_accounts_with_cache ::
  "(pubkey list \<Rightarrow> 'err + ('acc option list \<times> u64)) \<Rightarrow> time \<Rightarrow> 'acc cache \<Rightarrow> pubkey list \<Rightarrow>
   'acc cache \<times> ('err + 'acc option list)" where
  "get_multiple_accounts_with_cache rpc now c keys =
     (case try_get_accounts_from_cache now c keys of
        Some accounts \<Rightarrow> (c, Inr (map Some accounts))
      | None \<Rightarrow>
         (case get_multiple_accounts_chunked rpc keys of
            Inl e \<Rightarrow> (c, Inl e)
          | Inr (result, slot) \<Rightarrow> (insert_fetched now (zip keys result) c, Inr result)))"


subsection \<open>Simulating\<close>

text \<open>
  \<open>setup\<close> stands for fetching the accounts of the pending transactions and the given ones and
  loading them into a fresh simulated chain; it fails when the RPC node does.
\<close>

fun send_all :: "('s \<Rightarrow> 'm transaction \<Rightarrow> 's \<times> bool) \<Rightarrow> 's \<Rightarrow> 'm transaction list \<Rightarrow> 's" where
  "send_all send svm [] = svm"
| "send_all send svm (tx # txs) = send_all send (fst (send svm tx)) txs"

fun keep_successful :: "('s \<Rightarrow> 'm transaction \<Rightarrow> 's \<times> bool) \<Rightarrow> 's \<Rightarrow> 'm Bid list \<Rightarrow> 'm Bid list" where
  "keep_successful send svm [] = []"
| "keep_successful send svm (b # bs) =
     (let (svm', ok) = send svm (cd_transaction (b_chain_data b))
      in if ok then b # keep_successful send svm' bs else keep_successful send svm' bs)"

definition simulator_optimize_bids ::
  "('m transaction list \<Rightarrow> 's option) \<Rightarrow> ('s \<Rightarrow> 'm transaction \<Rightarrow> 's \<times> bool) \<Rightarrow> time \<Rightarrow>
   'm Bid list \<Rightarrow> 'm pending \<Rightarrow> 'm pending \<times> 'm Bid list option" where
  "simulator_optimize_bids setup send now bids_sorted p =
     (let (p', pending) = fetch_pending_and_remove_old_txs now p
      in (p', map_option (\<lambda>svm. keep_successful send (send_all send svm pending) bids_sorted)
               (setup (pending @ map (\<lambda>b. cd_transaction (b_chain_data b)) bids_sorted))))"

end
