(* ===== verification/As_Service.thy ===== *)
theory As_Service
  imports As_Verify As_Simulator "HOL-Library.Multiset"
begin

section \<open>Auction server: running auctions\<close>

text \<open>
  The auction service (\<open>auction/service\<close>): updating bid statuses, choosing and submitting the winners of
  an auction, resending a transaction, and concluding auctions from what the chain reports. The state
  extends that of the opportunity service by the simulator's pending transactions, the locks, the
  transactions given to the network so far, and the auctions that have a conclusion task.

  A handler that joins several updates runs them in the order of the list. Analytics inserts and
  metrics are left out: they write to stores the server never reads back.
\<close>

subsection \<open>State\<close>

record server = opp_state +
  srv_pending :: "VersionedMessage pending"
  auction_locks :: "u8 list locks"
  bid_locks :: "uuid locks"
  sent_transactions :: "tx list"
  conclusion_tasks :: "uuid list"

type_synonym bid = "VersionedMessage Bid"
type_synonym auction = "VersionedMessage Auction"

text \<open>Results of functions that return \<open>anyhow::Result\<close>.\<close>

type_synonym 'a outcome = "anyhow stop + 'a"

definition on_repo ::
  "(VersionedMessage repo \<Rightarrow> VersionedMessage repo \<times> (anyhow + 'a)) \<Rightarrow>
   'z caches_scheme \<Rightarrow> 'z caches_scheme \<times> 'a outcome" where
  "on_repo f s = (case f (auction_repo s) of
     (r, Inl e) \<Rightarrow> (s\<lparr>auction_repo := r\<rparr>, Inl (Fails e)) | (r, Inr x) \<Rightarrow> (s\<lparr>auction_repo := r\<rparr>, Inr x))"

text \<open>A failure of one error type passed on as another; a panic stays one.\<close>

definition fails_as :: "('e \<Rightarrow> 'f) \<Rightarrow> 's \<times> ('e stop + 'a) \<Rightarrow> 's \<times> ('f stop + 'a)" where
  "fails_as f p = (case p of
     (s, Inl (Fails e)) \<Rightarrow> (s, Inl (Fails (f e))) | (s, Inl Panics) \<Rightarrow> (s, Inl Panics) | (s, Inr x) \<Rightarrow> (s, Inr x))"

definition unavailable :: "anyhow \<Rightarrow> RestError" where
  "unavailable e = TemporarilyUnavailable"


subsection \<open>Status updates\<close>

definition update_bid_status :: "bid \<Rightarrow> BidStatusSvm \<Rightarrow> time \<Rightarrow> ('z opp_state_scheme, bool) action" where
  "update_bid_status b st now =
     seq (\<lambda>s. fails_as unavailable (on_repo (repo_update_bid_status b st now) s)) (\<lambda>(updated, conclusion_time) s.
       (if updated then emit (BidStatusUpdate (b_id b) st) s else s, Inr updated))"

text \<open>Joined updates: each result is dropped.\<close>

definition update_all :: "time \<Rightarrow> (BidStatusSvm \<times> bid) list \<Rightarrow> 'z opp_state_scheme \<Rightarrow> 'z opp_state_scheme" where
  "update_all now us s = fold (\<lambda>(st, b) s. fst (update_bid_status b st now s)) us s"


subsection \<open>Sending transactions\<close>

text \<open>The transaction of a bid with the signature of one of its static keys put in place.\<close>

definition sign_as :: "pubkey \<Rightarrow> signature \<Rightarrow> bid \<Rightarrow> 'e stop + bid" where
  "sign_as key sig b =
     (let t = cd_transaction (b_chain_data b) in
      case position (\<lambda>p. p = key) (static_account_keys (message t)) of
        None \<Rightarrow> Inl Panics
      | Some i \<Rightarrow>
         if i < length (signatures t)
         then Inr (b\<lparr>b_chain_data := (b_chain_data b)\<lparr>cd_transaction := t\<lparr>signatures := (signatures t)[i := sig]\<rparr>\<rparr>\<rparr>)
         else Inl Panics)"

definition add_relayer_signature :: "env \<Rightarrow> bid \<Rightarrow> 'e stop + bid" where
  "add_relayer_signature env b =
     sign_as (relayer_pubkey env) (relayer_sign env (serialize_message env (message (cd_transaction (b_chain_data b))))) b"

text \<open>The broadcasters' answers: the first success counts, and the first landed status.\<close>

definition send_transaction_to_network :: "('e + signature) list \<Rightarrow> unit + signature" where
  "send_transaction_to_network results =
     (case filter is_ok results of Inr sig # _ \<Rightarrow> Inr sig | _ \<Rightarrow> Inl ())"

definition get_signature_status ::
  "('e + TransactionError option option) list \<Rightarrow> TransactionError option option" where
  "get_signature_status results =
     (case filter (\<lambda>r. case r of Inr (Some _) \<Rightarrow> True | _ \<Rightarrow> False) results of
        Inr st # _ \<Rightarrow> st | _ \<Rightarrow> None)"

definition first_signature :: "tx \<Rightarrow> 'e stop + signature" where
  "first_signature t = (case signatures t of sig # _ \<Rightarrow> Inr sig | [] \<Rightarrow> Inl Panics)"

text \<open>
  \<open>send_transaction\<close> gives the transaction to the network once, whatever the answer, and starts a
  task that resends it; its result is the first signature.
\<close>

definition send_transaction ::
  "time \<Rightarrow> bid \<Rightarrow> 'z server_scheme \<Rightarrow> 'z server_scheme \<times> ('e stop + signature)" where
  "send_transaction now b s =
     (let t = cd_transaction (b_chain_data b) in
      (s\<lparr>sent_transactions := sent_transactions s @ [t], srv_pending := add_pending_transaction t now (srv_pending s)\<rparr>,
       first_signature t))"

definition SEND_TRANSACTION_RETRY_COUNT_SVM :: nat where
  "SEND_TRANSACTION_RETRY_COUNT_SVM = 30"

text \<open>
  What wakes the resending task: a log of some transaction, a lost log, or the timer, with the status
  the broadcasters report then. A stream of wake-ups is a function of the wake-up's number; one that
  the task does not live to see is never used. \<open>Landed\<close> holds the error the transaction
  ended with, \<open>NotLanded\<close> is the metric label "expired".
\<close>

datatype wake_up =
    LogOf signature "TransactionError option"
  | LogLost
  | Tick "TransactionError option option"

datatype send_result = Landed "TransactionError option" | NotLanded

text \<open>\<open>Some (r, n)\<close>: the task ended with result r after n resends; \<open>None\<close>: the wake-ups did not suffice.\<close>

fun blocking_send_transaction :: "signature \<Rightarrow> wake_up list \<Rightarrow> nat \<Rightarrow> (send_result \<times> nat) option" where
  "blocking_send_transaction sig ws retry_count =
     (if retry_count < SEND_TRANSACTION_RETRY_COUNT_SVM then
        (case ws of
           [] \<Rightarrow> None
         | LogOf sig' err # ws \<Rightarrow>
             if sig' = sig then Some (Landed err, retry_count) else blocking_send_transaction sig ws retry_count
         | LogLost # ws \<Rightarrow> blocking_send_transaction sig ws retry_count
         | Tick (Some err) # ws \<Rightarrow> Some (Landed err, retry_count)
         | Tick None # ws \<Rightarrow> blocking_send_transaction sig ws (retry_count + 1))
      else Some (NotLanded, retry_count))"

declare blocking_send_transaction.simps [simp del]


subsection \<open>Winners\<close>

definition AUCTION_MINIMUM_LIFETIME :: time where
  "AUCTION_MINIMUM_LIFETIME = 400000000"

definition by_amount :: "bid list \<Rightarrow> bid list" where
  "by_amount bids = sort_key (\<lambda>b. - uint (b_amount b)) bids"

definition get_winner_bids ::
  "(tx list \<Rightarrow> 'v option) \<Rightarrow> ('v \<Rightarrow> tx \<Rightarrow> 'v \<times> bool) \<Rightarrow> time \<Rightarrow> auction \<Rightarrow>
   'z server_scheme \<Rightarrow> 'z server_scheme \<times> bid list" where
  "get_winner_bids setup send now a s =
     (let bids = by_amount (a_bids a); (p, found) = simulator_optimize_bids setup send now bids (srv_pending s)
      in (s\<lparr>srv_pending := p\<rparr>,
          case found of Some winners \<Rightarrow> winners | None \<Rightarrow> (case bids of b # _ \<Rightarrow> [b] | [] \<Rightarrow> [])))"

definition submit_bids ::
  "env \<Rightarrow> time \<Rightarrow> bid list \<Rightarrow> 'z server_scheme \<Rightarrow> 'z server_scheme \<times> signature outcome" where
  "submit_bids env now bids s =
     (if bids = [] then (s, Inl (Fails NoWinner))
      else
        seq (yields (each_rest (add_relayer_signature env) bids)) (\<lambda>signed s.
          (fold (\<lambda>b s. fst (send_transaction now b s :: 'z server_scheme \<times> signature outcome)) signed s,
           rbind (each_rest (\<lambda>b. first_signature (cd_transaction (b_chain_data b))) signed) (\<lambda>results. Inr (hd results)))) s)"

definition get_new_status :: "bid \<Rightarrow> bid list \<Rightarrow> BidStatusAuction \<Rightarrow> BidStatusSvm outcome" where
  "get_new_status b winner_bids sa =
     (if \<exists>w\<in>set winner_bids. b_id w = b_id b
      then rbind (first_signature (cd_transaction (b_chain_data b))) (\<lambda>sig. Inr (Submitted (sa\<lparr>sa_tx_hash := sig\<rparr>)))
      else Inr (Lost (Some sa)))"


subsection \<open>Handling an auction\<close>

definition add_auction :: "auction \<Rightarrow> ('z server_scheme, auction) action" where
  "add_auction a =
     seq (\<lambda>s. fails_as unavailable (on_repo (repo_add_auction a) s)) (\<lambda>a s.
       (s\<lparr>conclusion_tasks := a_id a # conclusion_tasks s\<rparr>, Inr a))"

definition submit_auction ::
  "env \<Rightarrow> (tx list \<Rightarrow> 'v option) \<Rightarrow> ('v \<Rightarrow> tx \<Rightarrow> 'v \<times> bool) \<Rightarrow> time \<Rightarrow> auction \<Rightarrow>
   'z server_scheme \<Rightarrow> 'z server_scheme \<times> unit outcome" where
  "submit_auction env setup send now a s =
     (if \<not> is_ready a AUCTION_MINIMUM_LIFETIME then (s, Inr ())
      else
        let (s, winner_bids) = get_winner_bids setup send now a s in
        if winner_bids = [] then (update_all now (map (\<lambda>b. (new_lost, b)) (a_bids a)) s, Inr ())
        else
          seq (\<lambda>s. fails_as Rest (add_auction a s)) (\<lambda>a s.
            case submit_bids env now winner_bids s of
              (s, Inl Panics) \<Rightarrow> (s, Inl Panics)
            | (s, Inl (Fails _)) \<Rightarrow> (s, Inr ())
            | (s, Inr tx_hash) \<Rightarrow>
                seq (on_repo (repo_submit_auction a tx_hash (map b_id winner_bids) now)) (\<lambda>a.
                seq (yields (each_rest (\<lambda>b. get_new_status b winner_bids \<lparr>sa_id = a_id a, sa_tx_hash = tx_hash\<rparr>)
                       (a_bids a))) (\<lambda>sts s.
                  (update_all now (zip sts (a_bids a)) s, Inr ()))) s) s)"

definition submit_auction_for_lock ::
  "env \<Rightarrow> (tx list \<Rightarrow> 'v option) \<Rightarrow> ('v \<Rightarrow> tx \<Rightarrow> 'v \<times> bool) \<Rightarrow> uuid \<Rightarrow> time \<Rightarrow> u8 list \<Rightarrow>
   'z server_scheme \<Rightarrow> 'z server_scheme \<times> unit outcome" where
  "submit_auction_for_lock env setup send new_id now permission_key s =
     (case Auction_try_new new_id now
             (get_in_memory_pending_bids_by_permission_key (auction_repo s) permission_key) now of
        Some a \<Rightarrow> submit_auction env setup send now a s
      | None \<Rightarrow> (s, Inr ()))"

definition get_submission_state :: "string \<Rightarrow> u8 list \<Rightarrow> 'z opp_state_scheme \<Rightarrow> SubmitType" where
  "get_submission_state ch permission_key s =
     (case get_bid_payment_instruction_type permission_key of
        Some SwapPayment \<Rightarrow>
          if get_in_memory_opportunities_by_key s (ch, permission_key) = [] then InvalidSubmitType else ByOther
      | Some SubmitBidPayment \<Rightarrow> ByServer
      | None \<Rightarrow> InvalidSubmitType)"

text \<open>
  Work done while holding a lock of a key: the mutex is fetched, the work done, the reference dropped
  and the lock removed from the table when nobody else has it; a panic skips the removal.
\<close>

definition locked ::
  "('s \<Rightarrow> 'k locks) \<Rightarrow> (('k locks \<Rightarrow> 'k locks) \<Rightarrow> 's \<Rightarrow> 's) \<Rightarrow> 'k \<Rightarrow> ('s \<Rightarrow> 's \<times> ('e stop + 'a)) \<Rightarrow>
   's \<Rightarrow> 's \<times> ('e stop + 'a)" where
  "locked locks_of update_locks key work s =
     (let (m, l) = get_or_create_lock key (locks_of s);
          (s', res) = work (update_locks (\<lambda>_. l) s);
          s'' = update_locks (drop_lock key m) s'
      in (if res = Inl Panics then s'' else update_locks (remove_lock key) s'', res))"

definition handle_auction ::
  "env \<Rightarrow> string \<Rightarrow> (tx list \<Rightarrow> 'v option) \<Rightarrow> ('v \<Rightarrow> tx \<Rightarrow> 'v \<times> bool) \<Rightarrow> uuid \<Rightarrow> time \<Rightarrow> u8 list \<Rightarrow>
   'z server_scheme \<Rightarrow> 'z server_scheme \<times> unit outcome" where
  "handle_auction env ch setup send new_id now permission_key s =
     (case get_submission_state ch permission_key s of
        ByOther \<Rightarrow> (s, Inr ())
      | ByServer \<Rightarrow>
          locked auction_locks auction_locks_update permission_key
            (submit_auction_for_lock env setup send new_id now permission_key) s
      | InvalidSubmitType \<Rightarrow>
          (update_all now (map (\<lambda>b. (new_lost, b)) (filter (\<lambda>b. is_pending (b_status b))
             (get_in_memory_pending_bids_by_permission_key (auction_repo s) permission_key))) s, Inr ()))"

definition get_permission_keys_for_auction :: "'z caches_scheme \<Rightarrow> u8 list list" where
  "get_permission_keys_for_auction s =
     map fst (filter (\<lambda>(key, bids). \<exists>b\<in>set bids. is_pending (b_status b)) (pending_bids (auction_repo s)))"

text \<open>One trigger: a task per key, each with a fresh id; errors are only logged.\<close>

definition handle_auctions ::
  "env \<Rightarrow> string \<Rightarrow> (tx list \<Rightarrow> 'v option) \<Rightarrow> ('v \<Rightarrow> tx \<Rightarrow> 'v \<times> bool) \<Rightarrow> (u8 list \<Rightarrow> uuid) \<Rightarrow> time \<Rightarrow>
   'z server_scheme \<Rightarrow> 'z server_scheme" where
  "handle_auctions env ch setup send new_id now s =
     fold (\<lambda>key s. fst (handle_auction env ch setup send (new_id key) now key s))
       (get_permission_keys_for_auction s) s"

definition handle_bid ::
  "env \<Rightarrow> string \<Rightarrow> simulation \<Rightarrow> clock_readings \<Rightarrow> uuid \<Rightarrow> time \<Rightarrow> BidCreate \<Rightarrow> ('z opp_state_scheme, bid) action" where
  "handle_bid env ch sim clk new_id now bid_create =
     seq (verify_bid env ch sim clk bid_create) (\<lambda>(chain_data, amount) s.
       case repo_add_bid new_id now (bc_initiation_time bid_create) (bc_profile bid_create)
              (get_opportunity_id (bc_chain_data bid_create)) chain_data amount (auction_repo s) of
         (r, Inl e) \<Rightarrow> (s\<lparr>auction_repo := r\<rparr>, Inl (Fails e))
       | (r, Inr b) \<Rightarrow> (s\<lparr>auction_repo := r\<rparr>, Inr b))"


subsection \<open>Concluding auctions\<close>

definition MAXIMUM_BID_LIFE_TIME :: time where
  "MAXIMUM_BID_LIFE_TIME = seconds 120"

text \<open>What the RPC node reports of a signature: the error it ended with and whether it is confirmed.\<close>

record signature_status =
  ss_err :: "TransactionError option"
  ss_confirmed :: bool

definition failed_with :: "BidStatusAuction \<Rightarrow> TransactionError option \<Rightarrow> BidStatusSvm" where
  "failed_with sa err = (case err of
     Some e \<Rightarrow> Failed sa (Some (get_failed_reason_from_transaction_error e)) | None \<Rightarrow> Won sa)"

definition bid_result :: "time \<Rightarrow> uuid \<Rightarrow> signature_status option \<Rightarrow> bid \<Rightarrow> signature \<Rightarrow> BidStatusSvm option" where
  "bid_result now auction_id st b sig =
     (let sa = \<lparr>sa_id = auction_id, sa_tx_hash = sig\<rparr> in
      case st of
        Some res \<Rightarrow> Some (failed_with sa (ss_err res))
      | None \<Rightarrow> if b_initiation_time b + MAXIMUM_BID_LIFE_TIME < now then Some (Expired sa) else None)"

definition remove_confirmed ::
  "signature_status option list \<Rightarrow> signature list \<Rightarrow> 'm pending \<Rightarrow> 'm pending" where
  "remove_confirmed statuses sigs p =
     fold (\<lambda>(st, sig) p. if st = None then p else remove_pending_transaction sig p) (zip statuses sigs) p"

definition get_bid_results ::
  "(signature list \<Rightarrow> unit + signature_status option list) \<Rightarrow> time \<Rightarrow> bid list \<Rightarrow> uuid \<Rightarrow>
   'z server_scheme \<Rightarrow> 'z server_scheme \<times> BidStatusSvm option list outcome" where
  "get_bid_results rpc now bids auction_id =
     (if bids = [] then yields (Inr [])
      else
        seq (yields (each_rest (\<lambda>b. first_signature (cd_transaction (b_chain_data b))) bids)) (\<lambda>sigs.
        seq (yields (if \<exists>b\<in>set bids. is_submitted (b_status b) \<or> is_sent_to_user_for_submission (b_status b)
               then (case rpc sigs of
                       Inl _ \<Rightarrow> Inl (Fails RpcError)
                     | Inr answer \<Rightarrow> Inr (map (\<lambda>st. case st of
                         Some x \<Rightarrow> if ss_confirmed x then Some x else None | None \<Rightarrow> None) answer))
               else Inr (replicate (length bids) None))) (\<lambda>statuses s.
          (s\<lparr>srv_pending := remove_confirmed statuses sigs (srv_pending s)\<rparr>,
           Inr (map (\<lambda>(st, b, sig). bid_result now auction_id st b sig) (zip statuses (zip bids sigs)))))))"

definition is_auction_expired :: "time \<Rightarrow> auction \<Rightarrow> bool" where
  "is_auction_expired now a \<longleftrightarrow> a_creation_time a + MAXIMUM_BID_LIFE_TIME * 2 < now"

definition conclude_auction_with_statuses ::
  "time \<Rightarrow> auction \<Rightarrow> (BidStatusSvm \<times> bid) list \<Rightarrow> 'z opp_state_scheme \<Rightarrow> 'z opp_state_scheme \<times> unit outcome" where
  "conclude_auction_with_statuses now a bid_statuses s =
     (let s = update_all now bid_statuses s in
      case get_in_memory_auction_by_id (auction_repo s) (a_id a) of
        None \<Rightarrow> (s, Inr ())
      | Some a' \<Rightarrow>
          if \<forall>b\<in>set (a_bids a'). is_concluded (b_status b) then on_repo (repo_conclude_auction (a_id a') now) s
          else if is_auction_expired now a' then on_repo (repo_conclude_auction (a_id a') now) s
          else (s, Inr ()))"

definition conclude_auction ::
  "(signature list \<Rightarrow> unit + signature_status option list) \<Rightarrow> time \<Rightarrow> auction \<Rightarrow>
   'z server_scheme \<Rightarrow> 'z server_scheme \<times> unit outcome" where
  "conclude_auction rpc now a =
     (case a_tx_hash a of
        Some tx_hash \<Rightarrow>
          (let bids = filter (\<lambda>b. \<not> is_concluded (b_status b)) (a_bids a) in
           seq (get_bid_results rpc now bids (a_id a)) (\<lambda>bid_statuses.
             conclude_auction_with_statuses now a
               (concat (map (\<lambda>(st, b). case st of Some x \<Rightarrow> [(x, b)] | None \<Rightarrow> []) (zip bid_statuses bids)))))
      | None \<Rightarrow>
          if is_auction_expired now a
          then conclude_auction_with_statuses now a (map (\<lambda>b. (new_lost, b)) (a_bids a))
          else yields (Inr ()))"

text \<open>One round of the conclusion loop of an auction; the loop ends when the auction is gone.\<close>

definition conclude_round ::
  "(signature list \<Rightarrow> unit + signature_status option list) \<Rightarrow> time \<Rightarrow> uuid \<Rightarrow> 'z server_scheme \<Rightarrow> 'z server_scheme" where
  "conclude_round rpc now auction_id s =
     (case get_in_memory_auction_by_id (auction_repo s) auction_id of
        Some a \<Rightarrow>
          (case conclude_auction rpc now a s of
             (s, Inl Panics) \<Rightarrow> s\<lparr>conclusion_tasks := remove1 auction_id (conclusion_tasks s)\<rparr>
           | (s, _) \<Rightarrow> s)
      | None \<Rightarrow> s\<lparr>conclusion_tasks := remove1 auction_id (conclusion_tasks s)\<rparr>)"

text \<open>The first bid whose transaction has the signature; a transaction without any panics.\<close>

fun find_signed :: "signature \<Rightarrow> bid list \<Rightarrow> bid option outcome" where
  "find_signed sig [] = Inr None"
| "find_signed sig (b # bs) =
     rbind (first_signature (cd_transaction (b_chain_data b))) (\<lambda>h.
       if h = sig then Inr (Some b) else find_signed sig bs)"

definition conclude_auction_for_log ::
  "time \<Rightarrow> auction \<Rightarrow> signature \<Rightarrow> TransactionError option \<Rightarrow> 'z opp_state_scheme \<Rightarrow> 'z opp_state_scheme \<times> unit outcome" where
  "conclude_auction_for_log now a sig err =
     seq (yields (find_signed sig (a_bids a))) (\<lambda>found.
       case found of
         Some b \<Rightarrow> conclude_auction_with_statuses now a
           [(failed_with \<lparr>sa_id = a_id a, sa_tx_hash = sig\<rparr> err, b)]
       | None \<Rightarrow> yields (Inr ()))"

text \<open>A confirmed log: every auction in memory with a bid of that signature is concluded by it.\<close>

definition handle_log ::
  "time \<Rightarrow> signature \<Rightarrow> TransactionError option \<Rightarrow> 'z opp_state_scheme \<Rightarrow> 'z opp_state_scheme" where
  "handle_log now sig err s =
     (case each_rest (\<lambda>a. find_signed sig (a_bids a)) (get_in_memory_auctions (auction_repo s)) of
        Inl _ \<Rightarrow> s
      | Inr found \<Rightarrow>
          fold (\<lambda>(a, b) s. if b = None then s else fst (conclude_auction_for_log now a sig err s))
            (zip (get_in_memory_auctions (auction_repo s)) found) s)"


subsection \<open>Watching the chain\<close>

text \<open>\<open>rpc_fees\<close> is the node's answer, slots with their fee.\<close>

definition median :: "u64 list \<Rightarrow> u64 rest" where
  "median values = (if values = [] then Inl Panics else Inr (sort values ! (length values div 2)))"

definition update_recent_prioritization_fee ::
  "unit + (u64 \<times> u64) list \<Rightarrow> time \<Rightarrow> ('z caches_scheme, u64) action" where
  "update_recent_prioritization_fee rpc_fees now =
     (case rpc_fees of
        Inl _ \<Rightarrow> fails TemporarilyUnavailable
      | Inr values \<Rightarrow>
          seq (yields (median (map snd (take RECENT_FEES_SLOT_WINDOW (sort_key (\<lambda>(slot, f). - uint slot) values))))) (\<lambda>f s.
            (s\<lparr>auction_repo := add_recent_prioritization_fee f now (auction_repo s)\<rparr>, Inr f)))"

text \<open>One round of the watcher; a failure of either request ends the loop.\<close>

definition watcher_round ::
  "unit + 256 word \<Rightarrow> unit + (u64 \<times> u64) list \<Rightarrow> time \<Rightarrow> 'z opp_state_scheme \<Rightarrow> 'z opp_state_scheme \<times> unit outcome" where
  "watcher_round blockhash rpc_fees now s =
     (case update_recent_prioritization_fee rpc_fees now s of
        (s, Inl Panics) \<Rightarrow> (s, Inl Panics)
      | (s, res) \<Rightarrow>
          (case (blockhash, res) of
             (Inl _, _) \<Rightarrow> (s, Inl (Fails RpcError))
           | (Inr _, Inl _) \<Rightarrow> (s, Inl (Fails RpcError))
           | (Inr h, Inr f) \<Rightarrow> (emit (SvmChainUpdate (chain_id (auction_repo s)) h f) s, Inr ())))"

definition get_bid :: "uuid \<Rightarrow> ('z caches_scheme, bid) action" where
  "get_bid bid_id s = (s, lift_rest (repo_get_bid (auction_repo s) bid_id))"

definition get_auction_by_id :: "uuid \<Rightarrow> 'z caches_scheme \<Rightarrow> auction option" where
  "get_auction_by_id auction_id s = get_in_memory_auction_by_id (auction_repo s) auction_id"

definition get_pending_bids :: "u8 list \<Rightarrow> 'z caches_scheme \<Rightarrow> bid list" where
  "get_pending_bids permission_key s = get_in_memory_pending_bids_by_permission_key (auction_repo s) permission_key"


subsection \<open>Tasks in any order\<close>

text \<open>
  The handlers run as concurrent tasks, and a status update is three steps of its task: the write to
  the database, the change of memory, and the announcement on the event channel. \<open>in_flight\<close> are the
  accepted writes whose announcement has not been made yet; any step of any other task may come
  between. The writes of the repository are single steps; everything else the server does leaves
  the database and the announcements as they are.
\<close>

definition announced :: "uuid \<Rightarrow> 'z opp_state_scheme \<Rightarrow> BidStatusSvm list" where
  "announced i s = concat (map (\<lambda>e. case e of BidStatusUpdate j st \<Rightarrow> if j = i then [st] else [] | _ \<Rightarrow> []) (events s))"

type_synonym 'z running = "(uuid \<times> BidStatusSvm) list \<times> 'z opp_state_scheme"

inductive task_step :: "'z running \<Rightarrow> 'z running \<Rightarrow> bool" where
  accepted: "repo_update_bid_status b st now (auction_repo s) = (r, Inr (True, c)) \<Longrightarrow>
     task_step (in_flight, s) ((b_id b, st) # in_flight, s\<lparr>auction_repo := r\<rparr>)"
| refused: "repo_update_bid_status b st now (auction_repo s) = (r, res) \<Longrightarrow> (\<And>c. res \<noteq> Inr (True, c)) \<Longrightarrow>
     task_step (in_flight, s) (in_flight, s\<lparr>auction_repo := r\<rparr>)"
| announce: "(i, st) \<in> set in_flight \<Longrightarrow>
     task_step (in_flight, s) (remove1 (i, st) in_flight, emit (BidStatusUpdate i st) s)"
| add_bid: "repo_add_bid i now t p oid c amount (auction_repo s) = (r, res) \<Longrightarrow>
     task_step (in_flight, s) (in_flight, s\<lparr>auction_repo := r\<rparr>)"
| add_auction: "repo_add_auction a (auction_repo s) = (r, res') \<Longrightarrow>
     task_step (in_flight, s) (in_flight, s\<lparr>auction_repo := r\<rparr>)"
| submit: "repo_submit_auction a h ids now (auction_repo s) = (r, res') \<Longrightarrow>
     task_step (in_flight, s) (in_flight, s\<lparr>auction_repo := r\<rparr>)"
| conclude: "repo_conclude_auction i now (auction_repo s) = (r, res'') \<Longrightarrow>
     task_step (in_flight, s) (in_flight, s\<lparr>auction_repo := r\<rparr>)"
| elsewhere: "repo_db (auction_repo s') = (repo_db (auction_repo s))\<lparr>db_up := up\<rparr> \<Longrightarrow>
     (\<And>i. announced i s' = announced i s) \<Longrightarrow> task_step (in_flight, s) (in_flight, s')"

definition stage :: "BidStatusSvm \<Rightarrow> nat" where
  "stage st = progress (convert_bid_status st)"

definition outcomes :: "uuid \<Rightarrow> 'z running \<Rightarrow> BidStatusSvm list" where
  "outcomes i x = (case x of (in_flight, s) \<Rightarrow> map snd (filter (\<lambda>(j, st). j = i) in_flight) @ announced i s)"

definition outcomes_ok :: "'z running \<Rightarrow> bool" where
  "outcomes_ok x \<longleftrightarrow> (\<forall>i. distinct (map stage (outcomes i x)) \<and>
     (\<forall>st\<in>set (outcomes i x). 0 < stage st \<and>
        (\<exists>row. db_bids (repo_db (auction_repo (snd x))) i = Some row \<and> stage st \<le> progress (r_status row))))"

lemma announced_emit [simp]:
  "announced i (emit (BidStatusUpdate j st) s) = announced i s @ (if j = i then [st] else [])"
  "announced i (emit (NewOpportunity x) s) = announced i s"
  "announced i (emit (RemoveOpportunitiesEvent d) s) = announced i s"
  "announced i (emit (SvmChainUpdate ch h f) s) = announced i s"
  by (simp_all add: announced_def emit_def)

lemma announced_repo [simp]: "announced i (s\<lparr>auction_repo := r\<rparr>) = announced i s"
  by (simp add: announced_def)

lemma emit_repo [simp]: "auction_repo (emit e s) = auction_repo s"
  by (simp add: emit_def)

lemma query_stage: "get_update_bid_query st now = Inr (u, c) \<Longrightarrow> bu_status u = convert_bid_status st"
  by (cases "(st, now)" rule: get_update_bid_query.cases) auto

lemma accepted_update:
  assumes "repo_update_bid_status b st now r = (r', Inr (True, c))"
  shows "\<exists>u row. get_update_bid_query st now = Inr (u, c) \<and> db_bids (repo_db r) (b_id b) = Some row \<and>
    r_status row \<in> set (bu_where u) \<and>
    repo_db r' = (repo_db r)\<lparr>db_bids := (db_bids (repo_db r))(b_id b \<mapsto> apply_update u row)\<rparr>"
proof -
  from assms obtain d where "db_update_bid_status (repo_db r) (b_id b) st now = Inr (d, True, c)"
    and "repo_db r' = d"
    by (auto simp: repo_update_bid_status_def Let_def split: sum.splits if_splits prod.splits)
  then show ?thesis
    by (auto simp: db_update_bid_status_def rbind_Inr_iff split: option.splits if_splits)
qed

lemma refused_update:
  assumes "repo_update_bid_status b st now r = (r', res)" and "\<And>c. res \<noteq> Inr (True, c)"
  shows "repo_db r' = repo_db r"
proof -
  have "d = repo_db r" if "db_update_bid_status (repo_db r) (b_id b) st now = Inr (d, False, c)" for d c
    using that by (auto simp: db_update_bid_status_def rbind_Inr_iff split: option.splits if_splits)
  moreover have "\<not> is_pending st" if "db_update_bid_status (repo_db r) (b_id b) st now = Inr x" for x
    using that by (cases st) (auto simp: db_update_bid_status_def)
  ultimately show ?thesis
    using assms by (auto simp: repo_update_bid_status_def Let_def split: sum.splits if_splits prod.splits)
qed

lemma outcomes_ok_rows:
  assumes "outcomes_ok x" and "\<And>i. mset (outcomes i x') = mset (outcomes i x)"
    and "\<And>i row. db_bids (repo_db (auction_repo (snd x))) i = Some row \<Longrightarrow>
      \<exists>row'. db_bids (repo_db (auction_repo (snd x'))) i = Some row' \<and> r_status row' = r_status row"
  shows "outcomes_ok x'"
  unfolding outcomes_ok_def
proof (intro allI conjI ballI)
  fix i
  have m: "mset (map stage (outcomes i x')) = mset (map stage (outcomes i x))"
    by (simp only: mset_map assms(2))
  with assms(1) show "distinct (map stage (outcomes i x'))"
    unfolding outcomes_ok_def using mset_eq_imp_distinct_iff by blast
  fix st
  assume "st \<in> set (outcomes i x')"
  then have "st \<in> set (outcomes i x)" using assms(2) by (metis set_mset_mset)
  with assms(1) have "0 < stage st \<and> (\<exists>row. db_bids (repo_db (auction_repo (snd x))) i = Some row \<and>
      stage st \<le> progress (r_status row))" unfolding outcomes_ok_def by blast
  with assms(3) show "0 < stage st"
    "\<exists>row. db_bids (repo_db (auction_repo (snd x'))) i = Some row \<and> stage st \<le> progress (r_status row)"
    by fastforce+
qed


lemma repo_rows_kept:
  "repo_add_auction a r = (r', res1) \<Longrightarrow> db_bids (repo_db r') = db_bids (repo_db r)"
  "repo_submit_auction a h ids now r = (r', res1) \<Longrightarrow> db_bids (repo_db r') = db_bids (repo_db r)"
  "repo_conclude_auction i now r = (r', res2) \<Longrightarrow> db_bids (repo_db r') = db_bids (repo_db r)"
  by (auto simp: repo_add_auction_def repo_submit_auction_def repo_conclude_auction_def Let_def
      db_bids_unchanged split: sum.splits option.splits prod.splits)

lemma repo_add_bid_rows:
  "repo_add_bid i now t p oid c amount r = (r', res) \<Longrightarrow> db_bids (repo_db r) j = Some row \<Longrightarrow>
     db_bids (repo_db r') j = Some row"
  by (auto simp: repo_add_bid_def Let_def db_add_bid_def split: sum.splits if_splits)

lemma in_flight_remove:
  "(i, st) \<in> set fl \<Longrightarrow>
     mset (map snd (filter (\<lambda>(j, st). j = k) fl)) =
     (if i = k then add_mset st else id) (mset (map snd (filter (\<lambda>(j, st). j = k) (remove1 (i, st) fl))))"
  by (induction fl) auto

lemma task_step_ok:
  assumes "task_step x y" and ok: "outcomes_ok x"
  shows "outcomes_ok y"
  using assms(1)
proof cases
  case (accepted b st now s r c in_flight)
  from accepted_update [OF accepted(3)] obtain u row where
    q: "get_update_bid_query st now = Inr (u, c)" and row: "db_bids (repo_db (auction_repo s)) (b_id b) = Some row"
    and wh: "r_status row \<in> set (bu_where u)"
    and db: "repo_db r = (repo_db (auction_repo s))\<lparr>db_bids :=
      (db_bids (repo_db (auction_repo s)))(b_id b \<mapsto> apply_update u row)\<rparr>" by blast
  have more: "progress (r_status row) < stage st"
    using update_query_where [OF q wh] query_stage [OF q] by (simp add: stage_def)
  have new: "outcomes i y = (if i = b_id b then [st] else []) @ outcomes i x" for i
    using accepted by (simp add: outcomes_def)
  have old: "distinct (map stage (outcomes i x))" for i using ok unfolding outcomes_ok_def by blast
  have below: "0 < stage st' \<and> (\<exists>row. db_bids (repo_db (auction_repo s)) i = Some row \<and> stage st' \<le> progress (r_status row))"
    if "st' \<in> set (outcomes i x)" for i st'
    using ok that accepted(1) unfolding outcomes_ok_def by (metis snd_conv)
  have status: "r_status (apply_update u row) = convert_bid_status st" using query_stage [OF q] by simp
  show ?thesis
    unfolding outcomes_ok_def
  proof (intro allI conjI ballI)
    fix i
    have "stage st \<notin> set (map stage (outcomes (b_id b) x))"
      using below [of _ "b_id b"] row more by fastforce
    then show "distinct (map stage (outcomes i y))" using old [of i] by (simp add: new)
  next
    fix i st'
    assume mem: "st' \<in> set (outcomes i y)"
    then consider "i = b_id b" "st' = st" | "st' \<in> set (outcomes i x)" by (auto simp: new split: if_splits)
    then show "0 < stage st'" using more below by cases fastforce+
    show "\<exists>row. db_bids (repo_db (auction_repo (snd y))) i = Some row \<and> stage st' \<le> progress (r_status row)"
    proof (cases "i = b_id b")
      case True
      then have "stage st' \<le> stage st"
        using mem below [of st' i] row more by (fastforce simp: new)
      then show ?thesis using True accepted(2) db status by (simp add: stage_def)
    next
      case False
      then have "st' \<in> set (outcomes i x)" using mem by (simp add: new)
      with False show ?thesis using below [of st' i] db by (simp add: accepted(2))
    qed
  qed
next
  case (refused b st now s r res in_flight)
  then show ?thesis using ok refused_update [OF refused(3,4)]
    by (intro outcomes_ok_rows [OF ok]) (auto simp: outcomes_def)
next
  case (announce i st in_flight s)
  then show ?thesis
    by (intro outcomes_ok_rows [OF ok]) (auto simp: outcomes_def in_flight_remove simp del: mset_map mset_filter mset_remove1)
next
  case (add_bid i now t p oid c amount s r res in_flight)
  then show ?thesis by (intro outcomes_ok_rows [OF ok]) (auto simp: outcomes_def dest: repo_add_bid_rows)
next
  case (add_auction a s r res' in_flight)
  then show ?thesis by (intro outcomes_ok_rows [OF ok]) (auto simp: outcomes_def dest: repo_rows_kept)
next
  case (submit a h ids now s r res' in_flight)
  then show ?thesis by (intro outcomes_ok_rows [OF ok]) (auto simp: outcomes_def dest: repo_rows_kept)
next
  case (conclude i now s r res'' in_flight)
  then show ?thesis by (intro outcomes_ok_rows [OF ok]) (auto simp: outcomes_def dest: repo_rows_kept)
next
  case (elsewhere s' s up in_flight)
  then show ?thesis by (intro outcomes_ok_rows [OF ok]) (auto simp: outcomes_def)
qed


lemma running_ok:
  assumes "task_step\<^sup>*\<^sup>* ([], s0) (in_flight, s)" and "db_bids (repo_db (auction_repo s0)) = Map.empty"
    and "\<And>i. announced i s0 = []"
  shows "outcomes_ok (in_flight, s)"
  using assms(1)
proof (induction rule: rtranclp_induct)
  case base
  show ?case by (simp add: outcomes_ok_def outcomes_def assms(3))
next
  case (step x y)
  then show ?case by (blast intro: task_step_ok)
qed

lemma stages:
  "stage (AwaitingSignature a) = 1" "stage (SentToUserForSubmission a) = 1"
  "stage (Submitted a) = 2" "stage (Cancelled a) = 2"
  "stage (Lost x) = 3" "stage (Won a) = 3" "stage (Failed a r) = 3" "stage (Expired a) = 3"
  "stage (SubmissionFailed a f) = 3"
  by (simp_all add: stage_def) (cases f; simp)

lemma stage_le: "stage st \<le> 3"
  by (cases "convert_bid_status st") (simp_all add: stage_def)

lemma stage_final: "is_concluded st \<Longrightarrow> \<not> is_cancelled st \<Longrightarrow> stage st = 3"
  by (cases st) (simp_all add: stages)

text \<open>
  Property C19. However the server's tasks interleave, what clients are told of a bid is one
  consistent life: no two announcements of a bid are of the same stage, so there are at most three
  of them, at most one final outcome (won, lost, failed, expired or failed submission), never both a
  submission and a cancellation, and never both a request for the user's signature and a direct
  hand-over to the user.
\<close>

theorem announcements_consistent:
  assumes "task_step\<^sup>*\<^sup>* ([], s0) (in_flight, s)" and "db_bids (repo_db (auction_repo s0)) = Map.empty"
    and "\<forall>i. announced i s0 = []"
  shows "distinct (map stage (announced i s)) \<and> length (announced i s) \<le> 3 \<and>
    (\<forall>st\<in>set (announced i s). \<forall>st'\<in>set (announced i s).
       is_concluded st \<and> \<not> is_cancelled st \<and> is_concluded st' \<and> \<not> is_cancelled st' \<longrightarrow> st = st') \<and>
    \<not> (\<exists>a b. Submitted a \<in> set (announced i s) \<and> Cancelled b \<in> set (announced i s)) \<and>
    \<not> (\<exists>a b. AwaitingSignature a \<in> set (announced i s) \<and> SentToUserForSubmission b \<in> set (announced i s))"
proof -
  have ok: "outcomes_ok (in_flight, s)" using assms by (intro running_ok [of s0]) auto
  then have "distinct (map stage (outcomes i (in_flight, s)))" unfolding outcomes_ok_def by blast
  then have d: "distinct (map stage (announced i s))" by (simp add: outcomes_def)
  have inj: "st = st'" if "st \<in> set (announced i s)" "st' \<in> set (announced i s)" "stage st = stage st'" for st st'
    using d that by (auto simp: distinct_map inj_on_def)
  have "set (announced i s) \<subseteq> set (outcomes i (in_flight, s))" by (simp add: outcomes_def)
  then have "stage ` set (announced i s) \<subseteq> {1..3}"
    using ok stage_le unfolding outcomes_ok_def by (fastforce simp: Suc_le_eq)
  then have "card (stage ` set (announced i s)) \<le> card {1..3::nat}" by (rule card_mono [rotated]) simp
  then have "length (announced i s) \<le> 3"
    using distinct_card [OF d] by simp
  then show ?thesis using d inj stage_final by (metis BidStatusSvm.distinct(1) stages(1,2,3,4) BidStatusSvm.simps)
qed


text \<open>The handlers themselves take such steps only.\<close>

definition runs_as_tasks :: "('z opp_state_scheme \<Rightarrow> 'z opp_state_scheme \<times> 'r) \<Rightarrow> bool" where
  "runs_as_tasks m \<longleftrightarrow> (\<forall>fl s. task_step\<^sup>*\<^sup>* (fl, s) (fl, fst (m s)))"

named_theorems task_intros

lemma tasks_elsewhere:
  assumes "\<And>s. repo_db (auction_repo (fst (m s))) = repo_db (auction_repo s)"
    and "\<And>s i. announced i (fst (m s)) = announced i s"
  shows "runs_as_tasks m"
  unfolding runs_as_tasks_def
proof (intro allI r_into_rtranclp)
  fix fl s
  have "repo_db (auction_repo (fst (m s))) = (repo_db (auction_repo s))\<lparr>db_up := db_up (repo_db (auction_repo s))\<rparr>"
    using assms(1) by simp
  then show "task_step (fl, s) (fl, fst (m s))" using assms(2) by (rule task_step.elsewhere)
qed

lemma tasks_yields [task_intros]: "runs_as_tasks (yields r)"
  by (simp add: runs_as_tasks_def yields_def)

lemma tasks_seq [task_intros]:
  assumes "runs_as_tasks m" and "\<And>x. runs_as_tasks (f x)"
  shows "runs_as_tasks (seq m f)"
  unfolding runs_as_tasks_def
proof (intro allI)
  fix fl :: "(uuid \<times> BidStatusSvm) list" and s
  obtain s' x where m: "m s = (s', x)" by fastforce
  with assms(1) have first: "task_step\<^sup>*\<^sup>* (fl, s) (fl, s')" unfolding runs_as_tasks_def by (metis fst_conv)
  show "task_step\<^sup>*\<^sup>* (fl, s) (fl, fst (seq m f s))"
  proof (cases x)
    case (Inr y)
    with assms(2) have "task_step\<^sup>*\<^sup>* (fl, s') (fl, fst (f y s'))" unfolding runs_as_tasks_def by blast
    with first m Inr show ?thesis by (simp add: seq_def)
  qed (use first m in \<open>simp add: seq_def\<close>)
qed

lemma tasks_if [task_intros]: "runs_as_tasks m \<Longrightarrow> runs_as_tasks m' \<Longrightarrow> runs_as_tasks (if b then m else m')"
  by simp

lemma tasks_option [task_intros]:
  "runs_as_tasks m \<Longrightarrow> (\<And>a. runs_as_tasks (n a)) \<Longrightarrow> runs_as_tasks (case x of None \<Rightarrow> m | Some a \<Rightarrow> n a)"
  by (cases x) simp_all

lemma tasks_on_repo:
  assumes "\<And>fl (s :: 'z opp_state_scheme). task_step (fl, s) (fl, s\<lparr>auction_repo := fst (f (auction_repo s))\<rparr>)"
  shows "runs_as_tasks (on_repo f :: 'z opp_state_scheme \<Rightarrow> _)"
proof -
  have "fst (on_repo f s) = s\<lparr>auction_repo := fst (f (auction_repo s))\<rparr>" for s :: "'z opp_state_scheme"
    by (auto simp: on_repo_def split: prod.splits sum.splits)
  with assms show ?thesis by (simp add: runs_as_tasks_def r_into_rtranclp)
qed

lemma tasks_repo [task_intros]:
  "runs_as_tasks (on_repo (repo_add_auction a))"
  "runs_as_tasks (on_repo (repo_submit_auction a h ids now))"
  "runs_as_tasks (on_repo (repo_conclude_auction i now))"
  by (rule tasks_on_repo, rule task_step.add_auction, rule surjective_pairing)
    (rule tasks_on_repo, rule task_step.submit, rule surjective_pairing,
     rule tasks_on_repo, rule task_step.conclude, rule surjective_pairing)

lemma update_bid_status_cases:
  obtains (updated) r c where "repo_update_bid_status b st now (auction_repo s) = (r, Inr (True, c))"
      "update_bid_status b st now s = (emit (BidStatusUpdate (b_id b) st) (s\<lparr>auction_repo := r\<rparr>), Inr True)"
  | (unchanged) r c where "repo_update_bid_status b st now (auction_repo s) = (r, Inr (False, c))"
      "update_bid_status b st now s = (s\<lparr>auction_repo := r\<rparr>, Inr False)"
  | (failed) r e where "repo_update_bid_status b st now (auction_repo s) = (r, Inl e)"
      "update_bid_status b st now s = (s\<lparr>auction_repo := r\<rparr>, Inl (Fails TemporarilyUnavailable))"
proof -
  obtain r x where r: "repo_update_bid_status b st now (auction_repo s) = (r, x)" by fastforce
  show ?thesis
  proof (cases x)
    case (Inl e)
    with r show ?thesis
      by (intro failed [of r e]) (simp_all add: update_bid_status_def seq_def on_repo_def fails_as_def unavailable_def)
  next
    case (Inr y)
    obtain u c where y: "y = (u, c)" by fastforce
    with r Inr show ?thesis
      by (cases u) (auto intro: updated unchanged simp: update_bid_status_def seq_def on_repo_def fails_as_def)
  qed
qed

lemma tasks_update [task_intros]: "runs_as_tasks (update_bid_status b st now)"
  unfolding runs_as_tasks_def
proof (intro allI)
  fix fl and s :: "'a opp_state_scheme"
  show "task_step\<^sup>*\<^sup>* (fl, s) (fl, fst (update_bid_status b st now s))"
  proof (cases rule: update_bid_status_cases [of b st now s])
    case (updated r c)
    have "task_step (fl, s) ((b_id b, st) # fl, s\<lparr>auction_repo := r\<rparr>)"
      using updated(1) by (rule task_step.accepted)
    moreover have "task_step ((b_id b, st) # fl, s\<lparr>auction_repo := r\<rparr>)
        (fl, emit (BidStatusUpdate (b_id b) st) (s\<lparr>auction_repo := r\<rparr>))"
      using task_step.announce [of "b_id b" st "(b_id b, st) # fl" "s\<lparr>auction_repo := r\<rparr>"] by simp
    ultimately show ?thesis using updated(2) by (simp add: converse_rtranclp_into_rtranclp)
  next
    case (unchanged r c)
    then show ?thesis using task_step.refused [OF unchanged(1), of fl] by auto
  next
    case (failed r e)
    then show ?thesis using task_step.refused [OF failed(1), of fl] by auto
  qed
qed

lemma tasks_update_all: "task_step\<^sup>*\<^sup>* (fl, s) (fl, update_all now us s)"
proof (induction us arbitrary: s)
  case (Cons u us)
  obtain st b where u: "u = (st, b)" by fastforce
  have "task_step\<^sup>*\<^sup>* (fl, s) (fl, fst (update_bid_status b st now s))"
    using tasks_update unfolding runs_as_tasks_def by blast
  from rtranclp_trans [OF this Cons.IH] show ?case by (simp add: update_all_def u)
qed (simp add: update_all_def)

lemma tasks_update_all_then [task_intros]: "runs_as_tasks m \<Longrightarrow> runs_as_tasks (\<lambda>s. m (update_all now us s))"
  unfolding runs_as_tasks_def by (blast intro: tasks_update_all rtranclp_trans)

lemma tasks_conclude [task_intros]: "runs_as_tasks (conclude_auction_with_statuses now a us)"
proof -
  have "runs_as_tasks (\<lambda>s. case get_in_memory_auction_by_id (auction_repo s) (a_id a) of
        None \<Rightarrow> (s, Inr ())
      | Some a' \<Rightarrow>
          if \<forall>b\<in>set (a_bids a'). is_concluded (b_status b) then on_repo (repo_conclude_auction (a_id a') now) s
          else if is_auction_expired now a' then on_repo (repo_conclude_auction (a_id a') now) s
          else (s, Inr ()))"
    using tasks_repo(3) unfolding runs_as_tasks_def by (auto split: option.split)
  then show ?thesis unfolding conclude_auction_with_statuses_def Let_def by (rule tasks_update_all_then)
qed

lemma tasks_conclude_for_log: "runs_as_tasks (conclude_auction_for_log now a sig err)"
  unfolding conclude_auction_for_log_def by (intro task_intros)



subsection \<open>A concrete run\<close>

definition fresh_bid ::
  "uuid \<Rightarrow> time \<Rightarrow> string \<Rightarrow> time \<Rightarrow> uuid option \<Rightarrow> uuid option \<Rightarrow> 'm BidChainDataSvm \<Rightarrow> u64 \<Rightarrow> 'm Bid" where
  "fresh_bid i now ch t p oid c amount = \<lparr>b_id = i, b_chain_id = ch, b_initiation_time = t, b_profile_id = p,
     b_opportunity_id = oid, b_creation_time = now, b_conclusion_time = None, b_submission_time = None,
     b_amount = amount, b_status = Pending, b_chain_data = c\<rparr>"

lemma fresh_bid_entity:
  "signatures (cd_transaction c) = sig # sigs \<Longrightarrow> get_bid_entity (BidRow_new i now ch t p amount c) None oid = Inr (fresh_bid i now ch t p oid c amount)"
  using uint_lt2p [of amount]
  by (simp add: get_bid_entity_def get_bid_status_entity_def get_bid_amount_entity_def)
    (simp add: BidRow_new_def fresh_bid_def)

lemma repo_add_bid_fresh:
  assumes "db_up (repo_db r)" and "db_bids (repo_db r) i = None" and "signatures (cd_transaction c) = sig # sigs"
  shows "repo_add_bid i now t p oid c amount r =
    (r\<lparr>repo_db := (repo_db r)\<lparr>db_bids := (db_bids (repo_db r))(i \<mapsto> BidRow_new i now (chain_id r) t p amount c)\<rparr>,
       pending_bids := push_pending_bid (pending_bids r) (get_permission_key c) (fresh_bid i now (chain_id r) t p oid c amount)\<rparr>,
     Inr (fresh_bid i now (chain_id r) t p oid c amount))"
proof -
  have "r_id (BidRow_new i now (chain_id r) t p amount c) = i" by (simp add: BidRow_new_def)
  then show ?thesis
    using assms by (simp add: repo_add_bid_def fresh_bid_entity [OF assms(3)] db_add_bid_def) (simp add: fresh_bid_def)
qed

text \<open>A bid is added, marked as lost, and announced.\<close>

definition sample_pending_bid :: bid where
  "sample_pending_bid = fresh_bid 1 10 ''solana'' 9 None None sample_bid_chain_data 500"

definition sample_pending_repo :: "VersionedMessage repo" where
  "sample_pending_repo = fst (repo_add_bid 1 10 9 None None sample_bid_chain_data 500 (Repository_new db_empty ''solana''))"

lemma sample_pending_repo:
  "repo_add_bid 1 10 9 None None sample_bid_chain_data 500 (Repository_new db_empty ''solana'') =
     (sample_pending_repo, Inr sample_pending_bid)"
  "pending_bids sample_pending_repo = [(get_permission_key sample_bid_chain_data, [sample_pending_bid])]"
  "repo_db sample_pending_repo = db_empty\<lparr>db_bids := [1 \<mapsto> BidRow_new 1 10 ''solana'' 9 None 500 sample_bid_chain_data]\<rparr>"
  "chain_id sample_pending_repo = ''solana''"
proof -
  have "signatures (cd_transaction sample_bid_chain_data) = 11 # [0, 0]"
    by (simp add: sample_bid_chain_data_def sample_plain_tx_def)
  from repo_add_bid_fresh [OF _ _ this, of "Repository_new db_empty ''solana''" 1 10 9 None None 500]
  show "repo_add_bid 1 10 9 None None sample_bid_chain_data 500 (Repository_new db_empty ''solana'') =
      (sample_pending_repo, Inr sample_pending_bid)"
    "pending_bids sample_pending_repo = [(get_permission_key sample_bid_chain_data, [sample_pending_bid])]"
    "repo_db sample_pending_repo = db_empty\<lparr>db_bids := [1 \<mapsto> BidRow_new 1 10 ''solana'' 9 None 500 sample_bid_chain_data]\<rparr>"
    "chain_id sample_pending_repo = ''solana''"
    by (simp_all add: sample_pending_repo_def sample_pending_bid_def Repository_new_def db_empty_def push_pending_bid_def)
qed

theorem announcements_consistent_witness:
  "\<exists>s :: opp_state. announced 1 s = [Lost None] \<and> distinct (map stage (announced 1 s))"
proof -
  let ?s1 = "sample_opp_state\<lparr>auction_repo := sample_pending_repo\<rparr>"
  let ?s2 = "fst (update_bid_status sample_pending_bid (Lost None) 20 ?s1)"
  have start: "auction_repo sample_opp_state = Repository_new db_empty ''solana''"
    by (simp add: sample_opp_state_def)
  have "task_step ([], sample_opp_state) ([], ?s1)"
    using sample_pending_repo(1) by (intro task_step.add_bid) (simp add: start)
  moreover have "task_step\<^sup>*\<^sup>* ([], ?s1) ([], ?s2)" using tasks_update unfolding runs_as_tasks_def by blast
  ultimately have run: "task_step\<^sup>*\<^sup>* ([], sample_opp_state) ([], ?s2)" by (rule converse_rtranclp_into_rtranclp)
  have none: "\<forall>i. announced i sample_opp_state = []" by (simp add: announced_def sample_opp_state_def)
  have "db_bids (repo_db (auction_repo sample_opp_state)) = Map.empty"
    by (simp add: start Repository_new_def db_empty_def)
  from announcements_consistent [OF run this none] have "distinct (map stage (announced 1 ?s2))" by blast
  moreover have "announced 1 ?s2 = [Lost None]"
  proof -
    have row: "r_status (BidRow_new 1 10 ''solana'' 9 None 500 sample_bid_chain_data) = DbPending" "b_id sample_pending_bid = 1"
      by (simp_all add: BidRow_new_def sample_pending_bid_def fresh_bid_def)
    have "\<exists>r c. repo_update_bid_status sample_pending_bid (Lost None) 20 sample_pending_repo = (r, Inr (True, c))"
      using row by (simp add: repo_update_bid_status_def db_update_bid_status_def sample_pending_repo db_empty_def Let_def)
    then show ?thesis
      using row(2) none by (cases rule: update_bid_status_cases [of sample_pending_bid "Lost None" 20 ?s1]) auto
  qed
  ultimately show ?thesis by blast
qed

end
