(* ===== verification/As_Auctions.thy ===== *)
theory As_Auctions
  imports As_Service
begin

section \<open>Auction server: what auctions guarantee\<close>

text \<open>
  Theorems on the handlers of As_Service: who wins, that bids nobody can win any more are lost, that
  an auction leaves memory, and that resending a transaction ends.
\<close>

subsection \<open>Winners\<close>

definition bid_tx :: "bid \<Rightarrow> tx" where
  "bid_tx b = cd_transaction (b_chain_data b)"

text \<open>The i-th transaction succeeds on the chain left by all the earlier ones, failed or not.\<close>

definition succeeds_at :: "('v \<Rightarrow> tx \<Rightarrow> 'v \<times> bool) \<Rightarrow> 'v \<Rightarrow> bid list \<Rightarrow> nat \<Rightarrow> bool" where
  "succeeds_at send svm bids i = snd (send (send_all send svm (map bid_tx (take i bids))) (bid_tx (bids ! i)))"

lemma keep_successful_nths:
  "keep_successful send svm bids = nths bids {i. succeeds_at send svm bids i}"
proof (induction bids arbitrary: svm)
  case (Cons b bids)
  have "{j. succeeds_at send svm (b # bids) (Suc j)} = {j. succeeds_at send (fst (send svm (bid_tx b))) bids j}"
    by (simp add: succeeds_at_def)
  then show ?case
    using Cons.IH by (simp add: nths_Cons succeeds_at_def bid_tx_def split_beta)
qed simp

lemma by_amount_sorted: "sorted_wrt (\<lambda>x y. b_amount y \<le> b_amount x) (by_amount bids)"
proof -
  have "sorted (map (\<lambda>b. - uint (b_amount b)) (by_amount bids))" by (simp add: by_amount_def)
  then show ?thesis by (simp add: sorted_wrt_map word_le_def)
qed

lemma set_by_amount [simp]: "set (by_amount bids) = set bids"
  by (simp add: by_amount_def)

lemma sorted_wrt_nths: "sorted_wrt R xs \<Longrightarrow> sorted_wrt R (nths xs A)"
  by (induction xs arbitrary: A) (auto simp: nths_Cons dest: in_set_nthsD)

text \<open>
  Property C25. The winners of an auction are, of its bids in the order of falling amount, exactly
  those whose transaction succeeds in the simulation after every unconfirmed transaction younger
  than fifteen seconds and every higher bid; if the simulation cannot be set up it is the one
  highest bid. So winners are bids of the auction, in the order of falling amount.
\<close>

theorem winners_are_bids_that_succeed:
  "let bids = by_amount (a_bids a);
       unconfirmed = filter (\<lambda>(t, sent). now - sent < seconds 15) (srv_pending s);
       winners = snd (get_winner_bids setup send now a s)
   in winners = (case setup (map fst unconfirmed @ map bid_tx bids) of
        Some svm \<Rightarrow> nths bids {i. succeeds_at send (send_all send svm (map fst unconfirmed)) bids i}
      | None \<Rightarrow> take 1 bids) \<and>
      fst (get_winner_bids setup send now a s) = s\<lparr>srv_pending := unconfirmed\<rparr> \<and>
      set winners \<subseteq> set (a_bids a) \<and> sorted_wrt (\<lambda>x y. b_amount y \<le> b_amount x) winners"
proof -
  have txs: "map (\<lambda>b. cd_transaction (b_chain_data b)) bs = map bid_tx bs" for bs by (simp add: bid_tx_def)
  have first: "(case bs of b # _ \<Rightarrow> [b] | [] \<Rightarrow> []) = take 1 bs" for bs :: "bid list"
    by (simp split: list.split)
  show ?thesis
    by (auto simp: get_winner_bids_def simulator_optimize_bids_def fetch_pending_and_remove_old_txs_def Let_def
        MAX_PENDING_DURATION_def txs first keep_successful_nths by_amount_sorted sorted_wrt_nths sorted_wrt_take
        dest: in_set_nthsD in_set_takeD split: option.split)
qed


subsection \<open>Resending\<close>

definition ticks :: "wake_up list \<Rightarrow> nat" where
  "ticks ws = length (filter (\<lambda>w. case w of Tick _ \<Rightarrow> True | _ \<Rightarrow> False) ws)"

lemma resend_from:
  "n \<le> 30 \<Longrightarrow> (case blocking_send_transaction sig ws n of
     Some (r, m) \<Rightarrow> n \<le> m \<and> m \<le> 30 \<and> (r = NotLanded \<longleftrightarrow> m = 30)
   | None \<Rightarrow> ticks ws + n < 30)"
proof (induction ws arbitrary: n)
  case Nil
  then show ?case
    by (subst blocking_send_transaction.simps) (simp add: SEND_TRANSACTION_RETRY_COUNT_SVM_def ticks_def)
next
  case (Cons w ws)
  show ?case
  proof (cases "n < 30")
    case True
    show ?thesis
    proof (cases w)
      case (Tick x)
      show ?thesis
      proof (cases x)
        case None
        with Tick True Cons.IH [of "Suc n"] show ?thesis
          by (subst blocking_send_transaction.simps)
            (auto simp: SEND_TRANSACTION_RETRY_COUNT_SVM_def ticks_def split: option.splits)
      next
        case (Some err)
        with Tick True show ?thesis
          by (subst blocking_send_transaction.simps) (simp add: SEND_TRANSACTION_RETRY_COUNT_SVM_def)
      qed
    next
      case (LogOf sig' err)
      with True Cons.IH [of n] show ?thesis
        by (subst blocking_send_transaction.simps)
          (auto simp: SEND_TRANSACTION_RETRY_COUNT_SVM_def ticks_def split: option.splits)
    next
      case LogLost
      with True Cons.IH [of n] show ?thesis
        by (subst blocking_send_transaction.simps)
          (auto simp: SEND_TRANSACTION_RETRY_COUNT_SVM_def ticks_def split: option.splits)
    qed
  next
    case False
    with Cons.prems show ?thesis
      by (subst blocking_send_transaction.simps) (simp add: SEND_TRANSACTION_RETRY_COUNT_SVM_def)
  qed
qed

text \<open>
  The task that resends a transaction ends at the latest with the thirtieth wake-up of
  its timer, whatever logs arrive in between; it resends at most thirty times, and gives up exactly
  when it has done so without seeing the transaction landed.
\<close>

theorem resending_ends:
  "case blocking_send_transaction sig ws 0 of
     Some (r, resent) \<Rightarrow> resent \<le> 30 \<and> (r = NotLanded \<longleftrightarrow> resent = 30)
   | None \<Rightarrow> ticks ws < 30"
  using resend_from [of 0 ws sig] by (simp split: option.splits prod.splits)


subsection \<open>Bids nobody can win\<close>

abbreviation pending_of :: "u8 list \<Rightarrow> 'z caches_scheme \<Rightarrow> bid list" where
  "pending_of key s \<equiv> get_in_memory_pending_bids_by_permission_key (auction_repo s) key"

abbreviation row_of :: "uuid \<Rightarrow> 'z caches_scheme \<Rightarrow> VersionedMessage BidRow option" where
  "row_of i s \<equiv> db_bids (repo_db (auction_repo s)) i"

lemma db_lost:
  assumes "db_up d"
  shows "db_update_bid_status d i (Lost None) now = (case db_bids d i of
     Some row \<Rightarrow>
       if r_status row = DbPending
       then Inr (d\<lparr>db_bids := (db_bids d)(i \<mapsto> row\<lparr>r_status := DbLost, r_conclusion_time := Some now\<rparr>)\<rparr>, True, Some now)
       else Inr (d, False, Some now)
   | None \<Rightarrow> Inr (d, False, Some now))"
  using assms by (simp add: db_update_bid_status_def apply_update_def set_or_def split: option.splits)

text \<open>The bids among \<open>ids\<close> that were pending are lost and announced so; every other bid is left alone.\<close>

definition is_pending_row :: "uuid \<Rightarrow> 'z caches_scheme \<Rightarrow> bool" where
  "is_pending_row i s \<longleftrightarrow> (\<exists>row. row_of i s = Some row \<and> r_status row = DbPending)"

definition lost_exactly :: "uuid set \<Rightarrow> 'z opp_state_scheme \<Rightarrow> 'z opp_state_scheme \<Rightarrow> bool" where
  "lost_exactly ids s s' \<longleftrightarrow> (\<forall>i.
     if i \<in> ids \<and> is_pending_row i s
     then (\<exists>row'. row_of i s' = Some row' \<and> r_status row' = DbLost) \<and> announced i s' = announced i s @ [Lost None]
     else row_of i s' = row_of i s \<and> announced i s' = announced i s)"

definition keys_kept :: "'z opp_state_scheme \<Rightarrow> 'z opp_state_scheme \<Rightarrow> bool" where
  "keys_kept s s' \<longleftrightarrow> (\<forall>x. bid_known (repo_db (auction_repo s)) x \<longrightarrow> bid_known (repo_db (auction_repo s')) x)"

definition marked :: "u8 list \<Rightarrow> uuid set \<Rightarrow> 'z opp_state_scheme \<Rightarrow> 'z opp_state_scheme \<Rightarrow> bool" where
  "marked key ids s s' \<longleftrightarrow>
     pending_ok (auction_repo s') \<and> db_up (repo_db (auction_repo s')) \<and> keys_kept s s' \<and>
     pending_of key s' = filter (\<lambda>x. b_id x \<notin> ids) (pending_of key s) \<and>
     (\<forall>k. k \<noteq> key \<longrightarrow> pending_of k s' = pending_of k s) \<and> lost_exactly ids s s'"

lemma mark_one:
  assumes ok: "pending_ok (auction_repo s)" and up: "db_up (repo_db (auction_repo s))"
    and key: "get_permission_key (b_chain_data b) = key" and known: "bid_known (repo_db (auction_repo s)) b"
  shows "marked key {b_id b} s (fst (update_bid_status b (Lost None) now s))"
proof -
  let ?r = "auction_repo s"
  note upd = db_lost [OF up, of "b_id b" now]
  show ?thesis
  proof (cases "is_pending_row (b_id b) s")
    case True
    then obtain row where row: "row_of (b_id b) s = Some row" "r_status row = DbPending"
      by (auto simp: is_pending_row_def)
    let ?d = "(repo_db ?r)\<lparr>db_bids := (db_bids (repo_db ?r))(b_id b \<mapsto>
      row\<lparr>r_status := DbLost, r_conclusion_time := Some now\<rparr>)\<rparr>"
    have run: "repo_update_bid_status b (Lost None) now ?r =
        (update_in_memory_auction_bid b (Lost None) (remove_in_memory_pending_bids [b] (?r\<lparr>repo_db := ?d\<rparr>)), Inr (True, Some now))"
      (is "_ = (?r', _)")
      using row by (simp add: repo_update_bid_status_def upd Let_def)
    let ?s = "emit (BidStatusUpdate (b_id b) (Lost None)) (s\<lparr>auction_repo := ?r'\<rparr>)"
    have s': "fst (update_bid_status b (Lost None) now s) = ?s"
      using run by (simp add: update_bid_status_def seq_def on_repo_def fails_as_def)
    have "pending_ok ?r'" using ok known run by (rule pending_ok_update)
    moreover have "keys_kept s ?s" using row by (auto simp: keys_kept_def bid_known_def)
    moreover have "lost_exactly {b_id b} s ?s"
      using row True by (simp add: lost_exactly_def)
    ultimately show ?thesis using key up by (simp add: s' marked_def pending_remove)
  next
    case False
    then have run: "repo_update_bid_status b (Lost None) now ?r = (?r, Inr (False, Some now))"
      by (auto simp: is_pending_row_def repo_update_bid_status_def upd Let_def split: option.splits)
    have s': "fst (update_bid_status b (Lost None) now s) = s"
      using run by (simp add: update_bid_status_def seq_def on_repo_def fails_as_def)
    have "x \<in> set (pending_of key s) \<Longrightarrow> b_id x \<noteq> b_id b" for x
      using ok False unfolding pending_ok_def is_pending_row_def by metis
    then have "filter (\<lambda>x. b_id x \<noteq> b_id b) (pending_of key s) = pending_of key s" by (simp add: filter_id_conv)
    with ok up False show ?thesis by (simp add: s' marked_def keys_kept_def lost_exactly_def)
  qed
qed

lemma lost_exactly_trans:
  assumes "lost_exactly A s s1" and "lost_exactly B s1 s2"
  shows "lost_exactly (A \<union> B) s s2"
  unfolding lost_exactly_def
proof
  fix i
  show "if i \<in> A \<union> B \<and> is_pending_row i s
     then (\<exists>row'. row_of i s2 = Some row' \<and> r_status row' = DbLost) \<and> announced i s2 = announced i s @ [Lost None]
     else row_of i s2 = row_of i s \<and> announced i s2 = announced i s"
  proof (cases "i \<in> A \<and> is_pending_row i s")
    case True
    with assms(1) obtain row where row: "row_of i s1 = Some row" "r_status row = DbLost"
      and ann: "announced i s1 = announced i s @ [Lost None]" unfolding lost_exactly_def by meson
    then have "\<not> is_pending_row i s1" by (simp add: is_pending_row_def)
    with assms(2) have "row_of i s2 = row_of i s1 \<and> announced i s2 = announced i s1"
      unfolding lost_exactly_def by meson
    with True row ann show ?thesis by simp
  next
    case False
    with assms(1) have same: "row_of i s1 = row_of i s" "announced i s1 = announced i s"
      unfolding lost_exactly_def by meson+
    then have "is_pending_row i s1 = is_pending_row i s" by (simp add: is_pending_row_def)
    from assms(2) have "if i \<in> B \<and> is_pending_row i s1
       then (\<exists>row'. row_of i s2 = Some row' \<and> r_status row' = DbLost) \<and> announced i s2 = announced i s1 @ [Lost None]
       else row_of i s2 = row_of i s1 \<and> announced i s2 = announced i s1"
      unfolding lost_exactly_def by blast
    with same False \<open>is_pending_row i s1 = is_pending_row i s\<close> show ?thesis by (auto split: if_splits)
  qed
qed

lemma mark_all:
  assumes "pending_ok (auction_repo s)" and "db_up (repo_db (auction_repo s))"
    and "\<forall>b\<in>set bs. get_permission_key (b_chain_data b) = key \<and> bid_known (repo_db (auction_repo s)) b"
  shows "marked key (b_id ` set bs) s (update_all now (map (\<lambda>b. (Lost None, b)) bs) s)"
  using assms
proof (induction bs arbitrary: s)
  case Nil
  then show ?case by (simp add: marked_def update_all_def keys_kept_def lost_exactly_def)
next
  case (Cons b bs)
  let ?s1 = "fst (update_bid_status b (Lost None) now s)"
  let ?s2 = "update_all now (map (\<lambda>b. (Lost None, b)) bs) ?s1"
  have one: "marked key {b_id b} s ?s1" using Cons.prems by (intro mark_one) auto
  then have rest: "marked key (b_id ` set bs) ?s1 ?s2"
    using Cons.prems by (intro Cons.IH) (auto simp: marked_def keys_kept_def)
  have lost: "lost_exactly ({b_id b} \<union> b_id ` set bs) s ?s2"
    using one rest lost_exactly_trans unfolding marked_def by blast
  have "update_all now (map (\<lambda>b. (Lost None, b)) (b # bs)) s = ?s2" by (simp add: update_all_def)
  with one rest lost show ?case by (auto simp: marked_def keys_kept_def)
qed


text \<open>
  Property C31. On every state the server can reach, an auction round for a permission key that can no
  longer be submitted (a quote whose opportunity is gone, or a key of no known kind) takes every
  pending bid of the key out of the auction: memory offers none of them any more, each is lost in
  the database and announced as lost exactly once, and the bids of all other keys stay as they were.
\<close>

theorem invalid_auction_bids_are_lost:
  assumes "repo_step\<^sup>*\<^sup>* (Repository_new db_empty ch) (auction_repo s)" and "db_up (repo_db (auction_repo s))"
    and "get_submission_state ch key s = InvalidSubmitType"
    and "handle_auction env ch setup send new_id now key s = (s', res)"
  shows "res = Inr () \<and> get_pending_bids key s' = [] \<and>
    (\<forall>b\<in>set (get_pending_bids key s). \<exists>row. db_bids (repo_db (auction_repo s')) (b_id b) = Some row \<and>
       r_status row = DbLost \<and> announced (b_id b) s' = announced (b_id b) s @ [Lost None]) \<and>
    (\<forall>k. k \<noteq> key \<longrightarrow> get_pending_bids k s' = get_pending_bids k s)"
proof -
  have ok: "pending_ok (auction_repo s)" using assms(1) by (rule pending_ok_reachable)
  let ?bs = "pending_of key s"
  have bids: "b_status b = Pending" "get_permission_key (b_chain_data b) = key" "is_pending_row (b_id b) s"
    "bid_known (repo_db (auction_repo s)) b" if "b \<in> set ?bs" for b
    using ok that unfolding pending_ok_def is_pending_row_def bid_known_def by fastforce+
  have "filter (\<lambda>b. is_pending (b_status b)) ?bs = ?bs" using bids(1) by (simp add: filter_id_conv)
  with assms(3,4) have s': "s' = update_all now (map (\<lambda>b. (Lost None, b)) ?bs) s" "res = Inr ()"
    by (simp_all add: handle_auction_def new_lost_def)
  have m: "marked key (b_id ` set ?bs) s s'"
    unfolding s' using ok assms(2) bids by (intro mark_all) auto
  then have "pending_of key s' = []" by (auto simp: marked_def filter_empty_conv)
  moreover have "\<exists>row. row_of (b_id b) s' = Some row \<and> r_status row = DbLost \<and>
      announced (b_id b) s' = announced (b_id b) s @ [Lost None]" if "b \<in> set ?bs" for b
    using m that bids(3) [OF that] unfolding marked_def lost_exactly_def by (auto split: if_splits)
  ultimately show ?thesis using m s'(2) by (simp add: marked_def get_pending_bids_def)
qed


subsection \<open>Auctions leave memory\<close>

text \<open>What status updates leave of an auction in memory: all but the statuses of its bids.\<close>

definition kept_auction :: "uuid \<Rightarrow> auction \<Rightarrow> 'z caches_scheme \<Rightarrow> bool" where
  "kept_auction i a s \<longleftrightarrow>
     (\<exists>a'. get_auction_by_id i s = Some a' \<and> a_id a' = a_id a \<and> a_creation_time a' = a_creation_time a)"

lemma repo_update_keeps_auction:
  assumes "repo_update_bid_status b st now r = (r', res)" and "get_in_memory_auction_by_id r i = Some a"
  shows "\<exists>a'. get_in_memory_auction_by_id r' i = Some a' \<and> a_id a' = a_id a \<and> a_creation_time a' = a_creation_time a"
proof -
  have "auctions (remove_in_memory_pending_bids bs r1) = auctions r1" for bs and r1 :: "'a repo"
    by (simp add: remove_in_memory_pending_bids_def)
  then show ?thesis
    using assms by (auto simp: repo_update_bid_status_def Let_def get_in_memory_auction_by_id_def
        update_in_memory_auction_bid_def update_conv' split: sum.splits prod.splits if_splits option.splits)
qed

lemma repo_update_db_up: "repo_update_bid_status b st now r = (r', res) \<Longrightarrow> db_up (repo_db r') = db_up (repo_db r)"
  by (auto simp: repo_update_bid_status_def Let_def db_update_bid_status_def rbind_Inr_iff
      split: sum.splits prod.splits if_splits option.splits)

lemma update_keeps_auction:
  assumes "kept_auction i a s"
  shows "kept_auction i a (fst (update_bid_status b st now s))"
    "db_up (repo_db (auction_repo (fst (update_bid_status b st now s)))) = db_up (repo_db (auction_repo s))"
proof -
  obtain a1 where a1: "get_in_memory_auction_by_id (auction_repo s) i = Some a1" "a_id a1 = a_id a"
    "a_creation_time a1 = a_creation_time a"
    using assms by (auto simp: kept_auction_def get_auction_by_id_def)
  obtain r res where run: "repo_update_bid_status b st now (auction_repo s) = (r, res)" by fastforce
  have r: "auction_repo (fst (update_bid_status b st now s)) = r"
    using run by (cases rule: update_bid_status_cases [of b st now s]) simp_all
  from repo_update_keeps_auction [OF run a1(1)] a1(2,3) r
  show "kept_auction i a (fst (update_bid_status b st now s))" by (auto simp: kept_auction_def get_auction_by_id_def)
  from repo_update_db_up [OF run] r
  show "db_up (repo_db (auction_repo (fst (update_bid_status b st now s)))) = db_up (repo_db (auction_repo s))" by simp
qed

lemma update_all_keeps_auction:
  "kept_auction i a s \<Longrightarrow> kept_auction i a (update_all now us s) \<and>
     db_up (repo_db (auction_repo (update_all now us s))) = db_up (repo_db (auction_repo s))"
proof (induction us arbitrary: s)
  case (Cons u us)
  obtain st b where u: "u = (st, b)" by fastforce
  from Cons.IH [OF update_keeps_auction(1) [OF Cons.prems, of b st now]] update_keeps_auction(2) [OF Cons.prems, of b st now]
  show ?case by (simp add: update_all_def u)
qed (simp add: update_all_def)

lemma conclude_expired:
  assumes "kept_auction i a s" and "a_id a = i" and "db_up (repo_db (auction_repo s))" and "is_auction_expired now a"
  shows "\<exists>s'. conclude_auction_with_statuses now a us s = (s', Inr ()) \<and> get_auction_by_id i s' = None"
proof -
  let ?s = "update_all now us s"
  from update_all_keeps_auction [OF assms(1), of now us] assms(3)
  obtain a' where a': "get_in_memory_auction_by_id (auction_repo ?s) i = Some a'" "a_id a' = i"
    "a_creation_time a' = a_creation_time a" and up: "db_up (repo_db (auction_repo ?s))"
    using assms(2) by (auto simp: kept_auction_def get_auction_by_id_def)
  have expired: "is_auction_expired now a'" using assms(4) a'(3) by (simp add: is_auction_expired_def)
  have "\<exists>d. db_conclude_auction (repo_db (auction_repo ?s)) i now = Inr d"
    using up by (simp add: db_conclude_auction_def split: option.split)
  then obtain d where d: "db_conclude_auction (repo_db (auction_repo ?s)) i now = Inr d" by blast
  have "conclude_auction_with_statuses now a us s = on_repo (repo_conclude_auction i now) ?s"
    using a' expired assms(2) by (simp add: conclude_auction_with_statuses_def Let_def)
  then show ?thesis
    by (simp add: on_repo_def repo_conclude_auction_def d get_auction_by_id_def get_in_memory_auction_by_id_def
        remove_in_memory_auction_def delete_conv')
qed

lemma each_first_signature:
  "\<forall>b\<in>set bs. signatures (bid_tx b) \<noteq> [] \<Longrightarrow>
     \<exists>sigs. each_rest (\<lambda>b. first_signature (cd_transaction (b_chain_data b))) bs = Inr sigs"
  by (induction bs) (auto simp: first_signature_def bid_tx_def split: list.splits)

lemma get_bid_results_answers:
  assumes "\<forall>b\<in>set bs. signatures (bid_tx b) \<noteq> []" and "\<And>sigs. rpc sigs \<noteq> Inl ()"
  shows "\<exists>p xs. get_bid_results rpc now bs i s = (s\<lparr>srv_pending := p\<rparr>, Inr xs)"
proof (cases "bs = []")
  case True
  then show ?thesis by (simp add: get_bid_results_def yields_def exI [of _ "srv_pending s"])
next
  case False
  from each_first_signature [OF assms(1)] obtain sigs where
    sigs: "each_rest (\<lambda>b. first_signature (cd_transaction (b_chain_data b)) :: signature outcome) bs = Inr sigs" by blast
  from assms(2) obtain ans where "rpc sigs = Inr ans" by (cases "rpc sigs") auto
  with False sigs show ?thesis by (auto simp: get_bid_results_def seq_def yields_def)
qed

lemma pending_update [simp]:
  "auction_repo (s\<lparr>srv_pending := p\<rparr>) = auction_repo s" "kept_auction i a (s\<lparr>srv_pending := p\<rparr>) = kept_auction i a s"
  by (simp_all add: kept_auction_def get_auction_by_id_def)

text \<open>
  Property C32. An auction created more than 240 seconds ago leaves memory in the next round of its
  conclusion loop, whatever became of its bids and whether or not it was ever submitted, provided
  the database is up and the RPC node answers; so an auction never stays in memory for good, and
  the round after that ends the loop.
\<close>

theorem expired_auction_is_concluded:
  assumes "get_auction_by_id i s = Some a" and "a_id a = i" and "db_up (repo_db (auction_repo s))"
    and "a_creation_time a + seconds 240 < now" and "\<forall>sigs. rpc sigs \<noteq> Inl ()"
    and "\<forall>b\<in>set (a_bids a). signatures (bid_tx b) \<noteq> []"
  shows "get_auction_by_id i (conclude_round rpc now i s) = None \<and>
    conclude_round rpc later i (conclude_round rpc now i s) =
      (conclude_round rpc now i s)\<lparr>conclusion_tasks := remove1 i (conclusion_tasks (conclude_round rpc now i s))\<rparr>"
proof -
  have kept: "kept_auction i a s" using assms(1) by (simp add: kept_auction_def)
  have expired: "is_auction_expired now a"
    using assms(4) by (simp add: is_auction_expired_def MAXIMUM_BID_LIFE_TIME_def seconds_def)
  have "\<exists>s'. conclude_auction rpc now a s = (s', Inr ()) \<and> get_auction_by_id i s' = None"
  proof (cases "a_tx_hash a")
    case None
    with conclude_expired [OF kept assms(2,3) expired] expired show ?thesis by (simp add: conclude_auction_def)
  next
    case (Some h)
    let ?bs = "filter (\<lambda>b. \<not> is_concluded (b_status b)) (a_bids a)"
    from get_bid_results_answers [of ?bs rpc now "a_id a" s] assms(5,6) obtain p xs where
      res: "get_bid_results rpc now ?bs (a_id a) s = (s\<lparr>srv_pending := p\<rparr>, Inr xs)" by auto
    have kept': "kept_auction i a (s\<lparr>srv_pending := p\<rparr>)" "db_up (repo_db (auction_repo (s\<lparr>srv_pending := p\<rparr>)))"
      using kept assms(3) by simp_all
    from conclude_expired [OF kept'(1) assms(2) kept'(2) expired] Some res show ?thesis
      by (simp add: conclude_auction_def Let_def seq_def)
  qed
  then obtain s' where run: "conclude_auction rpc now a s = (s', Inr ())" and gone: "get_auction_by_id i s' = None"
    by blast
  have "conclude_round rpc now i s = s'"
    using run assms(1) by (simp add: conclude_round_def get_auction_by_id_def)
  with gone show ?thesis by (simp add: conclude_round_def get_auction_by_id_def)
qed


subsection \<open>A concrete server\<close>

text \<open>A pending bid whose opportunity is gone, and a quote waiting for its user's signature.\<close>

definition server_with :: "VersionedMessage repo \<Rightarrow> server" where
  "server_with r = \<lparr>auction_repo = r, express_relay_metadata = None, token_mint_cache = [], opportunities = [],
     opp_db_up = True, opp_rows = [], events = [], srv_pending = [], auction_locks = no_locks, bid_locks = no_locks,
     sent_transactions = [], conclusion_tasks = [2]\<rparr>"

definition sample_waiting_bid :: bid where
  "sample_waiting_bid = (fresh_bid 1 10 ''solana'' 9 (Some 5) None sample_bid_chain_data 1000)
     \<lparr>b_status := AwaitingSignature \<lparr>sa_id = 2, sa_tx_hash = 11\<rparr>\<rparr>"

definition sample_auction :: auction where
  "sample_auction = \<lparr>a_id = 2, a_chain_id = ''solana'', a_permission_key = get_permission_key sample_bid_chain_data,
     a_creation_time = 100, a_conclusion_time = None, a_bid_collection_time = 100, a_submission_time = None,
     a_tx_hash = None, a_bids = [sample_waiting_bid]\<rparr>"

definition sample_waiting_row :: "VersionedMessage BidRow" where
  "sample_waiting_row = (BidRow_new 1 10 ''solana'' 9 (Some 5) 1000 sample_bid_chain_data)
     \<lparr>r_status := DbAwaitingSignature, r_auction_id := Some 2\<rparr>"

definition sample_waiting_repo :: "VersionedMessage repo" where
  "sample_waiting_repo = (Repository_new (db_empty\<lparr>db_bids := [1 \<mapsto> sample_waiting_row],
     db_auctions := [2 \<mapsto> AuctionRow_of sample_auction]\<rparr>) ''solana'')\<lparr>auctions := [(2, sample_auction)]\<rparr>"

lemma server_with_sel [simp]:
  "auction_repo (server_with r) = r" "announced i (server_with r) = []" "sent_transactions (server_with r) = []"
  "opportunities (server_with r) = []"
  by (simp_all add: server_with_def announced_def)

lemma sample_waiting_sel [simp]:
  "db_up (repo_db sample_waiting_repo)" "db_bids (repo_db sample_waiting_repo) 1 = Some sample_waiting_row"
  "r_status sample_waiting_row = DbAwaitingSignature" "a_bids sample_auction = [sample_waiting_bid]"
  "a_id sample_auction = 2" "b_id sample_waiting_bid = 1" "b_profile_id sample_waiting_bid = Some 5"
  "b_status sample_waiting_bid = AwaitingSignature \<lparr>sa_id = 2, sa_tx_hash = 11\<rparr>"
  "b_chain_data sample_waiting_bid = sample_bid_chain_data" "auctions sample_waiting_repo = [(2, sample_auction)]"
  "cd_transaction sample_bid_chain_data = sample_plain_tx" "signatures sample_plain_tx = [11, 0, 0]"
  by (simp_all add: sample_waiting_repo_def Repository_new_def db_empty_def sample_waiting_row_def sample_auction_def
      sample_waiting_bid_def fresh_bid_def sample_bid_chain_data_def sample_plain_tx_def)

theorem invalid_auction_bids_are_lost_witness:
  "\<exists>s'. handle_auction sample_env ''solana'' (\<lambda>_. None :: unit option) (\<lambda>u t. (u, True)) 7 20
       (get_permission_key sample_bid_chain_data) (server_with sample_pending_repo) = (s', Inr ()) \<and>
     get_pending_bids (get_permission_key sample_bid_chain_data) s' = []"
proof -
  let ?key = "get_permission_key sample_bid_chain_data"
  let ?run = "handle_auction sample_env ''solana'' (\<lambda>_. None :: unit option) (\<lambda>u t. (u, True)) 7 20 ?key (server_with sample_pending_repo)"
  have reach: "repo_step\<^sup>*\<^sup>* (Repository_new db_empty ''solana'') (auction_repo (server_with sample_pending_repo))"
    using repo_step.add_bid [OF sample_pending_repo(1)] by (simp add: r_into_rtranclp)
  have up: "db_up (repo_db (auction_repo (server_with sample_pending_repo)))"
    by (simp add: sample_pending_repo db_empty_def)
  have "bid_payment_instruction_type sample_bid_chain_data = SwapPayment" by (simp add: sample_bid_chain_data_def)
  then have invalid: "get_submission_state ''solana'' ?key (server_with sample_pending_repo) = InvalidSubmitType"
    by (simp add: get_submission_state_def get_in_memory_opportunities_by_key_def)
  obtain s' res where run: "?run = (s', res)" by fastforce
  from invalid_auction_bids_are_lost [OF reach up invalid run] run show ?thesis by simp
qed

theorem expired_auction_is_concluded_witness:
  "get_auction_by_id 2 (conclude_round (\<lambda>_. Inr []) (seconds 500) 2 (server_with sample_waiting_repo)) = None"
proof -
  have mem: "get_auction_by_id 2 (server_with sample_waiting_repo) = Some sample_auction"
    by (simp add: get_auction_by_id_def get_in_memory_auction_by_id_def)
  have old: "a_creation_time sample_auction + seconds 240 < seconds 500" by (simp add: sample_auction_def seconds_def)
  have sigs: "\<forall>b\<in>set (a_bids sample_auction). signatures (bid_tx b) \<noteq> []" by (simp add: bid_tx_def)
  show ?thesis
    using expired_auction_is_concluded [OF mem _ _ old _ sigs, of "\<lambda>_. Inr []"] by simp
qed

end
