(* ===== verification/As_Access.thy ===== *)
theory As_Access
  imports As_Messages
begin

section \<open>Auction server: profiles, access tokens and privileges\<close>

text \<open>
  The part of \<open>Store\<close> (\<open>state.rs\<close>) that says who a request comes from and what it may do: profiles,
  access tokens and privileges, kept in memory beside their database tables, the loading of both at
  startup (\<open>server.rs\<close>) and the authentication of requests (\<open>api.rs\<close>). \<open>up\<close> tells whether the
  database answers a query, for a handler with several queries per query. Ids, generated tokens and
  timestamps are arguments. Created and updated times nobody reads are left out.
\<close>

datatype ProfileRole = Searcher | Protocol

record Profile =
  pr_id :: uuid
  pr_name :: string
  pr_email :: string
  pr_role :: ProfileRole

record AccessToken =
  tk_id :: uuid
  tk_token :: string
  tk_profile_id :: uuid
  tk_revoked_at :: "time option"

datatype PrivilegeFeature = CancelQuote

datatype PrivilegeState = PrivilegeEnabled | PrivilegeDisabled

record Privilege =
  pv_id :: uuid
  pv_feature :: PrivilegeFeature
  pv_profile_id :: uuid
  pv_state :: PrivilegeState
  pv_created_at :: time

type_synonym privilege_map = "uuid \<times> PrivilegeFeature \<Rightarrow> Privilege option"

record identity_db =
  profile_rows :: "Profile list"
  token_rows :: "AccessToken list"
  privilege_rows :: "Privilege list"

record store =
  secret_key :: string
  access_tokens :: "string \<Rightarrow> Profile option"
  privileges :: privilege_map
  store_db :: identity_db


subsection \<open>Profiles\<close>

text \<open>\<open>email_ok\<close> is the format check of the table.\<close>

definition create_profile ::
  "(string \<Rightarrow> bool) \<Rightarrow> bool \<Rightarrow> uuid \<Rightarrow> string \<Rightarrow> string \<Rightarrow> ProfileRole \<Rightarrow> (store, Profile) action" where
  "create_profile email_ok up new_id name email role s =
     (if \<not> up \<or> \<not> email_ok email then (s, Inl (Fails TemporarilyUnavailable))
      else if \<exists>p\<in>set (profile_rows (store_db s)). pr_email p = email \<or> pr_id p = new_id
      then (s, Inl (Fails (BadParameters ''Profile with this email already exists'')))
      else let p = \<lparr>pr_id = new_id, pr_name = name, pr_email = email, pr_role = role\<rparr>
           in (s\<lparr>store_db := (store_db s)\<lparr>profile_rows := profile_rows (store_db s) @ [p]\<rparr>\<rparr>, Inr p))"

definition get_profile_by_email :: "bool \<Rightarrow> string \<Rightarrow> (store, Profile option) action" where
  "get_profile_by_email up email s =
     (s, if up then Inr (find (\<lambda>p. pr_email p = email) (profile_rows (store_db s))) else Inl (Fails TemporarilyUnavailable))"

definition get_profile_by_id :: "bool \<Rightarrow> uuid \<Rightarrow> (store, Profile option) action" where
  "get_profile_by_id up i s =
     (s, if up then Inr (find (\<lambda>p. pr_id p = i) (profile_rows (store_db s))) else Inl (Fails TemporarilyUnavailable))"

definition get_profile :: "(string \<Rightarrow> bool) \<Rightarrow> bool \<Rightarrow> string \<Rightarrow> (store, Profile) action" where
  "get_profile parses up email =
     (if parses email
      then seq (get_profile_by_email up email) (\<lambda>p. yields (case p of Some x \<Rightarrow> Inr x | None \<Rightarrow> Inl (Fails ProfileNotFound)))
      else fails (BadParameters ''Invalid email''))"


subsection \<open>Access tokens\<close>

definition active :: "uuid \<Rightarrow> AccessToken \<Rightarrow> bool" where
  "active i t \<longleftrightarrow> tk_profile_id t = i \<and> tk_revoked_at t = None"

text \<open>
  \<open>INSERT ... WHERE NOT EXISTS\<close> an active token of the profile; the profile must exist, token and id
  are unique.
\<close>

definition insert_token :: "bool \<Rightarrow> AccessToken \<Rightarrow> (store, bool) action" where
  "insert_token up t s =
     (if \<not> up then (s, Inl (Fails TemporarilyUnavailable))
      else if \<exists>t'\<in>set (token_rows (store_db s)). active (tk_profile_id t) t' then (s, Inr False)
      else if (\<exists>t'\<in>set (token_rows (store_db s)). tk_token t' = tk_token t \<or> tk_id t' = tk_id t) \<or>
              tk_profile_id t \<notin> pr_id ` set (profile_rows (store_db s))
      then (s, Inl (Fails TemporarilyUnavailable))
      else (s\<lparr>store_db := (store_db s)\<lparr>token_rows := token_rows (store_db s) @ [t]\<rparr>\<rparr>, Inr True))"

definition select_active_token :: "bool \<Rightarrow> uuid \<Rightarrow> (store, AccessToken) action" where
  "select_active_token up i s =
     (s, if \<not> up then Inl (Fails TemporarilyUnavailable)
         else case find (active i) (token_rows (store_db s)) of
                Some t \<Rightarrow> Inr t | None \<Rightarrow> Inl (Fails TemporarilyUnavailable))"

text \<open>The queries of \<open>get_or_create_access_token\<close>, and what it puts into memory after them.\<close>

definition query_or_create_token ::
  "(nat \<Rightarrow> bool) \<Rightarrow> uuid \<Rightarrow> string \<Rightarrow> uuid \<Rightarrow> (store, AccessToken \<times> Profile \<times> bool) action" where
  "query_or_create_token up new_id generated_token profile_id =
     seq (insert_token (up 0) \<lparr>tk_id = new_id, tk_token = generated_token, tk_profile_id = profile_id, tk_revoked_at = None\<rparr>) (\<lambda>created.
     seq (select_active_token (up 1) profile_id) (\<lambda>token.
     seq (get_profile_by_id (up 2) profile_id) (\<lambda>profile.
       case profile of
         None \<Rightarrow> fails (BadParameters ''Profile id not found'')
       | Some p \<Rightarrow> yields (Inr (token, p, created)))))"

definition publish_token :: "AccessToken \<times> Profile \<times> bool \<Rightarrow> (store, AccessToken \<times> bool) action" where
  "publish_token x s = (case x of (token, p, created) \<Rightarrow>
     (s\<lparr>access_tokens := (access_tokens s)(tk_token token \<mapsto> p)\<rparr>, Inr (token, created)))"

definition get_or_create_access_token ::
  "(nat \<Rightarrow> bool) \<Rightarrow> uuid \<Rightarrow> string \<Rightarrow> uuid \<Rightarrow> (store, AccessToken \<times> bool) action" where
  "get_or_create_access_token up new_id generated_token profile_id =
     seq (query_or_create_token up new_id generated_token profile_id) publish_token"

definition revoke_access_token :: "bool \<Rightarrow> time \<Rightarrow> string \<Rightarrow> (store, unit) action" where
  "revoke_access_token up now token s =
     (if \<not> up then (s, Inl (Fails TemporarilyUnavailable))
      else (s\<lparr>store_db := (store_db s)\<lparr>token_rows := map (\<lambda>t.
                if tk_token t = token \<and> tk_revoked_at t = None then t\<lparr>tk_revoked_at := Some now\<rparr> else t)
                (token_rows (store_db s))\<rparr>,
              access_tokens := (access_tokens s)(token := None)\<rparr>, Inr ()))"

definition get_profile_by_token :: "store \<Rightarrow> string \<Rightarrow> Profile rest" where
  "get_profile_by_token s token = (case access_tokens s token of Some p \<Rightarrow> Inr p | None \<Rightarrow> Inl (Fails InvalidToken))"

text \<open>Startup: the active tokens with their profiles.\<close>

definition fetch_access_tokens :: "identity_db \<Rightarrow> (string \<Rightarrow> Profile option) rest" where
  "fetch_access_tokens d =
     rbind (each_rest (\<lambda>t. case find (\<lambda>p. pr_id p = tk_profile_id t) (profile_rows d) of
              None \<Rightarrow> Inl Panics | Some p \<Rightarrow> Inr (tk_token t, p))
            (filter (\<lambda>t. tk_revoked_at t = None) (token_rows d))) (\<lambda>xs.
       Inr (map_of (rev xs)))"


subsection \<open>Privileges\<close>

definition privilege_key :: "Privilege \<Rightarrow> uuid \<times> PrivilegeFeature" where
  "privilege_key p = (pv_profile_id p, pv_feature p)"

definition update_in_memory_privilege :: "Privilege \<Rightarrow> privilege_map \<Rightarrow> privilege_map" where
  "update_in_memory_privilege p m =
     (case m (privilege_key p) of
        Some old \<Rightarrow> if pv_created_at old < pv_created_at p then m(privilege_key p \<mapsto> p) else m
      | None \<Rightarrow> m(privilege_key p \<mapsto> p))"

definition create_privilege :: "bool \<Rightarrow> Privilege \<Rightarrow> (store, unit) action" where
  "create_privilege up p s =
     (if \<not> up \<or> pv_profile_id p \<notin> pr_id ` set (profile_rows (store_db s)) \<or> pv_id p \<in> pv_id ` set (privilege_rows (store_db s))
      then (s, Inl (Fails TemporarilyUnavailable))
      else (s\<lparr>store_db := (store_db s)\<lparr>privilege_rows := privilege_rows (store_db s) @ [p]\<rparr>,
              privileges := update_in_memory_privilege p (privileges s)\<rparr>, Inr ()))"

definition has_privilege :: "store \<Rightarrow> uuid \<Rightarrow> PrivilegeFeature \<Rightarrow> bool" where
  "has_privilege s profile_id feature =
     (case privileges s (profile_id, feature) of Some p \<Rightarrow> pv_state p = PrivilegeEnabled | None \<Rightarrow> True)"

text \<open>Startup: of every profile and feature the latest row.\<close>

definition fetch_privileges :: "identity_db \<Rightarrow> privilege_map" where
  "fetch_privileges d k =
     (case sort_key (\<lambda>p. - pv_created_at p) (filter (\<lambda>p. privilege_key p = k) (privilege_rows d)) of
        [] \<Rightarrow> None | p # _ \<Rightarrow> Some p)"


subsection \<open>Requests\<close>

datatype Auth = AdminAuth | Authorized string Profile | NoAuth

datatype authorization_header = MissingHeader | MalformedHeader | Bearer string

definition authenticate :: "store \<Rightarrow> authorization_header \<Rightarrow> Auth rest" where
  "authenticate s header =
     (case header of
        Bearer token \<Rightarrow>
          if secret_key s = token then Inr AdminAuth
          else rbind (get_profile_by_token s token) (\<lambda>p. Inr (Authorized token p))
      | MissingHeader \<Rightarrow> Inr NoAuth
      | MalformedHeader \<Rightarrow> Inl (Fails InvalidToken))"

datatype AccessLevel = AdminLevel | LoggedInLevel | PublicLevel

text \<open>The layers of a route: the status a request is refused with, or the handler's turn.\<close>

definition admin_middleware :: "Auth \<Rightarrow> nat + unit" where
  "admin_middleware auth = (case auth of AdminAuth \<Rightarrow> Inr () | _ \<Rightarrow> Inl 403)"

definition require_login_middleware :: "Auth \<Rightarrow> nat + unit" where
  "require_login_middleware auth = (case auth of Authorized _ _ \<Rightarrow> Inr () | _ \<Rightarrow> Inl 401)"

definition route_access :: "AccessLevel \<Rightarrow> Auth \<Rightarrow> nat + unit" where
  "route_access level auth =
     (case level of AdminLevel \<Rightarrow> admin_middleware auth | LoggedInLevel \<Rightarrow> require_login_middleware auth
      | PublicLevel \<Rightarrow> Inr ())"

definition delete_profile_access_token :: "bool \<Rightarrow> time \<Rightarrow> Auth \<Rightarrow> (store, unit) action" where
  "delete_profile_access_token up now auth =
     (case auth of Authorized token _ \<Rightarrow> revoke_access_token up now token | _ \<Rightarrow> yields (Inr ()))"


subsection \<open>Histories\<close>

inductive store_step :: "store \<Rightarrow> store \<Rightarrow> bool" where
  profile: "create_profile email_ok up i name email role s = (s', res) \<Longrightarrow> store_step s s'"
| token: "get_or_create_access_token ups i tok pid s = (s', res1) \<Longrightarrow> store_step s s'"
| revoke: "revoke_access_token up now tok s = (s', res2) \<Longrightarrow> store_step s s'"
| privilege: "create_privilege up p s = (s', res3) \<Longrightarrow> store_step s s'"
| restart: "fetch_access_tokens (store_db s) = Inr m \<Longrightarrow>
     store_step s (s\<lparr>access_tokens := m, privileges := fetch_privileges (store_db s)\<rparr>)"

definition one_active :: "AccessToken list \<Rightarrow> bool" where
  "one_active ts \<longleftrightarrow> (\<forall>t\<in>set ts. \<forall>t'\<in>set ts. \<forall>i. active i t \<and> active i t' \<longrightarrow> t = t')"

definition identity_ok :: "identity_db \<Rightarrow> bool" where
  "identity_ok d \<longleftrightarrow>
     distinct (map pr_id (profile_rows d)) \<and> distinct (map pr_email (profile_rows d)) \<and>
     distinct (map tk_token (token_rows d)) \<and>
     (\<forall>t\<in>set (token_rows d). tk_profile_id t \<in> pr_id ` set (profile_rows d)) \<and>
     one_active (token_rows d)"

definition token_valid :: "identity_db \<Rightarrow> string \<Rightarrow> Profile \<Rightarrow> bool" where
  "token_valid d token p \<longleftrightarrow>
     p \<in> set (profile_rows d) \<and> (\<exists>t\<in>set (token_rows d). tk_token t = token \<and> active (pr_id p) t)"

definition store_ok :: "store \<Rightarrow> bool" where
  "store_ok s \<longleftrightarrow> identity_ok (store_db s) \<and>
     (\<forall>token p. access_tokens s token = Some p \<longrightarrow> token_valid (store_db s) token p)"

definition empty_store :: "string \<Rightarrow> store" where
  "empty_store key = \<lparr>secret_key = key, access_tokens = Map.empty, privileges = Map.empty,
     store_db = \<lparr>profile_rows = [], token_rows = [], privilege_rows = []\<rparr>\<rparr>"


subsection \<open>Memory agrees with the database\<close>

lemma find_SomeD: "find P xs = Some x \<Longrightarrow> x \<in> set xs \<and> P x"
  by (auto simp: find_Some_iff)

lemma find_distinct:
  "distinct (map f xs) \<Longrightarrow> find (\<lambda>x. f x = k) xs = Some x \<longleftrightarrow> x \<in> set xs \<and> f x = k"
  by (induction xs) auto

lemma each_rest_map: "(\<And>x. x \<in> set xs \<Longrightarrow> f x = Inr (g x)) \<Longrightarrow> each_rest f xs = Inr (map g xs)"
  by (induction xs) simp_all

lemma fetch_access_tokens_ok:
  assumes ok: "identity_ok d"
  shows "\<exists>m. fetch_access_tokens d = Inr m \<and> (\<forall>token p. m token = Some p \<longleftrightarrow> token_valid d token p)"
proof -
  let ?actives = "filter (\<lambda>t. tk_revoked_at t = None) (token_rows d)"
  let ?profile = "\<lambda>t. the (find (\<lambda>p. pr_id p = tk_profile_id t) (profile_rows d))"
  let ?m = "map_of (rev (map (\<lambda>t. (tk_token t, ?profile t)) ?actives))"
  have dist: "distinct (map pr_id (profile_rows d))" "distinct (map tk_token (token_rows d))"
    using ok by (simp_all add: identity_ok_def)
  have found: "find (\<lambda>p. pr_id p = tk_profile_id t) (profile_rows d) = Some (?profile t)"
    if "t \<in> set (token_rows d)" for t
  proof -
    from ok that obtain p where "p \<in> set (profile_rows d)" "pr_id p = tk_profile_id t"
      by (auto simp: identity_ok_def)
    then have "find (\<lambda>p. pr_id p = tk_profile_id t) (profile_rows d) = Some p"
      using dist by (simp add: find_distinct)
    then show ?thesis by simp
  qed
  have run: "fetch_access_tokens d = Inr ?m"
  proof -
    have "each_rest (\<lambda>t. case find (\<lambda>p. pr_id p = tk_profile_id t) (profile_rows d) of
        None \<Rightarrow> Inl (Panics :: RestError stop) | Some p \<Rightarrow> Inr (tk_token t, p)) ?actives = Inr (map (\<lambda>t. (tk_token t, ?profile t)) ?actives)"
      by (rule each_rest_map) (subst found, simp_all)
    then show ?thesis by (simp add: fetch_access_tokens_def)
  qed
  have keys: "distinct (map fst (rev (map (\<lambda>t. (tk_token t, ?profile t)) ?actives)))"
    using dist by (simp add: rev_map [symmetric] comp_def distinct_map_filter)
  have "?m token = Some p \<longleftrightarrow> token_valid d token p" for token p
  proof -
    have "?m token = Some p \<longleftrightarrow> (\<exists>t\<in>set ?actives. tk_token t = token \<and> ?profile t = p)"
      by (subst map_of_eq_Some_iff [OF keys]) auto
    also have "\<dots> \<longleftrightarrow> token_valid d token p"
    proof
      assume "\<exists>t\<in>set ?actives. tk_token t = token \<and> ?profile t = p"
      then obtain t where t: "t \<in> set (token_rows d)" "tk_revoked_at t = None" "tk_token t = token" "?profile t = p" by auto
      with found [OF t(1)] dist have "p \<in> set (profile_rows d)" "pr_id p = tk_profile_id t" by (simp_all add: find_distinct)
      with t show "token_valid d token p" by (auto simp: token_valid_def active_def)
    next
      assume "token_valid d token p"
      then obtain t where p: "p \<in> set (profile_rows d)" and t: "t \<in> set (token_rows d)" "tk_token t = token"
        "pr_id p = tk_profile_id t" "tk_revoked_at t = None" by (auto simp: token_valid_def active_def)
      with dist have "find (\<lambda>p. pr_id p = tk_profile_id t) (profile_rows d) = Some p" by (simp add: find_distinct)
      with t show "\<exists>t\<in>set ?actives. tk_token t = token \<and> ?profile t = p" by auto
    qed
    finally show ?thesis .
  qed
  with run show ?thesis by blast
qed

lemma query_or_create_token_cases:
  assumes "query_or_create_token up i tok pid s = (s', res)"
  shows "access_tokens s' = access_tokens s \<and> profile_rows (store_db s') = profile_rows (store_db s) \<and>
    (token_rows (store_db s') = token_rows (store_db s) \<or>
     token_rows (store_db s') = token_rows (store_db s) @ [\<lparr>tk_id = i, tk_token = tok, tk_profile_id = pid, tk_revoked_at = None\<rparr>] \<and>
       (\<forall>t\<in>set (token_rows (store_db s)). \<not> active pid t \<and> tk_token t \<noteq> tok) \<and>
       pid \<in> pr_id ` set (profile_rows (store_db s))) \<and>
    (\<forall>t p created. res = Inr (t, p, created) \<longrightarrow> t \<in> set (token_rows (store_db s')) \<and> active pid t \<and>
       p \<in> set (profile_rows (store_db s')) \<and> pr_id p = pid)"
  using assms
  by (auto simp: query_or_create_token_def seq_def insert_token_def select_active_token_def get_profile_by_id_def
      yields_def fails_def dest: find_SomeD split: if_splits sum.splits prod.splits option.splits)


definition revoked :: "identity_db \<Rightarrow> string \<Rightarrow> bool" where
  "revoked d token \<longleftrightarrow> (\<exists>t\<in>set (token_rows d). tk_token t = token \<and> tk_revoked_at t \<noteq> None)"

lemma identity_ok_append:
  assumes ok: "identity_ok d" and new: "\<And>t. t \<in> set (token_rows d) \<Longrightarrow> \<not> active (tk_profile_id n) t \<and> tk_token t \<noteq> tk_token n"
    and "tk_profile_id n \<in> pr_id ` set (profile_rows d)"
    and d': "profile_rows d' = profile_rows d" "token_rows d' = token_rows d @ [n]"
  shows "identity_ok d'"
proof -
  have id: "active i n \<Longrightarrow> i = tk_profile_id n" for i by (simp add: active_def)
  have old: "one_active (token_rows d)" using ok by (simp add: identity_ok_def)
  have one: "one_active (token_rows d')"
    unfolding one_active_def
  proof (intro ballI allI impI)
    fix t t' i
    assume t: "t \<in> set (token_rows d')" "t' \<in> set (token_rows d')" "active i t \<and> active i t'"
    then consider "t = n" "t' = n" | "t = n" "t' \<in> set (token_rows d)" | "t \<in> set (token_rows d)" "t' = n"
      | "t \<in> set (token_rows d)" "t' \<in> set (token_rows d)" by (auto simp: d')
    then show "t = t'" using t(3) id new old unfolding one_active_def by cases blast+
  qed
  have "distinct (map tk_token (token_rows d'))" using ok new by (force simp: identity_ok_def d')
  with ok one assms(3) show ?thesis by (auto simp: identity_ok_def d')
qed

lemma store_ok_token:
  assumes ok: "store_ok s" and run: "get_or_create_access_token ups i tok pid s = (s', res)"
  shows "store_ok s' \<and> secret_key s' = secret_key s \<and> (revoked (store_db s) x \<longrightarrow> revoked (store_db s') x)"
proof -
  obtain s1 res1 where q: "query_or_create_token ups i tok pid s = (s1, res1)" by fastforce
  note c = query_or_create_token_cases [OF q]
  have id1: "identity_ok (store_db s1)"
  proof (cases "token_rows (store_db s1) = token_rows (store_db s)")
    case True
    with ok c show ?thesis by (simp add: store_ok_def identity_ok_def)
  next
    case False
    let ?n = "\<lparr>tk_id = i, tk_token = tok, tk_profile_id = pid, tk_revoked_at = None\<rparr>"
    have "identity_ok (store_db s)" using ok by (simp add: store_ok_def)
    then show ?thesis by (rule identity_ok_append [where n = ?n]) (use False c in auto)
  qed
  have valid1: "token_valid (store_db s1) k p" if "token_valid (store_db s) k p" for k p
    using that c by (auto simp: token_valid_def)
  have ok1: "store_ok s1" using ok c id1 valid1 by (simp add: store_ok_def)
  have rev1: "revoked (store_db s) x \<longrightarrow> revoked (store_db s1) x" using c by (auto simp: revoked_def)
  have key1: "secret_key s1 = secret_key s"
    using q by (auto simp: query_or_create_token_def seq_def insert_token_def select_active_token_def get_profile_by_id_def
        yields_def fails_def split: if_splits sum.splits prod.splits option.splits)
  show ?thesis
  proof (cases res1)
    case (Inl e)
    with run q ok1 rev1 key1 show ?thesis by (simp add: get_or_create_access_token_def seq_def)
  next
    case (Inr y)
    obtain t p created where y: "y = (t, p, created)" by (metis prod_cases3)
    with run q Inr have s': "s' = s1\<lparr>access_tokens := (access_tokens s1)(tk_token t \<mapsto> p)\<rparr>"
      by (simp add: get_or_create_access_token_def seq_def publish_token_def)
    have "token_valid (store_db s1) (tk_token t) p" using c Inr y by (auto simp: token_valid_def)
    with ok1 rev1 key1 show ?thesis by (simp add: s' store_ok_def)
  qed
qed

lemma store_ok_revoke:
  assumes ok: "store_ok s" and run: "revoke_access_token up now tok s = (s', res)"
  shows "store_ok s' \<and> secret_key s' = secret_key s \<and> (revoked (store_db s) x \<longrightarrow> revoked (store_db s') x)"
proof (cases up)
  case True
  let ?f = "\<lambda>t. if tk_token t = tok \<and> tk_revoked_at t = None then t\<lparr>tk_revoked_at := Some now\<rparr> else t"
  have s': "s' = s\<lparr>store_db := (store_db s)\<lparr>token_rows := map ?f (token_rows (store_db s))\<rparr>,
      access_tokens := (access_tokens s)(tok := None)\<rparr>"
    using run True by (simp add: revoke_access_token_def)
  have f: "tk_token (?f t) = tk_token t" "tk_profile_id (?f t) = tk_profile_id t"
    "tk_revoked_at (?f t) = None \<longleftrightarrow> tk_revoked_at t = None \<and> tk_token t \<noteq> tok"
    "active i (?f t) \<longleftrightarrow> active i t \<and> tk_token t \<noteq> tok" for t i by (auto simp: active_def)
  have same: "?f t = t" if "tk_revoked_at (?f t) = None" for t using that by (simp split: if_splits)
  have "identity_ok (store_db s')"
  proof -
    have parts: "one_active (token_rows (store_db s))" "distinct (map tk_token (token_rows (store_db s)))"
      "\<forall>t\<in>set (token_rows (store_db s)). tk_profile_id t \<in> pr_id ` set (profile_rows (store_db s))"
      "distinct (map pr_id (profile_rows (store_db s)))" "distinct (map pr_email (profile_rows (store_db s)))"
      using ok by (simp_all add: store_ok_def identity_ok_def)
    have rows: "token_rows (store_db s') = map ?f (token_rows (store_db s))"
      "profile_rows (store_db s') = profile_rows (store_db s)" by (simp_all add: s')
    have "one_active (map ?f (token_rows (store_db s)))"
      unfolding one_active_def
    proof (intro ballI allI impI)
      fix t t' i
      assume "t \<in> set (map ?f (token_rows (store_db s)))" "t' \<in> set (map ?f (token_rows (store_db s)))"
        and act: "active i t \<and> active i t'"
      then obtain u u' where u: "t = ?f u" "t' = ?f u'" "u \<in> set (token_rows (store_db s))" "u' \<in> set (token_rows (store_db s))"
        unfolding set_map by (elim imageE) rule
      have "active i u" "active i u'" using act unfolding u(1,2) f(4) by blast+
      with parts(1) u(3,4) have "u = u'" unfolding one_active_def by blast
      with u show "t = t'" by simp
    qed
    moreover have "map tk_token (map ?f (token_rows (store_db s))) = map tk_token (token_rows (store_db s))" by simp
    moreover have "\<forall>t\<in>set (map ?f (token_rows (store_db s))). tk_profile_id t \<in> pr_id ` set (profile_rows (store_db s))"
      using parts(3) by auto
    ultimately show ?thesis using parts by (simp only: identity_ok_def rows)
  qed
  moreover have "token_valid (store_db s') k p" if "token_valid (store_db s) k p" "k \<noteq> tok" for k p
    using that by (auto simp: s' token_valid_def active_def) (metis f(1))?
  moreover have "revoked (store_db s) x \<longrightarrow> revoked (store_db s') x"
    by (force simp: s' revoked_def)
  ultimately show ?thesis using ok by (auto simp: s' store_ok_def split: if_splits)
qed (use assms in \<open>simp add: revoke_access_token_def\<close>)

lemma store_ok_step:
  assumes "store_step s s'" and ok: "store_ok s"
  shows "store_ok s' \<and> secret_key s' = secret_key s \<and> (revoked (store_db s) x \<longrightarrow> revoked (store_db s') x)"
  using assms(1)
proof cases
  case (profile email_ok up i name email role res)
  then show ?thesis
    using ok by (auto simp: create_profile_def Let_def store_ok_def identity_ok_def token_valid_def revoked_def
        split: if_splits)
next
  case (token ups i tok pid res1)
  with ok store_ok_token show ?thesis by blast
next
  case (revoke up now tok res2)
  with ok store_ok_revoke show ?thesis by blast
next
  case (privilege up p res3)
  then show ?thesis
    using ok by (auto simp: create_privilege_def store_ok_def identity_ok_def token_valid_def revoked_def split: if_splits)
next
  case (restart m)
  have "identity_ok (store_db s)" using ok by (simp add: store_ok_def)
  with fetch_access_tokens_ok [OF this] restart show ?thesis by (auto simp: store_ok_def)
qed

lemma store_ok_reachable: "store_step\<^sup>*\<^sup>* (empty_store key) s \<Longrightarrow> store_ok s \<and> secret_key s = key"
proof (induction rule: rtranclp_induct)
  case base
  show ?case by (simp add: store_ok_def identity_ok_def one_active_def empty_store_def)
next
  case (step s1 s2)
  with store_ok_step [OF step.hyps(2)] show ?case by metis
qed

lemma revoked_stays:
  "store_step\<^sup>*\<^sup>* s s' \<Longrightarrow> store_ok s \<Longrightarrow> revoked (store_db s) x \<Longrightarrow> store_ok s' \<and> secret_key s' = secret_key s \<and> revoked (store_db s') x"
proof (induction rule: rtranclp_induct)
  case (step s1 s2)
  with store_ok_step [OF step.hyps(2)] show ?case by metis
qed simp



text \<open>
  A revoked token never opens a session again, whatever happens later, restarts and
  newly issued tokens included.
\<close>

theorem revoked_token_stays_invalid:
  assumes "store_step\<^sup>*\<^sup>* (empty_store key) s" and "revoke_access_token up now token s = (s1, Inr ())"
    and "revoked (store_db s1) token" and "store_step\<^sup>*\<^sup>* s1 s2" and "token \<noteq> key"
  shows "authenticate s2 (Bearer token) = Inl (Fails InvalidToken)"
proof -
  from store_ok_reachable [OF assms(1)] have s: "store_ok s" "secret_key s = key" by blast+
  from store_ok_revoke [OF s(1) assms(2)] s(2) have s1: "store_ok s1" "secret_key s1 = key" by auto
  from revoked_stays [OF assms(4) s1(1) assms(3)] s1(2)
  have s2: "store_ok s2" "secret_key s2 = key" "revoked (store_db s2) token" by auto
  from s2(3) obtain t where t: "t \<in> set (token_rows (store_db s2))" "tk_token t = token" "tk_revoked_at t \<noteq> None"
    by (auto simp: revoked_def)
  have "access_tokens s2 token = None"
  proof (rule ccontr)
    assume "access_tokens s2 token \<noteq> None"
    then obtain p where "access_tokens s2 token = Some p" by blast
    with s2(1) obtain t' where t': "t' \<in> set (token_rows (store_db s2))" "tk_token t' = token" "tk_revoked_at t' = None"
      by (auto simp: store_ok_def token_valid_def active_def)
    have "distinct (map tk_token (token_rows (store_db s2)))" using s2(1) by (simp add: store_ok_def identity_ok_def)
    with t t' have "t = t'" by (auto simp: distinct_map inj_on_def)
    with t(3) t'(3) show False by simp
  qed
  with assms(5) s2(2) show ?thesis by (simp add: authenticate_def get_profile_by_token_def)
qed

text \<open>
  A restart takes nobody's session away: loading the active tokens never panics, and what
  it loads are exactly the valid tokens of the database, which contain everything memory held.
\<close>

theorem restart_keeps_sessions:
  assumes "store_step\<^sup>*\<^sup>* (empty_store key) s"
  shows "\<exists>m. fetch_access_tokens (store_db s) = Inr m \<and> access_tokens s \<subseteq>\<^sub>m m \<and>
    (\<forall>token p. m token = Some p \<longleftrightarrow> token_valid (store_db s) token p)"
proof -
  from store_ok_reachable [OF assms] have ok: "store_ok s" by blast
  then obtain m where m: "fetch_access_tokens (store_db s) = Inr m"
    "\<And>token p. m token = Some p \<longleftrightarrow> token_valid (store_db s) token p"
    using fetch_access_tokens_ok [of "store_db s"] by (auto simp: store_ok_def)
  have "access_tokens s \<subseteq>\<^sub>m m"
    unfolding map_le_def
  proof
    fix token
    assume "token \<in> dom (access_tokens s)"
    then obtain p where p: "access_tokens s token = Some p" by blast
    with ok m(2) have "m token = Some p" by (simp add: store_ok_def)
    with p show "access_tokens s token = m token" by simp
  qed
  with m show ?thesis by blast
qed


subsection \<open>The privilege that counts\<close>

text \<open>\<open>p\<close> is the latest of the records of its profile and feature.\<close>

definition latest :: "Privilege set \<Rightarrow> uuid \<times> PrivilegeFeature \<Rightarrow> Privilege option \<Rightarrow> bool" where
  "latest ps k found \<longleftrightarrow> (case found of
     None \<Rightarrow> \<forall>q\<in>ps. privilege_key q \<noteq> k
   | Some p \<Rightarrow> p \<in> ps \<and> privilege_key p = k \<and> (\<forall>q\<in>ps. privilege_key q = k \<longrightarrow> pv_created_at q \<le> pv_created_at p))"

lemma latest_update:
  assumes "\<And>k. latest ps k (m k)"
  shows "latest (insert p ps) k (update_in_memory_privilege p m k)"
proof (cases "k = privilege_key p")
  case True
  show ?thesis
  proof (cases "m k")
    case None
    with assms [of k] True show ?thesis by (simp add: latest_def update_in_memory_privilege_def)
  next
    case (Some old)
    with assms [of k] True show ?thesis by (auto simp: latest_def update_in_memory_privilege_def)
  qed
next
  case False
  then have "update_in_memory_privilege p m k = m k"
    by (simp add: update_in_memory_privilege_def split: option.split)
  with assms [of k] False show ?thesis by (auto simp: latest_def split: option.splits)
qed

lemma latest_fold: "latest (set ps) k (fold update_in_memory_privilege ps Map.empty k)"
proof (induction ps arbitrary: k rule: rev_induct)
  case (snoc p ps)
  then show ?case using latest_update [of "set ps" "fold update_in_memory_privilege ps Map.empty" p k] by simp
qed (simp add: latest_def)

lemma latest_fetch: "latest (set (privilege_rows d)) k (fetch_privileges d k)"
proof (cases "sort_key (\<lambda>p. - pv_created_at p) (filter (\<lambda>p. privilege_key p = k) (privilege_rows d))")
  case Nil
  have "filter (\<lambda>p. privilege_key p = k) (privilege_rows d) = []"
    using Nil by (metis length_0_conv length_sort)
  then show ?thesis using Nil by (auto simp: latest_def fetch_privileges_def filter_empty_conv)
next
  case (Cons p ps)
  let ?xs = "filter (\<lambda>p. privilege_key p = k) (privilege_rows d)"
  have "sorted (map (\<lambda>p. - pv_created_at p) (sort_key (\<lambda>p. - pv_created_at p) ?xs))" by (rule sorted_sort_key)
  then have le: "\<forall>q\<in>set ps. pv_created_at q \<le> pv_created_at p" using Cons by simp
  have "set (p # ps) = set ?xs" using Cons by (metis set_sort)
  with le show ?thesis using Cons by (fastforce simp: latest_def fetch_privileges_def)
qed

lemma latest_unique:
  "latest ps k x \<Longrightarrow> latest ps k y \<Longrightarrow> inj_on pv_created_at ps \<Longrightarrow> x = y"
  by (fastforce simp: latest_def inj_on_def split: option.splits)

text \<open>
  Memory always holds the latest privilege record of every profile and feature: however
  the insertions and the updates of memory after them are ordered, it answers like the table read
  at startup does, provided no two records have the same creation time.
\<close>

theorem privileges_in_memory_are_the_latest:
  assumes "set created = set (privilege_rows d)" and "inj_on pv_created_at (set created)"
  shows "fold update_in_memory_privilege created Map.empty = fetch_privileges d"
proof
  fix k
  have "latest (set created) k (fetch_privileges d k)" using latest_fetch assms(1) by simp
  from latest_unique [OF latest_fold this assms(2)]
  show "fold update_in_memory_privilege created Map.empty k = fetch_privileges d k" .
qed


text \<open>
  The histories above run each handler as a whole. When a revocation of the same token runs between
  the queries of \<open>get_or_create_access_token\<close> and its write to memory, the revoked token opens
  sessions until the next restart or revocation.
\<close>

lemma revocation_race:
  assumes "query_or_create_token ups i tok pid s = (s1, Inr (t, p, created))"
    and "revoke_access_token True now (tk_token t) s1 = (s2, res)"
    and "publish_token (t, p, created) s2 = (s3, res')" and "tk_token t \<noteq> secret_key s3"
  shows "revoked (store_db s3) (tk_token t) \<and>
    authenticate s3 (Bearer (tk_token t)) = Inr (Authorized (tk_token t) p)"
proof -
  from query_or_create_token_cases [OF assms(1)] have t: "t \<in> set (token_rows (store_db s1))" "tk_revoked_at t = None"
    by (auto simp: active_def)
  from assms(2,3) have s3: "store_db s3 = store_db s2" "access_tokens s3 (tk_token t) = Some p"
    "token_rows (store_db s2) = map (\<lambda>t'. if tk_token t' = tk_token t \<and> tk_revoked_at t' = None
       then t'\<lparr>tk_revoked_at := Some now\<rparr> else t') (token_rows (store_db s1))"
    by (auto simp: revoke_access_token_def publish_token_def)
  have "t\<lparr>tk_revoked_at := Some now\<rparr> \<in> set (token_rows (store_db s3))"
    unfolding s3(1,3) set_map by (rule image_eqI [where x = t]) (use t in simp_all)
  then have "revoked (store_db s3) (tk_token t)" unfolding revoked_def by (rule bexI [rotated]) simp
  with s3(2) assms(4) show ?thesis by (auto simp: authenticate_def get_profile_by_token_def)
qed


subsection \<open>A concrete store\<close>

definition sample_profile :: Profile where
  "sample_profile = \<lparr>pr_id = 5, pr_name = ''searcher'', pr_email = ''s@pyth.network'', pr_role = Searcher\<rparr>"

definition sample_token :: AccessToken where
  "sample_token = \<lparr>tk_id = 6, tk_token = ''token'', tk_profile_id = 5, tk_revoked_at = None\<rparr>"

definition sample_store :: store where
  "sample_store = (empty_store ''secret'')\<lparr>access_tokens := [''token'' \<mapsto> sample_profile],
     store_db := \<lparr>profile_rows = [sample_profile], token_rows = [sample_token], privilege_rows = []\<rparr>\<rparr>"

lemma sample_store_reachable: "store_step\<^sup>*\<^sup>* (empty_store ''secret'') sample_store"
proof -
  let ?s = "(empty_store ''secret'')\<lparr>store_db := \<lparr>profile_rows = [sample_profile], token_rows = [], privilege_rows = []\<rparr>\<rparr>"
  have "create_profile (\<lambda>_. True) True 5 ''searcher'' ''s@pyth.network'' Searcher (empty_store ''secret'') = (?s, Inr sample_profile)"
    by (simp add: create_profile_def empty_store_def sample_profile_def Let_def)
  then have first: "store_step (empty_store ''secret'') ?s" by (rule store_step.profile)
  have "get_or_create_access_token (\<lambda>_. True) 6 ''token'' 5 ?s = (sample_store, Inr (sample_token, True))"
    by (simp add: get_or_create_access_token_def query_or_create_token_def seq_def insert_token_def
        select_active_token_def get_profile_by_id_def yields_def publish_token_def active_def)
      (simp add: sample_store_def sample_profile_def sample_token_def empty_store_def active_def)
  then have "store_step ?s sample_store" by (rule store_step.token)
  with first show ?thesis by (simp add: converse_rtranclp_into_rtranclp)
qed

lemma sample_authenticates:
  "authenticate sample_store (Bearer ''token'') = Inr (Authorized ''token'' sample_profile)"
  by (simp add: authenticate_def sample_store_def empty_store_def get_profile_by_token_def)


theorem revoked_token_stays_invalid_witness:
  "authenticate (fst (revoke_access_token True 100 ''token'' sample_store)) (Bearer ''token'') = Inl (Fails InvalidToken)"
proof -
  let ?s1 = "fst (revoke_access_token True 100 ''token'' sample_store)"
  have run: "revoke_access_token True 100 ''token'' sample_store = (?s1, Inr ())"
    by (simp add: revoke_access_token_def)
  have "revoked (store_db ?s1) ''token''"
    by (simp add: revoke_access_token_def revoked_def sample_store_def sample_token_def)
  from revoked_token_stays_invalid [OF sample_store_reachable run this, of ?s1] show ?thesis by simp
qed

theorem restart_keeps_sessions_witness:
  "\<exists>m. fetch_access_tokens (store_db sample_store) = Inr m \<and> m ''token'' = Some sample_profile"
proof -
  from restart_keeps_sessions [OF sample_store_reachable] obtain m where
    m: "fetch_access_tokens (store_db sample_store) = Inr m" "access_tokens sample_store \<subseteq>\<^sub>m m" by blast
  have "access_tokens sample_store ''token'' = Some sample_profile" by (simp add: sample_store_def)
  with m(2) have "m ''token'' = Some sample_profile" by (metis domI map_le_def)
  with m(1) show ?thesis by blast
qed

definition sample_privilege :: "PrivilegeState \<Rightarrow> time \<Rightarrow> Privilege" where
  "sample_privilege st t = \<lparr>pv_id = 1, pv_feature = CancelQuote, pv_profile_id = 5, pv_state = st, pv_created_at = t\<rparr>"

theorem privileges_in_memory_are_the_latest_witness:
  "fetch_privileges \<lparr>profile_rows = [], token_rows = [],
     privilege_rows = [sample_privilege PrivilegeDisabled 1, sample_privilege PrivilegeEnabled 2]\<rparr> (5, CancelQuote) =
   Some (sample_privilege PrivilegeEnabled 2)"
proof -
  let ?d = "\<lparr>profile_rows = [], token_rows = [],
    privilege_rows = [sample_privilege PrivilegeDisabled 1, sample_privilege PrivilegeEnabled 2]\<rparr>"
  let ?created = "[sample_privilege PrivilegeEnabled 2, sample_privilege PrivilegeDisabled 1]"
  have "set ?created = set (privilege_rows ?d)" by auto
  moreover have "inj_on pv_created_at (set ?created)" by (simp add: sample_privilege_def)
  ultimately have "fetch_privileges ?d = fold update_in_memory_privilege ?created Map.empty"
    using privileges_in_memory_are_the_latest by metis
  then show ?thesis by (simp add: update_in_memory_privilege_def privilege_key_def sample_privilege_def)
qed

end
