(* ===== verification/As_Quote.thy ===== *)
theory As_Quote
  imports As_Auctions As_Access
begin

section \<open>Auction server: cancelling and submitting quotes\<close>

text \<open>
  \<open>auction/service/cancel_bid.rs\<close> and \<open>auction/service/submit_quote.rs\<close>: the searcher may cancel a bid
  that waits for the user's signature, the user may submit it; both hold the bid's lock. \<open>clock\<close> is
  the reading the deadline is checked against, \<open>now\<close> the one of the database writes. Histograms and
  counters are left out.
\<close>

record front = server +
  front_store :: store

subsection \<open>Cancelling\<close>

definition not_cancellable :: RestError where
  "not_cancellable = BadParameters ''Bid is only cancellable in awaiting_signature state''"

definition cancel_bid_for_lock :: "time \<Rightarrow> uuid \<Rightarrow> uuid \<Rightarrow> ('z front_scheme, unit) action" where
  "cancel_bid_for_lock now bid_id profile_id s =
     (case get_in_memory_auction_bid_by_bid_id (auction_repo s) bid_id of
        None \<Rightarrow> (s, Inl (Fails not_cancellable))
      | Some b \<Rightarrow>
          if b_profile_id b \<noteq> Some profile_id then (s, Inl (Fails Forbidden))
          else if \<not> has_privilege (front_store s) profile_id CancelQuote then (s, Inl (Fails CancelQuoteAccessRevoked))
          else
            (case b_status b of
               AwaitingSignature a \<Rightarrow>
                 seq (yields (first_signature (cd_transaction (b_chain_data b)))) (\<lambda>tx_hash.
                 seq (update_bid_status b (Cancelled \<lparr>sa_id = sa_id a, sa_tx_hash = tx_hash\<rparr>) now) (\<lambda>_.
                   yields (Inr ()))) s
             | SentToUserForSubmission _ \<Rightarrow>
                 (s, Inl (Fails (BadParameters ''Non-cancellable quotes can't be cancelled'')))
             | _ \<Rightarrow> (s, Inl (Fails not_cancellable))))"

definition cancel_bid :: "time \<Rightarrow> uuid \<Rightarrow> uuid \<Rightarrow> ('z front_scheme, unit) action" where
  "cancel_bid now bid_id profile_id =
     locked bid_locks bid_locks_update bid_id (cancel_bid_for_lock now bid_id profile_id)"


subsection \<open>Submitting\<close>

definition submittable :: "bid \<Rightarrow> bool" where
  "submittable b \<longleftrightarrow> is_awaiting_signature (b_status b) \<or> is_sent_to_user_for_submission (b_status b) \<or>
     is_submitted (b_status b) \<or> is_cancelled (b_status b)"

definition get_winner_bid_for_submission :: "uuid \<Rightarrow> 'z caches_scheme \<Rightarrow> (auction \<times> bid) rest" where
  "get_winner_bid_for_submission auction_id s =
     (case get_auction_by_id auction_id s of
        None \<Rightarrow> Inl (Fails (BadParameters ''Quote not found. The provided reference ID may be invalid, already finalized on-chain, or canceled.''))
      | Some a \<Rightarrow> (case find submittable (a_bids a) of None \<Rightarrow> Inl (Fails QuoteIsFinalized) | Some b \<Rightarrow> Inr (a, b)))"

definition sign_bid_and_submit_auction :: "env \<Rightarrow> time \<Rightarrow> bid \<Rightarrow> auction \<Rightarrow> ('z caches_scheme, tx) action" where
  "sign_bid_and_submit_auction env now b a =
     seq (yields (add_relayer_signature env b)) (\<lambda>b.
     seq (\<lambda>s. case get_auction_by_id (a_id a) s of
            None \<Rightarrow> (s, Inl (Fails TemporarilyUnavailable)) | Some a \<Rightarrow> (s, Inr a)) (\<lambda>a.
     seq (yields (first_signature (cd_transaction (b_chain_data b)))) (\<lambda>tx_hash.
     seq (\<lambda>s. fails_as unavailable (on_repo (repo_submit_auction a tx_hash [b_id b] now) s)) (\<lambda>_.
       yields (Inr (cd_transaction (b_chain_data b)))))))"

definition MIN_DEADLINE_BUFFER_SECS :: int where
  "MIN_DEADLINE_BUFFER_SECS = 2"

text \<open>The subtraction wraps, as it does in a release build.\<close>

definition is_within_deadline_buffer :: "time \<Rightarrow> SwapV2Args \<Rightarrow> bool" where
  "is_within_deadline_buffer clock swap_args \<longleftrightarrow>
     MIN_DEADLINE_BUFFER_SECS \<le> sint (deadline swap_args - word_of_int (clock div 1000000000))"

definition submission_failed :: "time \<Rightarrow> auction \<Rightarrow> bid \<Rightarrow> BidSubmissionFailedReason \<Rightarrow> ('z opp_state_scheme, unit) action" where
  "submission_failed now a b reason =
     seq (yields (first_signature (cd_transaction (b_chain_data b)))) (\<lambda>tx_hash.
     seq (update_bid_status b (SubmissionFailed \<lparr>sa_id = a_id a, sa_tx_hash = tx_hash\<rparr> reason) now) (\<lambda>_.
       yields (Inr ())))"

text \<open>The end of \<open>submit_auction_bid_for_lock\<close>: a signed bid is registered, marked and sent.\<close>

definition send_signed :: "time \<Rightarrow> bid \<Rightarrow> auction \<Rightarrow> ('z server_scheme, unit) action" where
  "send_signed now b a =
     seq (yields (first_signature (cd_transaction (b_chain_data b)))) (\<lambda>tx_hash.
     seq (\<lambda>s. fails_as unavailable (on_repo (repo_submit_auction a tx_hash [b_id b] now) s)) (\<lambda>a.
     seq (update_bid_status b (Submitted \<lparr>sa_id = a_id a, sa_tx_hash = tx_hash\<rparr>) now) (\<lambda>_.
     seq (send_transaction now b) (\<lambda>_. yields (Inr ())))))"

definition submit_auction_bid_for_lock ::
  "time \<Rightarrow> time \<Rightarrow> bid \<Rightarrow> uuid \<Rightarrow> SwapV2Args \<Rightarrow> ('z server_scheme, unit) action" where
  "submit_auction_bid_for_lock clock now signed_bid auction_id swap_args =
     seq (\<lambda>s. (s, get_winner_bid_for_submission auction_id s)) (\<lambda>(a, latest).
       if is_submitted (b_status latest) then yields (Inr ())
       else if \<not> is_within_deadline_buffer clock swap_args then
         (if is_sent_to_user_for_submission (b_status latest) then fails QuoteIsExpired
          else seq (submission_failed now a latest SubmissionDeadlinePassed) (\<lambda>_. fails QuoteIsExpired))
       else if is_cancelled (b_status latest) then
         seq (submission_failed now a latest SubmissionCancelled) (\<lambda>_. fails QuoteIsCancelled)
       else send_signed now signed_bid a)"

definition submit_quote ::
  "env \<Rightarrow> string \<Rightarrow> time \<Rightarrow> time \<Rightarrow> uuid \<Rightarrow> signature \<Rightarrow> ('z server_scheme, tx) action" where
  "submit_quote env ch clock now auction_id user_signature =
     seq (\<lambda>s. (s, get_winner_bid_for_submission auction_id s)) (\<lambda>(a, winner).
     let t = cd_transaction (b_chain_data winner) in
     seq (\<lambda>s. fails_as (\<lambda>_. BadParameters ''Invalid quote.'') (get_bid_transaction_data_swap env ch t s)) (\<lambda>d.
       let user_wallet = sa_user_wallet (swap_tx_accounts d) in
       if \<not> verify_signature env user_signature user_wallet (serialize_message env (message t))
       then fails (BadParameters ''Invalid user signature.'')
       else
         seq (yields (sign_as user_wallet user_signature winner)) (\<lambda>b.
         seq (yields (add_relayer_signature env b)) (\<lambda>b.
         seq (locked bid_locks bid_locks_update (b_id winner)
               (submit_auction_bid_for_lock clock now b (a_id a) (swap_data d))) (\<lambda>_.
           yields (Inr (cd_transaction (b_chain_data b))))))))"


subsection \<open>Who may cancel\<close>

lemma seq_yields [simp]: "seq (yields (Inr x)) f s = f x s" "seq (yields (Inl e)) f s = (s, Inl e)"
  by (simp_all add: seq_def yields_def)

lemma fails_as_simps [simp]:
  "fails_as f (s, Inr x) = (s, Inr x)" "fails_as f (s, Inl (Fails e)) = (s, Inl (Fails (f e)))"
  "fails_as f (s, Inl Panics) = (s, Inl Panics)"
  by (simp_all add: fails_as_def)

lemma locked_bid:
  assumes "locked bid_locks bid_locks_update k work s = (s', res)"
  shows "\<exists>l l' s2. work (s\<lparr>bid_locks := l\<rparr>) = (s2, res) \<and> s' = s2\<lparr>bid_locks := l'\<rparr>"
proof -
  obtain m l where g: "get_or_create_lock k (bid_locks s) = (m, l)" by fastforce
  obtain s2 r where w: "work (bid_locks_update (\<lambda>_. l) s) = (s2, r)" by fastforce
  have upd: "\<exists>l'. bid_locks_update f x = x\<lparr>bid_locks := l'\<rparr>" for f and x :: "'a server_scheme"
    by (rule exI [of _ "f (bid_locks x)"]) simp
  have upd2: "\<exists>l'. bid_locks_update f (bid_locks_update h x) = x\<lparr>bid_locks := l'\<rparr>" for f h and x :: "'a server_scheme"
    by (rule exI [of _ "f (h (bid_locks x))"]) simp
  from assms have "r = res" "s' = bid_locks_update (drop_lock k m) s2 \<or>
      s' = bid_locks_update (remove_lock k) (bid_locks_update (drop_lock k m) s2)"
    by (auto simp only: locked_def Let_def g w prod.case prod.inject split: if_splits)
  with w upd upd2 show ?thesis by metis
qed

lemma server_emit [simp]:
  "sent_transactions (emit e s) = sent_transactions s" "front_store (emit e s) = front_store s"
  "bid_locks (emit e s) = bid_locks s"
  by (simp_all add: emit_def)

lemma db_cancelled:
  assumes "db_up d" and "db_bids d i = Some row" and "r_status row = DbAwaitingSignature"
  shows "\<exists>row' c. db_update_bid_status d i (Cancelled a) now = Inr (d\<lparr>db_bids := (db_bids d)(i \<mapsto> row')\<rparr>, True, c) \<and>
    r_status row' = DbCancelled"
  using assms by (simp add: db_update_bid_status_def) (rule exI, rule conjI, rule refl, simp)

lemma update_cancelled:
  assumes "db_up (repo_db (auction_repo s))" and "row_of (b_id b) s = Some row" and "r_status row = DbAwaitingSignature"
  shows "\<exists>d c row'. update_bid_status b (Cancelled a) now s =
      (emit (BidStatusUpdate (b_id b) (Cancelled a)) (s\<lparr>auction_repo := update_in_memory_auction_bid b (Cancelled a)
         (remove_in_memory_pending_bids [b] ((auction_repo s)\<lparr>repo_db := d\<rparr>))\<rparr>), Inr True) \<and>
    d = (repo_db (auction_repo s))\<lparr>db_bids := (db_bids (repo_db (auction_repo s)))(b_id b \<mapsto> row')\<rparr> \<and>
    r_status row' = DbCancelled"
proof -
  from db_cancelled [OF assms] obtain row' c where
    u: "db_update_bid_status (repo_db (auction_repo s)) (b_id b) (Cancelled a) now =
      Inr ((repo_db (auction_repo s))\<lparr>db_bids := (db_bids (repo_db (auction_repo s)))(b_id b \<mapsto> row')\<rparr>, True, c)"
    and st: "r_status row' = DbCancelled" by blast
  show ?thesis
    by (intro exI conjI [rotated]) (rule st, rule refl,
      simp add: update_bid_status_def seq_def on_repo_def fails_as_def repo_update_bid_status_def u Let_def)
qed

lemma update_frame:
  obtains R E where "fst (update_bid_status b st now s) = s\<lparr>auction_repo := R, events := E\<rparr>"
proof (cases rule: update_bid_status_cases [of b st now s])
  case (updated r c)
  then show ?thesis using that by (simp add: emit_def)
next
  case (unchanged r c)
  then have "fst (update_bid_status b st now s) = s\<lparr>auction_repo := r, events := events s\<rparr>" by simp
  then show ?thesis using that by blast
next
  case (failed r e)
  then have "fst (update_bid_status b st now s) = s\<lparr>auction_repo := r, events := events s\<rparr>" by simp
  then show ?thesis using that by blast
qed

lemma failed_update_changes_nothing:
  "update_bid_status b st now s = (s', Inl e) \<Longrightarrow> s' = s"
  by (cases rule: update_bid_status_cases [of b st now s])
    (auto simp: repo_update_bid_status_def Let_def split: sum.splits prod.splits)

definition cancellable_by :: "uuid \<Rightarrow> uuid \<Rightarrow> 'z front_scheme \<Rightarrow> bid \<Rightarrow> BidStatusAuction \<Rightarrow> bool" where
  "cancellable_by i profile s b a \<longleftrightarrow>
     get_in_memory_auction_bid_by_bid_id (auction_repo s) i = Some b \<and> b_profile_id b = Some profile \<and>
     has_privilege (front_store s) profile CancelQuote \<and> b_status b = AwaitingSignature a"

lemma cancel_bid_for_lock_cases:
  assumes "cancel_bid_for_lock now i profile s = (s', res)"
  shows "(\<exists>b a sig sigs x. cancellable_by i profile s b a \<and> signatures (cd_transaction (b_chain_data b)) = sig # sigs \<and>
      update_bid_status b (Cancelled \<lparr>sa_id = sa_id a, sa_tx_hash = sig\<rparr>) now s = (s', Inr x) \<and> res = Inr ()) \<or>
    s' = s \<and> res \<noteq> Inr ()"
proof -
  consider (go) b a sig sigs where "cancellable_by i profile s b a" "signatures (cd_transaction (b_chain_data b)) = sig # sigs"
    "seq (update_bid_status b (Cancelled \<lparr>sa_id = sa_id a, sa_tx_hash = sig\<rparr>) now) (\<lambda>_. yields (Inr ())) s = (s', res)"
    | (stop) "s' = s" "res \<noteq> Inr ()"
    using assms by (auto simp: cancel_bid_for_lock_def cancellable_by_def first_signature_def
        split: option.splits if_splits BidStatusSvm.splits list.splits)
  then show ?thesis
  proof cases
    case go
    obtain s1 x where u: "update_bid_status b (Cancelled \<lparr>sa_id = sa_id a, sa_tx_hash = sig\<rparr>) now s = (s1, x)" by fastforce
    show ?thesis
    proof (cases x)
      case (Inl e)
      with u have "s1 = s" using failed_update_changes_nothing by blast
      with go(3) u Inl show ?thesis by (auto simp: seq_def)
    next
      case (Inr y)
      with go u show ?thesis by (auto simp: seq_def yields_def)
    qed
  qed blast
qed


lemma found_bid_id: "get_in_memory_auction_bid_by_bid_id r i = Some b \<Longrightarrow> b_id b = i"
  by (auto simp: get_in_memory_auction_bid_by_bid_id_def find_Some_iff)

lemma frame_locks [simp]:
  "auction_repo (s\<lparr>bid_locks := l\<rparr>) = auction_repo s" "events (s\<lparr>bid_locks := l\<rparr>) = events s"
  "announced i (s\<lparr>bid_locks := l\<rparr>) = announced i s" "sent_transactions (s\<lparr>bid_locks := l\<rparr>) = sent_transactions s"
  by (simp_all add: announced_def)

text \<open>
  A bid is cancelled only for the profile that made it, with the privilege to cancel, and
  only while it waits for the user's signature in memory; if it waits in the database too, it is
  cancelled there and announced as cancelled. A refused or failed cancellation changes neither
  memory nor database nor tells anybody, and no cancellation sends a transaction.
\<close>

theorem only_the_owner_cancels:
  assumes "cancel_bid now i profile s = (s', res)"
  shows "sent_transactions s' = sent_transactions s \<and>
    (res \<noteq> Inr () \<longrightarrow> auction_repo s' = auction_repo s \<and> events s' = events s) \<and>
    (res = Inr () \<longrightarrow> (\<exists>b a. cancellable_by i profile s b a \<and>
       (db_up (repo_db (auction_repo s)) \<and> (\<exists>row. row_of i s = Some row \<and> r_status row = DbAwaitingSignature) \<longrightarrow>
        (\<exists>row'. row_of i s' = Some row' \<and> r_status row' = DbCancelled) \<and>
        (\<exists>sa. sa_id sa = sa_id a \<and> announced i s' = announced i s @ [Cancelled sa]))))"
proof -
  from locked_bid [OF assms [unfolded cancel_bid_def]] obtain l l' s2 where
    work: "cancel_bid_for_lock now i profile (s\<lparr>bid_locks := l\<rparr>) = (s2, res)" and s': "s' = s2\<lparr>bid_locks := l'\<rparr>" by blast
  have front: "cancellable_by i profile (s\<lparr>bid_locks := l\<rparr>) b a = cancellable_by i profile s b a" for b a
    by (simp add: cancellable_by_def)
  from cancel_bid_for_lock_cases [OF work] consider
    (go) b a sig x where "cancellable_by i profile s b a"
      "update_bid_status b (Cancelled \<lparr>sa_id = sa_id a, sa_tx_hash = sig\<rparr>) now (s\<lparr>bid_locks := l\<rparr>) = (s2, Inr x)" "res = Inr ()"
    | (stop) "s2 = s\<lparr>bid_locks := l\<rparr>" "res \<noteq> Inr ()"
    unfolding front by blast
  then show ?thesis
  proof cases
    case go
    have id: "b_id b = i" using go(1) found_bid_id by (auto simp: cancellable_by_def)
    obtain R E where frame: "s2 = s\<lparr>bid_locks := l\<rparr>\<lparr>auction_repo := R, events := E\<rparr>"
      using update_frame [of b _ now "s\<lparr>bid_locks := l\<rparr>"] go(2) by (metis fst_conv)
    have sent: "sent_transactions s' = sent_transactions s" by (simp add: s' frame)
    have effect: "(\<exists>row'. row_of i s' = Some row' \<and> r_status row' = DbCancelled) \<and>
        (\<exists>sa. sa_id sa = sa_id a \<and> announced i s' = announced i s @ [Cancelled sa])"
      if up: "db_up (repo_db (auction_repo s))" and row: "row_of i s = Some row" "r_status row = DbAwaitingSignature" for row
      using update_cancelled [of "s\<lparr>bid_locks := l\<rparr>" b row "\<lparr>sa_id = sa_id a, sa_tx_hash = sig\<rparr>" now] go(2) up row id
      by (auto simp: s')
    show ?thesis using sent go(1,3) effect by blast
  next
    case stop
    then show ?thesis by (simp add: s')
  qed
qed


subsection \<open>What is sent for a quote\<close>

lemma send_transaction_sent:
  "send_transaction now b s = (s', r) \<Longrightarrow> sent_transactions s' = sent_transactions s @ [bid_tx b] \<and> auction_repo s' = auction_repo s"
  by (auto simp: send_transaction_def Let_def bid_tx_def)

definition sends_nothing :: "('z server_scheme \<Rightarrow> 'z server_scheme \<times> 'r) \<Rightarrow> bool" where
  "sends_nothing m \<longleftrightarrow> (\<forall>s. sent_transactions (fst (m s)) = sent_transactions s)"

named_theorems silent

lemma silent_yields [silent]: "sends_nothing (yields r)" "sends_nothing (fails e)" "sends_nothing (\<lambda>s. (s, g s))"
  by (simp_all add: sends_nothing_def yields_def fails_def)

lemma silent_seq [silent]: "sends_nothing m \<Longrightarrow> (\<And>x. sends_nothing (f x)) \<Longrightarrow> sends_nothing (seq m f)"
  unfolding sends_nothing_def seq_def by (auto split: prod.splits sum.splits) (metis fst_conv)+

lemma silent_update [silent]: "sends_nothing (update_bid_status b st now)"
  unfolding sends_nothing_def
proof
  fix s :: "'a server_scheme"
  show "sent_transactions (fst (update_bid_status b st now s)) = sent_transactions s"
    by (cases rule: update_frame [of b st now s]) simp
qed

lemma silent_repo [silent]: "sends_nothing (\<lambda>s. fails_as f (on_repo g s))"
  unfolding sends_nothing_def
  by (auto simp: on_repo_def fails_as_def split: prod.splits sum.splits stop.splits)

lemma silent_failed [silent]: "sends_nothing (submission_failed now a b reason)"
  unfolding submission_failed_def by (intro silent)

lemma sends_nothingD: "sends_nothing m \<Longrightarrow> m s = (s', r) \<Longrightarrow> sent_transactions s' = sent_transactions s"
  unfolding sends_nothing_def by (metis fst_conv)

lemma seq_Inr_cases:
  assumes "seq m f s = (s', res)"
  obtains (stopped) e where "m s = (s', Inl e)" "res = Inl e" | (went_on) s1 x where "m s = (s1, Inr x)" "f x s1 = (s', res)"
  using assms by (auto simp: seq_def split: prod.splits sum.splits)

lemma send_signed_sent:
  assumes "send_signed now b a s = (s', res)"
  shows "if res = Inr () then sent_transactions s' = sent_transactions s @ [bid_tx b]
    else sent_transactions s' = sent_transactions s"
proof -
  obtain sig where sig: "first_signature (cd_transaction (b_chain_data b)) = (sig :: signature rest)" by simp
  show ?thesis
  proof (cases sig)
    case (Inl e)
    with assms sig show ?thesis by (auto simp: send_signed_def)
  next
    case (Inr h)
    from assms sig Inr have "seq (\<lambda>s. fails_as unavailable (on_repo (repo_submit_auction a h [b_id b] now) s)) (\<lambda>a.
       seq (update_bid_status b (Submitted \<lparr>sa_id = a_id a, sa_tx_hash = h\<rparr>) now) (\<lambda>_.
       seq (send_transaction now b) (\<lambda>_. yields (Inr ())))) s = (s', res)"
      by (simp add: send_signed_def)
    then show ?thesis
    proof (cases rule: seq_Inr_cases)
      case (stopped e)
      with silent_repo show ?thesis by (metis sends_nothingD Inl_Inr_False)
    next
      case (went_on s1 a1)
      have s1: "sent_transactions s1 = sent_transactions s" using went_on(1) silent_repo sends_nothingD by metis
      from went_on(2) show ?thesis
      proof (cases rule: seq_Inr_cases)
        case (stopped e)
        with s1 silent_update show ?thesis by (metis sends_nothingD Inl_Inr_False)
      next
        case (went_on s2 u)
        have s2: "sent_transactions s2 = sent_transactions s1" using went_on(1) silent_update sends_nothingD by metis
        obtain s3 and r :: "signature rest" where send: "send_transaction now b s2 = (s3, r)" by fastforce
        have "r = Inr h"
          using send sig Inr by (auto simp: send_transaction_def Let_def first_signature_def split: list.splits)
        with went_on(2) send have "s' = s3" "res = Inr ()" by (simp_all add: seq_def yields_def)
        with send_transaction_sent [OF send] s1 s2 show ?thesis by simp
      qed
    qed
  qed
qed


lemma within_buffer:
  assumes "is_within_deadline_buffer clock args" and "0 \<le> clock" and "clock < seconds (2 ^ 62)"
    and "- (2 ^ 62) \<le> sint (deadline args)"
  shows "clock div 1000000000 + 2 \<le> sint (deadline args)"
proof -
  have t: "0 \<le> clock div 1000000000" "clock div 1000000000 < 2 ^ 62" using assms(2,3) by (simp_all add: seconds_def)
  have hi: "sint (deadline args) < 2 ^ 63" using sint_lt [of "deadline args"] by simp
  have "sint (deadline args - word_of_int (clock div 1000000000)) = sint (deadline args) - clock div 1000000000"
    using t hi assms(4) by (simp add: sint_word_ariths sint_sbintrunc' signed_take_bit_int_eq_self)
  with assms(1) show ?thesis by (simp add: is_within_deadline_buffer_def MIN_DEADLINE_BUFFER_SECS_def)
qed

text \<open>
  Property C17. Under the lock of the bid, a transaction is sent for a quote only if, as memory stands
  at that moment, its bid still waits for the user or was handed to the user, was neither
  submitted nor cancelled before, and the deadline in its own instruction is at least two seconds
  away; what is sent then is the one signed transaction, and the caller is told success. A refusal
  or failure sends nothing, and a quote submitted before is reported as success without being
  sent again.
\<close>

theorem quote_sent_only_while_open:
  assumes "submit_auction_bid_for_lock clock now signed_bid i args s = (s', res)"
    and "0 \<le> clock" and "clock < seconds (2 ^ 62)" and "- (2 ^ 62) \<le> sint (deadline args)"
  shows "(sent_transactions s' \<noteq> sent_transactions s \<longrightarrow>
      res = Inr () \<and> sent_transactions s' = sent_transactions s @ [cd_transaction (b_chain_data signed_bid)] \<and>
      (\<exists>a b. get_winner_bid_for_submission i s = Inr (a, b) \<and>
        (is_awaiting_signature (b_status b) \<or> is_sent_to_user_for_submission (b_status b))) \<and>
      clock div 1000000000 + 2 \<le> sint (deadline args)) \<and>
    (res = Inr () \<and> sent_transactions s' = sent_transactions s \<longrightarrow>
      s' = s \<and> (\<exists>a b. get_winner_bid_for_submission i s = Inr (a, b) \<and> is_submitted (b_status b)))"
proof (cases "get_winner_bid_for_submission i s")
  case (Inl e)
  with assms(1) show ?thesis by (auto simp: submit_auction_bid_for_lock_def seq_def)
next
  case (Inr w)
  obtain a latest where w: "w = (a, latest)" by fastforce
  let ?rest = "if is_submitted (b_status latest) then yields (Inr ())
       else if \<not> is_within_deadline_buffer clock args then
         (if is_sent_to_user_for_submission (b_status latest) then fails QuoteIsExpired
          else seq (submission_failed now a latest SubmissionDeadlinePassed) (\<lambda>_. fails QuoteIsExpired))
       else if is_cancelled (b_status latest) then
         seq (submission_failed now a latest SubmissionCancelled) (\<lambda>_. fails QuoteIsCancelled)
       else send_signed now signed_bid a"
  from assms(1) Inr w have run: "?rest s = (s', res)" by (simp add: submit_auction_bid_for_lock_def seq_def)
  have sub: "submittable latest"
    using Inr w by (auto simp: get_winner_bid_for_submission_def find_Some_iff split: option.splits)
  have no_send: "sent_transactions s' = sent_transactions s" "res \<noteq> Inr ()"
    if "\<not> is_submitted (b_status latest)" "\<not> is_within_deadline_buffer clock args \<or> is_cancelled (b_status latest)"
  proof -
    have "sends_nothing ?rest" using that by (auto intro!: silent)
    with run show "sent_transactions s' = sent_transactions s" by (rule sends_nothingD [rotated]) 
    from run that show "res \<noteq> Inr ()"
      by (auto simp: fails_def seq_def split: prod.splits sum.splits if_splits)
  qed
  consider (submitted) "is_submitted (b_status latest)"
    | (refused) "\<not> is_submitted (b_status latest)" "\<not> is_within_deadline_buffer clock args \<or> is_cancelled (b_status latest)"
    | (sent) "\<not> is_submitted (b_status latest)" "is_within_deadline_buffer clock args" "\<not> is_cancelled (b_status latest)"
    by blast
  then show ?thesis
  proof cases
    case submitted
    with run Inr w show ?thesis by (simp add: yields_def)
  next
    case refused
    with no_send show ?thesis by simp
  next
    case sent
    then have send: "send_signed now signed_bid a s = (s', res)" using run by simp
    have open_bid: "is_awaiting_signature (b_status latest) \<or> is_sent_to_user_for_submission (b_status latest)"
      using sub sent by (simp add: submittable_def)
    have late: "clock div 1000000000 + 2 \<le> sint (deadline args)"
      using sent(2) assms(2-4) within_buffer by blast
    from send_signed_sent [OF send] show ?thesis
      using open_bid late Inr w by (auto simp: bid_tx_def split: if_splits)
  qed
qed


lemma sign_as_Inr:
  "sign_as key sig b = Inr b' \<Longrightarrow>
     \<exists>i. position (\<lambda>p. p = key) (static_account_keys (message (bid_tx b))) = Some i \<and> i < length (signatures (bid_tx b)) \<and>
       bid_tx b' = (bid_tx b)\<lparr>signatures := (signatures (bid_tx b))[i := sig]\<rparr>"
  by (auto simp: sign_as_def bid_tx_def Let_def split: option.splits if_splits)

lemma seq_yields_Inr:
  assumes "seq (yields r) f s = (s', Inr y)"
  obtains x where "r = Inr x" "f x s = (s', Inr y)"
  using assms by (cases r) auto

lemma more_sent: "caches.more s = caches.more s' \<Longrightarrow> sent_transactions s = sent_transactions s'"
  by (cases s; cases s') simp

lemma locked_sends:
  assumes "locked bid_locks bid_locks_update k (submit_auction_bid_for_lock clock now b i args) s = (s', Inr ())"
  shows "sent_transactions s' = sent_transactions s \<or> sent_transactions s' = sent_transactions s @ [bid_tx b]"
proof -
  from locked_bid [OF assms] obtain l l' s2 where
    work: "submit_auction_bid_for_lock clock now b i args (s\<lparr>bid_locks := l\<rparr>) = (s2, Inr ())" and s': "s' = s2\<lparr>bid_locks := l'\<rparr>"
    by blast
  from work show ?thesis
    unfolding submit_auction_bid_for_lock_def
  proof (cases rule: seq_Inr_cases)
    case (went_on s1 w)
    obtain a latest where "w = (a, latest)" by fastforce
    with went_on have "s1 = s\<lparr>bid_locks := l\<rparr>" and
      "(if is_submitted (b_status latest) then yields (Inr ()) s1 else send_signed now b a s1) = (s2, Inr ())"
      by (auto simp: fails_def seq_def split: if_splits prod.splits sum.splits)
    then show ?thesis
      using send_signed_sent [of now b a s1 s2 "Inr ()"] by (auto simp: s' yields_def split: if_splits)
  qed simp
qed

text \<open>
  Property C4. What a successful submission of a quote returns, and the only transaction it may send,
  is the transaction of the auction's open bid with exactly two signatures filled in: the user's,
  which is valid for the wallet named in the swap instruction and for this very message, and the
  relayer's. So the user's consent to the message sent is never assumed.
\<close>

theorem submitted_quote_carries_user_signature:
  assumes "caches_ok env ch s" and "submit_quote env ch clock now i sig s = (s', Inr t)"
  shows "\<exists>a w d iu ir. get_winner_bid_for_submission i s = Inr (a, w) \<and> swap_transaction_data env ch (bid_tx w) = Inr d \<and>
    verify_signature env sig (sa_user_wallet (swap_tx_accounts d)) (serialize_message env (message t)) \<and>
    position (\<lambda>p. p = sa_user_wallet (swap_tx_accounts d)) (static_account_keys (message t)) = Some iu \<and>
    position (\<lambda>p. p = relayer_pubkey env) (static_account_keys (message t)) = Some ir \<and>
    t = (bid_tx w)\<lparr>signatures := (signatures (bid_tx w))[iu := sig, ir := relayer_sign env (serialize_message env (message t))]\<rparr> \<and>
    (sent_transactions s' = sent_transactions s \<or> sent_transactions s' = sent_transactions s @ [t])"
proof -
  from assms(2) obtain a w where w: "get_winner_bid_for_submission i s = Inr (a, w)"
    by (auto simp: submit_quote_def seq_def split: sum.splits)
  let ?t = "bid_tx w"
  obtain s1 r where decode: "get_bid_transaction_data_swap env ch ?t s = (s1, r)" by fastforce
  from get_bid_transaction_data_swap_answers [of env ch "caches.more s" ?t] caches_at_self [OF assms(1)] decode
  have r: "r = swap_transaction_data env ch ?t" and "caches_at env ch (caches.more s) s1"
    unfolding answers_def by (metis fst_conv snd_conv)+
  then have sent1: "sent_transactions s1 = sent_transactions s" by (intro more_sent) (simp add: caches_at_def)
  from assms(2) w decode obtain d where d: "r = Inr d"
    by (cases r) (auto simp: submit_quote_def seq_def fails_as_def bid_tx_def Let_def split: stop.splits)
  let ?wallet = "sa_user_wallet (swap_tx_accounts d)"
  from assms(2) w decode d have
    "(if \<not> verify_signature env sig ?wallet (serialize_message env (message ?t))
       then fails (BadParameters ''Invalid user signature.'')
       else seq (yields (sign_as ?wallet sig w)) (\<lambda>b. seq (yields (add_relayer_signature env b)) (\<lambda>b.
         seq (locked bid_locks bid_locks_update (b_id w)
               (submit_auction_bid_for_lock clock now b (a_id a) (swap_data d))) (\<lambda>_.
           yields (Inr (cd_transaction (b_chain_data b))))))) s1 = (s', Inr t)"
    by (simp add: submit_quote_def bid_tx_def Let_def
        seq_run [where m = "\<lambda>s. fails_as f (get_bid_transaction_data_swap env ch t s)" and s = s and s' = s1 and x = d for f t]
        seq_run [where m = "\<lambda>s. (s, get_winner_bid_for_submission i s)" and s = s and s' = s and x = "(a, w)"])
  then obtain b1 b2 where valid: "verify_signature env sig ?wallet (serialize_message env (message ?t))"
    and b1: "sign_as ?wallet sig w = (Inr b1 :: bid rest)" and b2: "add_relayer_signature env b1 = (Inr b2 :: bid rest)"
    and rest: "seq (locked bid_locks bid_locks_update (b_id w)
        (submit_auction_bid_for_lock clock now b2 (a_id a) (swap_data d))) (\<lambda>_. yields (Inr (bid_tx b2))) s1 = (s', Inr t)"
    by (auto simp: fails_def bid_tx_def split: if_splits elim!: seq_yields_Inr)
  from sign_as_Inr [OF b1] sign_as_Inr [OF b2 [unfolded add_relayer_signature_def]] obtain iu ir where
    pos: "position (\<lambda>p. p = ?wallet) (static_account_keys (message ?t)) = Some iu"
      "position (\<lambda>p. p = relayer_pubkey env) (static_account_keys (message ?t)) = Some ir"
    and t2: "bid_tx b2 = ?t\<lparr>signatures := (signatures ?t)[iu := sig, ir := relayer_sign env (serialize_message env (message ?t))]\<rparr>"
    by (auto simp: bid_tx_def)
  from rest have t: "t = bid_tx b2" and "locked bid_locks bid_locks_update (b_id w)
      (submit_auction_bid_for_lock clock now b2 (a_id a) (swap_data d)) s1 = (s', Inr ())"
    by (auto simp: seq_def yields_def split: prod.splits sum.splits)
  with locked_sends sent1 have "sent_transactions s' = sent_transactions s \<or> sent_transactions s' = sent_transactions s @ [t]"
    by metis
  moreover have "swap_transaction_data env ch ?t = Inr d" using r d by simp
  ultimately show ?thesis
    using w valid pos t t2
    by (intro exI [of _ a] exI [of _ w] exI [of _ d] exI [of _ iu] exI [of _ ir] conjI) simp_all
qed


subsection \<open>Cancelled quotes\<close>

lemma find_set_status:
  assumes "find P bs = Some b" and "distinct (map b_id bs)" and "P (b\<lparr>b_status := st\<rparr>)"
  shows "find P (set_bid_status (b_id b) st bs) = Some (b\<lparr>b_status := st\<rparr>)"
  using assms
proof (induction bs)
  case (Cons x bs)
  show ?case
  proof (cases "P x")
    case True
    with Cons.prems have "x = b" by simp
    with Cons.prems(3) show ?thesis by (simp add: set_bid_status_def position_def)
  next
    case False
    with Cons.prems(1) have b: "find P bs = Some b" by simp
    then have "b \<in> set bs" by (auto simp: find_Some_iff)
    with Cons.prems(2) have "b_id x \<noteq> b_id b" by auto
    then have "set_bid_status (b_id b) st (x # bs) = x # set_bid_status (b_id b) st bs"
      by (auto simp: set_bid_status_def position_def split: option.splits)
    with False Cons.IH [OF b _ Cons.prems(3)] Cons.prems(2) show ?thesis by simp
  qed
qed simp

text \<open>
  Property C29. Once a quote waiting for the user's signature, in memory and in the database, has been
  cancelled, no later submission of its auction is answered with success or sends anything, however
  it is signed.
\<close>

theorem cancelled_quote_is_not_sent:
  assumes "get_winner_bid_for_submission i s = Inr (a, b)" and "distinct (map b_id (a_bids a))"
    and "get_in_memory_auction_bid_by_bid_id (auction_repo s) bid_id = Some b"
    and "b_status b = AwaitingSignature sa" and "sa_id sa = i" and "db_up (repo_db (auction_repo s))"
    and "db_bids (repo_db (auction_repo s)) bid_id = Some row" and "r_status row = DbAwaitingSignature"
    and "cancel_bid now bid_id profile s = (s1, Inr ())"
    and "submit_auction_bid_for_lock clock later signed_bid i args s1 = (s2, res)"
  shows "res \<noteq> Inr () \<and> sent_transactions s2 = sent_transactions s"
proof -
  from locked_bid [OF assms(9) [unfolded cancel_bid_def]] obtain l l' s' where
    work: "cancel_bid_for_lock now bid_id profile (s\<lparr>bid_locks := l\<rparr>) = (s', Inr ())" and s1: "s1 = s'\<lparr>bid_locks := l'\<rparr>" by blast
  have id: "b_id b = bid_id" using assms(3) by (rule found_bid_id)
  from cancel_bid_for_lock_cases [OF work] assms(3,4) obtain sig x where
    upd: "update_bid_status b (Cancelled \<lparr>sa_id = sa_id sa, sa_tx_hash = sig\<rparr>) now (s\<lparr>bid_locks := l\<rparr>) = (s', Inr x)"
    by (auto simp: cancellable_by_def)
  let ?st = "Cancelled \<lparr>sa_id = sa_id sa, sa_tx_hash = sig\<rparr>"
  from update_cancelled [of "s\<lparr>bid_locks := l\<rparr>" b row "\<lparr>sa_id = sa_id sa, sa_tx_hash = sig\<rparr>" now] assms(6,7,8) id upd
  obtain d where s': "s' = emit (BidStatusUpdate (b_id b) ?st) (s\<lparr>bid_locks := l, auction_repo := update_in_memory_auction_bid b ?st
         (remove_in_memory_pending_bids [b] ((auction_repo s)\<lparr>repo_db := d\<rparr>))\<rparr>)" by auto
  from assms(1) have a: "map_of (auctions (auction_repo s)) i = Some a" and win: "find submittable (a_bids a) = Some b"
    by (auto simp: get_winner_bid_for_submission_def get_auction_by_id_def get_in_memory_auction_by_id_def split: option.splits)
  have "map_of (auctions (auction_repo s1)) i = Some (a\<lparr>a_bids := set_bid_status (b_id b) ?st (a_bids a)\<rparr>)"
    using a assms(5) by (simp add: s1 s' update_in_memory_auction_bid_def remove_in_memory_pending_bids_def update_conv')
  moreover have "find submittable (set_bid_status (b_id b) ?st (a_bids a)) = Some (b\<lparr>b_status := ?st\<rparr>)"
    using win assms(2) by (rule find_set_status) (simp add: submittable_def)
  ultimately have "get_winner_bid_for_submission i s1 =
      Inr (a\<lparr>a_bids := set_bid_status (b_id b) ?st (a_bids a)\<rparr>, b\<lparr>b_status := ?st\<rparr>)" (is "_ = Inr (?a, ?b)")
    by (simp add: get_winner_bid_for_submission_def get_auction_by_id_def get_in_memory_auction_by_id_def)
  then have run: "(if \<not> is_within_deadline_buffer clock args
       then seq (submission_failed later ?a ?b SubmissionDeadlinePassed) (\<lambda>_. fails QuoteIsExpired)
       else seq (submission_failed later ?a ?b SubmissionCancelled) (\<lambda>_. fails QuoteIsCancelled)) s1 = (s2, res)"
    (is "?m s1 = _")
    using assms(10) by (cases "is_within_deadline_buffer clock args") (simp_all add: submit_auction_bid_for_lock_def
        seq_run [where m = "\<lambda>s. (s, get_winner_bid_for_submission i s)" and s = s1 and s' = s1 and x = "(?a, ?b)"])
  have "sends_nothing ?m" by (auto intro!: silent)
  from sends_nothingD [OF this run] have "sent_transactions s2 = sent_transactions s1" .
  moreover have "sent_transactions s1 = sent_transactions s" by (simp add: s1 s')
  moreover have "res \<noteq> Inr ()" using run by (auto simp: fails_def seq_def split: prod.splits sum.splits if_splits)
  ultimately show ?thesis by simp
qed


subsection \<open>A concrete quote\<close>

definition sample_front :: front where
  "sample_front = server.extend (server_with sample_waiting_repo) \<lparr>front_store = sample_store\<rparr>"

lemma sample_front_sel [simp]:
  "auction_repo sample_front = sample_waiting_repo" "front_store sample_front = sample_store"
  "sent_transactions sample_front = []" "events sample_front = []" "bid_locks sample_front = no_locks"
  "announced i sample_front = []"
  by (simp_all add: sample_front_def server.extend_def server_with_def announced_def)

lemma sample_front_winner: "get_winner_bid_for_submission 2 sample_front = Inr (sample_auction, sample_waiting_bid)"
  by (simp add: get_winner_bid_for_submission_def get_auction_by_id_def get_in_memory_auction_by_id_def submittable_def)

lemma sample_front_bid: "get_in_memory_auction_bid_by_bid_id (auction_repo sample_front) 1 = Some sample_waiting_bid"
  by (simp add: get_in_memory_auction_bid_by_bid_id_def get_in_memory_auctions_def)

lemma sample_front_cancels: "\<exists>s1. cancel_bid 20 1 5 sample_front = (s1, Inr ())"
proof -
  let ?a = "\<lparr>sa_id = 2, sa_tx_hash = 11\<rparr>"
  obtain m l where g: "get_or_create_lock (1 :: uuid) no_locks = (m, l)" by fastforce
  let ?s = "sample_front\<lparr>bid_locks := l\<rparr>"
  have "has_privilege sample_store 5 CancelQuote" by (simp add: has_privilege_def sample_store_def empty_store_def)
  moreover obtain s2 where "update_bid_status sample_waiting_bid (Cancelled ?a) 20 ?s = (s2, Inr True)"
    using update_cancelled [of ?s sample_waiting_bid sample_waiting_row ?a 20] by auto
  ultimately have "cancel_bid_for_lock 20 1 5 ?s = (s2, Inr ())"
    using sample_front_bid by (simp add: cancel_bid_for_lock_def first_signature_def seq_run yields_def)
  then show ?thesis by (simp add: cancel_bid_def locked_def g)
qed

theorem only_the_owner_cancels_witness:
  "\<exists>s1. cancel_bid 20 1 5 sample_front = (s1, Inr ()) \<and> (\<exists>row. row_of 1 s1 = Some row \<and> r_status row = DbCancelled)"
proof -
  from sample_front_cancels obtain s1 where run: "cancel_bid 20 1 5 sample_front = (s1, Inr ())" by blast
  from only_the_owner_cancels [OF run] have "\<exists>row. row_of 1 s1 = Some row \<and> r_status row = DbCancelled" by auto
  with run show ?thesis by blast
qed

lemma sample_front_caches_ok: "caches_ok sample_env ''solana'' sample_front"
  by (simp add: caches_ok_def sample_front_def server.extend_def server_with_def sample_waiting_repo_def
      get_lookup_table_def Repository_new_def)

lemma sample_front_data: "swap_transaction_data sample_env ''solana'' sample_plain_tx = Inr sample_decoded"
  using get_bid_transaction_data_swap_answers [of sample_env "''solana''" "caches.more sample_quoted" sample_plain_tx]
    caches_at_self [OF sample_quoted_caches_ok] sample_plain_data [of sample_quoted]
  unfolding answers_def by (metis snd_conv)

definition sample_signed_tx :: tx where
  "sample_signed_tx = sample_plain_tx\<lparr>signatures := [11, 12, 13]\<rparr>"

lemma sample_keys: "static_account_keys (message sample_plain_tx) = [11, 12, 13, EXPRESS_RELAY_ID, 21, 22, SPL_TOKEN, 31]"
  by (simp add: sample_plain_tx_def)

definition sample_signed_bid :: bid where
  "sample_signed_bid = sample_waiting_bid\<lparr>b_chain_data := sample_bid_chain_data\<lparr>cd_transaction := sample_signed_tx\<rparr>\<rparr>"


lemma repo_submit_up:
  "db_up (repo_db r) \<Longrightarrow> \<exists>r' a'. repo_submit_auction a h ids now r = (r', Inr a') \<and> db_up (repo_db r')"
  by (auto simp: repo_submit_auction_def db_submit_auction_def Let_def split: option.splits)

lemma update_up:
  assumes "db_up (repo_db (auction_repo s))"
  shows "\<exists>s' x. update_bid_status b (Submitted sa) now s = (s', Inr x)"
proof (cases rule: update_bid_status_cases [of b "Submitted sa" now s])
  case (failed r e)
  then show ?thesis
    using assms by (auto simp: repo_update_bid_status_def db_update_bid_status_def Let_def split: option.splits if_splits)
qed blast+

lemma send_signed_up:
  assumes "db_up (repo_db (auction_repo s))" and "signatures (bid_tx b) = sig # sigs"
  shows "\<exists>s'. send_signed now b a s = (s', Inr ())"
proof -
  from repo_submit_up [OF assms(1), of a sig "[b_id b]" now] obtain r a' where
    r: "repo_submit_auction a sig [b_id b] now (auction_repo s) = (r, Inr a')" "db_up (repo_db r)" by blast
  obtain s2 x where u: "update_bid_status b (Submitted \<lparr>sa_id = a_id a', sa_tx_hash = sig\<rparr>) now (s\<lparr>auction_repo := r\<rparr>) = (s2, Inr x)"
  proof -
    have "db_up (repo_db (auction_repo (s\<lparr>auction_repo := r\<rparr>)))" using r(2) by simp
    then show ?thesis using that by (meson update_up)
  qed
  obtain s3 where t: "send_transaction now b s2 = (s3, Inr sig :: signature rest)"
    using assms(2) by (simp add: send_transaction_def Let_def first_signature_def bid_tx_def)
  have "first_signature (cd_transaction (b_chain_data b)) = (Inr sig :: signature rest)"
    using assms(2) by (simp add: first_signature_def bid_tx_def)
  moreover have "fails_as unavailable (on_repo (repo_submit_auction a sig [b_id b] now) s) = (s\<lparr>auction_repo := r\<rparr>, Inr a')"
    by (simp add: on_repo_def r)
  ultimately show ?thesis by (simp add: send_signed_def seq_run u t) (simp add: yields_def)
qed

lemma sample_within: "is_within_deadline_buffer (seconds 100) sample_swap_v2"
  by (simp add: is_within_deadline_buffer_def MIN_DEADLINE_BUFFER_SECS_def sample_swap_v2_def seconds_def)

lemma sample_submits:
  assumes "signatures (bid_tx b) = sig # sigs"
  shows "\<exists>s'. submit_auction_bid_for_lock (seconds 100) 30 b 2 sample_swap_v2 (sample_front\<lparr>bid_locks := l\<rparr>) = (s', Inr ())"
proof -
  let ?s = "sample_front\<lparr>bid_locks := l\<rparr>"
  have "get_winner_bid_for_submission 2 ?s = Inr (sample_auction, sample_waiting_bid)"
    using sample_front_winner by (simp add: get_winner_bid_for_submission_def get_auction_by_id_def)
  moreover obtain s' where "send_signed 30 b sample_auction ?s = (s', Inr ())"
    using send_signed_up [of ?s b sig sigs 30 sample_auction] assms by auto
  ultimately show ?thesis
    by (simp add: submit_auction_bid_for_lock_def sample_within
        seq_run [where m = "\<lambda>s. (s, get_winner_bid_for_submission 2 s)" and s = ?s and s' = ?s])
qed

theorem quote_sent_only_while_open_witness:
  "\<exists>s'. submit_auction_bid_for_lock (seconds 100) 30 sample_signed_bid 2 sample_swap_v2 sample_front = (s', Inr ()) \<and>
     (sent_transactions s' \<noteq> sent_transactions sample_front \<longrightarrow> sent_transactions s' = [sample_signed_tx])"
proof -
  have sig: "signatures (bid_tx sample_signed_bid) = 11 # [12, 13]" and tx: "cd_transaction (b_chain_data sample_signed_bid) = sample_signed_tx"
    by (simp_all add: sample_signed_bid_def bid_tx_def sample_signed_tx_def)
  have same: "sample_front\<lparr>bid_locks := bid_locks sample_front\<rparr> = sample_front" by (simp del: sample_front_sel)
  from sample_submits [OF sig, of "bid_locks sample_front", unfolded same] obtain s' where
    run: "submit_auction_bid_for_lock (seconds 100) 30 sample_signed_bid 2 sample_swap_v2 sample_front = (s', Inr ())"
    by blast
  have "(0 :: int) \<le> seconds 100" "seconds 100 < seconds (2 ^ 62)" "- (2 ^ 62) \<le> sint (deadline sample_swap_v2)"
    by (simp_all add: seconds_def sample_swap_v2_def)
  from quote_sent_only_while_open [OF run this] run tx show ?thesis by auto
qed

theorem submitted_quote_carries_user_signature_witness:
  "\<exists>s' t. submit_quote sample_env ''solana'' (seconds 100) 30 2 12 sample_front = (s', Inr t) \<and>
     verify_signature sample_env 12 12 (serialize_message sample_env (message t))"
proof -
  let ?b1 = "sample_waiting_bid\<lparr>b_chain_data := sample_bid_chain_data\<lparr>cd_transaction :=
    sample_plain_tx\<lparr>signatures := [11, 12, 0]\<rparr>\<rparr>\<rparr>"
  have wallet: "sa_user_wallet (swap_tx_accounts sample_decoded) = 12" "swap_data sample_decoded = sample_swap_v2"
    by (simp_all add: sample_decoded_def sample_swap_accounts_def)
  have user: "sign_as 12 12 sample_waiting_bid = (Inr ?b1 :: bid rest)"
    by (simp add: sign_as_def sample_keys position_def Let_def)
  have relayer: "add_relayer_signature sample_env ?b1 = (Inr sample_signed_bid :: bid rest)"
    by (simp add: add_relayer_signature_def sign_as_def sample_keys position_def Let_def sample_signed_bid_def sample_signed_tx_def
        sample_env_def)
  have valid: "verify_signature sample_env 12 12 m" for m by (simp add: sample_env_def)
  obtain m l where g: "get_or_create_lock (1 :: uuid) no_locks = (m, l)" by fastforce
  have sig: "signatures (bid_tx sample_signed_bid) = 11 # [12, 13]"
    by (simp add: sample_signed_bid_def bid_tx_def sample_signed_tx_def)
  from sample_submits [OF sig, of l] obtain s2 where
    "submit_auction_bid_for_lock (seconds 100) 30 sample_signed_bid 2 sample_swap_v2 (sample_front\<lparr>bid_locks := l\<rparr>) = (s2, Inr ())"
    by blast
  then obtain s3 where lock: "locked bid_locks bid_locks_update 1
      (submit_auction_bid_for_lock (seconds 100) 30 sample_signed_bid 2 sample_swap_v2) sample_front = (s3, Inr ())"
    by (simp add: locked_def g)
  have run: "submit_quote sample_env ''solana'' (seconds 100) 30 2 12 sample_front = (s3, Inr sample_signed_tx)"
    by (simp add: submit_quote_def Let_def sample_front_winner sample_plain_data wallet valid user relayer lock seq_run
        seq_run [where m = "\<lambda>s. (s, get_winner_bid_for_submission 2 s)" and s = sample_front and s' = sample_front])
      (simp add: yields_def sample_signed_bid_def)
  from submitted_quote_carries_user_signature [OF sample_front_caches_ok run] have
    "verify_signature sample_env 12 12 (serialize_message sample_env (message sample_signed_tx))"
    by (auto simp: sample_front_winner bid_tx_def sample_front_data wallet)
  with run show ?thesis by blast
qed

theorem cancelled_quote_is_not_sent_witness:
  "\<exists>s1 s2 res. cancel_bid 20 1 5 sample_front = (s1, Inr ()) \<and>
     submit_auction_bid_for_lock (seconds 100) 30 sample_signed_bid 2 sample_swap_v2 s1 = (s2, res) \<and>
     res \<noteq> Inr () \<and> sent_transactions s2 = []"
proof -
  from sample_front_cancels obtain s1 where cancel: "cancel_bid 20 1 5 sample_front = (s1, Inr ())" by blast
  obtain s2 res where submit: "submit_auction_bid_for_lock (seconds 100) 30 sample_signed_bid 2 sample_swap_v2 s1 = (s2, res)"
    by fastforce
  have "distinct (map b_id (a_bids sample_auction))" by simp
  from cancelled_quote_is_not_sent [OF sample_front_winner this sample_front_bid _ _ _ _ _ cancel submit] cancel submit
  show ?thesis by simp
qed

end
