(* ===== verification/As_GetQuote.thy ===== *)
theory As_GetQuote
  imports As_Quote
begin

section \<open>Auction server: answering quote requests\<close>

text \<open>
  \<open>opportunity/service/get_quote.rs\<close> and \<open>get_quote_request_account_balances.rs\<close>, with the request
  handler \<open>post_quote\<close> of \<open>opportunity/api.rs\<close>: a quote request becomes an opportunity, searchers bid on
  it while the handler sleeps, and the best bid becomes the quote. The part before the sleep and the
  part after it are operations of their own, so that other tasks may run in between. Histograms,
  counters and tracing are left out.

  The server is built without overflow checks: its plain arithmetic wraps around.
\<close>

subsection \<open>Requests and quotes\<close>

record ReferralFeeInfo =
  rf_router :: pubkey
  rf_ppm :: u64

record QuoteCreate =
  qc_user_wallet_address :: "pubkey option"
  qc_tokens :: QuoteTokens
  qc_referral_fee_info :: "ReferralFeeInfo option"
  qc_chain_id :: string
  qc_memo :: "string option"
  qc_cancellable :: bool
  qc_minimum_lifetime :: "u32 option"
  qc_profile_id :: "uuid option"

record Quote =
  q_transaction :: "tx option"
  q_expiration_time :: "i64 option"
  q_searcher_token :: TokenAmountSvm
  q_user_token :: TokenAmountSvm
  q_referrer_fee :: TokenAmountSvm
  q_platform_fee :: TokenAmountSvm
  q_chain_id :: string
  q_reference_id :: uuid

definition referral_of :: "env \<Rightarrow> QuoteCreate \<Rightarrow> ReferralFeeInfo rest" where
  "referral_of env q =
     rbind (unwrap_referral_fee_info env (qc_chain_id q)
              (map_option (\<lambda>i. (rf_router i, rf_ppm i)) (qc_referral_fee_info q))) (\<lambda>(r, ppm).
       Inr \<lparr>rf_router = r, rf_ppm = ppm\<rparr>)"

fun mints_of :: "QuoteTokens \<Rightarrow> pubkey \<times> pubkey" where
  "mints_of (UserTokenSpecified user_token searcher_token) = (ta_token user_token, searcher_token)"
| "mints_of (SearcherTokenSpecified user_token searcher_token) = (user_token, ta_token searcher_token)"


subsection \<open>The accounts of a request\<close>

text \<open>
  What the node answers for a list of addresses: per account the lamports and the data, or nothing.
  \<open>unpack_token_amount\<close> reads the balance of a token account; \<open>rpc_mint\<close> is the owner and the decimals
  of a mint account.
\<close>

record fetched_account =
  fa_lamports :: u64
  fa_data :: "u8 list"

record node =
  get_multiple_accounts :: "pubkey list \<Rightarrow> unit + fetched_account option list"
  unpack_token_amount :: "u8 list \<Rightarrow> u64 option"
  rpc_mint :: "pubkey \<Rightarrow> RestError + (pubkey \<times> u8)"

datatype TokenAccountBalance = Uninitialized | Initialized u64

fun get_balance :: "TokenAccountBalance \<Rightarrow> u64" where
  "get_balance Uninitialized = 0"
| "get_balance (Initialized n) = n"

fun get_initialization_config :: "TokenAccountBalance \<Rightarrow> bool \<Rightarrow> TokenAccountInitializationConfig" where
  "get_initialization_config Uninitialized user_payer = (if user_payer then UserPayer else SearcherPayer)"
| "get_initialization_config (Initialized n) user_payer = Unneeded"

record QuoteRequestAccountBalances =
  qb_user_sol_balance :: u64
  qb_user_ata_mint_searcher :: TokenAccountBalance
  qb_user_ata_mint_user :: TokenAccountBalance
  qb_router_fee_receiver_ta :: TokenAccountBalance
  qb_relayer_fee_receiver_ata :: TokenAccountBalance
  qb_express_relay_fee_receiver_ata :: TokenAccountBalance

definition get_user_ata_mint_user_balance :: "QuoteRequestAccountBalances \<Rightarrow> bool \<Rightarrow> u64" where
  "get_user_ata_mint_user_balance b mint_user_is_wrapped_sol =
     (if mint_user_is_wrapped_sol then qb_user_sol_balance b else get_balance (qb_user_ata_mint_user b))"

definition get_token_account_initialization_configs ::
  "env \<Rightarrow> QuoteRequestAccountBalances \<Rightarrow> TokenAccountInitializationConfigs" where
  "get_token_account_initialization_configs env b =
     (let rent = rent_of_token_account env;
          user_payer_ata_mint_user = (3 * rent \<le> qb_user_sol_balance b \<and> qb_user_ata_mint_user b = Uninitialized);
          remaining_sol_balance = (if user_payer_ata_mint_user then saturating_sub (qb_user_sol_balance b) rent
            else qb_user_sol_balance b);
          user_payer_ata_mint_searcher = (3 * rent \<le> remaining_sol_balance)
      in \<lparr>user_ata_mint_searcher = get_initialization_config (qb_user_ata_mint_searcher b) user_payer_ata_mint_searcher,
          user_ata_mint_user = get_initialization_config (qb_user_ata_mint_user b) user_payer_ata_mint_user,
          router_fee_receiver_ta = get_initialization_config (qb_router_fee_receiver_ta b) False,
          relayer_fee_receiver_ata = get_initialization_config (qb_relayer_fee_receiver_ata b) False,
          express_relay_fee_receiver_ata = get_initialization_config (qb_express_relay_fee_receiver_ata b) False\<rparr>)"

definition token_balance :: "node \<Rightarrow> fetched_account option \<Rightarrow> TokenAccountBalance rest" where
  "token_balance nd account =
     (case account of
        None \<Rightarrow> Inr Uninitialized
      | Some acc \<Rightarrow>
          if fa_data acc = [] then Inr Uninitialized
          else (case unpack_token_amount nd (fa_data acc) of
                  None \<Rightarrow> Inl (Fails TemporarilyUnavailable) | Some amount \<Rightarrow> Inr (Initialized amount)))"

text \<open>Indexing the first account and taking apart the rest panic when the node answers another number.\<close>

definition balances_of :: "node \<Rightarrow> fetched_account option list \<Rightarrow> QuoteRequestAccountBalances rest" where
  "balances_of nd accounts =
     (case accounts of
        [] \<Rightarrow> Inl Panics
      | wallet # rest \<Rightarrow>
          rbind (each_rest (token_balance nd) rest) (\<lambda>balances.
            case balances of
              [user_mint_user, user_mint_searcher, router_ta, relayer_ata, express_relay_ata] \<Rightarrow>
                Inr \<lparr>qb_user_sol_balance = (case wallet of Some a \<Rightarrow> fa_lamports a | None \<Rightarrow> 0),
                     qb_user_ata_mint_searcher = user_mint_searcher, qb_user_ata_mint_user = user_mint_user,
                     qb_router_fee_receiver_ta = router_ta, qb_relayer_fee_receiver_ata = relayer_ata,
                     qb_express_relay_fee_receiver_ata = express_relay_ata\<rparr>
            | _ \<Rightarrow> Inl Panics))"

record QuoteRequestAccountBalancesInput =
  qi_chain_id :: string
  qi_fee_token :: OppFeeToken
  qi_user_wallet_address :: pubkey
  qi_router :: pubkey
  qi_mint_searcher :: pubkey
  qi_mint_user :: pubkey
  qi_token_program_searcher :: pubkey
  qi_token_program_user :: pubkey

definition get_quote_request_account_balances ::
  "env \<Rightarrow> node \<Rightarrow> QuoteRequestAccountBalancesInput \<Rightarrow> ('z caches_scheme, QuoteRequestAccountBalances) action" where
  "get_quote_request_account_balances env nd i =
     (let (mint_fee, program_fee) =
            (case qi_fee_token i of SearcherToken \<Rightarrow> (qi_mint_searcher i, qi_token_program_searcher i)
             | UserToken \<Rightarrow> (qi_mint_user i, qi_token_program_user i));
          ata = associated_token_address env in
      seq (get_express_relay_metadata env (qi_chain_id i)) (\<lambda>md.
      seq (yields (lift_rest (get_config (opp_configs env) (qi_chain_id i)))) (\<lambda>config.
        yields (case get_multiple_accounts nd
                  [qi_user_wallet_address i,
                   ata (qi_user_wallet_address i) (qi_mint_user i) (qi_token_program_user i),
                   ata (qi_user_wallet_address i) (qi_mint_searcher i) (qi_token_program_searcher i),
                   ata (qi_router i) mint_fee program_fee,
                   ata (fee_receiver_relayer md) mint_fee program_fee,
                   ata (calculate_metadata_address env) mint_fee program_fee] of
                  Inl _ \<Rightarrow> Inl (Fails TemporarilyUnavailable)
                | Inr accounts \<Rightarrow> balances_of nd accounts))))"


subsection \<open>Amounts\<close>

text \<open>\<open>div_ceil\<close> of the standard library.\<close>

definition div_ceil :: "u64 \<Rightarrow> u64 \<Rightarrow> u64" where
  "div_ceil a b = (if a mod b > 0 then a div b + 1 else a div b)"

text \<open>The searcher's amount raised so that enough is left of it after the fees; the product wraps.\<close>

definition amount_including_fees :: "u64 \<Rightarrow> u64 \<Rightarrow> u64 \<Rightarrow> u64 rest" where
  "amount_including_fees amount referral_ppm platform_ppm =
     (if FEE_SPLIT_PRECISION_PPM \<le> referral_ppm + platform_ppm
      then Inl (Fails (BadParameters ''Referral fee ppm + platform fee ppm must be less than 1000000''))
      else Inr (div_ceil (amount * FEE_SPLIT_PRECISION_PPM) (FEE_SPLIT_PRECISION_PPM - referral_ppm - platform_ppm)))"

definition quote_amounts :: "QuoteTokens \<Rightarrow> OppFeeToken \<Rightarrow> u64 \<Rightarrow> u64 \<Rightarrow> (u64 \<times> u64) rest" where
  "quote_amounts tokens fee_tok referral_ppm platform_ppm =
     (case (tokens, fee_tok) of
        (SearcherTokenSpecified _ searcher_token, SearcherToken) \<Rightarrow>
          rbind (amount_including_fees (ta_amount searcher_token) referral_ppm platform_ppm) (\<lambda>a. Inr (a, 0))
      | (SearcherTokenSpecified _ searcher_token, UserToken) \<Rightarrow> Inr (ta_amount searcher_token, 0)
      | (UserTokenSpecified user_token _, _) \<Rightarrow> Inr (0, ta_amount user_token))"

definition tokens_for_permission :: "QuoteTokens \<Rightarrow> u64 \<Rightarrow> u64 \<Rightarrow> QuoteTokens" where
  "tokens_for_permission tokens searcher_amount user_amount =
     (case tokens of
        UserTokenSpecified user_token searcher_token \<Rightarrow>
          UserTokenSpecified \<lparr>ta_token = ta_token user_token, ta_amount = user_amount\<rparr> searcher_token
      | SearcherTokenSpecified user_token searcher_token \<Rightarrow>
          SearcherTokenSpecified user_token \<lparr>ta_token = ta_token searcher_token, ta_amount = searcher_amount\<rparr>)"

definition quote_platform_fee_ppm :: "ConfigSvm \<Rightarrow> ExpressRelayMetadata \<Rightarrow> pubkey \<Rightarrow> pubkey \<Rightarrow> u64" where
  "quote_platform_fee_ppm config md mint_user mint_searcher =
     max (unwrap_or (get_platform_fee_ppm config mint_user mint_searcher) 0)
       (swap_platform_fee_bps md * FEE_BPS_TO_PPM)"


subsection \<open>The opportunity of a quote request\<close>

definition without_platform_accounts :: "TokenAccountInitializationConfigs \<Rightarrow> TokenAccountInitializationConfigs" where
  "without_platform_accounts c = c\<lparr>express_relay_fee_receiver_ata := Unneeded, relayer_fee_receiver_ata := Unneeded\<rparr>"

text \<open>Wallet, balance and accounts to create: asked of the node, or made up for an indicative quote.\<close>

definition wallet_of_request ::
  "env \<Rightarrow> node \<Rightarrow> u8 list \<Rightarrow> pubkey option \<Rightarrow> QuoteRequestAccountBalancesInput \<Rightarrow>
   ('z caches_scheme, pubkey \<times> u64 \<times> TokenAccountInitializationConfigs) action" where
  "wallet_of_request env nd rand_bytes wallet i =
     (case wallet of
        Some address \<Rightarrow>
          seq (get_quote_request_account_balances env nd (i\<lparr>qi_user_wallet_address := address\<rparr>)) (\<lambda>b.
            yields (Inr (address, get_user_ata_mint_user_balance b (qi_mint_user i = NATIVE_MINT),
              get_token_account_initialization_configs env b)))
      | None \<Rightarrow> yields (Inr (generate_indicative_price_taker rand_bytes, 0, none_needed)))"

text \<open>\<open>u16::try_from\<close> of the fee in basis points.\<close>

definition fee_bps_u16 :: "u64 \<Rightarrow> u16 rest" where
  "fee_bps_u16 ppm =
     (if ppm div FEE_BPS_TO_PPM \<le> 65535 then Inr (ucast (ppm div FEE_BPS_TO_PPM))
      else Inl (Fails (BadParameters ''Referral fee too high'')))"

text \<open>The mint's program; a failure is reported as a bad parameter.\<close>

definition token_program_of :: "env \<Rightarrow> node \<Rightarrow> string \<Rightarrow> string \<Rightarrow> pubkey \<Rightarrow> ('z caches_scheme, pubkey) action" where
  "token_program_of env nd ch msg mint =
     seq (\<lambda>s. fails_as (\<lambda>_. BadParameters msg) (get_token_mint env (rpc_mint nd) ch mint s)) (\<lambda>m.
       yields (Inr (tm_token_program m)))"

definition router_token_account_of ::
  "env \<Rightarrow> OppFeeToken \<Rightarrow> pubkey \<Rightarrow> pubkey \<times> pubkey \<Rightarrow> pubkey \<Rightarrow> pubkey \<Rightarrow> pubkey" where
  "router_token_account_of env fee_tok router_key mints program_searcher program_user =
     (case fee_tok of
        SearcherToken \<Rightarrow> associated_token_address env router_key (snd mints) program_searcher
      | UserToken \<Rightarrow> associated_token_address env router_key (fst mints) program_user)"

text \<open>The permission key of an opportunity (\<open>get_permission_key\<close> of its entities).\<close>

definition opportunity_permission_key :: "BidPaymentInstructionType \<Rightarrow> pubkey \<Rightarrow> pubkey \<Rightarrow> u8 list" where
  "opportunity_permission_key bid_type router_key permission_account =
     [payment_type_byte bid_type] @ to_le 32 router_key @ to_le 32 permission_account"

definition get_opportunity_create_for_quote ::
  "env \<Rightarrow> node \<Rightarrow> u8 list \<Rightarrow> time \<Rightarrow> QuoteCreate \<Rightarrow> ('z caches_scheme, OpportunityCreateSvm) action" where
  "get_opportunity_create_for_quote env nd rand_bytes now q =
     (let (mint_user, mint_searcher) = mints_of (qc_tokens q); ch = qc_chain_id q in
      seq (yields (lift_rest (get_config (opp_configs env) ch))) (\<lambda>config.
      seq (yields (referral_of env q)) (\<lambda>referral.
      seq (yields (lift_rest (validate_quote config mint_user mint_searcher (qc_profile_id q) (rf_ppm referral)))) (\<lambda>_.
      seq (get_express_relay_metadata env ch) (\<lambda>md.
      let platform_ppm = quote_platform_fee_ppm config md mint_user mint_searcher;
          fee_tok = get_fee_token mint_user mint_searcher (ordered_fee_tokens config) in
      seq (yields (quote_amounts (qc_tokens q) fee_tok (rf_ppm referral) platform_ppm)) (\<lambda>(searcher_amount, user_amount).
      if searcher_amount = 0 \<and> user_amount = 0
      then fails (BadParameters ''Specified token amount cannot be zero'')
      else
      seq (token_program_of env nd ch ''Searcher token program not found'' mint_searcher) (\<lambda>program_searcher.
      seq (token_program_of env nd ch ''User token program not found'' mint_user) (\<lambda>program_user.
      let router_ta = router_token_account_of env fee_tok (rf_router referral) (mint_user, mint_searcher)
            program_searcher program_user;
          tokens = tokens_for_permission (qc_tokens q) searcher_amount user_amount in
      seq (wallet_of_request env nd rand_bytes (qc_user_wallet_address q)
             \<lparr>qi_chain_id = ch, qi_fee_token = fee_tok, qi_user_wallet_address = 0, qi_router = rf_router referral,
              qi_mint_searcher = mint_searcher, qi_mint_user = mint_user,
              qi_token_program_searcher = program_searcher, qi_token_program_user = program_user\<rparr>)
        (\<lambda>(wallet, user_balance, configs).
      let permission_account = get_quote_virtual_permission_account env tokens wallet router_ta (rf_ppm referral) in
      seq (yields (fee_bps_u16 (rf_ppm referral))) (\<lambda>referral_bps.
        yields (Inr \<lparr>
          o_permission_key = opportunity_permission_key SwapPayment (rf_router referral) permission_account,
          o_chain_id = ch,
          o_sell_tokens = [\<lparr>ta_token = mint_searcher, ta_amount = searcher_amount\<rparr>],
          o_buy_tokens = [\<lparr>ta_token = mint_user, ta_amount = user_amount\<rparr>],
          o_router = rf_router referral,
          o_permission_account = permission_account,
          o_program = SwapProgram \<lparr>
            os_user_wallet_address = wallet, os_user_mint_user_balance = user_balance, os_fee_token = fee_tok,
            os_referral_fee_bps = referral_bps, os_referral_fee_ppm = rf_ppm referral,
            os_platform_fee_bps = platform_ppm div FEE_BPS_TO_PPM, os_platform_fee_ppm = platform_ppm,
            os_token_program_user = program_user, os_token_program_searcher = program_searcher,
            os_initialization = (if platform_ppm = 0 then without_platform_accounts configs else configs),
            os_memo = qc_memo q, os_cancellable = qc_cancellable q, os_minimum_lifetime = qc_minimum_lifetime q,
            os_minimum_deadline = deadline_from_lifetime now (qc_minimum_lifetime q)\<rparr>,
          o_profile_id = qc_profile_id q\<rparr>)))))))))))"


subsection \<open>Before the searchers' bids\<close>

definition open_quote ::
  "env \<Rightarrow> node \<Rightarrow> u8 list \<Rightarrow> uuid \<Rightarrow> time \<Rightarrow> QuoteCreate \<Rightarrow> ('z opp_state_scheme, OpportunitySvm) action" where
  "open_quote env nd rand_bytes new_id now q =
     seq (yields (referral_of env q)) (\<lambda>referral.
     if BID_MAXIMUM_LIFE_TIME_SVM < seconds (uint (unwrap_or (qc_minimum_lifetime q) 0))
     then fails (BadParameters ''Minimum lifetime cannot be greater than 45 seconds'')
     else if FEE_SPLIT_PRECISION_PPM < rf_ppm referral
     then fails (BadParameters ''Referral fee ppm higher than 1000000'')
     else
       seq (yields (lift_rest (get_config (opp_configs env) (qc_chain_id q)))) (\<lambda>config.
       seq (get_opportunity_create_for_quote env nd rand_bytes now q) (\<lambda>c.
         add_opportunity env new_id now c)))"


subsection \<open>Choosing the quote\<close>

text \<open>Removing the opportunity; a failure is only logged.\<close>

definition remove_quote_opportunity :: "env \<Rightarrow> time \<Rightarrow> OpportunitySvm \<Rightarrow> 'z opp_state_scheme \<Rightarrow> 'z opp_state_scheme" where
  "remove_quote_opportunity env now x s = fst (remove_opportunity env now x OppInvalid s)"

definition best_first :: "QuoteTokens \<Rightarrow> bid list \<Rightarrow> bid list" where
  "best_first tokens bids =
     (case tokens of
        UserTokenSpecified _ _ \<Rightarrow> by_amount bids
      | SearcherTokenSpecified _ _ \<Rightarrow> sort_key (\<lambda>b. uint (b_amount b)) bids)"

text \<open>\<open>compute_fees\<close>: the fees at the metadata's platform fee.\<close>

definition quoted_fees :: "ExpressRelayMetadata \<Rightarrow> u64 \<Rightarrow> u64 \<Rightarrow> SwapFeesWithRemainingAmount rest" where
  "quoted_fees md referral_ppm amount =
     (case compute_swap_fees md referral_ppm (swap_platform_fee_bps md * FEE_BPS_TO_PPM) amount of
        Inl _ \<Rightarrow> Inl (Fails TemporarilyUnavailable) | Inr f \<Rightarrow> Inr f)"

definition quoted_amounts :: "ExpressRelayMetadata \<Rightarrow> u64 \<Rightarrow> SwapV2Args \<Rightarrow> (u64 \<times> u64 \<times> SwapFees) rest" where
  "quoted_amounts md referral_ppm d =
     (case fee_token d of
        FeeToken.Searcher \<Rightarrow> rbind (quoted_fees md referral_ppm (amount_searcher d)) (\<lambda>f.
          Inr (remaining_amount f, amount_user d, fees f))
      | User \<Rightarrow> rbind (quoted_fees md referral_ppm (amount_user d)) (\<lambda>f.
          Inr (amount_searcher d, amount_user d, fees f)))"

definition balance_after_initializations :: "env \<Rightarrow> pubkey \<Rightarrow> OpportunitySvmProgramSwap \<Rightarrow> u64" where
  "balance_after_initializations env user_mint p =
     (if user_mint = NATIVE_MINT
      then saturating_sub (os_user_mint_user_balance p)
             (get_user_sol_amount_paid_for_token_account_initializations env p)
      else os_user_mint_user_balance p)"

text \<open>
  The bids of the round become an auction that already holds the winner's transaction hash, the
  opportunity goes, and every other bid of the auction is told it lost (by tasks of its own, run here in
  the order they are spawned).
\<close>

definition award_quote ::
  "env \<Rightarrow> time \<Rightarrow> uuid \<Rightarrow> OpportunitySvm \<Rightarrow> bool \<Rightarrow> bid list \<Rightarrow> bid \<Rightarrow> ('z server_scheme, auction) action" where
  "award_quote env now auction_id x cancellable bids winner =
     seq (yields (ok_or (Auction_try_new auction_id now bids now) Panics)) (\<lambda>a.
     seq (yields (first_signature (cd_transaction (b_chain_data winner)))) (\<lambda>sig.
     seq (add_auction (a\<lparr>a_tx_hash := Some sig\<rparr>)) (\<lambda>a s.
       let sa = \<lparr>sa_id = a_id a, sa_tx_hash = sig\<rparr>;
           s = remove_quote_opportunity env now x s;
           s = update_all now (map (\<lambda>b. (Lost (Some sa), b)) (filter (\<lambda>b. b_id b \<noteq> b_id winner) (a_bids a))) s in
       seq (update_bid_status winner (if cancellable then AwaitingSignature sa else SentToUserForSubmission sa) now)
         (\<lambda>updated. if updated then yields (Inr a) else fails DuplicateOpportunity) s)))"

definition quote_of_winner ::
  "env \<Rightarrow> time \<Rightarrow> QuoteCreate \<Rightarrow> OpportunitySvm \<Rightarrow> u64 \<Rightarrow> auction \<Rightarrow> bid \<Rightarrow> SwapV2Args \<Rightarrow> ('z caches_scheme, Quote) action" where
  "quote_of_winner env now q x referral_ppm a winner d =
     seq (get_express_relay_metadata env (qc_chain_id q)) (\<lambda>md.
     seq (yields (case (o_sell_tokens x, o_buy_tokens x) of
            (sell # _, buy # _) \<Rightarrow> Inr (ta_token sell, ta_token buy) | _ \<Rightarrow> Inl Panics)) (\<lambda>(searcher_mint, user_mint).
     seq (yields (quoted_amounts md referral_ppm d)) (\<lambda>(searcher_amount, user_amount, fs).
     seq (yields (case o_program x of SwapProgram p \<Rightarrow> Inr p | Limo _ \<Rightarrow> Inl (Fails TemporarilyUnavailable))) (\<lambda>p.
     let affordable = (amount_user d \<le> balance_after_initializations env user_mint p);
         fee_mint = (case fee_token d of FeeToken.Searcher \<Rightarrow> searcher_mint | User \<Rightarrow> user_mint) in
     seq (if affordable \<and> \<not> qc_cancellable q
          then seq (sign_bid_and_submit_auction env now winner a) (\<lambda>t. yields (Inr (Some t)))
          else yields (Inr (if affordable then Some (cd_transaction (b_chain_data winner)) else None))) (\<lambda>t.
       yields (Inr \<lparr>q_transaction = t,
         q_expiration_time = (if affordable then Some (deadline d) else None),
         q_searcher_token = \<lparr>ta_token = searcher_mint, ta_amount = searcher_amount\<rparr>,
         q_user_token = \<lparr>ta_token = user_mint, ta_amount = user_amount\<rparr>,
         q_referrer_fee = \<lparr>ta_token = fee_mint, ta_amount = router_fee fs\<rparr>,
         q_platform_fee = \<lparr>ta_token = fee_mint, ta_amount = express_relay_fee fs + relayer_fee fs\<rparr>,
         q_chain_id = qc_chain_id q, q_reference_id = a_id a\<rparr>))))))"

text \<open>After the sleep.\<close>

definition answer_quote ::
  "env \<Rightarrow> time \<Rightarrow> uuid \<Rightarrow> QuoteCreate \<Rightarrow> OpportunitySvm \<Rightarrow> ('z server_scheme, Quote) action" where
  "answer_quote env now auction_id q x s =
     (case best_first (qc_tokens q) (get_pending_bids (o_permission_key x) s) of
        [] \<Rightarrow> (remove_quote_opportunity env now x s, Inl (Fails QuoteNotFound))
      | winner # others \<Rightarrow>
          seq (\<lambda>s. fails_as (\<lambda>_. TemporarilyUnavailable)
                 (get_bid_transaction_data_swap env (qc_chain_id q) (cd_transaction (b_chain_data winner)) s)) (\<lambda>d.
          seq (award_quote env now auction_id x (qc_cancellable q) (winner # others) winner) (\<lambda>a.
          seq (yields (referral_of env q)) (\<lambda>referral.
            quote_of_winner env now q x (rf_ppm referral) a winner (swap_data d)))) s)"

text \<open>The handler: what other tasks do while it sleeps is \<open>meanwhile\<close>, which keeps the time \<open>later\<close>.\<close>

definition get_quote ::
  "env \<Rightarrow> node \<Rightarrow> u8 list \<Rightarrow> uuid \<Rightarrow> uuid \<Rightarrow> time \<Rightarrow> time \<Rightarrow> ('z server_scheme \<Rightarrow> 'z server_scheme) \<Rightarrow> QuoteCreate \<Rightarrow>
   ('z server_scheme, Quote) action" where
  "get_quote env nd rand_bytes new_id auction_id now later meanwhile q =
     seq (open_quote env nd rand_bytes new_id now q) (\<lambda>x s. answer_quote env later auction_id q x (meanwhile s))"


subsection \<open>The amount including fees\<close>

lemma div_ceil_bounds:
  assumes "b \<noteq> 0"
  shows "unat a \<le> unat (div_ceil a b) * unat b" "unat (div_ceil a b) * unat b < unat a + unat b"
proof -
  from assms have pos: "0 < unat b" by (simp add: unat_gt_0)
  have a: "unat a = unat a div unat b * unat b + unat a mod unat b" by simp
  have small: "unat a mod unat b < unat b" using pos by simp
  have up: "unat (a div b + 1) = unat a div unat b + 1" if "a mod b > 0"
  proof -
    have "unat a mod unat b \<noteq> 0" using that by (simp add: word_less_nat_alt unat_mod)
    then have "unat b \<noteq> 1" by auto
    with pos have "unat a div unat b \<le> unat a div 2" by (intro div_le_mono2) linarith+
    moreover have "unat a < 2 ^ 64" using unsigned_less [of a] by simp
    ultimately have "unat (a div b) + unat (1 :: 64 word) < 2 ^ 64" by (simp add: unat_div)
    then show ?thesis by (subst unat_add_lem [THEN iffD1]) (simp_all add: unat_div)
  qed
  have r: "unat (div_ceil a b) = unat a div unat b + (if unat a mod unat b > 0 then 1 else 0)"
    using up by (simp add: div_ceil_def unat_div word_less_nat_alt unat_mod)
  define q m where "q = unat a div unat b" and "m = unat a mod unat b"
  have "unat a = q * unat b + m" "m < unat b" using a small by (simp_all add: q_def m_def)
  moreover have "unat (div_ceil a b) * unat b = q * unat b + (if m > 0 then unat b else 0)"
    by (simp add: r q_def m_def)
  ultimately show "unat a \<le> unat (div_ceil a b) * unat b" "unat (div_ceil a b) * unat b < unat a + unat b"
    by (simp_all split: if_splits)
qed

lemma after_fees_bounds:
  fixes A r ref plat :: nat
  assumes "ref + plat < 1000000"
    and "A * 1000000 \<le> r * (1000000 - (ref + plat))" "r * (1000000 - (ref + plat)) < A * 1000000 + 1000000"
  shows "A + r * ref div 1000000 + r * plat div 1000000 \<le> r"
    "r \<le> A + r * ref div 1000000 + r * plat div 1000000 + 2"
proof -
  define x y where "x = r * ref div 1000000" and "y = r * plat div 1000000"
  have x: "1000000 * x \<le> r * ref" "r * ref < 1000000 * x + 1000000"
    and y: "1000000 * y \<le> r * plat" "r * plat < 1000000 * y + 1000000"
    unfolding x_def y_def by linarith+
  have split: "1000000 = (1000000 - (ref + plat)) + ref + plat" using assms(1) by linarith
  have "r * (1000000 - (ref + plat)) + r * ref + r * plat = r * 1000000"
    by (metis split add_mult_distrib2)
  with x y assms(2,3) show "A + x + y \<le> r" "r \<le> A + x + y + 2" by linarith+
qed

lemma amount_including_fees_ok:
  assumes small: "unat amount * 1000000 \<le> 18446744073709 * (1000000 - (unat referral + unat platform))"
    and below: "unat referral + unat platform < 1000000"
  obtains r where "amount_including_fees amount referral platform = Inr r" and "unat r \<le> 18446744073709"
    and "unat amount + ppm_of (unat r) (unat referral) + ppm_of (unat r) (unat platform) \<le> unat r"
    and "unat r \<le> unat amount + ppm_of (unat r) (unat referral) + ppm_of (unat r) (unat platform) + 2"
proof -
  let ?d = "1000000 - (unat referral + unat platform)"
  define den where "den = FEE_SPLIT_PRECISION_PPM - referral - platform"
  define num where "num = amount * FEE_SPLIT_PRECISION_PPM"
  have sum: "unat (referral + platform) = unat referral + unat platform"
    using below by (intro unat_add_ok) simp
  have "unat (FEE_SPLIT_PRECISION_PPM - referral) = 1000000 - unat referral"
    using below by (subst unat_sub_nat) (simp_all add: precision_unat)
  then have den: "unat den = ?d"
    unfolding den_def using below by (subst unat_sub_nat) simp_all
  have "18446744073709 * ?d \<le> 18446744073709000000" by simp
  with small have "unat amount * 1000000 < 2 ^ 64" by simp
  then have num: "unat num = unat amount * 1000000"
    unfolding num_def by (simp add: unat_mul_ok precision_unat)
  define r where "r = div_ceil num den"
  have "den \<noteq> 0" using den below by (metis unat_0 zero_less_diff less_numeral_extra(3))
  from div_ceil_bounds [OF this, of num]
  have r: "unat amount * 1000000 \<le> unat r * ?d" "unat r * ?d < unat amount * 1000000 + ?d"
    by (simp_all add: r_def num den)
  have "unat r * d < 18446744073710 * d" if "unat r * d < unat amount * 1000000 + d" "unat amount * 1000000 \<le> 18446744073709 * d" for d :: nat
    using that by linarith
  from this [OF r(2) small] have "unat r < 18446744073710" by (simp only: mult_less_cancel2)
  moreover have "amount_including_fees amount referral platform = Inr r"
    using below sum unfolding amount_including_fees_def r_def num_def den_def
    by (simp add: word_le_nat_alt precision_unat)
  moreover have "unat r * ?d < unat amount * 1000000 + 1000000" using r(2) below by linarith
  note after_fees_bounds [OF below r(1) this]
  ultimately show ?thesis by (intro that [of r]) simp_all
qed

text \<open>
  When the user asks for an amount of the searcher's token and pays the fees in it, the
  server raises the amount it asks of the searcher so that the fees of the swap leave the user at least
  what was asked for, and at most two base units more; this holds as long as the raised amount is at
  most 18446744073709 base units, where the multiplication cannot wrap around.
\<close>

theorem quote_amount_covers_fees:
  assumes "unat referral + unat platform < 1000000"
    and "unat (ta_amount t) * 1000000 \<le> 18446744073709 * (1000000 - (unat referral + unat platform))"
    and "unat (split_relayer md) \<le> 10000"
  shows "\<exists>r res. quote_amounts (SearcherTokenSpecified mint t) SearcherToken referral platform = Inr (r, 0) \<and>
    compute_swap_fees md referral platform r = Inr res \<and>
    unat (ta_amount t) \<le> unat (remaining_amount res) \<and> unat (remaining_amount res) \<le> unat (ta_amount t) + 2"
proof -
  obtain r where r: "amount_including_fees (ta_amount t) referral platform = Inr r" "unat r \<le> 18446744073709"
    "unat (ta_amount t) + ppm_of (unat r) (unat referral) + ppm_of (unat r) (unat platform) \<le> unat r"
    "unat r \<le> unat (ta_amount t) + ppm_of (unat r) (unat referral) + ppm_of (unat r) (unat platform) + 2"
    using amount_including_fees_ok [OF assms(2,1)] .
  obtain res where res: "compute_swap_fees md referral platform r = Inr res"
    "unat (router_fee (fees res)) = ppm_of (unat r) (unat referral)"
    "unat (relayer_fee (fees res)) + unat (express_relay_fee (fees res)) = ppm_of (unat r) (unat platform)"
    "unat (router_fee (fees res)) + unat (relayer_fee (fees res)) + unat (express_relay_fee (fees res)) +
      unat (remaining_amount res) = unat r"
    using compute_swap_fees_small [OF _ r(2) assms(3), of referral platform] assms(1) by auto
  have "unat (ta_amount t) \<le> unat (remaining_amount res)" "unat (remaining_amount res) \<le> unat (ta_amount t) + 2"
    using r(3,4) res(2-4) by linarith+
  with r(1) res(1) show ?thesis by (simp add: quote_amounts_def)
qed

theorem quote_amount_covers_fees_witness:
  "\<exists>r res. quote_amounts (SearcherTokenSpecified 5 \<lparr>ta_token = 9, ta_amount = 1000000000\<rparr>) SearcherToken 2500 1000 = Inr (r, 0) \<and>
    compute_swap_fees sample_metadata 2500 1000 r = Inr res \<and>
    1000000000 \<le> unat (remaining_amount res) \<and> unat (remaining_amount res) \<le> 1000000002"
  using quote_amount_covers_fees [of 2500 1000 "\<lparr>ta_token = 9, ta_amount = 1000000000\<rparr>" sample_metadata 5]
  by (simp add: sample_metadata_def)

text \<open>Beyond that bound the product wraps: one base unit is asked for 18446744073710.\<close>

lemma amount_including_fees_wraps: "amount_including_fees 18446744073710 0 0 = Inr 1"
  by (simp add: amount_including_fees_def div_ceil_def FEE_SPLIT_PRECISION_PPM_def)


subsection \<open>Bids find their quote\<close>

text \<open>
  What makes an opportunity a quote: a swap whose one specified amount can be read back, filed under
  the permission account that its own terms determine.
\<close>

definition quote_opportunity :: "env \<Rightarrow> OpportunitySvm \<Rightarrow> bool" where
  "quote_opportunity env x \<longleftrightarrow>
     (\<exists>p tokens. o_program x = SwapProgram p \<and> get_swap_quote_tokens x = Inr tokens \<and>
        o_permission_account x = get_quote_virtual_permission_account env tokens (os_user_wallet_address p)
          (router_token_account_of env (os_fee_token p) (o_router x) (mints_of tokens)
             (os_token_program_searcher p) (os_token_program_user p)) (os_referral_fee_ppm p) \<and>
        o_permission_key x = opportunity_permission_key SwapPayment (o_router x) (o_permission_account x))"

text \<open>The same of what an opportunity is created from, with the request it answers.\<close>

definition created_for :: "env \<Rightarrow> QuoteCreate \<Rightarrow> OpportunityCreateSvm \<Rightarrow> bool" where
  "created_for env q c \<longleftrightarrow>
     (\<exists>p a b. o_program c = SwapProgram p \<and> \<not> (a = 0 \<and> b = 0) \<and>
        (case qc_tokens q of UserTokenSpecified t _ \<Rightarrow> a = 0 \<and> b = ta_amount t | SearcherTokenSpecified _ _ \<Rightarrow> b = 0) \<and>
        o_sell_tokens c = [\<lparr>ta_token = snd (mints_of (qc_tokens q)), ta_amount = a\<rparr>] \<and>
        o_buy_tokens c = [\<lparr>ta_token = fst (mints_of (qc_tokens q)), ta_amount = b\<rparr>] \<and>
        o_permission_account c = get_quote_virtual_permission_account env (tokens_for_permission (qc_tokens q) a b)
          (os_user_wallet_address p)
          (router_token_account_of env (os_fee_token p) (o_router c) (mints_of (qc_tokens q))
             (os_token_program_searcher p) (os_token_program_user p)) (os_referral_fee_ppm p) \<and>
        o_permission_key c = opportunity_permission_key SwapPayment (o_router c) (o_permission_account c) \<and>
        o_chain_id c = qc_chain_id q \<and> os_cancellable p = qc_cancellable q \<and> os_memo p = qc_memo q \<and>
        (case qc_user_wallet_address q of Some w \<Rightarrow> os_user_wallet_address p = w | None \<Rightarrow> os_user_mint_user_balance p = 0))"

lemma unguarded_seq:
  "(\<And>x. guarantees (\<lambda>_. True) (f x) Q) \<Longrightarrow> guarantees (\<lambda>_. True) (seq m f) Q"
  by (rule guarantees_seq [where P = "\<lambda>_. True"]) (simp_all add: guarantees_def)

lemma guarantees_if:
  "(c \<Longrightarrow> guarantees ok m Q) \<Longrightarrow> (\<not> c \<Longrightarrow> guarantees ok n Q) \<Longrightarrow> guarantees ok (if c then m else n) Q"
  by simp

lemma quote_amounts_Inr:
  "quote_amounts tokens ft r p = Inr (a, b) \<Longrightarrow>
     (case tokens of UserTokenSpecified t _ \<Rightarrow> a = 0 \<and> b = ta_amount t | SearcherTokenSpecified _ _ \<Rightarrow> b = 0)"
  by (auto simp: quote_amounts_def rbind_Inr_iff split: QuoteTokens.splits OppFeeToken.splits)

lemma wallet_guarantee:
  "guarantees (\<lambda>_. True) (wallet_of_request env nd rand w i)
     (\<lambda>(wallet, user_balance, configs). case w of Some a \<Rightarrow> wallet = a | None \<Rightarrow> user_balance = 0)"
  unfolding wallet_of_request_def
  by (cases w) (auto intro!: guarantees_yields unguarded_seq)

lemma create_guarantee:
  "guarantees (\<lambda>_. True) (get_opportunity_create_for_quote env nd rand now q) (created_for env q)"
proof -
  obtain mu ms where mints: "mints_of (qc_tokens q) = (mu, ms)" by fastforce
  show ?thesis
    unfolding get_opportunity_create_for_quote_def mints prod.case Let_def
    apply (rule unguarded_seq, rule unguarded_seq, rule unguarded_seq, rule unguarded_seq)
    apply (rule yields_seq, clarify)
    apply (rule guarantees_if, rule guarantees_fails)
    apply (rule unguarded_seq, rule unguarded_seq)
    apply (rule guarantees_seq [OF wallet_guarantee], clarify)
    apply (rule yields_seq, rule guarantees_yields)
    unfolding created_for_def sum.inject
    apply (drule quote_amounts_Inr, drule sym)
    by (simp add: mints) (auto split: option.splits)
qed

text \<open>The request's wording of what was stored.\<close>

definition answers_request :: "QuoteCreate \<Rightarrow> OpportunitySvm \<Rightarrow> bool" where
  "answers_request q x \<longleftrightarrow>
     (\<exists>p tokens. o_program x = SwapProgram p \<and> get_swap_quote_tokens x = Inr tokens \<and>
        mints_of tokens = mints_of (qc_tokens q) \<and>
        (case qc_tokens q of UserTokenSpecified _ _ \<Rightarrow> tokens = qc_tokens q
         | SearcherTokenSpecified _ _ \<Rightarrow> (\<exists>m t. tokens = SearcherTokenSpecified m t)) \<and>
        o_chain_id x = qc_chain_id q \<and> os_cancellable p = qc_cancellable q \<and> os_memo p = qc_memo q \<and>
        (case qc_user_wallet_address q of Some w \<Rightarrow> os_user_wallet_address p = w | None \<Rightarrow> os_user_mint_user_balance p = 0))"

lemma created_for_quote:
  assumes "created_for env q c" and "to_create x = c"
  shows "quote_opportunity env x \<and> answers_request q x"
proof -
  have eq: "o_program x = o_program c" "o_sell_tokens x = o_sell_tokens c" "o_buy_tokens x = o_buy_tokens c"
    "o_permission_account x = o_permission_account c" "o_permission_key x = o_permission_key c"
    "o_router x = o_router c" "o_chain_id x = o_chain_id c"
    by (simp_all add: to_create_def OpportunityCreateSvm.truncate_def flip: assms(2))
  from assms(1) obtain p a b where c: "o_program c = SwapProgram p" "\<not> (a = 0 \<and> b = 0)"
    "case qc_tokens q of UserTokenSpecified t _ \<Rightarrow> a = 0 \<and> b = ta_amount t | SearcherTokenSpecified _ _ \<Rightarrow> b = 0"
    "o_sell_tokens c = [\<lparr>ta_token = snd (mints_of (qc_tokens q)), ta_amount = a\<rparr>]"
    "o_buy_tokens c = [\<lparr>ta_token = fst (mints_of (qc_tokens q)), ta_amount = b\<rparr>]"
    "o_permission_account c = get_quote_virtual_permission_account env (tokens_for_permission (qc_tokens q) a b)
       (os_user_wallet_address p) (router_token_account_of env (os_fee_token p) (o_router c) (mints_of (qc_tokens q))
          (os_token_program_searcher p) (os_token_program_user p)) (os_referral_fee_ppm p)"
    "o_permission_key c = opportunity_permission_key SwapPayment (o_router c) (o_permission_account c)"
    "o_chain_id c = qc_chain_id q" "os_cancellable p = qc_cancellable q" "os_memo p = qc_memo q"
    "case qc_user_wallet_address q of Some w \<Rightarrow> os_user_wallet_address p = w | None \<Rightarrow> os_user_mint_user_balance p = 0"
    unfolding created_for_def by blast
  have tokens: "get_swap_quote_tokens x = Inr (tokens_for_permission (qc_tokens q) a b)"
    "mints_of (tokens_for_permission (qc_tokens q) a b) = mints_of (qc_tokens q)"
    "case qc_tokens q of UserTokenSpecified _ _ \<Rightarrow> tokens_for_permission (qc_tokens q) a b = qc_tokens q
         | SearcherTokenSpecified _ _ \<Rightarrow> (\<exists>m t. tokens_for_permission (qc_tokens q) a b = SearcherTokenSpecified m t)"
    using c(2,3) by (auto simp: get_swap_quote_tokens_def eq c(1,4,5) tokens_for_permission_def split: QuoteTokens.splits)
  show ?thesis
    unfolding quote_opportunity_def answers_request_def eq
    using c tokens by auto
qed

lemma same_swap: "same_opportunity x c \<Longrightarrow> o_program c = SwapProgram p \<Longrightarrow> to_create x = c"
proof -
  assume same: "same_opportunity x c" and swap: "o_program c = SwapProgram p"
  have keep: "with_slot_of (SwapProgram p) y = y" for y
    by (simp add: with_slot_of_def split: OpportunitySvmProgram.split)
  from same have "c = (to_create x)\<lparr>o_program := o_program x\<rparr>"
    unfolding same_opportunity_def swap keep .
  then show "to_create x = c" by (simp add: to_create_def OpportunityCreateSvm.truncate_def)
qed

lemma assess_refresh: "assess now c xs = RefreshIt x \<Longrightarrow> x \<in> set xs \<and> same_opportunity x c"
  by (induction xs) (auto simp: compare_opportunity_def split: if_splits)

lemma to_create_new: "to_create (new_with_current_time i now c) = c" "to_create (refresh now x) = to_create x"
  by (simp_all add: to_create_def new_with_current_time_def refresh_def OpportunityCreateSvm.truncate_def
      OpportunityCreateSvm.extend_def)

lemma get_key_refresh [simp]: "get_key (refresh now x) = get_key x"
  by (simp add: get_key_def refresh_def)

lemma add_opportunity_stores:
  assumes "add_opportunity env i now c s = (s', Inr x)" and "o_program c = SwapProgram p"
  shows "to_create x = c \<and> x \<in> set (get_in_memory_opportunities_by_key s' (get_key x)) \<and>
    events s' = events s @ [NewOpportunity x]"
proof -
  let ?m = "\<lambda>s. case assess_action now c s of
            IgnoreIt \<Rightarrow> (s, Inl (Fails DuplicateOpportunity))
          | RefreshIt x \<Rightarrow> (case refresh_in_memory_opportunity now x s of (s', y) \<Rightarrow> (s', Inr y))
          | AddIt \<Rightarrow> repo_add_opportunity i now c s"
  from assms(1) obtain s1 where m: "?m s = (s1, Inr x)" and s': "s' = emit (NewOpportunity x) s1"
    unfolding add_opportunity_def seq_def yields_def by (auto split: sum.splits prod.splits)
  have emit: "get_in_memory_opportunities_by_key s' k = get_in_memory_opportunities_by_key s1 k"
    "events s' = events s1 @ [NewOpportunity x]" for k
    by (simp_all add: s' emit_def get_in_memory_opportunities_by_key_def)
  show ?thesis
  proof (cases "assess_action now c s")
    case AddIt
    with m have "repo_add_opportunity i now c s = (s1, Inr x)" by simp
    then show ?thesis
      unfolding repo_add_opportunity_def Let_def
    proof (cases rule: seq_Inr_cases)
      case (went_on s2 u)
      let ?x = "new_with_current_time i now c"
      have s2: "events s2 = events s" using went_on(1) by (auto simp: db_add_opportunity_def split: if_splits)
      from went_on(2) have x: "x = ?x" and s1: "s1 = s2\<lparr>opportunities := AList.update (get_key ?x)
          (get_in_memory_opportunities_by_key s2 (get_key ?x) @ [?x]) (opportunities s2)\<rparr>"
        unfolding prod.inject sum.inject by blast+
      show ?thesis
        unfolding emit x by (simp add: s1 s2 to_create_new get_in_memory_opportunities_by_key_def update_conv')
    qed simp
  next
    case (RefreshIt y)
    then have y: "y \<in> set (get_in_memory_opportunities_by_key s (get_key c))" "same_opportunity y c"
      using assess_refresh by (auto simp: assess_action_def)
    have c: "to_create y = c" using same_swap [OF y(2) assms(2)] .
    then have key: "get_key c = get_key y" by (auto simp: get_key_def to_create_def OpportunityCreateSvm.truncate_def)
    obtain ys where ys: "map_of (opportunities s) (get_key y) = Some ys" "y \<in> set ys"
      using y(1) unfolding key get_in_memory_opportunities_by_key_def
      by (cases "map_of (opportunities s) (get_key y)") auto
    have "position (\<lambda>z. z = y) ys \<noteq> None" using ys(2) by (simp add: position_None)
    then obtain n where n: "position (\<lambda>z. z = y) ys = Some n" by blast
    note position_Some [OF n]
    have "x = refresh now y" "s1 = s\<lparr>opportunities := AList.update (get_key y) (ys[n := refresh now y]) (opportunities s)\<rparr>"
      using m RefreshIt by (auto simp: refresh_in_memory_opportunity_def ys n Let_def)
    then show ?thesis
      unfolding emit using \<open>n < length ys\<close> c
      by (simp add: to_create_new get_in_memory_opportunities_by_key_def update_conv' set_update_memI)
  next
    case IgnoreIt
    with m show ?thesis by simp
  qed
qed

lemma guarantees_trivial: "guarantees (\<lambda>_. True) m Q \<Longrightarrow> m s = (s', Inr y) \<Longrightarrow> Q y"
  by (drule guaranteesD [where s = s]) simp_all

text \<open>
  A quote request that is opened leaves an opportunity in memory that answers it: its one
  specified amount reads back without a panic, for the requested mints, the requested user amount, the
  requested wallet and chain; it is filed under the permission account its own terms determine and
  announced to the searchers.
\<close>

theorem opened_quote_is_filed_under_its_terms:
  assumes "open_quote env nd rand_bytes new_id now q s = (s', Inr x)"
  shows "quote_opportunity env x \<and> answers_request q x \<and>
    x \<in> set (get_in_memory_opportunities_by_key s' (get_key x)) \<and> last (events s') = NewOpportunity x"
proof -
  from assms obtain c s1 s2 where c: "get_opportunity_create_for_quote env nd rand_bytes now q s1 = (s2, Inr c)"
    and add: "add_opportunity env new_id now c s2 = (s', Inr x)"
    unfolding open_quote_def by (auto simp: fails_def elim!: seq_Inr_cases split: if_splits)
  from guarantees_trivial [OF create_guarantee c] have created: "created_for env q c" .
  then obtain p where "o_program c = SwapProgram p" by (auto simp: created_for_def)
  from add_opportunity_stores [OF add this] created_for_quote [OF created]
  show ?thesis by auto
qed

lemma accepted_swap_key:
  assumes "caches_ok env ch s" and "verify_bid env ch sim clk bid s = (s', Inr (c, amount))"
    and "bc_chain_data bid = Swap sc" and "get_in_memory_opportunity_by_id s (sc_opportunity_id sc) = Some x"
    and "quote_opportunity env x"
  shows "get_permission_key c = o_permission_key x"
proof -
  from verified_bid [OF assms(1,2)] obtain b where
    b: "swap_bid_ok env ch sc (Some x) b" "cd_router c = bd_router b" "cd_permission_account c = bd_permission_account b"
    "bid_payment_instruction_type c = (if bd_submit_type b = ByServer then SubmitBidPayment else SwapPayment)"
    unfolding verified_def bid_data_ok_def assms(3) BidChainDataCreateSvm.case assms(4) fst_conv by blast
  from b(1) obtain terms tokens d where found: "o_program x = SwapProgram terms" "get_swap_quote_tokens x = Inr tokens"
    "terms_met terms tokens d"
    "sa_router_token_account (swap_tx_accounts d) = expected_router_token_account env (o_router x) d"
    and data: "b = swap_bid_data env x terms tokens d (seconds (sint (deadline (swap_data d))))"
    unfolding swap_bid_ok_def by blast
  let ?a = "swap_tx_accounts d"
  from found(3) have met: "sa_user_wallet ?a = os_user_wallet_address terms"
    "mints_of tokens = (sa_mint_user ?a, sa_mint_searcher ?a)"
    "sa_token_program_searcher ?a = os_token_program_searcher terms"
    "sa_token_program_user ?a = os_token_program_user terms"
    "fee_token (swap_data d) = program_fee_token (os_fee_token terms)"
    "referral_fee_ppm (swap_data d) = os_referral_fee_ppm terms"
    by (auto simp: terms_met_def Let_def split: QuoteTokens.splits)
  have account: "sa_router_token_account ?a = router_token_account_of env (os_fee_token terms) (o_router x)
      (mints_of tokens) (os_token_program_searcher terms) (os_token_program_user terms)"
    unfolding found(4) expected_router_token_account_def router_token_account_of_def met Let_def
    by (simp add: program_fee_token_def split: OppFeeToken.split)
  from assms(5) found(1,2) have x: "o_permission_account x = get_quote_virtual_permission_account env tokens
      (os_user_wallet_address terms) (sa_router_token_account ?a) (os_referral_fee_ppm terms)"
    "o_permission_key x = opportunity_permission_key SwapPayment (o_router x) (o_permission_account x)"
    by (auto simp: quote_opportunity_def account)
  have "cd_permission_account c = o_permission_account x" "cd_router c = o_router x"
    "bid_payment_instruction_type c = SwapPayment"
    by (simp_all add: b data swap_bid_data_def met x)
  then show ?thesis by (simp add: get_permission_key_def x(2) opportunity_permission_key_def)
qed

text \<open>
  Property C11. A swap bid accepted for the opportunity of a quote lands among the pending bids under that
  opportunity's permission key, where the handler of the quote looks for it after its sleep: the key
  computed from the bid's transaction is the one computed from the request.
\<close>

theorem accepted_bid_reaches_its_quote:
  assumes "caches_ok env ch s" and "handle_bid env ch sim clk new_id now bid s = (s', Inr b)"
    and "bc_chain_data bid = Swap sc" and "get_in_memory_opportunity_by_id s (sc_opportunity_id sc) = Some x"
    and "quote_opportunity env x"
  shows "b \<in> set (get_pending_bids (o_permission_key x) s') \<and> b_id b = new_id"
  using assms(2) unfolding handle_bid_def
proof (cases rule: seq_Inr_cases)
  case (went_on s1 res)
  obtain c amount where res: "res = (c, amount)" by fastforce
  from accepted_swap_key [OF assms(1) _ assms(3-5)] went_on(1) res
  have key: "get_permission_key c = o_permission_key x" by blast
  obtain r z where add: "repo_add_bid new_id now (bc_initiation_time bid) (bc_profile bid)
      (get_opportunity_id (bc_chain_data bid)) c amount (auction_repo s1) = (r, z)" by fastforce
  with went_on(2) res have s': "s' = s1\<lparr>auction_repo := r\<rparr>" and z: "z = Inr b"
    by (auto split: sum.splits)
  from add z have e: "get_bid_entity (BidRow_new new_id now (chain_id (auction_repo s1)) (bc_initiation_time bid)
      (bc_profile bid) amount c) None (get_opportunity_id (bc_chain_data bid)) = Inr b"
    and r: "pending_bids r = push_pending_bid (pending_bids (auction_repo s1)) (get_permission_key (b_chain_data b)) b"
    by (auto simp: repo_add_bid_def Let_def split: sum.splits)
  from get_bid_entity_new [OF e] have "b_chain_data b = c" "b_id b = new_id" by simp_all
  then show ?thesis
    by (simp add: get_pending_bids_def s' get_in_memory_pending_bids_by_permission_key_def r push_pending_bid_def
        update_conv' key)
qed simp


subsection \<open>The quote that is returned\<close>

lemma updated_row:
  assumes "update_bid_status b st now s = (s', Inr True)" and "get_update_bid_query st now = Inr (u, c)"
  shows "\<exists>row. row_of (b_id b) s' = Some row \<and> r_status row = bu_status u"
proof (cases rule: update_bid_status_cases [of b st now s])
  case (updated r c')
  with assms(1) have s': "s' = emit (BidStatusUpdate (b_id b) st) (s\<lparr>auction_repo := r\<rparr>)" by simp
  from updated(1) assms(2) obtain row where
    "repo_db r = (repo_db (auction_repo s))\<lparr>db_bids := (db_bids (repo_db (auction_repo s)))(b_id b \<mapsto> apply_update u row)\<rparr>"
    by (auto simp: repo_update_bid_status_def db_update_bid_status_def Let_def split: if_splits option.splits)
  then show ?thesis by (simp add: s' emit_def)
qed (use assms(1) in simp_all)

lemma metadata_keeps_rows [simp]: "row_of i (fst (get_express_relay_metadata env ch s)) = row_of i s"
  by (simp add: get_express_relay_metadata_def split: option.split sum.split)

lemma sign_and_submit_Inr:
  assumes "sign_bid_and_submit_auction env now b a s = (s', Inr t)"
  shows "(\<exists>b'. add_relayer_signature env b = (Inr b' :: bid rest) \<and> t = bid_tx b') \<and> row_of i s' = row_of i s"
proof -
  from assms obtain b' a' sig x where b': "add_relayer_signature env b = (Inr b' :: bid rest)"
    and t: "t = bid_tx b'"
    and sub: "fails_as unavailable (on_repo (repo_submit_auction a' sig [b_id b'] now) s) = (s', Inr x)"
    unfolding sign_bid_and_submit_auction_def
    by (auto simp: bid_tx_def yields_def elim!: seq_yields_Inr seq_Inr_cases split: option.splits)
  from sub have "row_of i s' = row_of i s"
    by (auto simp: fails_as_def on_repo_def repo_submit_auction_def update_in_memory_auction_def Let_def
        dest!: db_bids_unchanged split: sum.splits prod.splits option.splits stop.splits)
  with b' t show ?thesis by blast
qed

text \<open>What a quote says of the winning bid, decoded as \<open>d\<close>, for a swap with the terms \<open>p\<close>.\<close>

definition quote_for ::
  "env \<Rightarrow> QuoteCreate \<Rightarrow> pubkey \<Rightarrow> OpportunitySvmProgramSwap \<Rightarrow> bid \<Rightarrow> SwapV2Args \<Rightarrow> Quote \<Rightarrow> bool" where
  "quote_for env q user_mint p winner d quote \<longleftrightarrow>
     ta_amount (q_user_token quote) = amount_user d \<and>
     (if amount_user d \<le> balance_after_initializations env user_mint p
      then q_expiration_time quote = Some (deadline d) \<and>
        (if qc_cancellable q then q_transaction quote = Some (bid_tx winner)
         else \<exists>b'. add_relayer_signature env winner = (Inr b' :: bid rest) \<and> q_transaction quote = Some (bid_tx b'))
      else q_expiration_time quote = None \<and> q_transaction quote = None)"

lemma quote_of_winner_Inr:
  assumes "quote_of_winner env now q x ppm a winner d s = (s', Inr quote)"
  shows "\<exists>p t ts. o_program x = SwapProgram p \<and> o_buy_tokens x = t # ts \<and> quote_for env q (ta_token t) p winner d quote \<and>
    q_reference_id quote = a_id a \<and> (\<forall>i. row_of i s' = row_of i s)"
proof -
  from assms obtain md s1 sell sells t ts sa ua fs p where
    md: "get_express_relay_metadata env (qc_chain_id q) s = (s1, Inr md)"
    and x: "o_sell_tokens x = sell # sells" "o_buy_tokens x = t # ts" "o_program x = SwapProgram p"
    and amounts: "quoted_amounts md ppm d = Inr (sa, ua, fs)"
    and run: "(let affordable = (amount_user d \<le> balance_after_initializations env (ta_token t) p);
         fee_mint = (case fee_token d of FeeToken.Searcher \<Rightarrow> ta_token sell | User \<Rightarrow> ta_token t) in
     seq (if affordable \<and> \<not> qc_cancellable q
          then seq (sign_bid_and_submit_auction env now winner a) (\<lambda>t. yields (Inr (Some t)))
          else yields (Inr (if affordable then Some (cd_transaction (b_chain_data winner)) else None))) (\<lambda>tx.
       yields (Inr \<lparr>q_transaction = tx,
         q_expiration_time = (if affordable then Some (deadline d) else None),
         q_searcher_token = \<lparr>ta_token = ta_token sell, ta_amount = sa\<rparr>,
         q_user_token = \<lparr>ta_token = ta_token t, ta_amount = ua\<rparr>,
         q_referrer_fee = \<lparr>ta_token = fee_mint, ta_amount = router_fee fs\<rparr>,
         q_platform_fee = \<lparr>ta_token = fee_mint, ta_amount = express_relay_fee fs + relayer_fee fs\<rparr>,
         q_chain_id = qc_chain_id q, q_reference_id = a_id a\<rparr>))) s1 = (s', Inr quote)"
    unfolding quote_of_winner_def
    by (auto elim!: seq_yields_Inr seq_Inr_cases split: list.splits OpportunitySvmProgram.splits)
  have rows1: "row_of i s1 = row_of i s" for i using metadata_keeps_rows [of env "qc_chain_id q" s i] by (simp add: md)
  have ua: "ua = amount_user d"
    using amounts by (auto simp: quoted_amounts_def rbind_Inr_iff split: FeeToken.splits)
  show ?thesis
  proof (cases "amount_user d \<le> balance_after_initializations env (ta_token t) p \<and> \<not> qc_cancellable q")
    case True
    with run obtain tx where sub: "sign_bid_and_submit_auction env now winner a s1 = (s', Inr tx)"
      and "q_transaction quote = Some tx" "q_expiration_time quote = Some (deadline d)"
        "ta_amount (q_user_token quote) = ua" "q_reference_id quote = a_id a"
      by (auto simp: Let_def yields_def elim!: seq_Inr_cases)
    with True ua rows1 sign_and_submit_Inr [OF sub] x show ?thesis by (auto simp: quote_for_def)
  next
    case False
    with run ua rows1 x show ?thesis
      by (auto simp: Let_def yields_def quote_for_def bid_tx_def elim!: seq_Inr_cases split: if_splits)
  qed
qed

lemma award_quote_Inr:
  assumes "award_quote env now i x cancellable bids winner s = (s', Inr a)"
  shows "a_id a = i \<and> (\<exists>row. row_of (b_id winner) s' = Some row \<and>
    r_status row = (if cancellable then DbAwaitingSignature else DbSentToUserForSubmission))"
proof -
  from assms obtain a0 sig s1 s2 where a0: "Auction_try_new i now bids now = Some a0"
    and add: "add_auction (a0\<lparr>a_tx_hash := Some sig\<rparr>) s = (s1, Inr a)"
    and upd: "update_bid_status winner (if cancellable then AwaitingSignature \<lparr>sa_id = a_id a, sa_tx_hash = sig\<rparr>
        else SentToUserForSubmission \<lparr>sa_id = a_id a, sa_tx_hash = sig\<rparr>) now s2 = (s', Inr True)"
    unfolding award_quote_def Let_def
    by (auto simp: ok_or_Inr_iff fails_def yields_def elim!: seq_yields_Inr seq_Inr_cases split: if_splits)
  from a0 have "a_id a0 = i" by (auto simp: Auction_try_new_def Let_def split: list.splits)
  with add have "a_id a = i"
    by (auto simp: add_auction_def on_repo_def fails_as_def repo_add_auction_def Let_def yields_def
        elim!: seq_Inr_cases split: sum.splits prod.splits stop.splits)
  moreover from updated_row [OF upd] have "\<exists>row. row_of (b_id winner) s' = Some row \<and>
      r_status row = (if cancellable then DbAwaitingSignature else DbSentToUserForSubmission)"
    by (cases cancellable) simp_all
  ultimately show ?thesis by blast
qed

definition better_or_equal :: "QuoteTokens \<Rightarrow> bid \<Rightarrow> bid \<Rightarrow> bool" where
  "better_or_equal tokens b b' \<longleftrightarrow>
     (case tokens of UserTokenSpecified _ _ \<Rightarrow> b_amount b' \<le> b_amount b
      | SearcherTokenSpecified _ _ \<Rightarrow> b_amount b \<le> b_amount b')"

lemma sort_key_hd: "sort_key f xs = w # ws \<Longrightarrow> b \<in> set xs \<Longrightarrow> f w \<le> f b"
proof -
  assume s: "sort_key f xs = w # ws" and b: "b \<in> set xs"
  have "sorted (map f (w # ws))" using sorted_sort_key [of f xs] by (simp only: s)
  moreover have "b \<in> set (w # ws)" using b by (simp only: s [symmetric] set_sort)
  ultimately show "f w \<le> f b" by auto
qed

lemma best_first_hd:
  assumes "best_first tokens bids = w # ws"
  shows "w \<in> set bids \<and> (\<forall>b\<in>set bids. better_or_equal tokens w b)"
proof -
  have "set (best_first tokens bids) = set bids"
    by (simp add: best_first_def by_amount_def split: QuoteTokens.split)
  then have "w \<in> set bids" by (simp add: assms flip: \<open>set _ = set bids\<close>)
  moreover have "better_or_equal tokens w b" if "b \<in> set bids" for b
    using assms sort_key_hd [OF _ that, of "\<lambda>b. - uint (b_amount b)"] sort_key_hd [OF _ that, of "\<lambda>b. uint (b_amount b)"]
    by (auto simp: best_first_def by_amount_def better_or_equal_def word_le_def split: QuoteTokens.splits)
  ultimately show ?thesis by blast
qed

text \<open>
  Property C10. The quote returned rests on a best bid pending for it after the sleep: most of the
  searcher's token for a given user amount, least of the user's token for a given searcher amount. It shows
  the user amount of that bid's transaction, and carries the transaction and its deadline exactly when
  the user's balance covers that amount: as the searcher signed it when the quote can be
  cancelled, and with the relayer's signature otherwise. The bid then waits in the database for the
  user's signature, or for the user to submit it, so no other auction can award it.
\<close>

theorem quote_is_a_best_pending_bid:
  assumes "caches_ok env (qc_chain_id q) s" and "answer_quote env now i q x s = (s', Inr quote)"
  shows "\<exists>winner d p t ts. winner \<in> set (get_pending_bids (o_permission_key x) s) \<and>
    (\<forall>b\<in>set (get_pending_bids (o_permission_key x) s). better_or_equal (qc_tokens q) winner b) \<and>
    swap_transaction_data env (qc_chain_id q) (bid_tx winner) = Inr d \<and>
    o_program x = SwapProgram p \<and> o_buy_tokens x = t # ts \<and>
    quote_for env q (ta_token t) p winner (swap_data d) quote \<and> q_reference_id quote = i \<and>
    (\<exists>row. row_of (b_id winner) s' = Some row \<and>
       r_status row = (if qc_cancellable q then DbAwaitingSignature else DbSentToUserForSubmission))"
proof -
  from assms(2) obtain winner others where best: "best_first (qc_tokens q) (get_pending_bids (o_permission_key x) s) = winner # others"
    by (auto simp: answer_quote_def split: list.splits)
  obtain s1 r where decode: "get_bid_transaction_data_swap env (qc_chain_id q) (bid_tx winner) s = (s1, r)" by fastforce
  have data: "swap_transaction_data env (qc_chain_id q) (bid_tx winner) = r"
    using get_bid_transaction_data_swap_answers [of env "qc_chain_id q" "caches.more s" "bid_tx winner"]
      caches_at_self [OF assms(1)] decode unfolding answers_def by (metis snd_conv)
  from assms(2) best decode obtain d s2 a ppm where d: "r = Inr d"
    and award: "award_quote env now i x (qc_cancellable q) (winner # others) winner s1 = (s2, Inr a)"
    and quote: "quote_of_winner env now q x ppm a winner (swap_data d) s2 = (s', Inr quote)"
    by (auto simp: answer_quote_def fails_as_def bid_tx_def elim!: seq_yields_Inr seq_Inr_cases
        split: sum.splits stop.splits)
  from quote_of_winner_Inr [OF quote] obtain p t ts where "o_program x = SwapProgram p" "o_buy_tokens x = t # ts"
    "quote_for env q (ta_token t) p winner (swap_data d) quote" "q_reference_id quote = a_id a"
    "\<forall>i. row_of i s' = row_of i s2" by blast
  with award_quote_Inr [OF award] best_first_hd [OF best] data d show ?thesis by auto
qed


subsection \<open>A concrete quote request\<close>

lemma sample_metadata_fetched:
  "get_express_relay_metadata sample_env ch s =
     (case express_relay_metadata s of Some m \<Rightarrow> (s, Inr m)
      | None \<Rightarrow> (s\<lparr>express_relay_metadata := Some sample_metadata\<rparr>, Inr sample_metadata))"
proof -
  have "try_deserialize metadata_discriminator deser_metadata (metadata_discriminator @ ser_metadata sample_metadata) = Inr sample_metadata"
    using metadata_codec.try_deserialize_written [of sample_metadata "[]"] by simp
  moreover have "(of_le SEED_METADATA :: pubkey) \<noteq> 77"
    by (simp add: SEED_METADATA_def bytes_of_string_def of_le_def)
  ultimately have "fetch_express_relay_metadata sample_env ch = Inr sample_metadata"
    by (simp add: fetch_express_relay_metadata_def get_config_def sample_env_def calculate_metadata_address_def)
  then show ?thesis by (simp add: get_express_relay_metadata_def split: option.split)
qed

lemma seq_ok: "m s = (s1, Inr x) \<Longrightarrow> f x s1 = r \<Longrightarrow> seq m f s = r"
  by (simp add: seq_def)

lemma yields_ok: "r = Inr x \<Longrightarrow> yields r s = (s, Inr x)"
  by (simp add: yields_def)

theorem accepted_bid_reaches_its_quote_witness:
  "\<exists>s' b. handle_bid sample_env ''solana'' sample_simulation sample_clock 7 20 sample_bid_create sample_quoted = (s', Inr b) \<and>
     b \<in> set (get_pending_bids (o_permission_key sample_quote) s')"
proof -
  have found: "get_in_memory_opportunity_by_id sample_quoted 1 = Some sample_quote"
    by (simp add: get_in_memory_opportunity_by_id_def sample_quoted_def)
      (simp add: sample_quote_def sample_opportunity_def new_with_current_time_def OpportunityCreateSvm.extend_def)
  have quote: "quote_opportunity sample_env sample_quote"
    unfolding quote_opportunity_def
    by (simp add: get_swap_quote_tokens_def sample_quote_def sample_opportunity_def new_with_current_time_def
        OpportunityCreateSvm.extend_def get_permission_key_def opportunity_permission_key_def)
      (simp add: sample_create_def sample_terms_def sample_quote_terms_def sample_bid_chain_data_def
        router_token_account_of_def sample_env_def)
  have "signatures (cd_transaction sample_bid_chain_data) = 11 # [0, 0]"
    by (simp add: sample_bid_chain_data_def sample_plain_tx_def)
  from repo_add_bid_fresh [OF _ _ this, of "auction_repo sample_quoted" 7 20 "bc_initiation_time sample_bid_create"
      "bc_profile sample_bid_create" "get_opportunity_id (bc_chain_data sample_bid_create)" 1000]
  obtain s' b where run: "handle_bid sample_env ''solana'' sample_simulation sample_clock 7 20 sample_bid_create sample_quoted = (s', Inr b)"
    by (simp add: handle_bid_def seq_def sample_verified)
      (simp add: sample_quoted_def sample_opp_state_def Repository_new_def db_empty_def)
  with accepted_bid_reaches_its_quote [OF sample_quoted_caches_ok run sample_bid_is_swap] found quote
  show ?thesis by auto
qed

definition sample_node :: node where
  "sample_node = \<lparr>get_multiple_accounts = (\<lambda>ks. Inr (map (\<lambda>_. None) ks)), unpack_token_amount = (\<lambda>_. None),
     rpc_mint = (\<lambda>_. Inr (1, 6))\<rparr>"

definition sample_request :: QuoteCreate where
  "sample_request = \<lparr>qc_user_wallet_address = Some 12, qc_tokens = UserTokenSpecified \<lparr>ta_token = 5, ta_amount = 500\<rparr> 9,
     qc_referral_fee_info = Some \<lparr>rf_router = 31, rf_ppm = 100\<rparr>, qc_chain_id = ''solana'', qc_memo = None,
     qc_cancellable = True, qc_minimum_lifetime = Some 20, qc_profile_id = None\<rparr>"

lemma sample_config_fields:
  "validate_quote sample_config 5 9 None 100 = Inr ()" "accepted_token_programs sample_config = [1]"
  "get_platform_fee_ppm sample_config 5 9 = Some 3000" "ordered_fee_tokens sample_config = [5]"
  by (simp_all add: sample_config_def validate_quote_def allowed_from get_minimum_fee_def fee_of_mint_def
      get_platform_fee_ppm_def option_max_def unwrap_or_def)

definition sample_listed :: opp_state where
  "sample_listed = sample_opp_state\<lparr>express_relay_metadata := Some sample_metadata, token_mint_cache :=
     [(5, \<lparr>tm_mint = 5, tm_decimals = 6, tm_token_program = 1\<rparr>), (9, \<lparr>tm_mint = 9, tm_decimals = 9, tm_token_program = 1\<rparr>)]\<rparr>"

theorem opened_quote_is_filed_under_its_terms_witness:
  "\<exists>s' x. open_quote sample_env sample_node [] 1 100 sample_request sample_listed = (s', Inr x) \<and>
     quote_opportunity sample_env x \<and> answers_request sample_request x"
proof -
  have config: "lift_rest (get_config (opp_configs sample_env) ch) = Inr sample_config" for ch
    by (simp add: get_config_def sample_env_def lift_rest_def)
  have referral: "referral_of sample_env sample_request = Inr \<lparr>rf_router = 31, rf_ppm = 100\<rparr>"
    by (simp add: referral_of_def unwrap_referral_fee_info_def sample_request_def)
  have program: "token_program_of sample_env sample_node ch m mint sample_listed = (sample_listed, Inr 1)"
    if "mint \<in> {5, 9}" for ch m mint
    using that by (auto simp: token_program_of_def get_token_mint_def config query_token_mint_cache_def sample_listed_def
        seq_def yields_def fails_as_def sample_config_fields)
  have metadata: "get_express_relay_metadata sample_env ch sample_listed = (sample_listed, Inr sample_metadata)" for ch
    by (simp add: sample_metadata_fetched sample_listed_def)
  have balances: "\<exists>b. get_quote_request_account_balances sample_env sample_node i sample_listed = (sample_listed, Inr b)" for i
    by (simp add: get_quote_request_account_balances_def metadata seq_def yields_def config sample_node_def balances_of_def
        token_balance_def split: prod.split)
  have wallet: "\<exists>b c. wallet_of_request sample_env sample_node [] (Some 12) i sample_listed = (sample_listed, Inr (12, b, c))" for i
    using balances [of "i\<lparr>qi_user_wallet_address := 12\<rparr>"] by (auto simp: wallet_of_request_def seq_def yields_def)
  have fields: "qc_tokens sample_request = UserTokenSpecified \<lparr>ta_token = 5, ta_amount = 500\<rparr> 9"
    "qc_user_wallet_address sample_request = Some 12" "qc_profile_id sample_request = None"
    "qc_chain_id sample_request = ''solana''" "qc_minimum_lifetime sample_request = Some 20"
    by (simp_all add: sample_request_def)
  have valid: "lift_rest (validate_quote sample_config 5 9 None 100) = Inr ()"
    by (simp add: sample_config_fields lift_rest_def)
  have bps: "fee_bps_u16 100 = Inr 1" by (simp add: fee_bps_u16_def FEE_BPS_TO_PPM_def)
  have ft: "get_fee_token 5 9 [5] = UserToken" by (simp add: get_fee_token_def position_def unwrap_or_def)
  have "\<exists>c. get_opportunity_create_for_quote sample_env sample_node [] 100 sample_request sample_listed = (sample_listed, Inr c)"
  proof -
    let ?i = "\<lparr>qi_chain_id = ''solana'', qi_fee_token = UserToken, qi_user_wallet_address = 0, qi_router = 31,
              qi_mint_searcher = 9, qi_mint_user = 5, qi_token_program_searcher = 1, qi_token_program_user = 1\<rparr>"
    obtain b cs where w: "wallet_of_request sample_env sample_node [] (Some 12) ?i sample_listed = (sample_listed, Inr (12, b, cs))"
      using wallet by blast
    have amounts: "quote_amounts (UserTokenSpecified \<lparr>ta_token = 5, ta_amount = 500\<rparr> 9) UserToken 100 p = Inr (0, 500)" for p
      by (simp add: quote_amounts_def)
    have ids: "program sample_listed = (sample_listed, Inr 1)" if "\<exists>ch m. program = token_program_of sample_env sample_node ch m 5 \<or>
      program = token_program_of sample_env sample_node ch m 9" for program
      using that program by auto
    note parts = fields TokenAmountSvm.simps mints_of.simps prod.case Let_def QuoteCreate.simps ReferralFeeInfo.simps sample_config_fields(2-4) ft
    show ?thesis
      unfolding get_opportunity_create_for_quote_def parts
      apply (rule exI)
      apply (rule seq_ok, rule yields_ok, rule config)
      apply (rule seq_ok, rule yields_ok, rule referral, unfold parts)
      apply (rule seq_ok, rule yields_ok, rule valid)
      apply (rule seq_ok, rule metadata)
      apply (rule seq_ok, rule yields_ok, rule amounts, unfold parts)
      apply (subst if_not_P, simp)
      apply (rule seq_ok, rule program, simp, rule seq_ok, rule program, simp)
      apply (rule seq_ok, rule w, unfold parts)
      apply (rule seq_ok, rule yields_ok, rule bps)
      by (rule yields_ok, rule refl)
  qed
  then obtain c where create: "get_opportunity_create_for_quote sample_env sample_node [] 100 sample_request sample_listed =
      (sample_listed, Inr c)" by blast
  have add: "\<exists>s' x. add_opportunity sample_env 1 100 c sample_listed = (s', Inr x)"
    by (simp add: add_opportunity_def config sample_listed_def sample_opp_state_def assess_action_def
        get_in_memory_opportunities_by_key_def repo_add_opportunity_def db_add_opportunity_def Let_def seq_def yields_def)
  have "\<exists>s' x. open_quote sample_env sample_node [] 1 100 sample_request sample_listed = (s', Inr x)"
    using add by (simp add: open_quote_def referral fields config seq_def yields_def create BID_MAXIMUM_LIFE_TIME_SVM_def
        seconds_def unwrap_or_def FEE_SPLIT_PRECISION_PPM_def)
  then show ?thesis using opened_quote_is_filed_under_its_terms by blast
qed


lemma update_accepted:
  assumes "db_up (repo_db (auction_repo s))" and "row_of (b_id b) s = Some row"
    and "get_update_bid_query st now = Inr (u, c)" and "r_status row \<in> set (bu_where u)"
  shows "\<exists>s'. update_bid_status b st now s = (s', Inr True)"
  using assms by (simp add: update_bid_status_def on_repo_def fails_as_def repo_update_bid_status_def
      db_update_bid_status_def seq_def Let_def)

lemma remove_quote_keeps [simp]:
  "auction_repo (remove_quote_opportunity env now x s) = auction_repo s"
  "express_relay_metadata (remove_quote_opportunity env now x s) = express_relay_metadata s"
  by (simp_all add: remove_quote_opportunity_def remove_opportunity_def repo_remove_opportunity_def db_remove_opportunity_def
      seq_def yields_def Let_def split: sum.split)

lemma frame_metadata: "express_relay_metadata (s\<lparr>auction_repo := r, events := e\<rparr>) = express_relay_metadata s"
  by simp

lemma sample_pending_lookup: "get_lookup_table sample_pending_repo k = None"
  by (simp add: sample_pending_repo_def get_lookup_table_def repo_add_bid_def Repository_new_def Let_def
      split: sum.split)

definition sample_asked :: QuoteCreate where
  "sample_asked = \<lparr>qc_user_wallet_address = Some 12, qc_tokens = UserTokenSpecified \<lparr>ta_token = 22, ta_amount = 500\<rparr> 21,
     qc_referral_fee_info = None, qc_chain_id = ''solana'', qc_memo = None, qc_cancellable = True,
     qc_minimum_lifetime = None, qc_profile_id = None\<rparr>"

definition sample_rich_quote :: OpportunitySvm where
  "sample_rich_quote = sample_quote\<lparr>o_program := SwapProgram (sample_terms\<lparr>os_user_mint_user_balance := 1000\<rparr>)\<rparr>"

theorem quote_is_a_best_pending_bid_witness:
  "\<exists>s' quote. answer_quote sample_env 30 2 sample_asked sample_rich_quote (server_with sample_pending_repo) = (s', Inr quote) \<and>
     q_transaction quote = Some sample_plain_tx"
proof -
  let ?s = "server_with sample_pending_repo" and ?b = "sample_pending_bid" and ?x = "sample_rich_quote"
  have b: "b_status ?b = Pending" "b_id ?b = 1" "b_chain_data ?b = sample_bid_chain_data"
    by (simp_all add: sample_pending_bid_def fresh_bid_def)
  have tx: "cd_transaction sample_bid_chain_data = sample_plain_tx" by (simp add: sample_bid_chain_data_def)
  have x: "o_permission_key ?x = get_permission_key sample_bid_chain_data"
    "o_sell_tokens ?x = [\<lparr>ta_token = 21, ta_amount = 0\<rparr>]" "o_buy_tokens ?x = [\<lparr>ta_token = 22, ta_amount = 500\<rparr>]"
    "o_program ?x = SwapProgram (sample_terms\<lparr>os_user_mint_user_balance := 1000\<rparr>)"
    by (simp_all add: sample_rich_quote_def sample_quote_def sample_opportunity_def new_with_current_time_def
        OpportunityCreateSvm.extend_def) (simp_all add: sample_create_def)
  have pending: "get_pending_bids (o_permission_key ?x) ?s = [?b]"
    by (simp add: get_pending_bids_def get_in_memory_pending_bids_by_permission_key_def x sample_pending_repo)
  have q: "qc_tokens sample_asked = UserTokenSpecified \<lparr>ta_token = 22, ta_amount = 500\<rparr> 21" "qc_cancellable sample_asked"
    "qc_chain_id sample_asked = ''solana''"
    by (simp_all add: sample_asked_def)
  have best: "best_first (qc_tokens sample_asked) (get_pending_bids (o_permission_key ?x) ?s) = [?b]"
    by (simp add: pending best_first_def by_amount_def q)
  have row: "\<exists>r. row_of 1 ?s = Some r \<and> r_status r = DbPending" "db_up (repo_db (auction_repo ?s))"
    by (simp_all add: sample_pending_repo db_empty_def BidRow_new_def)
  then obtain r where pr: "row_of 1 ?s = Some r" "r_status r = DbPending" by blast
  obtain s' a where award: "award_quote sample_env 30 2 ?x True [?b] ?b ?s = (s', Inr a)" and none: "express_relay_metadata s' = None"
  proof -
    obtain a0 where a0: "Auction_try_new 2 30 [?b] 30 = Some a0" by (simp add: Auction_try_new_def b)
    then have bids: "a_bids a0 = [?b]" by (auto simp: Auction_try_new_def b)
    have sig: "first_signature (cd_transaction (b_chain_data ?b)) = (Inr 11 :: signature rest)"
      by (simp add: first_signature_def b tx sample_plain_tx_def)
    let ?a = "a0\<lparr>a_tx_hash := Some 11\<rparr>"
    have empty: "express_relay_metadata ?s = None" by (simp add: server_with_def)
    obtain s1 where add: "add_auction ?a ?s = (s1, Inr ?a)" and rows: "db_bids (repo_db (auction_repo s1)) = db_bids (repo_db (auction_repo ?s))"
      "db_up (repo_db (auction_repo s1))" "express_relay_metadata s1 = None"
      using row(2) empty by (simp add: add_auction_def seq_def on_repo_def fails_as_def repo_add_auction_def db_add_auction_def
          sample_pending_repo db_empty_def Let_def)
    have none: "filter (\<lambda>b. b_id b \<noteq> b_id ?b) (a_bids ?a) = []" by (simp add: bids)
    have "\<exists>s'. update_bid_status ?b (AwaitingSignature \<lparr>sa_id = a_id ?a, sa_tx_hash = 11\<rparr>) 30
        (remove_quote_opportunity sample_env 30 ?x s1) = (s', Inr True)"
      using row(2) rows pr by (intro update_accepted [where row = r]) (auto simp: b)
    then obtain s' where upd: "update_bid_status ?b (AwaitingSignature \<lparr>sa_id = a_id ?a, sa_tx_hash = 11\<rparr>) 30
        (remove_quote_opportunity sample_env 30 ?x s1) = (s', Inr True)" by blast
    have "award_quote sample_env 30 2 ?x True [?b] ?b ?s = (s', Inr ?a)"
      unfolding award_quote_def
      apply (rule seq_ok, rule yields_ok, simp add: a0)
      apply (rule seq_ok, rule yields_ok, rule sig)
      apply (rule seq_ok, rule add)
      unfolding none Let_def using upd by (simp add: update_all_def seq_def yields_def)
    moreover have "express_relay_metadata s' = None"
      using update_frame [of ?b _ 30 "remove_quote_opportunity sample_env 30 ?x s1"] upd rows(3) by (metis fst_conv remove_quote_keeps(2) frame_metadata)
    ultimately show ?thesis by (rule that)
  qed
  have decode: "get_bid_transaction_data_swap sample_env ''solana'' sample_plain_tx s = (s, Inr sample_decoded)" for s :: server
    by (rule sample_plain_data)
  have referral: "referral_of sample_env sample_asked = Inr \<lparr>rf_router = calculate_metadata_address sample_env, rf_ppm = 0\<rparr>"
    by (simp add: referral_of_def unwrap_referral_fee_info_def sample_asked_def get_config_def sample_env_def lift_rest_def)
  have fees: "\<exists>fs. quoted_amounts sample_metadata 0 (swap_data sample_decoded) = Inr (1000, 500, fs)"
  proof -
    have "\<exists>f. compute_swap_fees sample_metadata 0 1000 500 = Inr f"
      using compute_swap_fees_small [of 0 1000 500 sample_metadata] by (auto simp: sample_metadata_def)
    then show ?thesis
      by (auto simp: quoted_amounts_def quoted_fees_def sample_decoded_def sample_swap_v2_def)
        (simp add: sample_metadata_def FEE_BPS_TO_PPM_def)
  qed
  have affordable: "amount_user (swap_data sample_decoded) \<le> balance_after_initializations sample_env 22
      (sample_terms\<lparr>os_user_mint_user_balance := 1000\<rparr>)"
    by (simp add: balance_after_initializations_def NATIVE_MINT_def sample_decoded_def sample_swap_v2_def)
  have "\<exists>s2 quote. quote_of_winner sample_env 30 sample_asked ?x 0 a ?b (swap_data sample_decoded) s' = (s2, Inr quote)"
    using fees by (auto simp: quote_of_winner_def seq_def yields_def Let_def sample_metadata_fetched none x q)
  then obtain s2 quote where "quote_of_winner sample_env 30 sample_asked ?x 0 a ?b (swap_data sample_decoded) s' = (s2, Inr quote)"
    by blast
  then have run: "answer_quote sample_env 30 2 sample_asked ?x ?s = (s2, Inr quote)"
    using award best by (simp add: answer_quote_def q b tx decode fails_as_def seq_def yields_def referral)
  have "caches_ok sample_env (qc_chain_id sample_asked) ?s"
    using sample_pending_lookup by (simp add: caches_ok_def) (simp add: server_with_def)
  from quote_is_a_best_pending_bid [OF this run] pending obtain d p t ts where
    "swap_transaction_data sample_env ''solana'' sample_plain_tx = Inr d" "o_program ?x = SwapProgram p"
    "o_buy_tokens ?x = t # ts" "quote_for sample_env sample_asked (ta_token t) p ?b (swap_data d) quote"
    by (auto simp: q b tx bid_tx_def)
  then show ?thesis
    using run affordable by (auto simp: quote_for_def sample_swap_decoded x q bid_tx_def b tx)
qed

end
