(* ===== verification/As_ApiTypes.thy ===== *)
theory As_ApiTypes
  imports As_GetQuote
begin

section \<open>Auction server: the types of the web interface\<close>

text \<open>
  What crosses the wire (\<open>api-types/src/bid.rs\<close>, \<open>api-types/src/opportunity.rs\<close>,
  \<open>api-types/src/ws.rs\<close>) and its conversion from and to the entities of the services
  (\<open>auction/api.rs\<close>, \<open>opportunity/api.rs\<close>, \<open>opportunity/entities\<close>). The JSON encoding is left to
  \<open>serde\<close>; enums with one variant (\<open>Svm\<close>, \<open>V1\<close>) are their contents, and a wire type that repeats an
  entity field by field (\<open>TokenAmountSvm\<close>, \<open>ReferralFeeInfo\<close>, \<open>FeeToken\<close>, the initialization
  configurations) is that entity.
\<close>

subsection \<open>Bids\<close>

datatype ApiSubmissionFailedReason = ApiSubmissionCancelled | ApiSubmissionDeadlinePassed

datatype ApiBidFailedReason =
    ApiInsufficientUserFunds
  | ApiInsufficientSearcherFunds
  | ApiInsufficientFundsSolTransfer
  | ApiDeadlinePassed
  | ApiOther

datatype ApiBidStatus =
    ApiPending
  | ApiAwaitingSignature signature
  | ApiSentToUserForSubmission signature
  | ApiSubmitted signature
  | ApiLost "signature option"
  | ApiWon signature
  | ApiFailed signature "ApiBidFailedReason option"
  | ApiExpired signature
  | ApiCancelled signature
  | ApiSubmissionFailed signature ApiSubmissionFailedReason

fun api_failed_reason :: "BidFailedReason \<Rightarrow> ApiBidFailedReason" where
  "api_failed_reason FailedInsufficientUserFunds = ApiInsufficientUserFunds"
| "api_failed_reason FailedInsufficientSearcherFunds = ApiInsufficientSearcherFunds"
| "api_failed_reason FailedInsufficientFundsSolTransfer = ApiInsufficientFundsSolTransfer"
| "api_failed_reason FailedDeadlinePassed = ApiDeadlinePassed"
| "api_failed_reason FailedOther = ApiOther"

fun api_status :: "BidStatusSvm \<Rightarrow> ApiBidStatus" where
  "api_status Pending = ApiPending"
| "api_status (AwaitingSignature a) = ApiAwaitingSignature (sa_tx_hash a)"
| "api_status (SentToUserForSubmission a) = ApiSentToUserForSubmission (sa_tx_hash a)"
| "api_status (Submitted a) = ApiSubmitted (sa_tx_hash a)"
| "api_status (Lost a) = ApiLost (map_option sa_tx_hash a)"
| "api_status (Won a) = ApiWon (sa_tx_hash a)"
| "api_status (Failed a reason) = ApiFailed (sa_tx_hash a) (map_option api_failed_reason reason)"
| "api_status (Expired a) = ApiExpired (sa_tx_hash a)"
| "api_status (Cancelled a) = ApiCancelled (sa_tx_hash a)"
| "api_status (SubmissionFailed a SubmissionCancelled) = ApiSubmissionFailed (sa_tx_hash a) ApiSubmissionCancelled"
| "api_status (SubmissionFailed a SubmissionDeadlinePassed) = ApiSubmissionFailed (sa_tx_hash a) ApiSubmissionDeadlinePassed"

record BidCoreFields =
  cf_id :: uuid
  cf_chain_id :: string
  cf_initiation_time :: time
  cf_profile_id :: "uuid option"

definition get_core_fields :: "bid \<Rightarrow> BidCoreFields" where
  "get_core_fields b = \<lparr>cf_id = b_id b, cf_chain_id = b_chain_id b, cf_initiation_time = b_initiation_time b,
     cf_profile_id = b_profile_id b\<rparr>"

record ApiBid =
  ab_core_fields :: BidCoreFields
  ab_status :: ApiBidStatus
  ab_transaction :: tx
  ab_bid_amount :: u64
  ab_permission_key :: "u8 list"

definition api_bid :: "bid \<Rightarrow> ApiBid" where
  "api_bid b = \<lparr>ab_core_fields = get_core_fields b, ab_status = api_status (b_status b),
     ab_transaction = cd_transaction (b_chain_data b), ab_bid_amount = b_amount b,
     ab_permission_key = get_permission_key (b_chain_data b)\<rparr>"

definition get_initiation_time :: "ApiBid \<Rightarrow> time" where
  "get_initiation_time b = cf_initiation_time (ab_core_fields b)"

text \<open>A bid as it is posted, and the entity it becomes at the time \<open>now\<close> for the profile that posts it.\<close>

record BidCreateOnChainSvm =
  con_chain_id :: string
  con_transaction :: tx
  con_slot :: "u64 option"

record BidCreateSwapSvm =
  csw_chain_id :: string
  csw_transaction :: tx
  csw_opportunity_id :: uuid

datatype BidCreateSvm = CreateSwap BidCreateSwapSvm | CreateOnChain BidCreateOnChainSvm

fun get_chain_id :: "BidCreateSvm \<Rightarrow> string" where
  "get_chain_id (CreateSwap c) = csw_chain_id c"
| "get_chain_id (CreateOnChain c) = con_chain_id c"

fun get_bid_create_entity :: "time \<Rightarrow> BidCreateSvm \<Rightarrow> Profile option \<Rightarrow> BidCreate" where
  "get_bid_create_entity now (CreateOnChain c) profile =
     \<lparr>bc_chain_id = con_chain_id c, bc_initiation_time = now, bc_profile = map_option pr_id profile,
      bc_chain_data = OnChain \<lparr>oc_transaction = con_transaction c, oc_slot = con_slot c\<rparr>\<rparr>"
| "get_bid_create_entity now (CreateSwap c) profile =
     \<lparr>bc_chain_id = csw_chain_id c, bc_initiation_time = now, bc_profile = map_option pr_id profile,
      bc_chain_data = Swap \<lparr>sc_transaction = csw_transaction c, sc_opportunity_id = csw_opportunity_id c\<rparr>\<rparr>"

record BidResult =
  br_status :: string
  br_id :: uuid

record BidStatusWithId =
  bs_id :: uuid
  bs_bid_status :: ApiBidStatus

record BidCancelSvm =
  bcan_chain_id :: string
  bcan_bid_id :: uuid


subsection \<open>Opportunities\<close>

record OpportunityCreateV1Svm =
  ocv_permission_account :: pubkey
  ocv_router :: pubkey
  ocv_chain_id :: string
  ocv_slot :: u64
  ocv_sell_tokens :: "TokenAmountSvm list"
  ocv_buy_tokens :: "TokenAmountSvm list"
  ocv_order :: "u8 list"
  ocv_order_address :: pubkey

text \<open>Only limo opportunities can be created from outside.\<close>

definition create_program :: "OpportunityCreateV1Svm \<Rightarrow> ProgramSvm" where
  "create_program c = ProgramLimo"

definition opportunity_create_entity :: "OpportunityCreateV1Svm \<Rightarrow> OpportunityCreateSvm" where
  "opportunity_create_entity c =
     \<lparr>o_permission_key = opportunity_permission_key SubmitBidPayment (ocv_router c) (ocv_permission_account c),
      o_chain_id = ocv_chain_id c, o_sell_tokens = ocv_sell_tokens c, o_buy_tokens = ocv_buy_tokens c,
      o_router = ocv_router c, o_permission_account = ocv_permission_account c,
      o_program = Limo \<lparr>ol_order = ocv_order c, ol_order_address = ocv_order_address c, ol_slot = ocv_slot c\<rparr>,
      o_profile_id = None\<rparr>"

datatype ApiQuoteTokens =
    ApiSearcherTokenSpecified (aqt_searcher_token: pubkey) (aqt_searcher_amount: u64) (aqt_user_token: pubkey)
  | ApiUserTokenSpecified (aqt_searcher_token: pubkey) (aqt_user_token: pubkey) (aqt_user_amount: u64)
      (aqt_user_amount_including_fees: u64)

record OpportunityParamsSwap =
  ops_user_wallet_address :: pubkey
  ops_user_mint_user_balance :: u64
  ops_permission_account :: pubkey
  ops_router_account :: pubkey
  ops_referral_fee_bps :: u16
  ops_referral_fee_ppm :: u64
  ops_platform_fee_bps :: u64
  ops_platform_fee_ppm :: u64
  ops_fee_token :: OppFeeToken
  ops_tokens :: ApiQuoteTokens
  ops_token_program_searcher :: pubkey
  ops_token_program_user :: pubkey
  ops_initialization :: TokenAccountInitializationConfigs
  ops_memo :: "string option"
  ops_cancellable :: bool
  ops_minimum_deadline :: int
  ops_profile_id :: "uuid option"

record OpportunityParamsLimo =
  opl_order :: "u8 list"
  opl_order_address :: pubkey
  opl_slot :: u64

datatype OpportunityParams = LimoParams OpportunityParamsLimo | SwapParams OpportunityParamsSwap

record ApiOpportunity =
  ao_opportunity_id :: uuid
  ao_creation_time :: int
  ao_program :: OpportunityParams
  ao_chain_id :: string

definition api_quote_tokens :: "OpportunitySvmProgramSwap \<Rightarrow> QuoteTokens \<Rightarrow> ApiQuoteTokens" where
  "api_quote_tokens p tokens =
     (case tokens of
        SearcherTokenSpecified user_token searcher_token \<Rightarrow>
          ApiSearcherTokenSpecified (ta_token searcher_token) (ta_amount searcher_token) user_token
      | UserTokenSpecified user_token searcher_token \<Rightarrow>
          ApiUserTokenSpecified searcher_token (ta_token user_token)
            (user_amount_excluding_fees p (ta_amount user_token)) (ta_amount user_token))"

text \<open>Integer division of Rust rounds towards zero; whole seconds since 1970 are rounded down.\<close>

definition micros :: "time \<Rightarrow> int" where
  "micros t = (if t < 0 then - (- t div 1000) else t div 1000)"

definition unix_timestamp :: "time \<Rightarrow> int" where
  "unix_timestamp t = t div 1000000000"

definition api_opportunity :: "OpportunitySvm \<Rightarrow> ApiOpportunity rest" where
  "api_opportunity x =
     rbind (case o_program x of
        Limo l \<Rightarrow> Inr (LimoParams \<lparr>opl_order = ol_order l, opl_order_address = ol_order_address l, opl_slot = ol_slot l\<rparr>)
      | SwapProgram p \<Rightarrow>
          rbind (get_swap_quote_tokens x) (\<lambda>tokens. Inr (SwapParams
            \<lparr>ops_user_wallet_address = os_user_wallet_address p,
             ops_user_mint_user_balance = os_user_mint_user_balance p,
             ops_permission_account = o_permission_account x, ops_router_account = o_router x,
             ops_referral_fee_bps = os_referral_fee_bps p, ops_referral_fee_ppm = os_referral_fee_ppm p,
             ops_platform_fee_bps = os_platform_fee_bps p, ops_platform_fee_ppm = os_platform_fee_ppm p,
             ops_fee_token = os_fee_token p, ops_tokens = api_quote_tokens p tokens,
             ops_token_program_searcher = os_token_program_searcher p, ops_token_program_user = os_token_program_user p,
             ops_initialization = os_initialization p, ops_memo = os_memo p, ops_cancellable = os_cancellable p,
             ops_minimum_deadline = unix_timestamp (os_minimum_deadline p), ops_profile_id = o_profile_id x\<rparr>)))
       (\<lambda>program. Inr \<lparr>ao_opportunity_id = o_id x, ao_creation_time = micros (o_creation_time x),
          ao_program = program, ao_chain_id = o_chain_id x\<rparr>)"


subsection \<open>Quotes\<close>

datatype SpecifiedTokenAmount = UserInputToken u64 | UserOutputToken u64

record QuoteCreateV1SvmParams =
  qcv_user_wallet_address :: "pubkey option"
  qcv_input_token_mint :: pubkey
  qcv_output_token_mint :: pubkey
  qcv_specified_token_amount :: SpecifiedTokenAmount
  qcv_referral_fee_info :: "ReferralFeeInfo option"
  qcv_chain_id :: string
  qcv_memo :: "string option"
  qcv_cancellable :: bool
  qcv_minimum_lifetime :: "u32 option"

definition get_memo_length :: "QuoteCreateV1SvmParams \<Rightarrow> nat option" where
  "get_memo_length q = map_option length (qcv_memo q)"

definition get_quote_create_entity :: "QuoteCreateV1SvmParams \<Rightarrow> Profile option \<Rightarrow> QuoteCreate" where
  "get_quote_create_entity q profile =
     \<lparr>qc_user_wallet_address = qcv_user_wallet_address q,
      qc_tokens = (case qcv_specified_token_amount q of
          UserInputToken a \<Rightarrow> UserTokenSpecified \<lparr>ta_token = qcv_input_token_mint q, ta_amount = a\<rparr> (qcv_output_token_mint q)
        | UserOutputToken a \<Rightarrow>
            SearcherTokenSpecified (qcv_input_token_mint q) \<lparr>ta_token = qcv_output_token_mint q, ta_amount = a\<rparr>),
      qc_referral_fee_info = qcv_referral_fee_info q, qc_chain_id = qcv_chain_id q, qc_memo = qcv_memo q,
      qc_cancellable = qcv_cancellable q, qc_minimum_lifetime = qcv_minimum_lifetime q,
      qc_profile_id = map_option pr_id profile\<rparr>"

record QuoteV1Svm =
  qv_transaction :: "tx option"
  qv_expiration_time :: "i64 option"
  qv_input_token :: TokenAmountSvm
  qv_output_token :: TokenAmountSvm
  qv_referrer_fee :: TokenAmountSvm
  qv_platform_fee :: TokenAmountSvm
  qv_chain_id :: string
  qv_reference_id :: uuid

definition api_quote :: "Quote \<Rightarrow> QuoteV1Svm" where
  "api_quote q = \<lparr>qv_transaction = q_transaction q, qv_expiration_time = q_expiration_time q,
     qv_input_token = q_user_token q, qv_output_token = q_searcher_token q, qv_referrer_fee = q_referrer_fee q,
     qv_platform_fee = q_platform_fee q, qv_chain_id = q_chain_id q, qv_reference_id = q_reference_id q\<rparr>"

end
