(* ===== verification/As_Api.thy ===== *)
theory As_Api
  imports As_ApiTypes
begin

section \<open>Auction server: the web interface\<close>

text \<open>
  The handlers of \<open>auction/api.rs\<close>, \<open>opportunity/api.rs\<close> and \<open>api/profile.rs\<close>, the listing of a
  user's bids they need (\<open>auction/repository/get_bids.rs\<close>), the table of routes with the access level of
  each (\<open>api-types\<close>, \<open>api.rs\<close>), and the server as a machine that answers requests.
\<close>

subsection \<open>Services\<close>

text \<open>
  One auction service per chain (\<open>StoreNew::auction_services\<close>), everything else is shared. While a
  handler runs, the service fields of the state are those of the service it was given.
\<close>

record service =
  sv_repo :: "VersionedMessage repo"
  sv_pending :: "VersionedMessage pending"
  sv_auction_locks :: "u8 list locks"
  sv_bid_locks :: "uuid locks"
  sv_sent_transactions :: "tx list"
  sv_conclusion_tasks :: "uuid list"

record web = front +
  auction_services :: "(string \<times> service) list"

definition with_service :: "service \<Rightarrow> 'z web_scheme \<Rightarrow> 'z web_scheme" where
  "with_service v w = w\<lparr>auction_repo := sv_repo v, srv_pending := sv_pending v, auction_locks := sv_auction_locks v,
     bid_locks := sv_bid_locks v, sent_transactions := sv_sent_transactions v, conclusion_tasks := sv_conclusion_tasks v\<rparr>"

definition service_of :: "'z web_scheme \<Rightarrow> service" where
  "service_of w = \<lparr>sv_repo = auction_repo w, sv_pending = srv_pending w, sv_auction_locks = auction_locks w,
     sv_bid_locks = bid_locks w, sv_sent_transactions = sent_transactions w, sv_conclusion_tasks = conclusion_tasks w\<rparr>"

definition run_service :: "string \<Rightarrow> service \<Rightarrow> ('z web_scheme, 'a) action \<Rightarrow> ('z web_scheme, 'a) action" where
  "run_service ch v f w =
     (case f (with_service v w) of
        (w', r) \<Rightarrow> (w'\<lparr>auction_services := AList.update ch (service_of w') (auction_services w')\<rparr>, r))"

definition get_auction_service :: "'z web_scheme \<Rightarrow> string \<Rightarrow> service rest" where
  "get_auction_service w ch =
     (case map_of (auction_services w) ch of Some v \<Rightarrow> Inr v | None \<Rightarrow> Inl (Fails InvalidChainId))"

definition on_chain :: "string \<Rightarrow> ('z web_scheme, 'a) action \<Rightarrow> ('z web_scheme, 'a) action" where
  "on_chain ch f w = seq (\<lambda>w. (w, get_auction_service w ch)) (\<lambda>v. run_service ch v f) w"


subsection \<open>Posting and cancelling bids\<close>

definition profile_of :: "Auth \<Rightarrow> Profile option" where
  "profile_of auth = (case auth of Authorized _ p \<Rightarrow> Some p | _ \<Rightarrow> None)"

definition api_handle_bid ::
  "env \<Rightarrow> string \<Rightarrow> simulation \<Rightarrow> clock_readings \<Rightarrow> uuid \<Rightarrow> time \<Rightarrow> BidCreateSvm \<Rightarrow> Profile option \<Rightarrow>
   ('z opp_state_scheme, BidResult) action" where
  "api_handle_bid env ch sim clk new_id now c profile =
     seq (handle_bid env ch sim clk new_id now (get_bid_create_entity now c profile)) (\<lambda>b.
       yields (Inr \<lparr>br_status = ''OK'', br_id = b_id b\<rparr>))"

definition process_bid ::
  "env \<Rightarrow> simulation \<Rightarrow> clock_readings \<Rightarrow> uuid \<Rightarrow> time \<Rightarrow> Auth \<Rightarrow> BidCreateSvm \<Rightarrow> ('z web_scheme, BidResult) action" where
  "process_bid env sim clk new_id now auth c =
     on_chain (get_chain_id c) (api_handle_bid env (get_chain_id c) sim clk new_id now c (profile_of auth))"

definition api_cancel_bid :: "time \<Rightarrow> Auth \<Rightarrow> BidCancelSvm \<Rightarrow> ('z web_scheme, unit) action" where
  "api_cancel_bid now auth c =
     (case auth of
        Authorized _ p \<Rightarrow> on_chain (bcan_chain_id c) (cancel_bid now (bcan_bid_id c) (pr_id p))
      | _ \<Rightarrow> fails Unauthorized)"

definition post_submit_quote ::
  "env \<Rightarrow> time \<Rightarrow> time \<Rightarrow> string \<Rightarrow> uuid \<Rightarrow> signature \<Rightarrow> ('z web_scheme, tx) action" where
  "post_submit_quote env clock now ch reference_id user_signature =
     on_chain ch (submit_quote env ch clock now reference_id user_signature)"


subsection \<open>Asking for bids\<close>

definition svm_get_bid_status :: "uuid \<Rightarrow> 'z caches_scheme \<Rightarrow> ApiBidStatus rest" where
  "svm_get_bid_status bid_id s = rbind (snd (get_bid bid_id s)) (\<lambda>b. Inr (ab_status (api_bid b)))"

definition get_bid_status :: "string \<Rightarrow> uuid \<Rightarrow> ('z web_scheme, ApiBidStatus) action" where
  "get_bid_status ch bid_id = on_chain ch (\<lambda>w. (w, svm_get_bid_status bid_id w))"

text \<open>The deprecated route asks every service; the order of the table is that of its hash map.\<close>

fun first_status :: "(service \<Rightarrow> ApiBidStatus rest) \<Rightarrow> service list \<Rightarrow> ApiBidStatus rest" where
  "first_status ask [] = Inl (Fails BidNotFound)"
| "first_status ask (v # vs) =
     (case ask v of
        Inr st \<Rightarrow> Inr st
      | Inl (Fails BidNotFound) \<Rightarrow> first_status ask vs
      | Inl e \<Rightarrow> Inl e)"

definition get_bid_status_deprecated :: "uuid \<Rightarrow> ('z web_scheme, ApiBidStatus) action" where
  "get_bid_status_deprecated bid_id w =
     (w, first_status (\<lambda>v. svm_get_bid_status bid_id (with_service v w)) (map snd (auction_services w)))"

text \<open>
  \<open>scan\<close> is the order in which the database reads the rows of the table, all ids of it once: of rows
  with equal times the query does not say which comes first.
\<close>

definition db_get_bids :: "uuid list \<Rightarrow> 'm db \<Rightarrow> string \<Rightarrow> uuid \<Rightarrow> time option \<Rightarrow> RestError + 'm BidRow list" where
  "db_get_bids scan d ch profile_id from_time =
     (if \<not> db_up d then Inl TemporarilyUnavailable
      else Inr (take 20 (sort_key r_initiation_time
        (filter (\<lambda>r. r_profile_id r = Some profile_id \<and> r_chain_id r = ch \<and>
             (case from_time of Some t \<Rightarrow> t \<le> r_initiation_time r | None \<Rightarrow> True))
           (List.map_filter (db_bids d) scan)))))"

definition db_get_auctions_by_bids :: "'m db \<Rightarrow> 'm BidRow list \<Rightarrow> RestError + AuctionRow list" where
  "db_get_auctions_by_bids d bids =
     (if \<not> db_up d then Inl TemporarilyUnavailable
      else Inr (List.map_filter (db_auctions d) (remdups (List.map_filter r_auction_id bids))))"

definition entity_with :: "AuctionRow list \<Rightarrow> 'm BidRow \<Rightarrow> 'm Bid option" where
  "entity_with rs r =
     (case get_bid_entity r
             (case r_auction_id r of Some i \<Rightarrow> find (\<lambda>a. ar_id a = i) rs | None \<Rightarrow> None) None of
        Inl _ \<Rightarrow> None
      | Inr b \<Rightarrow> Some b)"

definition repo_get_bids :: "uuid list \<Rightarrow> 'm repo \<Rightarrow> uuid \<Rightarrow> time option \<Rightarrow> RestError + 'm Bid list" where
  "repo_get_bids scan r profile_id from_time =
     rbind (db_get_bids scan (repo_db r) (chain_id r) profile_id from_time) (\<lambda>bids.
     rbind (db_get_auctions_by_bids (repo_db r) bids) (\<lambda>rs.
       Inr (List.map_filter (entity_with rs) bids)))"

definition svm_get_bids_by_time ::
  "uuid list \<Rightarrow> Profile \<Rightarrow> time option \<Rightarrow> 'z caches_scheme \<Rightarrow> ApiBid list rest" where
  "svm_get_bids_by_time scan p from_time s =
     rbind (lift_rest (repo_get_bids scan (auction_repo s) (pr_id p) from_time)) (\<lambda>bids. Inr (map api_bid bids))"

definition get_bids_by_time ::
  "uuid list \<Rightarrow> Auth \<Rightarrow> string \<Rightarrow> time option \<Rightarrow> ('z web_scheme, ApiBid list) action" where
  "get_bids_by_time scan auth ch from_time =
     (case auth of
        Authorized _ p \<Rightarrow> on_chain ch (\<lambda>w. (w, svm_get_bids_by_time scan p from_time w))
      | _ \<Rightarrow> fails TemporarilyUnavailable)"

definition get_bids_by_time_deprecated ::
  "(string \<Rightarrow> uuid list) \<Rightarrow> Auth \<Rightarrow> time option \<Rightarrow> ('z web_scheme, ApiBid list) action" where
  "get_bids_by_time_deprecated scans auth from_time w =
     (case auth of
        Authorized _ p \<Rightarrow>
          (w, rbind (each_rest (\<lambda>(ch, v). svm_get_bids_by_time (scans ch) p from_time (with_service v w))
                 (auction_services w)) (\<lambda>bidss.
               Inr (take 20 (sort_key get_initiation_time (concat bidss)))))
      | _ \<Rightarrow> (w, Inl (Fails TemporarilyUnavailable)))"


subsection \<open>Opportunities\<close>

definition get_program :: "Auth \<Rightarrow> ProgramSvm rest" where
  "get_program auth =
     (case auth of
        Authorized _ p \<Rightarrow>
          if pr_role p = ProfileRole.Searcher then Inl (Fails Forbidden)
          else if pr_name p = ''limo'' then Inr ProgramLimo
          else Inl (Fails Forbidden)
      | AdminAuth \<Rightarrow> Inl (Fails Forbidden)
      | NoAuth \<Rightarrow> Inl (Fails Unauthorized))"

definition post_opportunity ::
  "env \<Rightarrow> uuid \<Rightarrow> time \<Rightarrow> Auth \<Rightarrow> OpportunityCreateV1Svm \<Rightarrow> ('z opp_state_scheme, ApiOpportunity) action" where
  "post_opportunity env new_id now auth c =
     seq (yields (get_program auth)) (\<lambda>program.
     if program \<noteq> create_program c then fails Forbidden
     else seq (add_opportunity env new_id now (opportunity_create_entity c)) (\<lambda>x. yields (api_opportunity x)))"

definition api_get_opportunities ::
  "env \<Rightarrow> time \<Rightarrow> OpportunityMode \<Rightarrow> string option \<Rightarrow> time option \<Rightarrow> nat \<Rightarrow>
   ('z opp_state_scheme, ApiOpportunity list) action" where
  "api_get_opportunities env now mode ch from_time limit =
     seq (get_opportunities env now mode ch from_time) (\<lambda>xs.
     seq (yields (each_rest api_opportunity xs)) (\<lambda>ys.
       yields (Inr (take (min limit OPPORTUNITY_PAGE_SIZE_CAP) (sort_key ao_creation_time ys)))))"

definition delete_opportunities :: "env \<Rightarrow> time \<Rightarrow> Auth \<Rightarrow> OpportunityDelete \<Rightarrow> ('z opp_state_scheme, unit) action" where
  "delete_opportunities env now auth d =
     seq (yields (get_program auth)) (\<lambda>program.
     if program \<noteq> od_program d then fails Forbidden
     else remove_opportunities env now (od_chain_id d) (od_permission_account d) (od_router d))"


subsection \<open>Quotes\<close>

definition MEMO_MAX_LENGTH :: nat where
  "MEMO_MAX_LENGTH = 100"

text \<open>The request is worked on by a task of its own: if that panics, the handler still answers.\<close>

definition spawned :: "'s \<times> 'a rest \<Rightarrow> 's \<times> 'a rest" where
  "spawned p = (case p of (s, Inl Panics) \<Rightarrow> (s, Inl (Fails TemporarilyUnavailable)) | _ \<Rightarrow> p)"

text \<open>
  A chain without a service has no configuration either, so its request is refused with
  \<open>InvalidChainId\<close> (\<open>get_config\<close>) before a service is asked for anything.
\<close>

definition on_quote_chain :: "string \<Rightarrow> ('z web_scheme, 'a) action \<Rightarrow> ('z web_scheme, 'a) action" where
  "on_quote_chain ch f w =
     (case map_of (auction_services w) ch of Some v \<Rightarrow> run_service ch v f w | None \<Rightarrow> f w)"

definition post_quote ::
  "env \<Rightarrow> node \<Rightarrow> u8 list \<Rightarrow> uuid \<Rightarrow> uuid \<Rightarrow> time \<Rightarrow> time \<Rightarrow> ('z web_scheme \<Rightarrow> 'z web_scheme) \<Rightarrow> Auth \<Rightarrow>
   QuoteCreateV1SvmParams \<Rightarrow> ('z web_scheme, QuoteV1Svm) action" where
  "post_quote env nd rand_bytes new_id auction_id now later meanwhile auth q =
     (if (case qcv_user_wallet_address q of Some a \<Rightarrow> is_indicative_price_taker a | None \<Rightarrow> False)
      then fails (BadParameters ''Invalid user wallet address'')
      else if (case get_memo_length q of Some n \<Rightarrow> MEMO_MAX_LENGTH < n | None \<Rightarrow> False)
      then fails (BadParameters ''Memo must be less than 100 characters'')
      else seq (\<lambda>w. spawned (on_quote_chain (qcv_chain_id q)
             (get_quote env nd rand_bytes new_id auction_id now later meanwhile
               (get_quote_create_entity q (profile_of auth))) w)) (\<lambda>quote.
           yields (Inr (api_quote quote))))"


subsection \<open>Profiles\<close>

text \<open>The handlers of the store, on the state of the server.\<close>

definition on_store :: "(store, 'a) action \<Rightarrow> ('z front_scheme, 'a) action" where
  "on_store f w = (case f (front_store w) of (s, r) \<Rightarrow> (w\<lparr>front_store := s\<rparr>, r))"

definition post_profile ::
  "(string \<Rightarrow> bool) \<Rightarrow> bool \<Rightarrow> uuid \<Rightarrow> string \<Rightarrow> string \<Rightarrow> ProfileRole \<Rightarrow> ('z front_scheme, Profile) action" where
  "post_profile email_ok up new_id name email role = on_store (create_profile email_ok up new_id name email role)"

definition post_profile_access_token ::
  "(nat \<Rightarrow> bool) \<Rightarrow> uuid \<Rightarrow> string \<Rightarrow> uuid \<Rightarrow> ('z front_scheme, string) action" where
  "post_profile_access_token ups new_id generated_token profile_id =
     seq (on_store (get_or_create_access_token ups new_id generated_token profile_id)) (\<lambda>(t, created).
       yields (Inr (tk_token t)))"

record CreatePrivilege =
  cp_profile_id :: uuid
  cp_feature :: PrivilegeFeature
  cp_state :: PrivilegeState

definition post_privilege :: "bool \<Rightarrow> uuid \<Rightarrow> time \<Rightarrow> CreatePrivilege \<Rightarrow> ('z front_scheme, unit) action" where
  "post_privilege up new_id now c = on_store (create_privilege up
     \<lparr>pv_id = new_id, pv_feature = cp_feature c, pv_profile_id = cp_profile_id c, pv_state = cp_state c, pv_created_at = now\<rparr>)"


subsection \<open>Routes\<close>

datatype Method = MethodGET | MethodPOST | MethodDELETE

record RouteProperties =
  access_level :: AccessLevel
  route_method :: Method
  full_path :: string

definition trim_end_slashes :: "string \<Rightarrow> string" where
  "trim_end_slashes s = rev (dropWhile (\<lambda>c. c = CHR ''/'') (rev s))"

datatype BidRoute = PostBid | GetBidsByTime | GetBidStatus | PostSubmitQuote | PostCancelBid

fun bid_route_name :: "BidRoute \<Rightarrow> string" where
  "bid_route_name PostBid = ''/''"
| "bid_route_name GetBidsByTime = ''/''"
| "bid_route_name GetBidStatus = ''/:bid_id''"
| "bid_route_name PostSubmitQuote = ''/submit''"
| "bid_route_name PostCancelBid = ''/:bid_id/cancel''"

definition bid_route_properties :: "BidRoute \<Rightarrow> RouteProperties" where
  "bid_route_properties r =
     (let prefix = (case r of PostSubmitQuote \<Rightarrow> ''/quotes'' | _ \<Rightarrow> ''/bids'');
          path = trim_end_slashes (''/v1'' @ prefix @ bid_route_name r);
          path_with_chain = trim_end_slashes (''/v1/:chain_id'' @ prefix @ bid_route_name r)
      in case r of
           PostBid \<Rightarrow> \<lparr>access_level = PublicLevel, route_method = MethodPOST, full_path = path\<rparr>
         | GetBidsByTime \<Rightarrow> \<lparr>access_level = LoggedInLevel, route_method = MethodGET, full_path = path_with_chain\<rparr>
         | GetBidStatus \<Rightarrow> \<lparr>access_level = PublicLevel, route_method = MethodGET, full_path = path_with_chain\<rparr>
         | PostSubmitQuote \<Rightarrow> \<lparr>access_level = PublicLevel, route_method = MethodPOST, full_path = path_with_chain\<rparr>
         | PostCancelBid \<Rightarrow> \<lparr>access_level = LoggedInLevel, route_method = MethodPOST, full_path = path_with_chain\<rparr>)"

datatype DeprecatedBidRoute = DeprecatedGetBidsByTime | DeprecatedGetBidStatus

fun deprecated_route_name :: "DeprecatedBidRoute \<Rightarrow> string" where
  "deprecated_route_name DeprecatedGetBidStatus = ''/:bid_id''"
| "deprecated_route_name DeprecatedGetBidsByTime = ''/''"

definition deprecated_route_properties :: "DeprecatedBidRoute \<Rightarrow> RouteProperties" where
  "deprecated_route_properties r =
     (let path = trim_end_slashes (''/v1'' @ ''/bids'' @ deprecated_route_name r)
      in case r of
           DeprecatedGetBidsByTime \<Rightarrow> \<lparr>access_level = LoggedInLevel, route_method = MethodGET, full_path = path\<rparr>
         | DeprecatedGetBidStatus \<Rightarrow> \<lparr>access_level = PublicLevel, route_method = MethodGET, full_path = path\<rparr>)"

datatype OpportunityRoute = PostOpportunity | PostQuote | GetOpportunities | OpportunityBid | DeleteOpportunities

fun opportunity_route_name :: "OpportunityRoute \<Rightarrow> string" where
  "opportunity_route_name PostOpportunity = ''/''"
| "opportunity_route_name PostQuote = ''/quote''"
| "opportunity_route_name GetOpportunities = ''/''"
| "opportunity_route_name OpportunityBid = ''/:opportunity_id/bids''"
| "opportunity_route_name DeleteOpportunities = ''/''"

definition opportunity_route_properties :: "OpportunityRoute \<Rightarrow> RouteProperties" where
  "opportunity_route_properties r =
     (let path = trim_end_slashes (''/v1'' @ ''/opportunities'' @ opportunity_route_name r)
      in case r of
           PostOpportunity \<Rightarrow> \<lparr>access_level = PublicLevel, route_method = MethodPOST, full_path = path\<rparr>
         | PostQuote \<Rightarrow> \<lparr>access_level = PublicLevel, route_method = MethodPOST, full_path = path\<rparr>
         | GetOpportunities \<Rightarrow> \<lparr>access_level = PublicLevel, route_method = MethodGET, full_path = path\<rparr>
         | OpportunityBid \<Rightarrow> \<lparr>access_level = PublicLevel, route_method = MethodPOST, full_path = path\<rparr>
         | DeleteOpportunities \<Rightarrow> \<lparr>access_level = LoggedInLevel, route_method = MethodDELETE, full_path = path\<rparr>)"

datatype ProfileRoute = PostProfile | GetProfile | PostProfileAccessToken | DeleteProfileAccessToken | PostPrivilege

fun profile_route_name :: "ProfileRoute \<Rightarrow> string" where
  "profile_route_name PostProfile = ''/''"
| "profile_route_name GetProfile = ''/''"
| "profile_route_name PostProfileAccessToken = ''/access_tokens''"
| "profile_route_name DeleteProfileAccessToken = ''/access_tokens''"
| "profile_route_name PostPrivilege = ''/privileges''"

definition profile_route_properties :: "ProfileRoute \<Rightarrow> RouteProperties" where
  "profile_route_properties r =
     (let path = trim_end_slashes (''/v1'' @ ''/profiles'' @ profile_route_name r)
      in case r of
           PostProfile \<Rightarrow> \<lparr>access_level = AdminLevel, route_method = MethodPOST, full_path = path\<rparr>
         | GetProfile \<Rightarrow> \<lparr>access_level = AdminLevel, route_method = MethodGET, full_path = path\<rparr>
         | PostProfileAccessToken \<Rightarrow> \<lparr>access_level = AdminLevel, route_method = MethodPOST, full_path = path\<rparr>
         | DeleteProfileAccessToken \<Rightarrow> \<lparr>access_level = LoggedInLevel, route_method = MethodDELETE, full_path = path\<rparr>
         | PostPrivilege \<Rightarrow> \<lparr>access_level = AdminLevel, route_method = MethodPOST, full_path = path\<rparr>)"

definition ws_route_properties :: RouteProperties where
  "ws_route_properties = \<lparr>access_level = PublicLevel, route_method = MethodGET,
     full_path = trim_end_slashes (''/v1'' @ ''/ws'')\<rparr>"

text \<open>What the routers register, in the order they are merged; the last four have no access layer.\<close>

definition bid_routes :: "RouteProperties list" where
  "bid_routes = map bid_route_properties [PostBid, GetBidsByTime, GetBidStatus] @
     map deprecated_route_properties [DeprecatedGetBidsByTime, DeprecatedGetBidStatus] @
     map bid_route_properties [PostSubmitQuote, PostCancelBid]"

definition opportunity_routes :: "RouteProperties list" where
  "opportunity_routes = map opportunity_route_properties [PostOpportunity, PostQuote, GetOpportunities, DeleteOpportunities]"

definition plain_route :: "string \<Rightarrow> RouteProperties" where
  "plain_route path = \<lparr>access_level = PublicLevel, route_method = MethodGET, full_path = path\<rparr>"

definition registered_routes :: "RouteProperties list" where
  "registered_routes =
     [plain_route ''/docs''] @ bid_routes @ opportunity_routes @
     map profile_route_properties [PostProfile, GetProfile, PostProfileAccessToken, DeleteProfileAccessToken, PostPrivilege] @
     [ws_route_properties, plain_route ''/'', plain_route ''/live'', plain_route ''/docs/openapi.json'']"


subsection \<open>Requests\<close>

datatype request =
    ReqPostBid BidCreateSvm
  | ReqCancelBid BidCancelSvm
  | ReqBidStatus string uuid
  | ReqBidStatusDeprecated uuid
  | ReqBids string "time option"
  | ReqBidsDeprecated "time option"
  | ReqSubmitQuote string uuid signature
  | ReqPostOpportunity OpportunityCreateV1Svm
  | ReqPostQuote QuoteCreateV1SvmParams
  | ReqOpportunities OpportunityMode "string option" "time option" nat
  | ReqDeleteOpportunities OpportunityDelete
  | ReqPostProfile string string ProfileRole
  | ReqGetProfile string
  | ReqPostToken uuid
  | ReqDeleteToken
  | ReqPostPrivilege CreatePrivilege

fun route_of :: "request \<Rightarrow> RouteProperties" where
  "route_of (ReqPostBid _) = bid_route_properties PostBid"
| "route_of (ReqCancelBid _) = bid_route_properties PostCancelBid"
| "route_of (ReqBidStatus _ _) = bid_route_properties GetBidStatus"
| "route_of (ReqBidStatusDeprecated _) = deprecated_route_properties DeprecatedGetBidStatus"
| "route_of (ReqBids _ _) = bid_route_properties GetBidsByTime"
| "route_of (ReqBidsDeprecated _) = deprecated_route_properties DeprecatedGetBidsByTime"
| "route_of (ReqSubmitQuote _ _ _) = bid_route_properties PostSubmitQuote"
| "route_of (ReqPostOpportunity _) = opportunity_route_properties PostOpportunity"
| "route_of (ReqPostQuote _) = opportunity_route_properties PostQuote"
| "route_of (ReqOpportunities _ _ _ _) = opportunity_route_properties GetOpportunities"
| "route_of (ReqDeleteOpportunities _) = opportunity_route_properties DeleteOpportunities"
| "route_of (ReqPostProfile _ _ _) = profile_route_properties PostProfile"
| "route_of (ReqGetProfile _) = profile_route_properties GetProfile"
| "route_of (ReqPostToken _) = profile_route_properties PostProfileAccessToken"
| "route_of ReqDeleteToken = profile_route_properties DeleteProfileAccessToken"
| "route_of (ReqPostPrivilege _) = profile_route_properties PostPrivilege"

text \<open>
  What a handler finds around it: the chain and its node, clocks, fresh ids and random bytes, whether
  each query of the profile tables gets through, and what other tasks do while a quote is asked for.
\<close>

record surroundings =
  x_env :: env
  x_simulation :: simulation
  x_clock_readings :: clock_readings
  x_node :: node
  x_rand_bytes :: "u8 list"
  x_new_id :: uuid
  x_auction_id :: uuid
  x_clock :: time
  x_now :: time
  x_later :: time
  x_meanwhile :: "web \<Rightarrow> web"
  x_scans :: "string \<Rightarrow> uuid list"
  x_email_ok :: "string \<Rightarrow> bool"
  x_email_parses :: "string \<Rightarrow> bool"
  x_ups :: "nat \<Rightarrow> bool"
  x_generated_token :: string

datatype reply =
    NoContent
  | BidPosted BidResult
  | BidStatusIs ApiBidStatus
  | BidsAre "ApiBid list"
  | QuoteSubmitted tx
  | OpportunityPosted ApiOpportunity
  | OpportunitiesAre "ApiOpportunity list"
  | QuoteIs QuoteV1Svm
  | ProfileIs Profile
  | TokenIs string

definition replying :: "('a \<Rightarrow> reply) \<Rightarrow> ('s, 'a) action \<Rightarrow> ('s, reply) action" where
  "replying f m = seq m (\<lambda>x. yields (Inr (f x)))"

fun handle :: "surroundings \<Rightarrow> Auth \<Rightarrow> request \<Rightarrow> (web, reply) action" where
  "handle x auth (ReqPostBid c) =
     replying BidPosted (process_bid (x_env x) (x_simulation x) (x_clock_readings x) (x_new_id x) (x_now x) auth c)"
| "handle x auth (ReqCancelBid c) = replying (\<lambda>_. NoContent) (api_cancel_bid (x_now x) auth c)"
| "handle x auth (ReqBidStatus ch i) = replying BidStatusIs (get_bid_status ch i)"
| "handle x auth (ReqBidStatusDeprecated i) = replying BidStatusIs (get_bid_status_deprecated i)"
| "handle x auth (ReqBids ch from_time) = replying BidsAre (get_bids_by_time (x_scans x ch) auth ch from_time)"
| "handle x auth (ReqBidsDeprecated from_time) = replying BidsAre (get_bids_by_time_deprecated (x_scans x) auth from_time)"
| "handle x auth (ReqSubmitQuote ch i sig) =
     replying QuoteSubmitted (post_submit_quote (x_env x) (x_clock x) (x_now x) ch i sig)"
| "handle x auth (ReqPostOpportunity c) =
     replying OpportunityPosted (post_opportunity (x_env x) (x_new_id x) (x_now x) auth c)"
| "handle x auth (ReqPostQuote q) =
     replying QuoteIs (post_quote (x_env x) (x_node x) (x_rand_bytes x) (x_new_id x) (x_auction_id x) (x_now x)
       (x_later x) (x_meanwhile x) auth q)"
| "handle x auth (ReqOpportunities mode ch from_time limit) =
     replying OpportunitiesAre (api_get_opportunities (x_env x) (x_now x) mode ch from_time limit)"
| "handle x auth (ReqDeleteOpportunities d) =
     replying (\<lambda>_. NoContent) (delete_opportunities (x_env x) (x_now x) auth d)"
| "handle x auth (ReqPostProfile name email role) =
     replying ProfileIs (post_profile (x_email_ok x) (x_ups x 0) (x_new_id x) name email role)"
| "handle x auth (ReqGetProfile email) = replying ProfileIs (on_store (get_profile (x_email_parses x) (x_ups x 0) email))"
| "handle x auth (ReqPostToken i) =
     replying TokenIs (post_profile_access_token (x_ups x) (x_new_id x) (x_generated_token x) i)"
| "handle x auth ReqDeleteToken =
     replying (\<lambda>_. NoContent) (on_store (delete_profile_access_token (x_ups x 0) (x_now x) auth))"
| "handle x auth (ReqPostPrivilege c) =
     replying (\<lambda>_. NoContent) (post_privilege (x_ups x 0) (x_new_id x) (x_now x) c)"

text \<open>
  A request on its way in: the token is checked on every route, then the access layer of its route;
  the handler's errors become statuses, a panic drops the connection.
\<close>

datatype response = Answered reply | Refused nat | Dropped

definition respond :: "surroundings \<Rightarrow> authorization_header \<Rightarrow> request \<Rightarrow> web \<Rightarrow> web \<times> response" where
  "respond x header r w =
     (case authenticate (front_store w) header of
        Inl (Fails e) \<Rightarrow> (w, Refused (rest_status e))
      | Inl Panics \<Rightarrow> (w, Dropped)
      | Inr auth \<Rightarrow>
          (case route_access (access_level (route_of r)) auth of
             Inl status \<Rightarrow> (w, Refused status)
           | Inr _ \<Rightarrow>
               (case handle x auth r w of
                  (w', Inl (Fails e)) \<Rightarrow> (w', Refused (rest_status e))
                | (w', Inl Panics) \<Rightarrow> (w', Dropped)
                | (w', Inr y) \<Rightarrow> (w', Answered y))))"


subsection \<open>The routes\<close>

text \<open>
  No two of the registered routes have the same method and path (the router would refuse
  to start); only those of profiles, tokens and privileges need the secret key, and listing one's
  bids, cancelling a bid, deleting opportunities and revoking one's token need a user's token.
\<close>

theorem routes_registered_once:
  "distinct (map (\<lambda>p. (route_method p, full_path p)) registered_routes) \<and>
   map (\<lambda>p. (route_method p, full_path p)) (filter (\<lambda>p. access_level p = AdminLevel) registered_routes) =
     [(MethodPOST, ''/v1/profiles''), (MethodGET, ''/v1/profiles''), (MethodPOST, ''/v1/profiles/access_tokens''),
      (MethodPOST, ''/v1/profiles/privileges'')] \<and>
   map (\<lambda>p. (route_method p, full_path p)) (filter (\<lambda>p. access_level p = LoggedInLevel) registered_routes) =
     [(MethodGET, ''/v1/:chain_id/bids''), (MethodGET, ''/v1/bids''), (MethodPOST, ''/v1/:chain_id/bids/:bid_id/cancel''),
      (MethodDELETE, ''/v1/opportunities''), (MethodDELETE, ''/v1/profiles/access_tokens'')]"
  by code_simp


subsection \<open>What requests may change\<close>

text \<open>Two states that hold the same, but for the locks and the service a handler was last given.\<close>

definition kept_service :: "service \<Rightarrow> VersionedMessage repo \<times> VersionedMessage pending \<times> tx list \<times> uuid list" where
  "kept_service v = (sv_repo v, sv_pending v, sv_sent_transactions v, sv_conclusion_tasks v)"

definition same_server :: "web \<Rightarrow> web \<Rightarrow> bool" where
  "same_server w w' \<longleftrightarrow>
     map (map_prod id kept_service) (auction_services w') = map (map_prod id kept_service) (auction_services w) \<and>
     front_store w' = front_store w \<and> opportunities w' = opportunities w \<and> opp_rows w' = opp_rows w \<and>
     events w' = events w \<and> token_mint_cache w' = token_mint_cache w \<and>
     express_relay_metadata w' = express_relay_metadata w"

fun entitled :: "web \<Rightarrow> Auth \<Rightarrow> request \<Rightarrow> bool" where
  "entitled w auth (ReqPostBid _) = True"
| "entitled w auth (ReqSubmitQuote _ _ _) = True"
| "entitled w auth (ReqPostQuote _) = True"
| "entitled w auth (ReqCancelBid c) =
     (\<exists>token p v b a. auth = Authorized token p \<and> map_of (auction_services w) (bcan_chain_id c) = Some v \<and>
        cancellable_by (bcan_bid_id c) (pr_id p) (with_service v w) b a)"
| "entitled w auth (ReqPostOpportunity _) =
     (\<exists>token p. auth = Authorized token p \<and> pr_role p = Protocol \<and> pr_name p = ''limo'')"
| "entitled w auth (ReqDeleteOpportunities _) =
     (\<exists>token p. auth = Authorized token p \<and> pr_role p = Protocol \<and> pr_name p = ''limo'')"
| "entitled w auth (ReqPostProfile _ _ _) = (auth = AdminAuth)"
| "entitled w auth (ReqPostToken _) = (auth = AdminAuth)"
| "entitled w auth (ReqPostPrivilege _) = (auth = AdminAuth)"
| "entitled w auth ReqDeleteToken = (\<exists>token p. auth = Authorized token p)"
| "entitled w auth (ReqBidStatus _ _) = False"
| "entitled w auth (ReqBidStatusDeprecated _) = False"
| "entitled w auth (ReqBids _ _) = False"
| "entitled w auth (ReqBidsDeprecated _) = False"
| "entitled w auth (ReqOpportunities _ _ _ _) = False"
| "entitled w auth (ReqGetProfile _) = False"

lemma same_server_refl [simp]: "same_server w w"
  by (simp add: same_server_def)

lemma map_update_same:
  "map_of xs k = Some v \<Longrightarrow> g (k, v') = g (k, v) \<Longrightarrow> map g (AList.update k v' xs) = map g xs"
  by (induction xs) (auto split: if_splits)

lemma run_service_locks_only:
  assumes "map_of (auction_services w) ch = Some v" and "f (with_service v w) = ((with_service v w)\<lparr>bid_locks := l\<rparr>, r)"
  shows "same_server w (fst (run_service ch v f w))"
  using assms by (simp add: run_service_def same_server_def with_service_def service_of_def map_update_same kept_service_def)

lemma on_chain_cases:
  assumes "on_chain ch f w = (w', r)"
  obtains (no_service) "map_of (auction_services w) ch = None" "w' = w" "r = Inl (Fails InvalidChainId)"
  | (service) v where "map_of (auction_services w) ch = Some v" "run_service ch v f w = (w', r)"
  using assms by (auto simp: on_chain_def get_auction_service_def seq_def split: option.splits)

lemma on_chain_reads:
  assumes "on_chain ch (\<lambda>w. (w, q w)) w = (w', r)"
  shows "same_server w w'"
proof (cases rule: on_chain_cases [OF assms])
  case 1
  then show ?thesis by simp
next
  case (2 v)
  from run_service_locks_only [OF 2(1), of "\<lambda>w. (w, q w)" "bid_locks (with_service v w)"] 2(2) show ?thesis by simp
qed

lemma cancel_on_chain:
  assumes "on_chain ch (cancel_bid now i profile) w = (w', r)"
  shows "same_server w w' \<or> (\<exists>v b a. map_of (auction_services w) ch = Some v \<and> cancellable_by i profile (with_service v w) b a)"
proof (cases rule: on_chain_cases [OF assms])
  case 1
  then show ?thesis by simp
next
  case (2 v)
  obtain s res where run: "cancel_bid now i profile (with_service v w) = (s, res)" by fastforce
  from locked_bid [OF run [unfolded cancel_bid_def]] obtain l l' s2 where
    work: "cancel_bid_for_lock now i profile ((with_service v w)\<lparr>bid_locks := l\<rparr>) = (s2, res)" and s: "s = s2\<lparr>bid_locks := l'\<rparr>"
    by blast
  from cancel_bid_for_lock_cases [OF work] consider
    b a where "cancellable_by i profile ((with_service v w)\<lparr>bid_locks := l\<rparr>) b a" | "s2 = (with_service v w)\<lparr>bid_locks := l\<rparr>"
    by blast
  then show ?thesis
  proof cases
    case 1
    then have "cancellable_by i profile (with_service v w) b a" by (simp add: cancellable_by_def)
    with 2(1) show ?thesis by blast
  next
    case same: 2
    with run s have "cancel_bid now i profile (with_service v w) = ((with_service v w)\<lparr>bid_locks := l'\<rparr>, res)" by simp
    from run_service_locks_only [where f = "cancel_bid now i profile", OF 2(1) this] 2(2) show ?thesis by simp
  qed
qed


lemma replying_state: "fst (replying f m w) = fst (m w)"
  by (simp add: replying_def seq_def yields_def split: prod.splits sum.splits)

lemma get_program_Inr:
  "get_program auth = Inr q \<Longrightarrow> \<exists>token p. auth = Authorized token p \<and> pr_role p = Protocol \<and> pr_name p = ''limo''"
  by (cases auth) (auto simp: get_program_def split: if_splits intro: ProfileRole.exhaust)

lemma refused_program:
  "\<not> (\<exists>token p. auth = Authorized token p \<and> pr_role p = Protocol \<and> pr_name p = ''limo'') \<Longrightarrow>
     fst (seq (yields (get_program auth)) f w) = w"
  by (cases "get_program auth") (auto simp: seq_def yields_def dest: get_program_Inr)

lemma get_opportunities_reads: "fst (get_opportunities env now mode ch from_time w) = w"
  by (auto simp: get_opportunities_def db_get_opportunities_def seq_def yields_def fails_def
      split: option.splits sum.splits OpportunityMode.splits)

lemma handle_changes:
  assumes "route_access (access_level (route_of r)) auth = Inr ()"
  shows "same_server w (fst (handle x auth r w)) \<or> entitled w auth r"
proof (cases r)
  case (ReqCancelBid c)
  then show ?thesis
    using cancel_on_chain [of "bcan_chain_id c" "x_now x" "bcan_bid_id c" _ w]
    by (cases auth) (auto simp: replying_state api_cancel_bid_def fails_def prod_eq_iff)
next
  case (ReqBidStatus ch i)
  then show ?thesis
    using on_chain_reads [of ch "svm_get_bid_status i" w] by (auto simp: replying_state get_bid_status_def prod_eq_iff)
next
  case (ReqBidStatusDeprecated i)
  then show ?thesis by (simp add: replying_state get_bid_status_deprecated_def)
next
  case (ReqBids ch from_time)
  then show ?thesis
    by (cases auth) (auto simp: replying_state get_bids_by_time_def fails_def prod_eq_iff intro: on_chain_reads)
next
  case (ReqBidsDeprecated from_time)
  then show ?thesis by (cases auth) (simp_all add: replying_state get_bids_by_time_deprecated_def)
next
  case (ReqPostOpportunity c)
  then show ?thesis by (auto simp: replying_state post_opportunity_def refused_program simp del: ex_simps)
next
  case (ReqDeleteOpportunities d)
  then show ?thesis by (auto simp: replying_state delete_opportunities_def refused_program simp del: ex_simps)
next
  case (ReqOpportunities mode ch from_time limit)
  have "fst (api_get_opportunities (x_env x) (x_now x) mode ch from_time limit w) = w"
    using get_opportunities_reads [of "x_env x" "x_now x" mode ch from_time w]
    by (auto simp: api_get_opportunities_def seq_def yields_def split: prod.splits sum.splits)
  with ReqOpportunities show ?thesis by (simp add: replying_state)
next
  case (ReqGetProfile email)
  then show ?thesis
    by (auto simp: replying_state on_store_def get_profile_def get_profile_by_email_def seq_def yields_def fails_def
        split: prod.splits sum.splits)
qed (use assms in \<open>auto simp: profile_route_properties_def route_access_def admin_middleware_def
   require_login_middleware_def split: Auth.splits\<close>)




subsection \<open>Posted bids can be asked for\<close>

lemma entity_without_opportunity:
  "get_bid_entity r a oid = Inr b \<Longrightarrow> get_bid_entity r a None = Inr (b\<lparr>b_opportunity_id := None\<rparr>)"
  by (auto simp: get_bid_entity_def rbind_Inr_iff)

lemma added_bid_reads_back:
  assumes "repo_add_bid i now t p oid c amount r = (r', Inr b)"
  shows "b_id b = i \<and> repo_get_bid r' i = Inr (b\<lparr>b_opportunity_id := None\<rparr>) \<and> b_status b = Pending"
proof -
  let ?row = "BidRow_new i now (chain_id r) t p amount c"
  from assms obtain d where e: "get_bid_entity ?row None oid = Inr b" and d: "db_add_bid (repo_db r) ?row = Inr d"
    and r': "repo_db r' = d" "chain_id r' = chain_id r"
    by (auto simp: repo_add_bid_def Let_def split: sum.splits)
  from d have "db_get_bid d i (chain_id r) = Inr ?row"
    by (auto simp: db_add_bid_def db_get_bid_def BidRow_new_def split: if_splits)
  moreover have "r_auction_id ?row = None" by (simp add: BidRow_new_def)
  ultimately show ?thesis
    using get_bid_entity_new [OF e] entity_without_opportunity [OF e] r' by (simp add: repo_get_bid_def)
qed

lemma update_found: "map_of xs k = Some v \<Longrightarrow> AList.update k v xs = xs"
  by (induction xs) (auto split: if_splits)

lemma run_service_again:
  assumes "run_service ch v f w = (w', r)"
  shows "on_chain ch (\<lambda>s. (s, q s)) w' = (w', q w')"
proof -
  from assms have map: "map_of (auction_services w') ch = Some (service_of w')"
    by (auto simp: run_service_def service_of_def update_conv' split: prod.splits)
  moreover have "with_service (service_of w') w' = w'" by (simp add: with_service_def service_of_def)
  ultimately show ?thesis
    by (simp add: on_chain_def get_auction_service_def seq_def run_service_def update_found)
qed

lemma posted_bid_reads_back:
  assumes "process_bid env sim clk i now auth c w = (w', Inr res)"
  shows "get_bid_status (get_chain_id c) (br_id res) w' = (w', Inr ApiPending)"
proof -
  let ?work = "api_handle_bid env (get_chain_id c) sim clk i now c (profile_of auth)"
  from assms [unfolded process_bid_def] obtain v where
    run: "run_service (get_chain_id c) v ?work w = (w', Inr res)" by (cases rule: on_chain_cases) auto
  then obtain s where work: "?work (with_service v w) = (s, Inr res)" and w': "auction_repo w' = auction_repo s"
    by (auto simp: run_service_def split: prod.splits)
  from work obtain b r0 chain_data amount where
    "repo_add_bid i now (bc_initiation_time (get_bid_create_entity now c (profile_of auth)))
       (bc_profile (get_bid_create_entity now c (profile_of auth)))
       (get_opportunity_id (bc_chain_data (get_bid_create_entity now c (profile_of auth)))) chain_data amount
       r0 = (auction_repo s, Inr b)" and res: "br_id res = b_id b"
    by (auto simp: api_handle_bid_def handle_bid_def seq_def yields_def split: prod.splits sum.splits)
  from added_bid_reads_back [OF this(1)] have "svm_get_bid_status (br_id res) w' = Inr ApiPending"
    unfolding res by (simp add: svm_get_bid_status_def get_bid_def lift_rest_def w' api_bid_def)
  with run_service_again [OF run, of "svm_get_bid_status (br_id res)"] show ?thesis
    by (simp add: get_bid_status_def)
qed

text \<open>
  Property C12. A client that was told that its bid is placed can ask for its status at once, on the
  same chain, with any or no token that is let through: the bid is there, and it is pending.
\<close>

theorem placed_bid_is_pending:
  assumes "respond x header (ReqPostBid c) w = (w', Answered (BidPosted res))"
    and "authenticate (front_store w') header' = Inr auth"
  shows "br_status res = ''OK'' \<and>
    respond x' header' (ReqBidStatus (get_chain_id c) (br_id res)) w' = (w', Answered (BidStatusIs ApiPending))"
proof -
  from assms(1) obtain a where
    posted: "process_bid (x_env x) (x_simulation x) (x_clock_readings x) (x_new_id x) (x_now x) a c w = (w', Inr res)"
    by (auto simp: respond_def replying_def seq_def yields_def split: sum.splits stop.splits prod.splits)
  moreover from posted have "br_status res = ''OK''"
    by (auto simp: process_bid_def on_chain_def run_service_def api_handle_bid_def seq_def yields_def
        split: prod.splits sum.splits)
  moreover have "route_access (access_level (bid_route_properties GetBidStatus)) auth = Inr ()"
    by (simp add: bid_route_properties_def Let_def route_access_def)
  ultimately show ?thesis
    using posted_bid_reads_back [OF posted] assms(2) by (simp add: respond_def replying_def seq_def yields_def)
qed



subsection \<open>Listing one's bids\<close>

definition own_rows :: "'m db \<Rightarrow> string \<Rightarrow> uuid \<Rightarrow> time option \<Rightarrow> 'm BidRow set" where
  "own_rows d ch profile_id from_time =
     {r. (\<exists>i. db_bids d i = Some r) \<and> r_profile_id r = Some profile_id \<and> r_chain_id r = ch \<and>
         (case from_time of Some t \<Rightarrow> t \<le> r_initiation_time r | None \<Rightarrow> True)}"

lemma in_map_filter: "y \<in> set (List.map_filter f xs) \<longleftrightarrow> (\<exists>x\<in>set xs. f x = Some y)"
  by (induction xs) (auto split: option.splits)

lemma keys_of_map_filter:
  "(\<And>k y. f k = Some y \<Longrightarrow> key y = k) \<Longrightarrow> map key (List.map_filter f ks) = filter (\<lambda>k. f k \<noteq> None) ks"
  by (induction ks) (auto split: option.splits)

lemma find_keyed:
  assumes "\<And>k y. f k = Some y \<Longrightarrow> key y = k" and "k \<in> set ks" and "f k = Some y"
  shows "find (\<lambda>y. key y = k) (List.map_filter f ks) = Some y"
  using assms(2)
proof (induction ks)
  case (Cons a ks)
  show ?case
  proof (cases "f a")
    case None
    with assms(3) Cons have "k \<in> set ks" by auto
    with None Cons.IH show ?thesis by simp
  next
    case (Some z)
    from assms(1) [OF Some] Some assms(3) Cons show ?thesis by auto
  qed
qed simp

lemma distinct_map_filter_key: "distinct (map key xs) \<Longrightarrow> distinct (map key (filter P xs))"
  by (simp add: distinct_map inj_on_def)

lemma distinct_page: "distinct (map k xs) \<Longrightarrow> distinct (map k (take n (sort_key f xs)))"
  using distinct_take [of "map k (sort_key f xs)" n] by (simp add: distinct_map take_map)

text \<open>The first \<open>n\<close> of a list by a key: sorted, and what is left out is not smaller.\<close>

lemma first_by_key:
  defines "page n key xs \<equiv> take n (sort_key key xs)"
  shows "length (page n key xs) \<le> n" and "sorted (map key (page n key xs))" and "set (page n key xs) \<subseteq> set xs"
    and "x \<in> set xs - set (page n key xs) \<Longrightarrow> length (page n key xs) = n \<and> (\<forall>y\<in>set (page n key xs). key y \<le> key x)"
proof -
  show "length (page n key xs) \<le> n" by (simp add: page_def)
  have split: "sorted (map key (take n (sort_key key xs)) @ map key (drop n (sort_key key xs)))"
    by (simp flip: map_append)
  then show "sorted (map key (page n key xs))" unfolding page_def sorted_append by blast
  show "set (page n key xs) \<subseteq> set xs" unfolding page_def using set_take_subset [of n "sort_key key xs"] by simp
  assume out: "x \<in> set xs - set (page n key xs)"
  have "set (take n (sort_key key xs) @ drop n (sort_key key xs)) = set xs" by simp
  with out have "x \<in> set (take n (sort_key key xs)) \<union> set (drop n (sort_key key xs))"
    unfolding set_append by blast
  with out have x: "x \<in> set (drop n (sort_key key xs))" unfolding page_def by blast
  then have "n < length (sort_key key xs)" using drop_all [of "sort_key key xs" n] by (metis empty_iff empty_set not_less)
  then show "length (page n key xs) = n \<and> (\<forall>y\<in>set (page n key xs). key y \<le> key x)"
    using split x by (auto simp: page_def sorted_append)
qed

text \<open>
  Property C30. The page of bids a user is given: at most twenty, all the user's own and of the asked
  chain and time, by initiation time and each once; a bid of the user is left out only when the page is
  full of bids that are not later (or when its row cannot be read back); and a listed bid is what
  asking for it alone would return, as long as its auction is in the table.
\<close>

theorem listed_bids_are_the_users_first:
  assumes "db_step\<^sup>*\<^sup>* db_empty (repo_db r)" and "distinct scan" and "set scan = dom (db_bids (repo_db r))"
    and "repo_get_bids scan r profile_id from_time = Inr bids"
  shows "\<exists>page rs. bids = List.map_filter (entity_with rs) page \<and>
    length page \<le> 20 \<and> sorted (map r_initiation_time page) \<and> distinct (map r_id page) \<and>
    set page \<subseteq> own_rows (repo_db r) (chain_id r) profile_id from_time \<and>
    (\<forall>x\<in>own_rows (repo_db r) (chain_id r) profile_id from_time - set page.
       length page = 20 \<and> (\<forall>y\<in>set page. r_initiation_time y \<le> r_initiation_time x)) \<and>
    (\<forall>y\<in>set page. (\<forall>a. r_auction_id y = Some a \<longrightarrow> db_auctions (repo_db r) a \<noteq> None) \<longrightarrow>
       (\<forall>b. entity_with rs y = Some b \<longleftrightarrow> repo_get_bid r (r_id y) = Inr b))"
proof -
  let ?d = "repo_db r" and ?own = "own_rows (repo_db r) (chain_id r) profile_id from_time"
  from db_reachable_ok [OF assms(1)] have ids: "\<And>i y. db_bids ?d i = Some y \<Longrightarrow> r_id y = i"
    and auction_ids: "\<And>i a. db_auctions ?d i = Some a \<Longrightarrow> ar_id a = i"
    by (auto simp: db_ok_def bid_row_ok_def auction_row_ok_def)
  define mine where "mine = filter (\<lambda>r'. r_profile_id r' = Some profile_id \<and> r_chain_id r' = chain_id r \<and>
      (case from_time of Some t \<Rightarrow> t \<le> r_initiation_time r' | None \<Rightarrow> True)) (List.map_filter (db_bids ?d) scan)"
  define page where "page = take 20 (sort_key r_initiation_time mine)"
  define rs where "rs = List.map_filter (db_auctions ?d) (remdups (List.map_filter r_auction_id page))"
  from assms(4) have up: "db_up ?d" and bids: "bids = List.map_filter (entity_with rs) page"
    unfolding rs_def page_def mine_def
    by (auto simp: repo_get_bids_def rbind_Inr_iff db_get_bids_def db_get_auctions_by_bids_def split: if_splits)
  have mine: "set mine = ?own"
    using assms(3) by (auto simp: mine_def own_rows_def in_map_filter dom_def)
  note first = first_by_key [where n = 20 and key = r_initiation_time and xs = mine, folded page_def]
  have "distinct (map r_id mine)"
    unfolding mine_def by (intro distinct_map_filter_key) (simp add: keys_of_map_filter [of "db_bids ?d" r_id] ids assms(2))
  then have "distinct (map r_id page)" unfolding page_def by (rule distinct_page)
  moreover have "entity_with rs y = Some b \<longleftrightarrow> repo_get_bid r (r_id y) = Inr b"
    if "y \<in> set page" "\<forall>a. r_auction_id y = Some a \<longrightarrow> db_auctions ?d a \<noteq> None" for y b
  proof -
    from that(1) first(3) mine have "y \<in> ?own" by blast
    then have row: "db_get_bid ?d (r_id y) (chain_id r) = Inr y"
      using ids up by (auto simp: own_rows_def db_get_bid_def)
    have "find (\<lambda>a. ar_id a = i) rs = Some a" if "r_auction_id y = Some i" "db_auctions ?d i = Some a" for i a
      unfolding rs_def using that \<open>y \<in> set page\<close>
      by (intro find_keyed [of "db_auctions ?d" ar_id] auction_ids) (auto simp: in_map_filter)
    with that(2) row up show ?thesis
      by (cases "r_auction_id y") (auto simp: entity_with_def repo_get_bid_def db_get_auction_def split: sum.splits)
  qed
  ultimately show ?thesis using bids first mine by blast
qed



subsection \<open>A concrete server\<close>

definition sample_service :: service where
  "sample_service = \<lparr>sv_repo = Repository_new db_empty ''solana'', sv_pending = [], sv_auction_locks = no_locks,
     sv_bid_locks = no_locks, sv_sent_transactions = [], sv_conclusion_tasks = []\<rparr>"

definition sample_web :: web where
  "sample_web = \<lparr>auction_repo = Repository_new db_empty ''solana'', express_relay_metadata = None, token_mint_cache = [],
     opportunities = opportunities sample_quoted, opp_db_up = True, opp_rows = [], events = [], srv_pending = [],
     auction_locks = no_locks, bid_locks = no_locks, sent_transactions = [], conclusion_tasks = [],
     front_store = sample_store, auction_services = [(''solana'', sample_service)]\<rparr>"

definition sample_posted :: BidCreateSvm where
  "sample_posted = CreateSwap \<lparr>csw_chain_id = ''solana'', csw_transaction = sample_plain_tx, csw_opportunity_id = 1\<rparr>"

lemma sample_process:
  "\<exists>w'. process_bid sample_env sample_simulation sample_clock 7 now NoAuth sample_posted sample_web =
     (w', Inr \<lparr>br_status = ''OK'', br_id = 7\<rparr>) \<and> front_store w' = sample_store \<and> events w' = []"
proof -
  let ?w = "with_service sample_service sample_web" and ?c = "get_bid_create_entity now sample_posted None"
  have w: "auction_repo ?w = Repository_new db_empty ''solana''" "front_store ?w = sample_store" "events ?w = []"
    by (simp_all add: with_service_def sample_service_def sample_web_def)
  have quoted: "quoted ?w" by (simp add: quoted_def w) (simp add: with_service_def sample_web_def Repository_new_def)
  have c: "bc_chain_data ?c = bc_chain_data sample_bid_create" "bc_chain_id ?c = ''solana''"
    by (simp_all add: sample_posted_def sample_bid_is_swap)
  have sig: "signatures (cd_transaction sample_bid_chain_data) = 11 # [0, 0]"
    by (simp add: sample_bid_chain_data_def sample_plain_tx_def)
  have up: "db_up (repo_db (auction_repo ?w))" "db_bids (repo_db (auction_repo ?w)) 7 = None"
    by (simp_all add: w Repository_new_def db_empty_def)
  have id: "b_id (fresh_bid 7 n ch t p oid sample_bid_chain_data a) = 7" for n ch t p oid a
    by (simp add: fresh_bid_def)
  note verified = sample_bid_verified [OF quoted c]
  obtain w' where "api_handle_bid sample_env ''solana'' sample_simulation sample_clock 7 now sample_posted None ?w =
      (w', Inr \<lparr>br_status = ''OK'', br_id = 7\<rparr>)" "front_store w' = sample_store" "events w' = []"
    by (simp add: api_handle_bid_def handle_bid_def verified repo_add_bid_fresh [OF up sig] seq_def yields_def id w(2,3))
  moreover have "get_chain_id sample_posted = ''solana''" "map_of (auction_services sample_web) ''solana'' = Some sample_service"
    by (simp_all add: sample_posted_def sample_web_def)
  ultimately show ?thesis
    by (simp add: process_bid_def on_chain_def get_auction_service_def run_service_def seq_def profile_of_def)
qed

lemma sample_post:
  "\<exists>w'. respond (x\<lparr>x_env := sample_env, x_simulation := sample_simulation, x_clock_readings := sample_clock, x_new_id := 7\<rparr>)
     MissingHeader (ReqPostBid sample_posted) sample_web = (w', Answered (BidPosted \<lparr>br_status = ''OK'', br_id = 7\<rparr>)) \<and>
   front_store w' = sample_store"
proof -
  have "authenticate (front_store sample_web) MissingHeader = Inr NoAuth" by (simp add: authenticate_def)
  then show ?thesis
    using sample_process [of "x_now x"]
    by (auto simp: respond_def replying_def seq_def yields_def bid_route_properties_def route_access_def)
qed

theorem placed_bid_is_pending_witness:
  "\<forall>x x'. \<exists>w w'. respond (x\<lparr>x_env := sample_env, x_simulation := sample_simulation, x_clock_readings := sample_clock,
       x_new_id := 7\<rparr>) MissingHeader (ReqPostBid sample_posted) w = (w', Answered (BidPosted \<lparr>br_status = ''OK'', br_id = 7\<rparr>)) \<and>
     respond x' MissingHeader (ReqBidStatus ''solana'' 7) w' = (w', Answered (BidStatusIs ApiPending))"
proof (intro allI)
  fix x x' :: surroundings
  from sample_post [of x] obtain w' where
    post: "respond (x\<lparr>x_env := sample_env, x_simulation := sample_simulation, x_clock_readings := sample_clock, x_new_id := 7\<rparr>)
      MissingHeader (ReqPostBid sample_posted) sample_web = (w', Answered (BidPosted \<lparr>br_status = ''OK'', br_id = 7\<rparr>))" by blast
  have "authenticate (front_store w') MissingHeader = Inr NoAuth" by (simp add: authenticate_def)
  from placed_bid_is_pending [OF post this] post show "\<exists>w w'. respond (x\<lparr>x_env := sample_env, x_simulation := sample_simulation,
      x_clock_readings := sample_clock, x_new_id := 7\<rparr>) MissingHeader (ReqPostBid sample_posted) w =
        (w', Answered (BidPosted \<lparr>br_status = ''OK'', br_id = 7\<rparr>)) \<and>
     respond x' MissingHeader (ReqBidStatus ''solana'' 7) w' = (w', Answered (BidStatusIs ApiPending))"
    by (auto simp: sample_posted_def)
qed


definition sample_own_row :: "unit BidRow" where
  "sample_own_row = BidRow_new 1 10 ''solana'' 9 (Some 5) 500 sample_chain_data"

lemma sample_own_entity: "get_bid_entity sample_own_row None None = Inr (sample_entity\<lparr>b_profile_id := Some 5\<rparr>)"
  by (simp add: get_bid_entity_def sample_own_row_def get_bid_status_entity_def get_bid_amount_entity_def)
    (simp add: BidRow_new_def sample_entity_def sample_chain_data_def)

theorem listed_bids_are_the_users_first_witness:
  "\<exists>bids. repo_get_bids [1] (Repository_new (db_empty\<lparr>db_bids := [1 \<mapsto> sample_own_row]\<rparr>) ''solana'') 5 (Some 3) = Inr bids \<and>
     length bids \<le> 20 \<and> (\<exists>b. bids = [b] \<and> b_profile_id b = Some 5)"
proof -
  let ?d = "db_empty\<lparr>db_bids := [1 \<mapsto> sample_own_row]\<rparr>"
  let ?r = "Repository_new ?d ''solana''"
  have row: "r_id sample_own_row = 1" "r_profile_id sample_own_row = Some 5" "r_chain_id sample_own_row = ''solana''"
    "r_initiation_time sample_own_row = 9" "r_auction_id sample_own_row = None"
    by (simp_all add: sample_own_row_def BidRow_new_def)
  have "db_add_bid db_empty sample_own_row = Inr ?d"
    by (simp add: db_add_bid_def row(1)) (simp add: db_empty_def)
  then have reach: "db_step\<^sup>*\<^sup>* db_empty (repo_db ?r)"
    using db_step.add_bid [of db_empty 1 10 "''solana''" 9 "Some 5" 500 sample_chain_data]
    by (simp add: sample_own_row_def Repository_new_def r_into_rtranclp)
  have repo: "repo_db ?r = ?d" "chain_id ?r = ''solana''" "db_up ?d" "db_bids ?d = [1 \<mapsto> sample_own_row]"
    by (simp_all add: Repository_new_def db_empty_def)
  have run: "repo_get_bids [1] ?r 5 (Some 3) = Inr [sample_entity\<lparr>b_profile_id := Some 5\<rparr>]"
    by (simp add: repo_get_bids_def db_get_bids_def db_get_auctions_by_bids_def repo row entity_with_def sample_own_entity
        del: fun_upd_apply) (simp add: repo row entity_with_def sample_own_entity)
  have scan: "set [1] = dom (db_bids (repo_db ?r))" "distinct [1 :: uuid]" by (simp_all add: repo)
  from listed_bids_are_the_users_first [OF reach scan(2,1) run] have "length [sample_entity\<lparr>b_profile_id := Some 5\<rparr>] \<le> 20"
    by (metis (no_types) length_filter_le length_map List.map_filter_def le_trans)
  with run show ?thesis by auto
qed

end
