(* ===== verification/As_Websocket.thy ===== *)
theory As_Websocket
  imports As_Api "HOL-Library.Sublist"
begin

section \<open>Auction server: the websocket\<close>

text \<open>
  \<open>api/ws.rs\<close> with the messages of \<open>api-types/src/ws.rs\<close>: counting the connections of an address, the
  actor that serves one connection, the tasks it spawns for bids, and all connections together with
  the server they talk to. The JSON encoding is left out: a text frame is what \<open>serde\<close> makes of it,
  and an error answer keeps what its text is rendered from.

  A tokio broadcast channel is the list of all messages sent so far, a receiver its position in that
  list. When a receiver is more than the capacity behind, its next \<open>recv\<close> fails and moves it to the
  oldest message kept; capacities are parameters, since tokio rounds them up.
\<close>

subsection \<open>Connections per address\<close>

datatype IpAddr = IpV4 "32 word" | IpV6 "128 word"

record ws_state =
  subscriber_counter :: nat
  subscriber_per_ip :: "IpAddr \<Rightarrow> nat list option"

definition MAXIMUM_SUBSCRIBERS_PER_IP :: nat where
  "MAXIMUM_SUBSCRIBERS_PER_IP = 10"

definition WsState_new :: ws_state where
  "WsState_new = \<lparr>subscriber_counter = 0, subscriber_per_ip = Map.empty\<rparr>"

definition ids_of :: "ws_state \<Rightarrow> IpAddr \<Rightarrow> nat list" where
  "ids_of ws ip = (case subscriber_per_ip ws ip of Some ids \<Rightarrow> ids | None \<Rightarrow> [])"

definition get_new_subscriber_id :: "IpAddr option \<Rightarrow> ws_state \<Rightarrow> ws_state \<times> nat option" where
  "get_new_subscriber_id ip ws =
     (let i = subscriber_counter ws; ws1 = ws\<lparr>subscriber_counter := i + 1\<rparr>
      in case ip of
           Some a \<Rightarrow>
             (let ids = ids_of ws a
              in if MAXIMUM_SUBSCRIBERS_PER_IP \<le> length ids
                 then (ws1\<lparr>subscriber_per_ip := (subscriber_per_ip ws)(a \<mapsto> ids)\<rparr>, None)
                 else (ws1\<lparr>subscriber_per_ip := (subscriber_per_ip ws)(a \<mapsto> List.insert i ids)\<rparr>, Some i))
         | None \<Rightarrow> (ws1, Some i))"

definition remove_subscriber :: "nat \<Rightarrow> IpAddr option \<Rightarrow> ws_state \<Rightarrow> ws_state" where
  "remove_subscriber i ip ws =
     (case ip of
        Some a \<Rightarrow>
          (case subscriber_per_ip ws a of
             Some ids \<Rightarrow>
               let left = removeAll i ids
               in ws\<lparr>subscriber_per_ip := (subscriber_per_ip ws)(a := if left = [] then None else Some left)\<rparr>
           | None \<Rightarrow> ws)
      | None \<Rightarrow> ws)"

fun split_on :: "char \<Rightarrow> string \<Rightarrow> string list" where
  "split_on c [] = [[]]"
| "split_on c (x # xs) =
     (if x = c then [] # split_on c xs
      else case split_on c xs of part # parts \<Rightarrow> (x # part) # parts | [] \<Rightarrow> [[x]])"

text \<open>The header's value when there is one and it is text; \<open>parse_ip\<close> is the parser of addresses.\<close>

definition requester_ip :: "(string \<Rightarrow> IpAddr option) \<Rightarrow> string option \<Rightarrow> IpAddr option" where
  "requester_ip parse_ip header =
     (case header of
        Some value \<Rightarrow> (case split_on (CHR '','') value of ip # _ \<Rightarrow> parse_ip ip | [] \<Rightarrow> None)
      | None \<Rightarrow> None)"

definition obfuscate_ip :: "string \<Rightarrow> string" where
  "obfuscate_ip ip = take 8 ip @ replicate (length (drop 8 ip)) (CHR ''*'')"


subsection \<open>Messages\<close>

datatype ClientMessage =
    Subscribe "string list"
  | Unsubscribe "string list"
  | PostBidMessage BidCreateSvm
  | CancelBidMessage BidCancelSvm

record ClientRequest =
  cr_id :: string
  cr_msg :: ClientMessage

datatype frame = CloseFrame | TextFrame "string + ClientRequest" | BinaryFrame "string + ClientRequest" | PingFrame | PongFrame

datatype error_text = RestErrorText RestError | ChainsNotFound "string list" | InvalidRequest string

datatype ServerResultMessage = Success "BidResult option" | ErrResult error_text

record ServerResultResponse =
  sr_id :: "string option"
  sr_result :: ServerResultMessage

record SvmChainUpdateMessage =
  scu_chain_id :: string
  scu_blockhash :: "256 word"
  scu_latest_prioritization_fee :: u64

datatype ServerUpdateResponse =
    UpdNewOpportunity ApiOpportunity
  | UpdBidStatus BidStatusWithId
  | UpdSvmChain SvmChainUpdateMessage
  | UpdRemoveOpportunities OpportunityDelete

datatype sent = SentUpdate ServerUpdateResponse | SentResponse ServerResultResponse | SentPing | SentClose

text \<open>What a service announces, as it goes on the channel; nothing when the conversion panics.\<close>

definition announced_update :: "UpdateEvent \<Rightarrow> ServerUpdateResponse option" where
  "announced_update e =
     (case e of
        NewOpportunity x \<Rightarrow> (case api_opportunity x of Inr y \<Rightarrow> Some (UpdNewOpportunity y) | Inl _ \<Rightarrow> None)
      | RemoveOpportunitiesEvent d \<Rightarrow> Some (UpdRemoveOpportunities d)
      | BidStatusUpdate i st \<Rightarrow> Some (UpdBidStatus \<lparr>bs_id = i, bs_bid_status = api_status st\<rparr>)
      | SvmChainUpdate ch h lamports_fee \<Rightarrow>
          Some (UpdSvmChain \<lparr>scu_chain_id = ch, scu_blockhash = h, scu_latest_prioritization_fee = lamports_fee\<rparr>))"

record DeferredResponse =
  dr_response :: ServerResultResponse
  dr_bid_id_to_add :: "uuid option"

datatype ws_task = PostBidTask string BidCreateSvm | CancelBidTask string BidCancelSvm

fun task_id :: "ws_task \<Rightarrow> string" where
  "task_id (PostBidTask i _) = i"
| "task_id (CancelBidTask i _) = i"


subsection \<open>The actor of one connection\<close>

text \<open>
  \<open>sub_seen\<close> and \<open>sub_answered\<close> are the positions of the two receivers, \<open>sub_responses\<close> the channel of
  deferred responses, \<open>sub_active_requests\<close> the tasks that hold a permit. \<open>sub_sent\<close> and \<open>sub_received\<close>
  record what went over the socket: the frames sent, and the id of every request received.
\<close>

record subscriber =
  sub_id :: nat
  sub_closed :: bool
  sub_seen :: nat
  sub_chain_ids :: "string list"
  sub_bid_ids :: "uuid list"
  sub_responded_to_ping :: bool
  sub_auth :: Auth
  sub_active_requests :: "ws_task list"
  sub_responses :: "DeferredResponse list"
  sub_answered :: nat
  sub_socket_up :: bool
  sub_sent :: "sent list"
  sub_received :: "string option list"

definition Subscriber_new :: "nat \<Rightarrow> Auth \<Rightarrow> nat \<Rightarrow> subscriber" where
  "Subscriber_new i auth pos =
     \<lparr>sub_id = i, sub_closed = False, sub_seen = pos, sub_chain_ids = [], sub_bid_ids = [],
      sub_responded_to_ping = True, sub_auth = auth, sub_active_requests = [], sub_responses = [], sub_answered = 0,
      sub_socket_up = True, sub_sent = [], sub_received = []\<rparr>"

definition MAX_ACTIVE_REQUESTS :: nat where
  "MAX_ACTIVE_REQUESTS = 150"

text \<open>What the actor sees of the server; a step either goes on or ends the loop with an error.\<close>

record ws_world =
  ww_updates :: "ServerUpdateResponse list"
  ww_update_capacity :: nat
  ww_response_capacity :: nat
  ww_store :: store
  ww_chains :: "string list"
  ww_should_exit :: bool

type_synonym actor_result = "subscriber \<times> (unit + unit)"

datatype 'a received = NothingYet | Lagged | Received 'a

definition recv :: "nat \<Rightarrow> 'a list \<Rightarrow> nat \<Rightarrow> 'a received" where
  "recv capacity xs pos =
     (if capacity < length xs - pos then Lagged
      else if pos < length xs then Received (xs ! pos)
      else NothingYet)"

definition send_frame :: "sent \<Rightarrow> subscriber \<Rightarrow> actor_result" where
  "send_frame m s = (if sub_socket_up s then (s\<lparr>sub_sent := sub_sent s @ [m]\<rparr>, Inr ()) else (s, Inl ()))"

definition close_socket :: "subscriber \<Rightarrow> actor_result" where
  "close_socket s =
     (if sub_socket_up s then (s\<lparr>sub_sent := sub_sent s @ [SentClose], sub_socket_up := False, sub_closed := True\<rparr>, Inr ())
      else (s, Inl ()))"

fun relevant :: "ServerUpdateResponse \<Rightarrow> subscriber \<Rightarrow> bool" where
  "relevant (UpdNewOpportunity x) s = (ao_chain_id x \<in> set (sub_chain_ids s))"
| "relevant (UpdBidStatus st) s = (bs_id st \<in> set (sub_bid_ids s))"
| "relevant (UpdSvmChain u) s = (scu_chain_id u \<in> set (sub_chain_ids s))"
| "relevant (UpdRemoveOpportunities d) s = (od_chain_id d \<in> set (sub_chain_ids s))"

definition handle_update :: "ServerUpdateResponse \<Rightarrow> subscriber \<Rightarrow> actor_result" where
  "handle_update u s = (if relevant u s then send_frame (SentUpdate u) s else (s, Inr ()))"

definition send_response :: "DeferredResponse \<Rightarrow> subscriber \<Rightarrow> subscriber" where
  "send_response d s = s\<lparr>sub_responses := sub_responses s @ [d]\<rparr>"

definition answer_now :: "string option \<Rightarrow> ServerResultMessage \<Rightarrow> DeferredResponse" where
  "answer_now i m = \<lparr>dr_response = \<lparr>sr_id = i, sr_result = m\<rparr>, dr_bid_id_to_add = None\<rparr>"

definition handle_subscribe :: "string list \<Rightarrow> string \<Rightarrow> string list \<Rightarrow> subscriber \<Rightarrow> subscriber" where
  "handle_subscribe available message_id chs s =
     (case filter (\<lambda>c. c \<notin> set available) chs of
        [] \<Rightarrow> send_response (answer_now (Some message_id) (Success None)) (s\<lparr>sub_chain_ids := List.union chs (sub_chain_ids s)\<rparr>)
      | missing \<Rightarrow> send_response (answer_now (Some message_id) (ErrResult (ChainsNotFound missing))) s)"

definition handle_unsubscribe :: "string \<Rightarrow> string list \<Rightarrow> subscriber \<Rightarrow> subscriber" where
  "handle_unsubscribe message_id chs s =
     send_response (answer_now (Some message_id) (Success None))
       (s\<lparr>sub_chain_ids := filter (\<lambda>c. c \<notin> set chs) (sub_chain_ids s)\<rparr>)"

definition spawn_deferred :: "ws_task \<Rightarrow> subscriber \<Rightarrow> subscriber" where
  "spawn_deferred t s = s\<lparr>sub_active_requests := sub_active_requests s @ [t]\<rparr>"

definition handle_request :: "string list \<Rightarrow> ClientRequest \<Rightarrow> subscriber \<Rightarrow> subscriber" where
  "handle_request available r s =
     (case cr_msg r of
        Subscribe chs \<Rightarrow> handle_subscribe available (cr_id r) chs s
      | Unsubscribe chs \<Rightarrow> handle_unsubscribe (cr_id r) chs s
      | PostBidMessage c \<Rightarrow> spawn_deferred (PostBidTask (cr_id r) c) s
      | CancelBidMessage c \<Rightarrow> spawn_deferred (CancelBidTask (cr_id r) c) s)"

text \<open>The log of received requests is written where the message is decoded.\<close>

definition handle_decoded :: "string list \<Rightarrow> string + ClientRequest \<Rightarrow> subscriber \<Rightarrow> subscriber" where
  "handle_decoded available m s =
     (case m of
        Inl e \<Rightarrow> send_response (answer_now None (ErrResult (InvalidRequest e))) (s\<lparr>sub_received := sub_received s @ [None]\<rparr>)
      | Inr r \<Rightarrow> handle_request available r (s\<lparr>sub_received := sub_received s @ [Some (cr_id r)]\<rparr>))"

definition handle_client_message :: "string list \<Rightarrow> frame \<Rightarrow> subscriber \<Rightarrow> actor_result" where
  "handle_client_message available m s =
     (case m of
        CloseFrame \<Rightarrow> close_socket s
      | TextFrame t \<Rightarrow> (handle_decoded available t s, Inr ())
      | BinaryFrame t \<Rightarrow> (handle_decoded available t s, Inr ())
      | PingFrame \<Rightarrow> (s, Inr ())
      | PongFrame \<Rightarrow> (s\<lparr>sub_responded_to_ping := True\<rparr>, Inr ()))"

text \<open>The branches of the \<open>select\<close>; the client's stream gives a frame, ends, or fails.\<close>

datatype branch = UpdateBranch | ClientBranch "frame option" | ResponseBranch | PingBranch | ExitBranch

definition token_accepted :: "store \<Rightarrow> Auth \<Rightarrow> bool" where
  "token_accepted st auth = (case auth of Authorized token _ \<Rightarrow> is_ok (get_profile_by_token st token) | _ \<Rightarrow> True)"

definition handle_response :: "nat \<Rightarrow> subscriber \<Rightarrow> actor_result" where
  "handle_response capacity s =
     (case recv capacity (sub_responses s) (sub_answered s) of
        Received d \<Rightarrow>
          let s1 = s\<lparr>sub_answered := sub_answered s + 1\<rparr>;
              s2 = (case dr_bid_id_to_add d of Some i \<Rightarrow> s1\<lparr>sub_bid_ids := List.insert i (sub_bid_ids s1)\<rparr> | None \<Rightarrow> s1)
          in send_frame (SentResponse (dr_response d)) s2
      | Lagged \<Rightarrow> (s\<lparr>sub_answered := length (sub_responses s) - capacity\<rparr>, Inr ())
      | NothingYet \<Rightarrow> (s, Inr ()))"

definition handle_ping :: "store \<Rightarrow> subscriber \<Rightarrow> actor_result" where
  "handle_ping st s =
     (if \<not> token_accepted st (sub_auth s) then (s, Inl ())
      else if \<not> sub_responded_to_ping s then (s, Inl ())
      else send_frame SentPing (s\<lparr>sub_responded_to_ping := False\<rparr>))"

definition handle_exit :: "bool \<Rightarrow> subscriber \<Rightarrow> actor_result" where
  "handle_exit should_exit s =
     (if should_exit then (case close_socket s of (s', _) \<Rightarrow> (s', Inl ())) else (s, Inr ()))"

definition handle_next :: "ws_world \<Rightarrow> branch \<Rightarrow> subscriber \<Rightarrow> actor_result" where
  "handle_next w b s =
     (case b of
        UpdateBranch \<Rightarrow>
          (case recv (ww_update_capacity w) (ww_updates w) (sub_seen s) of
             Received u \<Rightarrow> handle_update u (s\<lparr>sub_seen := sub_seen s + 1\<rparr>)
           | Lagged \<Rightarrow> (s\<lparr>sub_seen := length (ww_updates w) - ww_update_capacity w\<rparr>, Inl ())
           | NothingYet \<Rightarrow> (s, Inr ()))
      | ClientBranch (Some m) \<Rightarrow> handle_client_message (ww_chains w) m s
      | ClientBranch None \<Rightarrow> (s, Inl ())
      | ResponseBranch \<Rightarrow> handle_response (ww_response_capacity w) s
      | PingBranch \<Rightarrow> handle_ping (ww_store w) s
      | ExitBranch \<Rightarrow> handle_exit (ww_should_exit w) s)"

text \<open>
  A branch is taken when it has something to do; a bid or a cancellation also waits for a permit,
  and the actor with it.
\<close>

definition needs_permit :: "frame \<Rightarrow> bool" where
  "needs_permit m =
     (case m of
        TextFrame (Inr r) \<Rightarrow> (case cr_msg r of PostBidMessage _ \<Rightarrow> True | CancelBidMessage _ \<Rightarrow> True | _ \<Rightarrow> False)
      | BinaryFrame (Inr r) \<Rightarrow> (case cr_msg r of PostBidMessage _ \<Rightarrow> True | CancelBidMessage _ \<Rightarrow> True | _ \<Rightarrow> False)
      | _ \<Rightarrow> False)"

definition ready :: "ws_world \<Rightarrow> branch \<Rightarrow> subscriber \<Rightarrow> bool" where
  "ready w b s =
     (case b of
        UpdateBranch \<Rightarrow> sub_seen s < length (ww_updates w)
      | ClientBranch (Some m) \<Rightarrow> needs_permit m \<longrightarrow> length (sub_active_requests s) < MAX_ACTIVE_REQUESTS
      | ResponseBranch \<Rightarrow> sub_answered s < length (sub_responses s)
      | _ \<Rightarrow> True)"



subsection \<open>Deferred tasks\<close>

text \<open>A task works for the user the connection was opened by; one that panics ends without a response.\<close>

definition error_response :: "string \<Rightarrow> RestError \<Rightarrow> DeferredResponse" where
  "error_response i e = answer_now (Some i) (ErrResult (RestErrorText e))"

fun run_task :: "surroundings \<Rightarrow> Auth \<Rightarrow> ws_task \<Rightarrow> web \<Rightarrow> web \<times> DeferredResponse option" where
  "run_task x auth (PostBidTask i c) w =
     (case process_bid (x_env x) (x_simulation x) (x_clock_readings x) (x_new_id x) (x_now x) auth c w of
        (w', Inr res) \<Rightarrow> (w', Some \<lparr>dr_response = \<lparr>sr_id = Some i, sr_result = Success (Some res)\<rparr>,
           dr_bid_id_to_add = Some (br_id res)\<rparr>)
      | (w', Inl (Fails e)) \<Rightarrow> (w', Some (error_response i e))
      | (w', Inl Panics) \<Rightarrow> (w', None))"
| "run_task x auth (CancelBidTask i c) w =
     (case api_cancel_bid (x_now x) auth c w of
        (w', Inr _) \<Rightarrow> (w', Some (answer_now (Some i) (Success None)))
      | (w', Inl (Fails e)) \<Rightarrow> (w', Some (error_response i e))
      | (w', Inl Panics) \<Rightarrow> (w', None))"

definition task_done :: "ws_task \<Rightarrow> DeferredResponse option \<Rightarrow> subscriber \<Rightarrow> subscriber" where
  "task_done t d s =
     (let s1 = s\<lparr>sub_active_requests := remove1 t (sub_active_requests s)\<rparr>
      in case d of Some r \<Rightarrow> send_response r s1 | None \<Rightarrow> s1)"


subsection \<open>All connections\<close>

text \<open>
  The server, the updates announced so far, and every open connection with its address and whether
  its loop still runs. Tasks of connections that are gone go on as \<open>sys_orphans\<close>.
\<close>

record connection =
  cn_ip :: "IpAddr option"
  cn_running :: bool
  cn_sub :: subscriber

record ws_system =
  sys_web :: web
  sys_ws :: ws_state
  sys_updates :: "ServerUpdateResponse list"
  sys_connections :: "connection list"
  sys_orphans :: "(Auth \<times> ws_task) list"
  sys_should_exit :: bool

definition system_new :: "web \<Rightarrow> ws_system" where
  "system_new w = \<lparr>sys_web = w, sys_ws = WsState_new, sys_updates = [], sys_connections = [], sys_orphans = [],
     sys_should_exit = False\<rparr>"

text \<open>The updates between two states of the server go on the channel.\<close>

definition with_web :: "web \<Rightarrow> ws_system \<Rightarrow> ws_system" where
  "with_web w y = y\<lparr>sys_web := w, sys_updates := sys_updates y @
     List.map_filter announced_update (drop (length (events (sys_web y))) (events w))\<rparr>"

definition world_of :: "nat \<Rightarrow> nat \<Rightarrow> ws_system \<Rightarrow> ws_world" where
  "world_of update_capacity response_capacity y =
     \<lparr>ww_updates = sys_updates y, ww_update_capacity = update_capacity, ww_response_capacity = response_capacity,
      ww_store = front_store (sys_web y), ww_chains = map fst (auction_services (sys_web y)),
      ww_should_exit = sys_should_exit y\<rparr>"

definition set_connection :: "nat \<Rightarrow> connection \<Rightarrow> ws_system \<Rightarrow> ws_system" where
  "set_connection n c y = y\<lparr>sys_connections := (sys_connections y)[n := c]\<rparr>"

text \<open>
  \<open>ws_route_handler\<close> takes an id before the socket is upgraded; \<open>websocket_handler\<close> runs the actor and
  gives the id back when its loop has ended.
\<close>

definition connect :: "IpAddr option \<Rightarrow> Auth \<Rightarrow> ws_system \<Rightarrow> ws_system \<times> RestError option" where
  "connect ip auth y =
     (case get_new_subscriber_id ip (sys_ws y) of
        (ws, Some i) \<Rightarrow>
          (y\<lparr>sys_ws := ws, sys_connections := sys_connections y @
              [\<lparr>cn_ip = ip, cn_running = True, cn_sub = Subscriber_new i auth (length (sys_updates y))\<rparr>]\<rparr>, None)
      | (ws, None) \<Rightarrow> (y\<lparr>sys_ws := ws\<rparr>, Some TooManyOpenWebsocketConnections))"

definition failed_upgrade :: "IpAddr option \<Rightarrow> ws_system \<Rightarrow> ws_system" where
  "failed_upgrade ip y = y\<lparr>sys_ws := fst (get_new_subscriber_id ip (sys_ws y))\<rparr>"

definition actor_step :: "nat \<Rightarrow> nat \<Rightarrow> branch \<Rightarrow> nat \<Rightarrow> ws_system \<Rightarrow> ws_system" where
  "actor_step update_capacity response_capacity b n y =
     (let c = sys_connections y ! n
      in case handle_next (world_of update_capacity response_capacity y) b (cn_sub c) of
           (s, r) \<Rightarrow> set_connection n (c\<lparr>cn_running := (\<not> sub_closed s \<and> r = Inr ()), cn_sub := s\<rparr>) y)"

definition disconnect :: "nat \<Rightarrow> ws_system \<Rightarrow> ws_system" where
  "disconnect n y =
     (let c = sys_connections y ! n; s = cn_sub c
      in y\<lparr>sys_ws := remove_subscriber (sub_id s) (cn_ip c) (sys_ws y),
           sys_connections := take n (sys_connections y) @ drop (Suc n) (sys_connections y),
           sys_orphans := sys_orphans y @ map (Pair (sub_auth s)) (sub_active_requests s)\<rparr>)"

definition finish_task :: "surroundings \<Rightarrow> nat \<Rightarrow> ws_task \<Rightarrow> ws_system \<Rightarrow> ws_system" where
  "finish_task x n t y =
     (let c = sys_connections y ! n
      in case run_task x (sub_auth (cn_sub c)) t (sys_web y) of
           (w, d) \<Rightarrow> set_connection n (c\<lparr>cn_sub := task_done t d (cn_sub c)\<rparr>) (with_web w y))"

inductive ws_step :: "nat \<Rightarrow> nat \<Rightarrow> ws_system \<Rightarrow> ws_system \<Rightarrow> bool" for update_capacity response_capacity where
  opened: "authenticate (front_store (sys_web y)) header = Inr auth \<Longrightarrow> connect ip auth y = (y', res) \<Longrightarrow>
     ws_step update_capacity response_capacity y y'"
| upgrade_failed: "ws_step update_capacity response_capacity y (failed_upgrade ip y)"
| acted: "n < length (sys_connections y) \<Longrightarrow> cn_running (sys_connections y ! n) \<Longrightarrow>
     ready (world_of update_capacity response_capacity y) b (cn_sub (sys_connections y ! n)) \<Longrightarrow>
     ws_step update_capacity response_capacity y (actor_step update_capacity response_capacity b n y)"
| closed: "n < length (sys_connections y) \<Longrightarrow> \<not> cn_running (sys_connections y ! n) \<Longrightarrow>
     ws_step update_capacity response_capacity y (disconnect n y)"
| finished: "n < length (sys_connections y) \<Longrightarrow> t \<in> set (sub_active_requests (cn_sub (sys_connections y ! n))) \<Longrightarrow>
     ws_step update_capacity response_capacity y (finish_task x n t y)"
| orphan_finished: "(auth, t) \<in> set (sys_orphans y) \<Longrightarrow> run_task x auth t (sys_web y) = (w, d) \<Longrightarrow>
     ws_step update_capacity response_capacity y (with_web w (y\<lparr>sys_orphans := remove1 (auth, t) (sys_orphans y)\<rparr>))"
| server: "ws_step update_capacity response_capacity y (with_web w y)"
| socket_broke: "n < length (sys_connections y) \<Longrightarrow> c = sys_connections y ! n \<Longrightarrow>
     ws_step update_capacity response_capacity y (set_connection n (c\<lparr>cn_sub := (cn_sub c)\<lparr>sub_socket_up := False\<rparr>\<rparr>) y)"
| shutdown: "ws_step update_capacity response_capacity y (y\<lparr>sys_should_exit := True\<rparr>)"



subsection \<open>Ten connections per address\<close>

text \<open>Of a connection only its address and its id matter here.\<close>

abbreviation slot :: "connection \<Rightarrow> IpAddr option \<times> nat" where
  "slot c \<equiv> (cn_ip c, sub_id (cn_sub c))"

definition slots_ok :: "ws_state \<Rightarrow> (IpAddr option \<times> nat) list \<Rightarrow> bool" where
  "slots_ok ws slots \<longleftrightarrow>
     (\<forall>a. distinct (ids_of ws a) \<and> length (ids_of ws a) \<le> MAXIMUM_SUBSCRIBERS_PER_IP) \<and>
     (\<forall>a. \<forall>i\<in>set (ids_of ws a). i < subscriber_counter ws) \<and> distinct (map snd slots) \<and>
     (\<forall>(ip, i)\<in>set slots. i < subscriber_counter ws \<and> (\<forall>a. ip = Some a \<longrightarrow> i \<in> set (ids_of ws a)))"

lemma slots_okI:
  assumes "\<And>a. distinct (ids_of ws a)" and "\<And>a. length (ids_of ws a) \<le> MAXIMUM_SUBSCRIBERS_PER_IP"
    and "\<And>a i. i \<in> set (ids_of ws a) \<Longrightarrow> i < subscriber_counter ws" and "distinct (map snd slots)"
    and "\<And>ip i. (ip, i) \<in> set slots \<Longrightarrow> i < subscriber_counter ws"
    and "\<And>a i. (Some a, i) \<in> set slots \<Longrightarrow> i \<in> set (ids_of ws a)"
  shows "slots_ok ws slots"
  using assms unfolding slots_ok_def by blast

lemma slots_okD:
  assumes "slots_ok ws slots"
  shows "distinct (ids_of ws a)" and "length (ids_of ws a) \<le> MAXIMUM_SUBSCRIBERS_PER_IP"
    and "i \<in> set (ids_of ws a) \<Longrightarrow> i < subscriber_counter ws" and "distinct (map snd slots)"
    and "(ip, i) \<in> set slots \<Longrightarrow> i < subscriber_counter ws"
    and "(Some a, i) \<in> set slots \<Longrightarrow> i \<in> set (ids_of ws a)"
  using assms unfolding slots_ok_def by blast+

lemma new_id_cases:
  assumes "get_new_subscriber_id ip ws = (ws', res)"
  obtains (full) a where "ip = Some a" "res = None" "ids_of ws' = ids_of ws" "subscriber_counter ws' = subscriber_counter ws + 1"
  | (known) a where "ip = Some a" "res = Some (subscriber_counter ws)" "length (ids_of ws a) < MAXIMUM_SUBSCRIBERS_PER_IP"
      "ids_of ws' = (ids_of ws)(a := List.insert (subscriber_counter ws) (ids_of ws a))"
      "subscriber_counter ws' = subscriber_counter ws + 1"
  | (unknown) "ip = None" "res = Some (subscriber_counter ws)" "ids_of ws' = ids_of ws"
      "subscriber_counter ws' = subscriber_counter ws + 1"
proof (cases ip)
  case None
  with assms show ?thesis by (intro unknown) (auto simp: get_new_subscriber_id_def Let_def ids_of_def)
next
  case (Some a)
  with assms full known show ?thesis
    by (auto simp: get_new_subscriber_id_def Let_def ids_of_def fun_eq_iff split: if_splits option.splits)
qed

lemma ids_of_remove:
  "ids_of (remove_subscriber i ip ws) a = (if ip = Some a then removeAll i (ids_of ws a) else ids_of ws a)"
  "subscriber_counter (remove_subscriber i ip ws) = subscriber_counter ws"
  by (auto simp: remove_subscriber_def ids_of_def Let_def split: option.splits)

lemma slots_ok_snoc:
  "slots_ok ws slots \<Longrightarrow> i \<notin> snd ` set slots \<Longrightarrow> i < subscriber_counter ws \<Longrightarrow>
   (\<And>a. ip = Some a \<Longrightarrow> i \<in> set (ids_of ws a)) \<Longrightarrow> slots_ok ws (slots @ [(ip, i)])"
  by (simp add: slots_ok_def ball_Un)

lemma slots_ok_new:
  assumes ok: "slots_ok ws slots" and new: "get_new_subscriber_id ip ws = (ws', res)"
  shows "slots_ok ws' slots" and "res = Some i \<Longrightarrow> slots_ok ws' (slots @ [(ip, i)])"
  using new
proof -
  from new show "slots_ok ws' slots"
  proof (cases rule: new_id_cases)
    case (known a)
    have "\<forall>j\<in>set (ids_of ws a). j < subscriber_counter ws" using ok unfolding slots_ok_def by blast
    then have "subscriber_counter ws \<notin> set (ids_of ws a)" by blast
    with known ok show ?thesis unfolding slots_ok_def
      by (auto simp: List.insert_def less_SucI dest!: bspec)
  qed (use ok in \<open>auto simp: slots_ok_def less_SucI\<close>)
  note kept = this
  assume "res = Some i"
  with new have i: "i = subscriber_counter ws" "subscriber_counter ws' = i + 1" "\<And>a. ip = Some a \<Longrightarrow> i \<in> set (ids_of ws' a)"
    by (auto simp: get_new_subscriber_id_def Let_def ids_of_def split: option.splits if_splits)
  have "i \<notin> snd ` set slots" using ok unfolding slots_ok_def i(1) by force
  then show "slots_ok ws' (slots @ [(ip, i)])" using i(2,3) by (intro slots_ok_snoc kept) simp_all
qed

lemma slots_ok_removed:
  assumes "slots_ok ws (us @ (ip, i) # vs)"
  shows "slots_ok (remove_subscriber i ip ws) (us @ vs)"
proof -
  from assms have "distinct (map snd (us @ (ip, i) # vs))" unfolding slots_ok_def by blast
  then have "i \<notin> snd ` set (us @ vs)" by auto
  then have other: "j \<noteq> i" if "(ip', j) \<in> set (us @ vs)" for ip' j
    using that by (metis image_eqI snd_conv)
  have shorter: "length (removeAll i xs) \<le> length xs" for xs :: "nat list" by (simp add: removeAll_filter_not_eq)
  show ?thesis
  proof (rule slots_okI)
    show "distinct (ids_of (remove_subscriber i ip ws) a)" "length (ids_of (remove_subscriber i ip ws) a) \<le> MAXIMUM_SUBSCRIBERS_PER_IP" for a
      using slots_okD(1,2) [OF assms] by (auto simp: ids_of_remove distinct_removeAll intro: le_trans [OF shorter])
    show "j < subscriber_counter (remove_subscriber i ip ws)" if "j \<in> set (ids_of (remove_subscriber i ip ws) a)" for a j
      using slots_okD(3) [OF assms] that by (auto simp: ids_of_remove split: if_splits)
    show "distinct (map snd (us @ vs))" using slots_okD(4) [OF assms] by auto
    show "j < subscriber_counter (remove_subscriber i ip ws)" if "(ip', j) \<in> set (us @ vs)" for ip' j
      using slots_okD(5) [OF assms, of ip' j] that by (auto simp: ids_of_remove)
    show "j \<in> set (ids_of (remove_subscriber i ip ws) a)" if "(Some a, j) \<in> set (us @ vs)" for a j
      using slots_okD(6) [OF assms, of a j] other that by (auto simp: ids_of_remove)
  qed
qed

text \<open>The actor never changes who it serves.\<close>

lemma kept_parts [simp]:
  "sub_id (fst (send_frame m s)) = sub_id s" "sub_id (fst (close_socket s)) = sub_id s"
  "sub_id (send_response d s) = sub_id s" "sub_id (fst (handle_update u s)) = sub_id s"
  "sub_id (fst (handle_exit e s)) = sub_id s" "sub_id (fst (handle_ping st s)) = sub_id s"
  by (auto simp: send_frame_def close_socket_def send_response_def handle_update_def handle_exit_def handle_ping_def)

lemma kept_by_client [simp]: "sub_id (fst (handle_client_message av m s)) = sub_id s"
  by (cases m) (auto simp: handle_client_message_def handle_decoded_def handle_request_def handle_subscribe_def
      handle_unsubscribe_def spawn_deferred_def split: sum.splits ClientMessage.splits list.splits)

lemma kept_by_response [simp]: "sub_id (fst (handle_response cap s)) = sub_id s"
  by (simp add: handle_response_def Let_def split: received.splits option.splits)

lemma sub_id_kept: "handle_next w b s = (s', r) \<Longrightarrow> sub_id s' = sub_id s"
proof -
  have "sub_id (fst (handle_next w b s)) = sub_id s"
    by (cases b) (simp_all add: handle_next_def split: received.splits option.splits)
  then show "handle_next w b s = (s', r) \<Longrightarrow> sub_id s' = sub_id s" by simp
qed

lemma task_done_id [simp]: "sub_id (task_done t d s) = sub_id s"
  by (simp add: task_done_def Let_def send_response_def split: option.splits)

definition addresses_ok :: "ws_system \<Rightarrow> bool" where
  "addresses_ok y \<longleftrightarrow> slots_ok (sys_ws y) (map slot (sys_connections y))"

lemma slot_set_connection:
  "slot c = slot (sys_connections y ! n) \<Longrightarrow> map slot (sys_connections (set_connection n c y)) = map slot (sys_connections y)"
  by (cases "n < length (sys_connections y)") (simp_all add: set_connection_def map_update list_update_same_conv list_update_beyond)

lemma addresses_step: "ws_step n m y y' \<Longrightarrow> addresses_ok y \<Longrightarrow> addresses_ok y'"
proof (induction rule: ws_step.induct)
  case (opened y header auth ip y' res)
  obtain ws r where new: "get_new_subscriber_id ip (sys_ws y) = (ws, r)" by fastforce
  from opened(2,3) slots_ok_new [OF _ new, of "map slot (sys_connections y)"] show ?case
    by (cases r) (auto simp: connect_def new addresses_ok_def Subscriber_new_def)
next
  case (upgrade_failed y ip)
  obtain ws r where new: "get_new_subscriber_id ip (sys_ws y) = (ws, r)" by fastforce
  from upgrade_failed slots_ok_new(1) [OF _ new] show ?case by (simp add: addresses_ok_def failed_upgrade_def new)
next
  case (acted k y b)
  obtain s r where "handle_next (world_of n m y) b (cn_sub (sys_connections y ! k)) = (s, r)" by fastforce
  with acted(4) show ?case
    by (simp add: actor_step_def addresses_ok_def slot_set_connection sub_id_kept) (simp add: set_connection_def)
next
  case (closed k y)
  then obtain us c vs where conns: "sys_connections y = us @ c # vs" "k = length us"
    by (metis id_take_nth_drop length_take less_imp_le min_absorb2)
  from closed(3) have "slots_ok (sys_ws y) (map slot us @ slot c # map slot vs)"
    by (simp add: addresses_ok_def conns(1))
  from slots_ok_removed [OF this] show ?case by (simp add: addresses_ok_def disconnect_def Let_def conns)
next
  case (finished k y t x)
  obtain w d where "run_task x (sub_auth (cn_sub (sys_connections y ! k))) t (sys_web y) = (w, d)" by fastforce
  with finished(3) show ?case
    using slot_set_connection [of "(sys_connections y ! k)\<lparr>cn_sub := task_done t d (cn_sub (sys_connections y ! k))\<rparr>" "with_web w y" k]
    by (simp add: finish_task_def addresses_ok_def with_web_def set_connection_def Let_def)
next
  case (socket_broke k y c)
  then show ?case by (simp add: addresses_ok_def slot_set_connection) (simp add: set_connection_def)
qed (simp_all add: addresses_ok_def with_web_def)

lemma addresses_reachable: "(ws_step n m)\<^sup>*\<^sup>* (system_new w) y \<Longrightarrow> addresses_ok y"
proof (induction rule: rtranclp_induct)
  case base
  show ?case
    by (simp add: addresses_ok_def slots_ok_def system_new_def WsState_new_def ids_of_def)
qed (rule addresses_step)

text \<open>
  Property C24. However connections are opened, fail to upgrade, break, and end, in whatever order: an
  address never has more than ten open websocket connections, and every open connection of a known
  address is in the table that counts them, so that the limit is over all of them.
\<close>

theorem at_most_ten_connections_per_address:
  assumes "(ws_step n m)\<^sup>*\<^sup>* (system_new w) y"
  shows "length (filter (\<lambda>c. cn_ip c = Some a) (sys_connections y)) \<le> 10 \<and>
    (sub_id \<circ> cn_sub) ` set (filter (\<lambda>c. cn_ip c = Some a) (sys_connections y)) \<subseteq> set (ids_of (sys_ws y) a)"
proof -
  let ?cs = "filter (\<lambda>c. cn_ip c = Some a) (sys_connections y)"
  from addresses_reachable [OF assms] have ok: "slots_ok (sys_ws y) (map slot (sys_connections y))" by (simp add: addresses_ok_def)
  from ok have sub: "(sub_id \<circ> cn_sub) ` set ?cs \<subseteq> set (ids_of (sys_ws y) a)" unfolding slots_ok_def by auto
  from ok have "distinct (map (sub_id \<circ> cn_sub) (sys_connections y))" unfolding slots_ok_def by (simp add: comp_def)
  then have "distinct (map (sub_id \<circ> cn_sub) ?cs)" by (rule distinct_map_filter_key)
  then have "length ?cs = card (set (map (sub_id \<circ> cn_sub) ?cs))" by (metis distinct_card length_map)
  also have "\<dots> \<le> card (set (ids_of (sys_ws y) a))" using sub by (intro card_mono) auto
  also have "\<dots> \<le> length (ids_of (sys_ws y) a)" by (rule card_length)
  also have "\<dots> \<le> 10" using ok by (simp add: slots_ok_def MAXIMUM_SUBSCRIBERS_PER_IP_def)
  finally show ?thesis using sub by blast
qed



subsection \<open>Invariants of a connection\<close>

text \<open>
  The contract between the system and what is proved of single connections: a new one has the
  property, and the actor, the end of a task and a broken socket keep it.
\<close>

locale connection_invariant =
  fixes ok :: "connection \<Rightarrow> bool"
  assumes fresh_ok: "ok \<lparr>cn_ip = ip, cn_running = True, cn_sub = Subscriber_new i auth p\<rparr>"
    and act_ok: "ok c \<Longrightarrow> cn_running c \<Longrightarrow> handle_next w b (cn_sub c) = (s, r) \<Longrightarrow>
      ok (c\<lparr>cn_running := (\<not> sub_closed s \<and> r = Inr ()), cn_sub := s\<rparr>)"
    and finish_ok: "ok c \<Longrightarrow> t \<in> set (sub_active_requests (cn_sub c)) \<Longrightarrow> run_task x auth t web = (web', d) \<Longrightarrow>
      ok (c\<lparr>cn_sub := task_done t d (cn_sub c)\<rparr>)"
    and broken_ok: "ok c \<Longrightarrow> ok (c\<lparr>cn_sub := (cn_sub c)\<lparr>sub_socket_up := False\<rparr>\<rparr>)"
begin

lemma step_ok: "ws_step n m y y' \<Longrightarrow> \<forall>c\<in>set (sys_connections y). ok c \<Longrightarrow> \<forall>c\<in>set (sys_connections y'). ok c"
proof (induction rule: ws_step.induct)
  case (opened y header auth ip y' res)
  then show ?case
    by (auto simp: connect_def fresh_ok split: prod.splits option.splits)
next
  case (acted k y b)
  obtain s r where run: "handle_next (world_of n m y) b (cn_sub (sys_connections y ! k)) = (s, r)" by fastforce
  from acted(1,4) have "ok (sys_connections y ! k)" by simp
  from act_ok [OF this acted(2) run] acted(4) show ?case
    by (auto simp: actor_step_def Let_def run set_connection_def dest!: set_update_subset_insert [THEN subsetD])
next
  case (closed k y)
  then show ?case by (auto simp: disconnect_def Let_def dest: in_set_takeD in_set_dropD)
next
  case (finished k y t x)
  obtain w d where run: "run_task x (sub_auth (cn_sub (sys_connections y ! k))) t (sys_web y) = (w, d)" by fastforce
  from finished(1,3) have "ok (sys_connections y ! k)" by simp
  from finish_ok [OF this finished(2) run] finished(3) show ?case
    by (auto simp: finish_task_def Let_def run set_connection_def with_web_def dest!: set_update_subset_insert [THEN subsetD])
next
  case (socket_broke k y c)
  then have "ok c" by simp
  from broken_ok [OF this] socket_broke show ?case
    by (auto simp: set_connection_def dest!: set_update_subset_insert [THEN subsetD])
qed (simp_all add: failed_upgrade_def with_web_def)

lemma reachable_ok: "(ws_step n m)\<^sup>*\<^sup>* (system_new w) y \<Longrightarrow> c \<in> set (sys_connections y) \<Longrightarrow> ok c"
proof -
  assume "(ws_step n m)\<^sup>*\<^sup>* (system_new w) y" "c \<in> set (sys_connections y)"
  moreover have "\<forall>c\<in>set (sys_connections y). ok c"
    using \<open>(ws_step n m)\<^sup>*\<^sup>* (system_new w) y\<close>
  proof (induction rule: rtranclp_induct)
    case base
    show ?case by (simp add: system_new_def)
  qed (rule step_ok)
  ultimately show ?thesis by blast
qed

end



subsection \<open>What one step of the actor does\<close>

lemma recv_Received: "recv capacity xs pos = Received x \<Longrightarrow> pos < length xs \<and> xs ! pos = x \<and> length xs - pos \<le> capacity"
  by (auto simp: recv_def split: if_splits)

lemma recv_Lagged: "recv capacity xs pos = Lagged \<longleftrightarrow> capacity < length xs - pos"
  by (simp add: recv_def)

text \<open>The parts of the actor the invariants speak of, and how a step can change them.\<close>

definition core :: "subscriber \<Rightarrow> uuid list \<times> ws_task list \<times> DeferredResponse list \<times> nat \<times> sent list \<times> string option list" where
  "core s = (sub_bid_ids s, sub_active_requests s, sub_responses s, sub_answered s, sub_sent s, sub_received s)"

definition with_added :: "uuid option \<Rightarrow> uuid list \<Rightarrow> uuid list" where
  "with_added i ids = (case i of Some j \<Rightarrow> List.insert j ids | None \<Rightarrow> ids)"

inductive core_step :: "nat \<Rightarrow> (ServerUpdateResponse \<Rightarrow> bool) \<Rightarrow>
  uuid list \<times> ws_task list \<times> DeferredResponse list \<times> nat \<times> sent list \<times> string option list \<Rightarrow>
  unit + unit \<Rightarrow> uuid list \<times> ws_task list \<times> DeferredResponse list \<times> nat \<times> sent list \<times> string option list \<Rightarrow> bool"
  for capacity wanted where
  quiet: "core_step capacity wanted c r c"
| signal: "m = SentPing \<or> m = SentClose \<Longrightarrow> core_step capacity wanted (ids, ts, ds, k, ms, rs) r (ids, ts, ds, k, ms @ [m], rs)"
| update: "wanted u \<Longrightarrow> core_step capacity wanted (ids, ts, ds, k, ms, rs) r (ids, ts, ds, k, ms @ [SentUpdate u], rs)"
| response: "k < length ds \<Longrightarrow>
    core_step capacity wanted (ids, ts, ds, k, ms, rs) (Inr ())
      (with_added (dr_bid_id_to_add (ds ! k)) ids, ts, ds, k + 1, ms @ [SentResponse (dr_response (ds ! k))], rs)"
| response_lost: "k < length ds \<Longrightarrow>
    core_step capacity wanted (ids, ts, ds, k, ms, rs) (Inl ())
      (with_added (dr_bid_id_to_add (ds ! k)) ids, ts, ds, k + 1, ms, rs)"
| skipped: "capacity < length ds - k \<Longrightarrow>
    core_step capacity wanted (ids, ts, ds, k, ms, rs) r (ids, ts, ds, length ds - capacity, ms, rs)"
| answered: "dr_bid_id_to_add d = None \<Longrightarrow>
    core_step capacity wanted (ids, ts, ds, k, ms, rs) r (ids, ts, ds @ [d], k, ms, rs @ [sr_id (dr_response d)])"
| spawned: "core_step capacity wanted (ids, ts, ds, k, ms, rs) r (ids, ts @ [t], ds, k, ms, rs @ [Some (task_id t)])"

inductive_cases core_stepE: "core_step capacity wanted c r c'"

lemma request_core:
  "core_step capacity wanted (core s) r (core (handle_decoded av t s))"
proof (cases t)
  case (Inl e)
  show ?thesis
    using core_step.answered [of "answer_now None (ErrResult (InvalidRequest e))"]
    by (simp add: Inl handle_decoded_def send_response_def core_def answer_now_def)
next
  case (Inr q)
  have now: "core_step capacity wanted (core s) r
      (core (send_response (answer_now (Some (cr_id q)) m) (s\<lparr>sub_received := sub_received s @ [Some (cr_id q)], sub_chain_ids := chs\<rparr>)))" for m chs
    using core_step.answered [of "answer_now (Some (cr_id q)) m"] by (simp add: send_response_def core_def answer_now_def)
  have later: "core_step capacity wanted (core s) r
      (core (spawn_deferred t (s\<lparr>sub_received := sub_received s @ [Some (task_id t)]\<rparr>)))" for t
    using core_step.spawned by (simp add: spawn_deferred_def core_def)
  show ?thesis
  proof (cases "cr_msg q")
    case (Subscribe chs)
    then show ?thesis
      using now [of _ "sub_chain_ids s"] now
      by (simp add: Inr handle_decoded_def handle_request_def handle_subscribe_def split: list.splits)
  next
    case (Unsubscribe chs)
    then show ?thesis using now by (simp add: Inr handle_decoded_def handle_request_def handle_unsubscribe_def)
  next
    case (PostBidMessage c)
    then show ?thesis using later [of "PostBidTask (cr_id q) c"] by (simp add: Inr handle_decoded_def handle_request_def)
  next
    case (CancelBidMessage c)
    then show ?thesis using later [of "CancelBidTask (cr_id q) c"] by (simp add: Inr handle_decoded_def handle_request_def)
  qed
qed

lemma handle_next_core:
  assumes "handle_next w b s = (s', r)"
  shows "core_step (ww_response_capacity w) (\<lambda>u. relevant u s) (core s) r (core s')"
proof (cases b)
  case UpdateBranch
  have same: "relevant u (s\<lparr>sub_seen := k\<rparr>) = relevant u s" for u k by (cases u) simp_all
  from UpdateBranch assms show ?thesis
    by (auto simp: handle_next_def handle_update_def send_frame_def core_def same split: received.splits if_splits
        intro: core_step.quiet core_step.update)
next
  case (ClientBranch m)
  show ?thesis
  proof (cases m)
    case None
    with ClientBranch assms show ?thesis by (auto simp: handle_next_def intro: core_step.quiet)
  next
    case (Some f)
    with ClientBranch assms show ?thesis
      by (cases f) (auto simp: handle_next_def handle_client_message_def close_socket_def
          intro: request_core core_step.quiet, auto simp: core_def intro: core_step.quiet core_step.signal split: if_splits)
  qed
next
  case ResponseBranch
  show ?thesis
  proof (cases "recv (ww_response_capacity w) (sub_responses s) (sub_answered s)")
    case NothingYet
    with ResponseBranch assms show ?thesis by (auto simp: handle_next_def handle_response_def intro: core_step.quiet)
  next
    case Lagged
    with ResponseBranch assms show ?thesis
      by (auto simp: handle_next_def handle_response_def core_def recv_Lagged intro: core_step.skipped)
  next
    case (Received d)
    from recv_Received [OF this] have d: "sub_answered s < length (sub_responses s)" "d = sub_responses s ! sub_answered s" by auto
    from ResponseBranch assms Received show ?thesis
      using core_step.response [OF d(1)] core_step.response_lost [OF d(1)]
      by (auto simp: handle_next_def handle_response_def core_def send_frame_def Let_def with_added_def d(2)
          split: option.splits if_splits)
  qed
next
  case PingBranch
  with assms show ?thesis
    by (auto simp: handle_next_def handle_ping_def send_frame_def core_def split: if_splits
        intro: core_step.quiet core_step.signal)
next
  case ExitBranch
  with assms show ?thesis
    by (auto simp: handle_next_def handle_exit_def close_socket_def core_def split: if_splits
        intro: core_step.quiet core_step.signal)
qed



subsection \<open>Statuses only of one's own bids\<close>

text \<open>The bids a client was told are accepted, and the order a status may be sent in.\<close>

definition told :: "sent list \<Rightarrow> uuid set" where
  "told ms = {i. \<exists>a res. SentResponse a \<in> set ms \<and> sr_result a = Success (Some res) \<and> br_id res = i}"

definition statuses_ok :: "sent list \<Rightarrow> bool" where
  "statuses_ok ms \<longleftrightarrow> (\<forall>us st vs. ms = us @ SentUpdate (UpdBidStatus st) # vs \<longrightarrow> bs_id st \<in> told us)"

lemma told_append: "told (ms @ ns) = told ms \<union> told ns"
  by (auto simp: told_def)

lemma statuses_snoc:
  "statuses_ok (ms @ [m]) \<longleftrightarrow> statuses_ok ms \<and> (\<forall>st. m = SentUpdate (UpdBidStatus st) \<longrightarrow> bs_id st \<in> told ms)"
proof
  assume l: "statuses_ok (ms @ [m])"
  have "bs_id st \<in> told us" if "ms = us @ SentUpdate (UpdBidStatus st) # vs" for us st vs
    using l that unfolding statuses_ok_def by (metis append_Cons append_assoc)
  moreover have "bs_id st \<in> told ms" if "m = SentUpdate (UpdBidStatus st)" for st
    using l that unfolding statuses_ok_def by blast
  ultimately show "statuses_ok ms \<and> (\<forall>st. m = SentUpdate (UpdBidStatus st) \<longrightarrow> bs_id st \<in> told ms)"
    unfolding statuses_ok_def by blast
next
  assume r: "statuses_ok ms \<and> (\<forall>st. m = SentUpdate (UpdBidStatus st) \<longrightarrow> bs_id st \<in> told ms)"
  show "statuses_ok (ms @ [m])" unfolding statuses_ok_def
  proof (intro allI impI)
    fix us st vs assume eq: "ms @ [m] = us @ SentUpdate (UpdBidStatus st) # vs"
    with r show "bs_id st \<in> told us"
      by (cases vs rule: rev_cases) (auto simp: statuses_ok_def)
  qed
qed

definition added_ok :: "DeferredResponse \<Rightarrow> bool" where
  "added_ok d \<longleftrightarrow> (\<forall>i. dr_bid_id_to_add d = Some i \<longrightarrow> i \<in> told [SentResponse (dr_response d)])"

definition own_statuses :: "connection \<Rightarrow> bool" where
  "own_statuses c \<longleftrightarrow> statuses_ok (sub_sent (cn_sub c)) \<and>
     (cn_running c \<longrightarrow> set (sub_bid_ids (cn_sub c)) \<subseteq> told (sub_sent (cn_sub c))) \<and>
     (\<forall>d\<in>set (sub_responses (cn_sub c)). added_ok d)"

lemma own_statuses_core:
  assumes "core_step capacity (\<lambda>u. relevant u s) c r c'" and "c = (ids, ts, ds, k, ms, rs)" and "c' = (ids', ts', ds', k', ms', rs')"
    and "statuses_ok ms" and "set ids \<subseteq> told ms" and "\<forall>d\<in>set ds. added_ok d" and "sub_bid_ids s = ids"
  shows "statuses_ok ms' \<and> (r = Inr () \<longrightarrow> set ids' \<subseteq> told ms') \<and> (\<forall>d\<in>set ds'. added_ok d)"
  using assms
proof (cases rule: core_step.cases)
  case (update u)
  with assms(2-7) show ?thesis by (cases u) (auto simp: statuses_snoc told_append)
next
  case (response k0 ds0)
  with assms(2-6) have "added_ok (ds ! k)" by auto
  with response assms(2-6) show ?thesis
    by (auto simp: statuses_snoc told_append with_added_def added_ok_def split: option.splits)
next
  case (answered d)
  with assms(2-6) show ?thesis by (auto simp: added_ok_def)
qed (use assms(2-6) in \<open>auto simp: statuses_snoc told_append\<close>)

lemma run_task_added: "run_task x auth t w = (w', Some d) \<Longrightarrow> added_ok d"
  by (cases t) (auto simp: added_ok_def told_def error_response_def answer_now_def
      split: prod.splits sum.splits stop.splits)

interpretation statuses: connection_invariant own_statuses
proof
  show "own_statuses \<lparr>cn_ip = ip, cn_running = True, cn_sub = Subscriber_new i auth p\<rparr>" for ip i auth p
    by (simp add: own_statuses_def Subscriber_new_def statuses_ok_def)
next
  fix c w b s r
  assume ok: "own_statuses c" "cn_running c" and run: "handle_next w b (cn_sub c) = (s, r)"
  from own_statuses_core [OF handle_next_core [OF run] core_def core_def] ok
  show "own_statuses (c\<lparr>cn_running := (\<not> sub_closed s \<and> r = Inr ()), cn_sub := s\<rparr>)"
    by (simp add: own_statuses_def)
next
  fix c t x auth web web' d
  assume "own_statuses c" "run_task x auth t web = (web', d)"
  then show "own_statuses (c\<lparr>cn_sub := task_done t d (cn_sub c)\<rparr>)"
    by (cases d) (auto simp: own_statuses_def task_done_def Let_def send_response_def dest: run_task_added)
qed (simp add: own_statuses_def)

text \<open>
  Property C15. In every run of the server with its connections: before a client is sent the status of a
  bid, it was sent, on the same connection, the answer that this bid is accepted. So nobody is sent the
  statuses of bids of others, nor that of an own bid before its id.
\<close>

theorem statuses_follow_acceptance:
  assumes "(ws_step n m)\<^sup>*\<^sup>* (system_new w) y" and "c \<in> set (sys_connections y)"
    and "sub_sent (cn_sub c) = us @ SentUpdate (UpdBidStatus st) # vs"
  shows "\<exists>a res. SentResponse a \<in> set us \<and> sr_result a = Success (Some res) \<and> br_id res = bs_id st"
  using statuses.reachable_ok [OF assms(1,2)] assms(3) unfolding own_statuses_def statuses_ok_def told_def by blast


subsection \<open>Requests are answered once\<close>

definition answers_sent :: "sent list \<Rightarrow> ServerResultResponse list" where
  "answers_sent ms = List.map_filter (\<lambda>m. case m of SentResponse a \<Rightarrow> Some a | _ \<Rightarrow> None) ms"

lemma answers_sent_snoc:
  "answers_sent (ms @ [m]) = answers_sent ms @ (case m of SentResponse a \<Rightarrow> [a] | _ \<Rightarrow> [])"
  by (induction ms) (auto simp: answers_sent_def split: sent.splits option.splits)

definition open_requests :: "subscriber \<Rightarrow> string option multiset" where
  "open_requests s = mset (map (Some \<circ> task_id) (sub_active_requests s)) + mset (map (sr_id \<circ> dr_response) (sub_responses s))"

definition answered_once :: "connection \<Rightarrow> bool" where
  "answered_once c \<longleftrightarrow> open_requests (cn_sub c) \<subseteq># mset (sub_received (cn_sub c)) \<and>
     sub_answered (cn_sub c) \<le> length (sub_responses (cn_sub c)) \<and>
     subseq (answers_sent (sub_sent (cn_sub c))) (map dr_response (take (sub_answered (cn_sub c)) (sub_responses (cn_sub c))))"

lemma subseq_take_more: "subseq xs (take k ys) \<Longrightarrow> k \<le> k' \<Longrightarrow> subseq xs (take k' ys)"
  by (metis min_absorb1 prefix_imp_subseq subseq_order.trans take_is_prefix take_take)

lemma answered_once_core:
  assumes "core_step capacity wanted c r c'" and "c = (ids, ts, ds, k, ms, rs)" and "c' = (ids', ts', ds', k', ms', rs')"
    and "mset (map (Some \<circ> task_id) ts) + mset (map (sr_id \<circ> dr_response) ds) \<subseteq># mset rs" and "k \<le> length ds"
    and "subseq (answers_sent ms) (map dr_response (take k ds))"
  shows "mset (map (Some \<circ> task_id) ts') + mset (map (sr_id \<circ> dr_response) ds') \<subseteq># mset rs' \<and> k' \<le> length ds' \<and>
    subseq (answers_sent ms') (map dr_response (take k' ds'))"
  using assms(1)
proof (cases rule: core_step.cases)
  case (response k0 ds0)
  with assms show ?thesis by (auto simp: answers_sent_snoc take_Suc_conv_app_nth list_emb_append_mono)
next
  case (response_lost k0 ds0)
  with assms show ?thesis by (auto simp: take_Suc_conv_app_nth)
next
  case (skipped ds0 k0)
  with assms have "k \<le> k'" "k' \<le> length ds'" "ds' = ds" "ms' = ms" by auto
  with assms skipped show ?thesis by (auto simp flip: take_map intro: subseq_take_more)
next
  case (answered d)
  with assms show ?thesis by auto
next
  case (spawned ids0 ts0 ds0 k0 ms0 rs0 t)
  with assms show ?thesis by auto
qed (use assms in \<open>auto simp: answers_sent_snoc\<close>)


lemma run_task_answers: "run_task x auth t w = (w', Some d) \<Longrightarrow> sr_id (dr_response d) = Some (task_id t)"
  by (cases t) (auto simp: error_response_def answer_now_def split: prod.splits sum.splits stop.splits)

lemma mset_map_remove1: "t \<in> set ts \<Longrightarrow> mset (map f ts) = add_mset (f t) (mset (map f (remove1 t ts)))"
  by (induction ts) auto

interpretation answers: connection_invariant answered_once
proof
  show "answered_once \<lparr>cn_ip = ip, cn_running = True, cn_sub = Subscriber_new i auth p\<rparr>" for ip i auth p
    by (simp add: answered_once_def Subscriber_new_def open_requests_def answers_sent_def)
next
  fix c w b s r
  assume ok: "answered_once c" and run: "handle_next w b (cn_sub c) = (s, r)"
  from answered_once_core [OF handle_next_core [OF run] core_def core_def] ok
  show "answered_once (c\<lparr>cn_running := (\<not> sub_closed s \<and> r = Inr ()), cn_sub := s\<rparr>)"
    by (simp add: answered_once_def open_requests_def)
next
  fix c t x auth web web' d
  assume ok: "answered_once c" and t: "t \<in> set (sub_active_requests (cn_sub c))" and run: "run_task x auth t web = (web', d)"
  let ?s = "cn_sub c"
  have active: "mset (map (Some \<circ> task_id) (sub_active_requests ?s)) =
      mset (map (Some \<circ> task_id) (remove1 t (sub_active_requests ?s))) + {#Some (task_id t)#}"
    using mset_map_remove1 [OF t, of "Some \<circ> task_id"] by simp
  show "answered_once (c\<lparr>cn_sub := task_done t d (cn_sub c)\<rparr>)"
  proof (cases d)
    case None
    with ok active show ?thesis
      by (auto simp: answered_once_def open_requests_def task_done_def Let_def elim: subset_mset.order_trans [rotated])
  next
    case (Some e)
    with run have "sr_id (dr_response e) = Some (task_id t)" by (auto dest: run_task_answers)
    with Some ok active show ?thesis
      by (auto simp: answered_once_def open_requests_def task_done_def Let_def send_response_def)
  qed
qed (simp add: answered_once_def open_requests_def)


lemma mset_subseq: "subseq xs ys \<Longrightarrow> mset xs \<subseteq># mset ys"
  by (induction rule: list_emb.induct) (auto intro: subset_mset.order_trans)

text \<open>
  Property C16. In every run of the server with its connections, whatever the order in which requests,
  tasks and responses come: no request is answered twice and no answer is made up. What was answered
  and what is still worked on are among the requests received, counted by their ids, and the answers
  go out in the order in which they were given.
\<close>

theorem requests_answered_at_most_once:
  assumes "(ws_step n m)\<^sup>*\<^sup>* (system_new w) y" and "c \<in> set (sys_connections y)"
  shows "mset (map sr_id (answers_sent (sub_sent (cn_sub c)))) + mset (map (Some \<circ> task_id) (sub_active_requests (cn_sub c)))
      \<subseteq># mset (sub_received (cn_sub c)) \<and>
    subseq (answers_sent (sub_sent (cn_sub c))) (map dr_response (sub_responses (cn_sub c)))"
proof -
  let ?s = "cn_sub c"
  from answers.reachable_ok [OF assms] have ok: "open_requests ?s \<subseteq># mset (sub_received ?s)"
    and "subseq (answers_sent (sub_sent ?s)) (map dr_response (take (sub_answered ?s) (sub_responses ?s)))"
    by (simp_all add: answered_once_def)
  then have sub: "subseq (answers_sent (sub_sent ?s)) (map dr_response (sub_responses ?s))"
    by (metis prefix_imp_subseq subseq_order.trans take_is_prefix take_map)
  then have "mset (answers_sent (sub_sent ?s)) \<subseteq># mset (map dr_response (sub_responses ?s))"
    by (rule mset_subseq)
  then have "mset (map sr_id (answers_sent (sub_sent ?s))) \<subseteq># mset (map (sr_id \<circ> dr_response) (sub_responses ?s))"
    using image_mset_subseteq_mono [of "mset (answers_sent (sub_sent ?s))" "mset (map dr_response (sub_responses ?s))" sr_id]
    by (simp add: multiset.map_comp)
  moreover have "d + a \<subseteq># e" if "a + b \<subseteq># e" "d \<subseteq># b" for a b d e :: "string option multiset"
    using that by (metis add.commute subset_mset.add_left_mono subset_mset.order_trans)
  ultimately show ?thesis using ok sub unfolding open_requests_def by blast
qed

text \<open>Answers that were given while the connection was more than the capacity behind are never sent.\<close>

lemma overrun_answers_are_lost:
  "capacity < length (sub_responses s) - sub_answered s \<Longrightarrow>
   handle_response capacity s = (s\<lparr>sub_answered := length (sub_responses s) - capacity\<rparr>, Inr ())"
  by (simp add: handle_response_def recv_def)

text \<open>A status that is on the channel before the answer to its bid was read is dropped.\<close>

lemma early_status_is_dropped:
  "bs_id st \<notin> set (sub_bid_ids s) \<Longrightarrow> handle_update (UpdBidStatus st) s = (s, Inr ())"
  by (simp add: handle_update_def)

text \<open>An upgrade that fails keeps its place in the table.\<close>

lemma failed_upgrades_lock_out:
  "snd (connect (Some a) auth ((failed_upgrade (Some a) ^^ 10) (system_new w))) = Some TooManyOpenWebsocketConnections"
proof -
  have ids: "ids_of (sys_ws ((failed_upgrade (Some a) ^^ k) (system_new w))) a = rev [0..<k] \<and>
      subscriber_counter (sys_ws ((failed_upgrade (Some a) ^^ k) (system_new w))) = k" if "k \<le> 10" for k
    using that
  proof (induction k)
    case 0
    show ?case by (simp add: system_new_def WsState_new_def ids_of_def)
  next
    case (Suc k)
    then show ?case
      by (auto simp: failed_upgrade_def get_new_subscriber_id_def Let_def MAXIMUM_SUBSCRIBERS_PER_IP_def List.insert_def)
        (simp_all add: ids_of_def)
  qed
  show ?thesis using ids [of 10]
    by (simp add: connect_def get_new_subscriber_id_def Let_def MAXIMUM_SUBSCRIBERS_PER_IP_def)
qed


subsection \<open>Updates\<close>

text \<open>
  Property C21. A connection that keeps up misses nothing: as long as it is not further behind than the
  channel keeps, taking the next \<open>k\<close> updates sends exactly those of them that concern its chains and
  its bids, each once and in order, and it goes on.
\<close>

theorem updates_complete:
  assumes "sub_socket_up s" and "length (ww_updates w) - sub_seen s \<le> ww_update_capacity w"
    and "sub_seen s + k \<le> length (ww_updates w)"
  shows "((\<lambda>s. fst (handle_next w UpdateBranch s)) ^^ k) s =
      s\<lparr>sub_seen := sub_seen s + k,
        sub_sent := sub_sent s @ map SentUpdate (filter (\<lambda>u. relevant u s) (take k (drop (sub_seen s) (ww_updates w))))\<rparr>"
  using assms(3)
proof (induction k)
  case (Suc k)
  let ?s = "s\<lparr>sub_seen := sub_seen s + k,
      sub_sent := sub_sent s @ map SentUpdate (filter (\<lambda>u. relevant u s) (take k (drop (sub_seen s) (ww_updates w))))\<rparr>"
  have same: "relevant u (s\<lparr>sub_sent := ms, sub_seen := a\<rparr>) = relevant u s"
    "relevant u (s\<lparr>sub_seen := a, sub_sent := ms\<rparr>) = relevant u s" for u a ms by (cases u, simp_all)+
  from Suc.prems assms(2) have "recv (ww_update_capacity w) (ww_updates w) (sub_seen ?s) = Received (ww_updates w ! (sub_seen s + k))"
    by (simp add: recv_def)
  then have "fst (handle_next w UpdateBranch ?s) = ?s\<lparr>sub_seen := sub_seen s + Suc k,
      sub_sent := sub_sent ?s @ (if relevant (ww_updates w ! (sub_seen s + k)) s then [SentUpdate (ww_updates w ! (sub_seen s + k))] else [])\<rparr>"
    using assms(1) same by (simp add: handle_next_def handle_update_def send_frame_def)
  moreover have "take (Suc k) (drop (sub_seen s) (ww_updates w)) =
      take k (drop (sub_seen s) (ww_updates w)) @ [ww_updates w ! (sub_seen s + k)]"
    using Suc.prems by (simp add: take_Suc_conv_app_nth add.commute)
  ultimately show ?case using Suc by simp
qed simp



subsection \<open>Connections that are dropped\<close>

text \<open>A sequence of steps of the actor, each in the world it finds.\<close>

definition acts :: "(ws_world \<times> branch) list \<Rightarrow> subscriber \<Rightarrow> subscriber" where
  "acts steps s = fold (\<lambda>(w, b) s. fst (handle_next w b s)) steps s"

lemma pong_parts [simp]:
  "sub_responded_to_ping (fst (send_frame m s)) = sub_responded_to_ping s"
  "sub_responded_to_ping (fst (close_socket s)) = sub_responded_to_ping s"
  "sub_responded_to_ping (fst (handle_update u s)) = sub_responded_to_ping s"
  "sub_responded_to_ping (fst (handle_exit e s)) = sub_responded_to_ping s"
  by (auto simp: send_frame_def close_socket_def handle_update_def handle_exit_def)

lemma only_pong_answers:
  assumes "\<not> sub_responded_to_ping s" and "b \<noteq> ClientBranch (Some PongFrame)"
  shows "\<not> sub_responded_to_ping (fst (handle_next w b s))"
proof (cases b)
  case (ClientBranch m)
  show ?thesis
  proof (cases m)
    case None
    with ClientBranch assms(1) show ?thesis by (simp add: handle_next_def)
  next
    case (Some f)
    with ClientBranch assms show ?thesis
      by (cases f) (auto simp: handle_next_def handle_client_message_def handle_decoded_def handle_request_def
          handle_subscribe_def handle_unsubscribe_def spawn_deferred_def send_response_def
          split: sum.splits ClientMessage.splits list.splits)
  qed
qed (use assms(1) in \<open>auto simp: handle_next_def handle_response_def Let_def handle_ping_def split: received.splits option.splits\<close>)

lemma silent_acts:
  "\<not> sub_responded_to_ping s \<Longrightarrow> ClientBranch (Some PongFrame) \<notin> snd ` set steps \<Longrightarrow> \<not> sub_responded_to_ping (acts steps s)"
proof (induction steps arbitrary: s)
  case (Cons x steps)
  from Cons.IH [of "fst (handle_next (fst x) (snd x) s)"] only_pong_answers [of s "snd x" "fst x"] Cons.prems
  show ?case by (cases x) (auto simp: acts_def)
qed (simp add: acts_def)

text \<open>
  A client that is silent is disconnected: after a ping, whatever else happens on the
  connection, if no pong comes the next tick of the ping interval ends the loop; and so does the next
  tick after the token of the connection was revoked.
\<close>

theorem silent_client_is_disconnected:
  assumes "handle_next w PingBranch s = (s1, Inr ())" and "ClientBranch (Some PongFrame) \<notin> snd ` set steps"
  shows "snd (handle_next w' PingBranch (acts steps s1)) = Inl () \<and>
    (sub_auth s = Authorized token p \<and> access_tokens (ww_store w'') token = None \<longrightarrow>
       snd (handle_next w'' PingBranch s) = Inl ())"
proof -
  from assms(1) have "\<not> sub_responded_to_ping s1"
    by (auto simp: handle_next_def handle_ping_def send_frame_def split: if_splits)
  from silent_acts [OF this assms(2)] show ?thesis
    by (auto simp: handle_next_def handle_ping_def token_accepted_def get_profile_by_token_def)
qed



subsection \<open>A concrete connection\<close>

text \<open>A client opens a connection, subscribes to the chain, and is sent the next announcement of it.\<close>

definition sample_chain_update :: ServerUpdateResponse where
  "sample_chain_update = UpdSvmChain \<lparr>scu_chain_id = ''solana'', scu_blockhash = 1, scu_latest_prioritization_fee = 5\<rparr>"

definition sample_subscribe :: frame where
  "sample_subscribe = TextFrame (Inr \<lparr>cr_id = ''1'', cr_msg = Subscribe [''solana'']\<rparr>)"

definition sample_connected :: ws_system where
  "sample_connected = fst (connect (Some (IpV4 1)) NoAuth (system_new sample_web))"

lemma sample_connected_eq:
  "sys_connections sample_connected = [\<lparr>cn_ip = Some (IpV4 1), cn_running = True, cn_sub = Subscriber_new 0 NoAuth 0\<rparr>]"
  "sys_web sample_connected = sample_web"
  by (simp_all add: sample_connected_def connect_def get_new_subscriber_id_def Let_def MAXIMUM_SUBSCRIBERS_PER_IP_def
      system_new_def WsState_new_def ids_of_def)

lemma sample_connected_reachable: "ws_step n m (system_new sample_web) sample_connected"
proof -
  have "authenticate (front_store (sys_web (system_new sample_web))) MissingHeader = Inr NoAuth"
    by (simp add: authenticate_def)
  moreover obtain res where "connect (Some (IpV4 1)) NoAuth (system_new sample_web) = (sample_connected, res)"
    unfolding sample_connected_def by (metis prod.collapse)
  ultimately show ?thesis by (rule ws_step.opened)
qed

definition sample_subscribed :: ws_system where
  "sample_subscribed = actor_step 8 8 ResponseBranch 0 (actor_step 8 8 (ClientBranch (Some sample_subscribe)) 0 sample_connected)"

lemma sample_subscribed_reachable:
  "(ws_step 8 8)\<^sup>*\<^sup>* (system_new sample_web) sample_subscribed"
  "\<exists>c. sys_connections sample_subscribed = [c] \<and> cn_ip c = Some (IpV4 1) \<and> sub_chain_ids (cn_sub c) = [''solana''] \<and>
     sub_sent (cn_sub c) = [SentResponse \<lparr>sr_id = Some ''1'', sr_result = Success None\<rparr>] \<and> sub_received (cn_sub c) = [Some ''1'']"
proof -
  let ?y = "actor_step 8 8 (ClientBranch (Some sample_subscribe)) 0 sample_connected"
  have chs: "map fst (auction_services sample_web) = [''solana'']" by (simp add: sample_web_def)
  obtain c where c: "sys_connections ?y = [c]" "cn_running c" "sub_answered (cn_sub c) = 0" "sub_socket_up (cn_sub c)"
    "sub_responses (cn_sub c) = [answer_now (Some ''1'') (Success None)]" "sub_sent (cn_sub c) = []" "cn_ip c = Some (IpV4 1)"
    "sub_chain_ids (cn_sub c) = [''solana'']" "sub_received (cn_sub c) = [Some ''1'']" "\<not> sub_closed (cn_sub c)"
    by (simp add: actor_step_def Let_def sample_connected_eq set_connection_def handle_next_def handle_client_message_def
        sample_subscribe_def handle_decoded_def handle_request_def handle_subscribe_def world_of_def chs Subscriber_new_def
        send_response_def List.union_def List.insert_def)
  have "ws_step 8 8 sample_connected ?y"
    by (rule ws_step.acted) (simp_all add: sample_connected_eq ready_def needs_permit_def sample_subscribe_def)
  moreover have "ws_step 8 8 ?y sample_subscribed" unfolding sample_subscribed_def
    by (rule ws_step.acted) (simp_all add: c ready_def)
  ultimately have "(ws_step 8 8)\<^sup>*\<^sup>* sample_connected sample_subscribed"
    by (rule converse_rtranclp_into_rtranclp [OF _ r_into_rtranclp])
  then show "(ws_step 8 8)\<^sup>*\<^sup>* (system_new sample_web) sample_subscribed"
    by (rule converse_rtranclp_into_rtranclp [where r = "ws_step 8 8", OF sample_connected_reachable])
  show "\<exists>c. sys_connections sample_subscribed = [c] \<and> cn_ip c = Some (IpV4 1) \<and> sub_chain_ids (cn_sub c) = [''solana''] \<and>
      sub_sent (cn_sub c) = [SentResponse \<lparr>sr_id = Some ''1'', sr_result = Success None\<rparr>] \<and> sub_received (cn_sub c) = [Some ''1'']"
  proof -
    have run: "handle_next w ResponseBranch (cn_sub c) = ((cn_sub c)\<lparr>sub_answered := 1,
        sub_sent := [SentResponse \<lparr>sr_id = Some ''1'', sr_result = Success None\<rparr>]\<rparr>, Inr ())"
      if "ww_response_capacity w = 8" for w
      using that c by (simp add: handle_next_def handle_response_def recv_def answer_now_def send_frame_def)
    have "ww_response_capacity (world_of 8 8 ?y) = 8" by (simp add: world_of_def)
    from run [OF this] show ?thesis
      unfolding sample_subscribed_def actor_step_def [of 8 8 ResponseBranch] Let_def c(1) nth_Cons_0
      by (simp add: set_connection_def c)
  qed
qed

theorem at_most_ten_connections_per_address_witness:
  "length (filter (\<lambda>c. cn_ip c = Some (IpV4 1)) (sys_connections sample_subscribed)) \<le> 10 \<and> sys_connections sample_subscribed \<noteq> []"
  using at_most_ten_connections_per_address [OF sample_subscribed_reachable(1)] sample_subscribed_reachable(2) by auto

theorem requests_answered_at_most_once_witness:
  "\<exists>c. sys_connections sample_subscribed = [c] \<and> mset (map sr_id (answers_sent (sub_sent (cn_sub c)))) = {#Some ''1''#} \<and>
     mset (map sr_id (answers_sent (sub_sent (cn_sub c)))) \<subseteq># mset (sub_received (cn_sub c))"
proof -
  from sample_subscribed_reachable(2) obtain c where c: "sys_connections sample_subscribed = [c]"
    "sub_sent (cn_sub c) = [SentResponse \<lparr>sr_id = Some ''1'', sr_result = Success None\<rparr>]" by blast
  then have "c \<in> set (sys_connections sample_subscribed)" by simp
  from requests_answered_at_most_once [OF sample_subscribed_reachable(1) this]
  have "mset (map sr_id (answers_sent (sub_sent (cn_sub c)))) \<subseteq># mset (sub_received (cn_sub c))"
    by (meson mset_subset_eq_add_left subset_mset.order_trans)
  with c show ?thesis by (simp add: answers_sent_def)
qed

theorem updates_complete_witness:
  "\<exists>s. sub_chain_ids s = [''solana''] \<and>
     ((\<lambda>s. fst (handle_next \<lparr>ww_updates = [sample_chain_update], ww_update_capacity = 8, ww_response_capacity = 8,
        ww_store = sample_store, ww_chains = [''solana''], ww_should_exit = False\<rparr> UpdateBranch s)) ^^ 1) s =
     s\<lparr>sub_seen := 1, sub_sent := [SentUpdate sample_chain_update]\<rparr>"
proof -
  let ?s = "(Subscriber_new 0 NoAuth 0)\<lparr>sub_chain_ids := [''solana'']\<rparr>"
  let ?w = "\<lparr>ww_updates = [sample_chain_update], ww_update_capacity = 8, ww_response_capacity = 8,
        ww_store = sample_store, ww_chains = [''solana''], ww_should_exit = False\<rparr>"
  have "((\<lambda>s. fst (handle_next ?w UpdateBranch s)) ^^ 1) ?s = ?s\<lparr>sub_seen := 1, sub_sent := [SentUpdate sample_chain_update]\<rparr>"
    using updates_complete [of ?s ?w 1] by (simp add: Subscriber_new_def sample_chain_update_def)
  moreover have "sub_chain_ids ?s = [''solana'']" by simp
  ultimately show ?thesis by blast
qed

theorem silent_client_is_disconnected_witness:
  "\<exists>w s s1. handle_next w PingBranch s = (s1, Inr ()) \<and>
     snd (handle_next w PingBranch (acts [(w, ClientBranch (Some PingFrame))] s1)) = Inl ()"
proof -
  let ?s = "Subscriber_new 0 NoAuth 0"
  let ?w = "\<lparr>ww_updates = [], ww_update_capacity = 8, ww_response_capacity = 8,
        ww_store = sample_store, ww_chains = [''solana''], ww_should_exit = False\<rparr>"
  have ping: "handle_next ?w PingBranch ?s = (?s\<lparr>sub_responded_to_ping := False, sub_sent := [SentPing]\<rparr>, Inr ())"
    by (simp add: handle_next_def handle_ping_def token_accepted_def Subscriber_new_def send_frame_def)
  have "ClientBranch (Some PongFrame) \<notin> snd ` set [(?w, ClientBranch (Some PingFrame))]" by simp
  from silent_client_is_disconnected [OF ping this, of ?w] ping show ?thesis by blast
qed


text \<open>The same client posts a bid, is told its id, and is then sent its next status.\<close>

definition sample_surroundings :: "surroundings \<Rightarrow> surroundings" where
  "sample_surroundings x = x\<lparr>x_env := sample_env, x_simulation := sample_simulation, x_clock_readings := sample_clock, x_new_id := 7\<rparr>"

lemma actor_step_one:
  "sys_connections y = [c] \<Longrightarrow> handle_next (world_of n m y) b (cn_sub c) = (s, r) \<Longrightarrow>
   actor_step n m b 0 y = y\<lparr>sys_connections := [c\<lparr>cn_running := (\<not> sub_closed s \<and> r = Inr ()), cn_sub := s\<rparr>]\<rparr>"
  by (simp add: actor_step_def Let_def set_connection_def)

theorem statuses_follow_acceptance_witness:
  "\<exists>y c. (ws_step 8 8)\<^sup>*\<^sup>* (system_new sample_web) y \<and> c \<in> set (sys_connections y) \<and>
     (\<exists>us. sub_sent (cn_sub c) = us @ [SentUpdate (UpdBidStatus \<lparr>bs_id = 7, bs_bid_status = ApiPending\<rparr>)] \<and>
        (\<exists>a res. SentResponse a \<in> set us \<and> sr_result a = Success (Some res) \<and> br_id res = 7))"
proof -
  fix x :: surroundings
  let ?x = "sample_surroundings x" and ?t = "PostBidTask ''1'' sample_posted" and ?s0 = "Subscriber_new 0 NoAuth 0"
  let ?frame = "TextFrame (Inr \<lparr>cr_id = ''1'', cr_msg = PostBidMessage sample_posted\<rparr>)"
  let ?a = "\<lparr>sr_id = Some ''1'', sr_result = Success (Some \<lparr>br_status = ''OK'', br_id = 7\<rparr>)\<rparr>"
  let ?st = "UpdBidStatus \<lparr>bs_id = 7, bs_bid_status = ApiPending\<rparr>"
  obtain w' where work: "run_task ?x NoAuth ?t sample_web = (w', Some \<lparr>dr_response = ?a, dr_bid_id_to_add = Some 7\<rparr>)"
    and quiet: "events w' = []"
    using sample_process [of "x_now x"] by (auto simp: sample_surroundings_def)
  define s1 where "s1 = ?s0\<lparr>sub_received := [Some ''1''], sub_active_requests := [?t]\<rparr>"
  define s2 where "s2 = ?s0\<lparr>sub_received := [Some ''1''], sub_responses := [\<lparr>dr_response = ?a, dr_bid_id_to_add = Some 7\<rparr>]\<rparr>"
  define s3 where "s3 = s2\<lparr>sub_answered := 1, sub_bid_ids := [7], sub_sent := [SentResponse ?a]\<rparr>"
  define s4 where "s4 = s3\<lparr>sub_seen := 1, sub_sent := [SentResponse ?a, SentUpdate ?st]\<rparr>"
  define conn where "conn s = \<lparr>cn_ip = Some (IpV4 1), cn_running = True, cn_sub = s\<rparr>" for s
  define y1 where "y1 = sample_connected\<lparr>sys_connections := [conn s1]\<rparr>"
  define y2 where "y2 = (with_web w' y1)\<lparr>sys_connections := [conn s2]\<rparr>"
  define y3 where "y3 = y2\<lparr>sys_connections := [conn s3]\<rparr>"
  define y4 where "y4 = with_web (emit (BidStatusUpdate 7 Pending) w') y3"
  define y5 where "y5 = y4\<lparr>sys_connections := [conn s4]\<rparr>"
  have empty: "sys_updates sample_connected = []" "events sample_web = []"
    by (simp_all add: sample_connected_def connect_def system_new_def sample_web_def get_new_subscriber_id_def Let_def
        MAXIMUM_SUBSCRIBERS_PER_IP_def WsState_new_def ids_of_def)
  have web: "sys_web y1 = sample_web" "sys_web y3 = w'" "sys_updates y3 = []" "sys_updates y4 = [?st]"
    by (simp_all add: y1_def y2_def y3_def y4_def with_web_def sample_connected_eq empty quiet emit_def announced_update_def)
  have "ws_step 8 8 sample_connected (actor_step 8 8 (ClientBranch (Some ?frame)) 0 sample_connected)"
    by (rule ws_step.acted) (simp_all add: sample_connected_eq ready_def Subscriber_new_def MAX_ACTIVE_REQUESTS_def)
  also have "actor_step 8 8 (ClientBranch (Some ?frame)) 0 sample_connected = y1"
    by (subst actor_step_one [OF sample_connected_eq(1), of _ _ _ s1 "Inr ()"])
      (simp_all add: handle_next_def handle_client_message_def handle_decoded_def handle_request_def spawn_deferred_def
        s1_def Subscriber_new_def y1_def conn_def)
  finally have step1: "ws_step 8 8 sample_connected y1" .
  have "finish_task ?x 0 ?t y1 = y2"
    using work by (simp add: finish_task_def web(1) y1_def y2_def with_web_def set_connection_def conn_def s1_def s2_def
        Subscriber_new_def task_done_def send_response_def sample_connected_eq)
  then have step2: "ws_step 8 8 y1 y2"
    using ws_step.finished [of 0 y1 ?t 8 8 ?x] by (simp add: y1_def conn_def s1_def)
  have "ws_step 8 8 y2 (actor_step 8 8 ResponseBranch 0 y2)"
    by (rule ws_step.acted) (simp_all add: y2_def conn_def ready_def s2_def Subscriber_new_def)
  also have "actor_step 8 8 ResponseBranch 0 y2 = y3"
    by (subst actor_step_one [of y2 "conn s2" _ _ _ s3 "Inr ()"])
      (simp_all add: y2_def y3_def conn_def handle_next_def handle_response_def recv_def s2_def s3_def Subscriber_new_def
        send_frame_def world_of_def)
  finally have step3: "ws_step 8 8 y2 y3" .
  have step4: "ws_step 8 8 y3 y4" unfolding y4_def by (rule ws_step.server)
  have conns: "sys_connections y4 = [conn s3]" by (simp add: y4_def y3_def with_web_def)
  have "ws_step 8 8 y4 (actor_step 8 8 UpdateBranch 0 y4)"
    by (rule ws_step.acted) (simp_all add: conns conn_def ready_def world_of_def web s3_def s2_def Subscriber_new_def)
  also have "actor_step 8 8 UpdateBranch 0 y4 = y5"
    by (subst actor_step_one [OF conns, of _ _ _ s4 "Inr ()"])
      (simp_all add: y5_def conn_def handle_next_def handle_update_def recv_def s4_def s3_def s2_def Subscriber_new_def
        send_frame_def world_of_def web)
  finally have step5: "ws_step 8 8 y4 y5" .
  have run: "(ws_step 8 8)\<^sup>*\<^sup>* (system_new sample_web) y5"
    using rtranclp.rtrancl_into_rtrancl [where r = "ws_step 8 8"] sample_connected_reachable [of 8 8] step1 step2 step3 step4 step5
    by (metis r_into_rtranclp)
  have c: "conn s4 \<in> set (sys_connections y5)" by (simp add: y5_def)
  have sent: "sub_sent (cn_sub (conn s4)) = [SentResponse ?a] @ SentUpdate ?st # []" by (simp add: conn_def s4_def)
  from statuses_follow_acceptance [OF run c sent]
  have "\<exists>a res. SentResponse a \<in> set [SentResponse ?a] \<and> sr_result a = Success (Some res) \<and> br_id res = 7" by simp
  with run c sent show ?thesis
    by (intro exI [of _ y5] exI [of _ "conn s4"] conjI exI [of _ "[SentResponse ?a]"]) simp_all
qed

end
