(* ===== verification/As_Simulation.thy ===== *)
theory As_Simulation
  imports As_Messages As_Simulator "HOL-Library.Multiset"
begin

section \<open>Auction server: loading and running a local simulation\<close>

text \<open>
  The rest of \<open>auction/service/simulator.rs\<close>: which accounts a simulation needs, how they are fetched
  through the cache and loaded into a local chain, and the simulation itself. The local chain (LiteSVM, of
  type \<open>'s\<close>), the lookup tables' decoder, the loader's account state and the order of hash tables are
  the parameter \<open>'s sim_library\<close>; \<open>rpc n\<close> is how the node answers in the n-th of the three times it
  is asked (lookup tables, accounts, program data).
\<close>

record chain_account =
  ca_lamports :: u64
  ca_owner :: pubkey
  ca_data :: "u8 list"

record sysvar_clock =
  clk_slot :: u64
  clk_unix_timestamp :: i64

record lookup_table =
  lt_last_extended_slot :: u64
  lt_addresses :: "pubkey list"
  lt_lookup :: "u64 \<Rightarrow> u8 list \<Rightarrow> pubkey list option"

record simulated_info =
  si_post_accounts :: "(pubkey \<times> chain_account) list"
  si_logs :: "string list"

datatype sim_error = InsufficientFundsForRent | TransactionFails TransactionError

record failed_transaction =
  ft_err :: sim_error
  ft_logs :: "string list"

record 's sim_library =
  order_tables :: "(pubkey \<times> u8 list) list \<Rightarrow> (pubkey \<times> u8 list) list"
  order_keys :: "pubkey list \<Rightarrow> pubkey list"
  deserialize_table :: "u8 list \<Rightarrow> lookup_table option"
  program_data_address :: "u8 list \<Rightarrow> pubkey option"
  vm_new :: 's
  vm_warp_to_slot :: "u64 \<Rightarrow> 's \<Rightarrow> 's"
  vm_get_clock :: "'s \<Rightarrow> sysvar_clock"
  vm_set_clock :: "sysvar_clock \<Rightarrow> 's \<Rightarrow> 's"
  vm_set_account :: "pubkey \<Rightarrow> chain_account \<Rightarrow> 's \<Rightarrow> 's \<times> bool"
  vm_send :: "'s \<Rightarrow> tx \<Rightarrow> 's \<times> bool"
  vm_simulate :: "'s \<Rightarrow> tx \<Rightarrow> failed_transaction + simulated_info"
  vm_minimum_balance :: "'s \<Rightarrow> nat \<Rightarrow> u64"
  show_pubkey :: "pubkey \<Rightarrow> string"

type_synonym sim_rpc = "nat \<Rightarrow> pubkey list \<Rightarrow> unit + (chain_account option list \<times> u64)"


subsection \<open>The accounts of a simulation\<close>

record AccountsConfig =
  ac_accounts :: "(pubkey \<times> chain_account) list"
  ac_programs_data :: "(pubkey \<times> chain_account) list"

definition AccountsConfig_new :: AccountsConfig where
  "AccountsConfig_new = \<lparr>ac_accounts = [], ac_programs_data = []\<rparr>"

text \<open>An account that cannot be set is logged and passed over.\<close>

definition set_accounts :: "'s sim_library \<Rightarrow> (pubkey \<times> chain_account) list \<Rightarrow> 's \<Rightarrow> 's" where
  "set_accounts lib = fold (\<lambda>(k, a) svm. fst (vm_set_account lib k a svm))"

definition apply_config :: "'s sim_library \<Rightarrow> AccountsConfig \<Rightarrow> 's \<Rightarrow> 's" where
  "apply_config lib config svm = set_accounts lib (ac_accounts config) (set_accounts lib (ac_programs_data config) svm)"

text \<open>\<open>entry(k).or_default().extend(vs)\<close> of a table from keys to sets.\<close>

fun extend_entry :: "pubkey \<Rightarrow> u8 list \<Rightarrow> (pubkey \<times> u8 list) list \<Rightarrow> (pubkey \<times> u8 list) list" where
  "extend_entry k vs [] = [(k, remdups vs)]"
| "extend_entry k vs ((k', ws) # m) = (if k = k' then (k', remdups (ws @ vs)) # m else (k', ws) # extend_entry k vs m)"

definition lookups_of :: "tx list \<Rightarrow> MessageAddressTableLookup list" where
  "lookups_of txs = concat (map (\<lambda>t. unwrap_or (address_table_lookups (message t)) []) txs)"

definition lookup_table_keys :: "tx list \<Rightarrow> (pubkey \<times> u8 list) list" where
  "lookup_table_keys txs =
     fold (\<lambda>l. extend_entry (account_key l) (readonly_indexes l @ writable_indexes l)) (lookups_of txs) []"

definition table_addresses :: "'s sim_library \<Rightarrow> u8 list \<Rightarrow> chain_account option \<Rightarrow> pubkey list" where
  "table_addresses lib indexes acc =
     (case Option.bind acc (\<lambda>a. deserialize_table lib (ca_data a)) of
        None \<Rightarrow> []
      | Some table \<Rightarrow> unwrap_or (lt_lookup table (lt_last_extended_slot table + 1) indexes) [])"

definition resolve_lookup_addresses ::
  "'s sim_library \<Rightarrow> sim_rpc \<Rightarrow> time \<Rightarrow> chain_account cache \<Rightarrow> tx list \<Rightarrow> chain_account cache \<times> (unit + pubkey list)" where
  "resolve_lookup_addresses lib rpc now c txs =
     (let tables = order_tables lib (lookup_table_keys txs) in
      case get_multiple_accounts_with_cache (rpc 0) now c (map fst tables) of
        (c1, Inl e) \<Rightarrow> (c1, Inl e)
      | (c1, Inr accs) \<Rightarrow>
          (c1, Inr (concat (map (\<lambda>((table, indexes), acc). table # table_addresses lib indexes acc) (zip tables accs)))))"

definition BPF_LOADER_UPGRADEABLE :: pubkey where
  "BPF_LOADER_UPGRADEABLE = 1203157751113444292085578490895711631870746999416992000355168191203933945856"

definition program_data_of :: "'s sim_library \<Rightarrow> chain_account \<Rightarrow> pubkey option" where
  "program_data_of lib a = (if ca_owner a = BPF_LOADER_UPGRADEABLE then program_data_address lib (ca_data a) else None)"

text \<open>The loops over the fetched accounts; \<open>HashMap::insert\<close> keeps one entry for a key.\<close>

definition insert_present :: "(pubkey \<times> chain_account option) list \<Rightarrow> (pubkey \<times> chain_account) list \<Rightarrow> (pubkey \<times> chain_account) list" where
  "insert_present = fold (\<lambda>(k, acc) m. case acc of None \<Rightarrow> m | Some a \<Rightarrow> AList.update k a m)"

definition fetch_tx_accounts_via_rpc ::
  "'s sim_library \<Rightarrow> sim_rpc \<Rightarrow> time \<Rightarrow> chain_account cache \<Rightarrow> tx list
     \<Rightarrow> chain_account cache \<times> (unit + AccountsConfig \<times> u64)" where
  "fetch_tx_accounts_via_rpc lib rpc now c txs =
     (case resolve_lookup_addresses lib rpc now c txs of
        (c1, Inl e) \<Rightarrow> (c1, Inl e)
      | (c1, Inr resolved) \<Rightarrow>
          let keys = order_keys lib (remdups (concat (map (\<lambda>t. static_account_keys (message t)) txs) @ resolved)) in
          case get_multiple_accounts_chunked (rpc 1) keys of
            Inl e \<Rightarrow> (c1, Inl e)
          | Inr (accounts, slot) \<Rightarrow>
              let programs = List.map_filter (\<lambda>acc. Option.bind acc (program_data_of lib)) (map snd (zip keys accounts)) in
              case get_multiple_accounts_with_cache (rpc 2) now c1 programs of
                (c2, Inl e) \<Rightarrow> (c2, Inl e)
              | (c2, Inr program_datas) \<Rightarrow>
                  (c2, Inr (\<lparr>ac_accounts = insert_present (zip keys accounts) (ac_accounts AccountsConfig_new),
                             ac_programs_data = insert_present (zip programs program_datas) (ac_programs_data AccountsConfig_new)\<rparr>,
                            slot)))"


subsection \<open>Running\<close>

definition warp_to_timestamp :: "'s sim_library \<Rightarrow> i64 \<Rightarrow> 's \<Rightarrow> 's" where
  "warp_to_timestamp lib timestamp svm = vm_set_clock lib ((vm_get_clock lib svm)\<lparr>clk_unix_timestamp := timestamp\<rparr>) svm"

definition setup_lite_svm :: "'s sim_library \<Rightarrow> i64 \<Rightarrow> AccountsConfig \<times> u64 \<Rightarrow> 's" where
  "setup_lite_svm lib timestamp cs =
     apply_config lib (fst cs) (warp_to_timestamp lib timestamp (vm_warp_to_slot lib (snd cs) (vm_new lib)))"

text \<open>The first account left with some lamports, but fewer than its rent-exempt minimum, makes the run fail.\<close>

definition below_rent :: "'s sim_library \<Rightarrow> 's \<Rightarrow> chain_account \<Rightarrow> bool" where
  "below_rent lib svm a \<longleftrightarrow> 0 < ca_lamports a \<and> ca_lamports a < vm_minimum_balance lib svm (length (ca_data a))"

definition check_rent_exemption ::
  "'s sim_library \<Rightarrow> 's \<Rightarrow> failed_transaction + simulated_info \<Rightarrow> failed_transaction + simulated_info" where
  "check_rent_exemption lib svm res =
     rbind res (\<lambda>info.
       case find (\<lambda>(k, a). below_rent lib svm a) (si_post_accounts info) of
         None \<Rightarrow> Inr info
       | Some (k, a) \<Rightarrow> Inl \<lparr>ft_err = InsufficientFundsForRent,
                            ft_logs = si_logs info @ [''Insufficient Funds For Rent: '' @ show_pubkey lib k]\<rparr>)"

record simulator =
  sm_pending :: "VersionedMessage pending"
  sm_cache :: "chain_account cache"

definition simulate_transaction ::
  "'s sim_library \<Rightarrow> sim_rpc \<Rightarrow> time \<Rightarrow> i64 \<Rightarrow> tx \<Rightarrow> simulator
     \<Rightarrow> simulator \<times> (unit + (failed_transaction + simulated_info) \<times> u64)" where
  "simulate_transaction lib rpc now timestamp t sm =
     (let (p, pending_txs) = fetch_pending_and_remove_old_txs now (sm_pending sm) in
      case fetch_tx_accounts_via_rpc lib rpc now (sm_cache sm) (pending_txs @ [t]) of
        (c, Inl e) \<Rightarrow> (\<lparr>sm_pending = p, sm_cache = c\<rparr>, Inl e)
      | (c, Inr cs) \<Rightarrow>
          let svm = send_all (vm_send lib) (setup_lite_svm lib timestamp cs) pending_txs in
          (\<lparr>sm_pending = p, sm_cache = c\<rparr>,
           Inr (check_rent_exemption lib svm (vm_simulate lib svm t), snd cs)))"

definition sim_optimize_bids ::
  "'s sim_library \<Rightarrow> sim_rpc \<Rightarrow> time \<Rightarrow> i64 \<Rightarrow> VersionedMessage Bid list \<Rightarrow> simulator
     \<Rightarrow> simulator \<times> (unit + VersionedMessage Bid list \<times> u64)" where
  "sim_optimize_bids lib rpc now timestamp bids_sorted sm =
     (let (p, pending_txs) = fetch_pending_and_remove_old_txs now (sm_pending sm) in
      case fetch_tx_accounts_via_rpc lib rpc now (sm_cache sm)
             (pending_txs @ map (\<lambda>b. cd_transaction (b_chain_data b)) bids_sorted) of
        (c, Inl e) \<Rightarrow> (\<lparr>sm_pending = p, sm_cache = c\<rparr>, Inl e)
      | (c, Inr cs) \<Rightarrow>
          let svm = send_all (vm_send lib) (setup_lite_svm lib timestamp cs) pending_txs in
          (\<lparr>sm_pending = p, sm_cache = c\<rparr>, Inr (keep_successful (vm_send lib) svm bids_sorted, snd cs)))"


subsection \<open>Fetching in chunks and through the cache\<close>

text \<open>
  What the node answers when its accounts are \<open>chain\<close>: up to 100 accounts at once. What the cache holds
  of rarely changing accounts agrees with the chain.
\<close>

definition rpc_answers :: "(pubkey list \<Rightarrow> unit + ('a option list \<times> u64)) \<Rightarrow> (pubkey \<Rightarrow> 'a option) \<Rightarrow> u64 \<Rightarrow> bool" where
  "rpc_answers rpc chain slot \<longleftrightarrow> (\<forall>ks. length ks \<le> 100 \<longrightarrow> rpc ks = Inr (map chain ks, slot))"

definition cache_agrees :: "(pubkey \<Rightarrow> 'a option) \<Rightarrow> 'a cache \<Rightarrow> bool" where
  "cache_agrees chain c \<longleftrightarrow> (\<forall>k a t. Mapping.lookup c k = Some (a, t) \<longrightarrow> chain k = Some a)"

lemma chunks_concat: "0 < n \<Longrightarrow> concat (chunks n xs) = xs"
proof (induction n xs rule: chunks.induct)
  case (1 n xs)
  then show ?case
    by (subst chunks.simps) simp
qed

lemma chunks_length: "ys \<in> set (chunks n xs) \<Longrightarrow> length ys \<le> n"
proof (induction n xs rule: chunks.induct)
  case (1 n xs)
  have ne: "\<not> (xs = [] \<or> n = 0)"
    using 1(2) by (metis chunks.simps empty_iff empty_set)
  then have "ys = take n xs \<or> ys \<in> set (chunks n (drop n xs))"
    using 1(2) by (subst (asm) chunks.simps) simp
  then show ?case
    using 1(1) [OF ne] by auto
qed

lemma chunks_Nil: "0 < n \<Longrightarrow> chunks n xs = [] \<longleftrightarrow> xs = []"
  by (subst chunks.simps) simp

lemma collect_chunks_answers:
  assumes "rpc_answers rpc chain slot" "\<forall>ks\<in>set kss. length ks \<le> 100" "s = None \<or> s = Some slot"
  shows "collect_chunks (map rpc kss) res s = Inr (res @ map chain (concat kss), if kss = [] then s else Some slot)"
  using assms by (induction kss arbitrary: res s) (auto simp: rpc_answers_def)

lemma chunked_answers:
  assumes "rpc_answers rpc chain slot"
  shows "get_multiple_accounts_chunked rpc keys = Inr (map chain keys, slot)"
proof -
  let ?kss = "if keys = [] then [[]] else chunks MAX_RPC_ACCOUNT_LIMIT keys"
  have "\<forall>ks\<in>set ?kss. length ks \<le> 100" "concat ?kss = keys" "?kss \<noteq> []"
    using chunks_length [of _ 100 keys] chunks_concat [of 100 keys] chunks_Nil [of 100 keys]
    by (auto simp: MAX_RPC_ACCOUNT_LIMIT_def)
  then show ?thesis
    using collect_chunks_answers [OF assms, of ?kss None "[]"] by (simp add: get_multiple_accounts_chunked_def Let_def)
qed

lemma cached_answers:
  "cache_agrees chain c \<Longrightarrow> try_get_accounts_from_cache now c ks = Some accs \<Longrightarrow> map Some accs = map chain ks"
  by (induction ks arbitrary: accs) (auto simp: cache_agrees_def split: option.splits if_splits)

lemma insert_fetched_agrees:
  "cache_agrees chain c \<Longrightarrow> cache_agrees chain (insert_fetched now (zip ks (map chain ks)) c)"
proof (induction ks arbitrary: c)
  case (Cons k ks)
  show ?case
  proof (cases "chain k")
    case None
    then show ?thesis
      using Cons by simp
  next
    case (Some a)
    have "cache_agrees chain (Mapping.update k (a, now) c)"
      using Cons.prems Some unfolding cache_agrees_def lookup_update' by simp
    then show ?thesis
      using Cons.IH Some by simp
  qed
qed simp

lemma with_cache_answers:
  assumes "rpc_answers rpc chain slot" "cache_agrees chain c"
  obtains c' where "get_multiple_accounts_with_cache rpc now c ks = (c', Inr (map chain ks))" "cache_agrees chain c'"
proof (cases "try_get_accounts_from_cache now c ks")
  case None
  then show ?thesis
    using insert_fetched_agrees [OF assms(2), of now ks] chunked_answers [OF assms(1), of ks]
    by (intro that [of "insert_fetched now (zip ks (map chain ks)) c"]) (simp_all add: get_multiple_accounts_with_cache_def)
next
  case (Some accs)
  then show ?thesis
    using cached_answers [OF assms(2) Some] assms(2) by (intro that [of c]) (simp_all add: get_multiple_accounts_with_cache_def)
qed


subsection \<open>A simulation has every account it needs\<close>

definition entry_set :: "(pubkey \<times> u8 list) list \<Rightarrow> pubkey \<Rightarrow> u8 set" where
  "entry_set m k = (case map_of m k of None \<Rightarrow> {} | Some vs \<Rightarrow> set vs)"

lemma extend_entry_map_of:
  "map_of (extend_entry k vs m) = (map_of m)(k \<mapsto> remdups (case map_of m k of None \<Rightarrow> vs | Some ws \<Rightarrow> ws @ vs))"
  by (induction k vs m rule: extend_entry.induct) (auto simp: fun_eq_iff)

lemma extend_entry_keys: "fst ` set (extend_entry k vs m) = insert k (fst ` set m)"
  by (induction k vs m rule: extend_entry.induct) auto

lemma extend_entry_distinct: "distinct (map fst m) \<Longrightarrow> distinct (map fst (extend_entry k vs m))"
proof (induction k vs m rule: extend_entry.induct)
  case (2 k vs k' ws m)
  then show ?case
    using extend_entry_keys [of k vs m] by (auto simp del: set_map simp: set_map [symmetric])
qed simp

lemma entry_set_extend: "entry_set (extend_entry k vs m) k' = entry_set m k' \<union> (if k' = k then set vs else {})"
  by (auto simp: entry_set_def extend_entry_map_of split: option.splits)

lemma lookup_fold:
  fixes ls :: "MessageAddressTableLookup list"
  defines "f \<equiv> \<lambda>l. extend_entry (account_key l) (readonly_indexes l @ writable_indexes l)"
  shows "fst ` set (fold f ls m) = account_key ` set ls \<union> fst ` set m"
    and "distinct (map fst m) \<Longrightarrow> distinct (map fst (fold f ls m))"
    and "entry_set (fold f ls m) k =
      entry_set m k \<union> (\<Union>l\<in>{l \<in> set ls. account_key l = k}. set (readonly_indexes l @ writable_indexes l))"
proof -
  show "fst ` set (fold f ls m) = account_key ` set ls \<union> fst ` set m"
    by (induction ls arbitrary: m) (auto simp: f_def extend_entry_keys)
  show "distinct (map fst m) \<Longrightarrow> distinct (map fst (fold f ls m))"
    by (induction ls arbitrary: m) (auto simp: f_def extend_entry_distinct)
  show "entry_set (fold f ls m) k =
      entry_set m k \<union> (\<Union>l\<in>{l \<in> set ls. account_key l = k}. set (readonly_indexes l @ writable_indexes l))"
    by (induction ls arbitrary: m) (auto simp: f_def entry_set_extend)
qed

lemma lookup_table_keys_facts:
  "fst ` set (lookup_table_keys txs) = account_key ` set (lookups_of txs)"
  "distinct (map fst (lookup_table_keys txs))"
  "(k, is) \<in> set (lookup_table_keys txs) \<Longrightarrow>
     set is = (\<Union>l\<in>{l \<in> set (lookups_of txs). account_key l = k}. set (readonly_indexes l @ writable_indexes l))"
proof -
  note f = lookup_fold [where ls = "lookups_of txs" and m = "[]"]
  show "fst ` set (lookup_table_keys txs) = account_key ` set (lookups_of txs)"
    "distinct (map fst (lookup_table_keys txs))"
    using f(1,2) by (simp_all add: lookup_table_keys_def)
  then show "(k, is) \<in> set (lookup_table_keys txs) \<Longrightarrow>
     set is = (\<Union>l\<in>{l \<in> set (lookups_of txs). account_key l = k}. set (readonly_indexes l @ writable_indexes l))"
    using f(3) [of k] by (simp add: lookup_table_keys_def entry_set_def)
qed

text \<open>
  A lookup table in use is active, and every index used is in range; then a lookup gives the addresses
  at the indexes.
\<close>

definition table_of :: "'s sim_library \<Rightarrow> (pubkey \<Rightarrow> chain_account option) \<Rightarrow> pubkey \<Rightarrow> lookup_table option" where
  "table_of lib chain k = Option.bind (chain k) (\<lambda>a. deserialize_table lib (ca_data a))"

definition indexes_of :: "MessageAddressTableLookup \<Rightarrow> u8 set" where
  "indexes_of l = set (readonly_indexes l @ writable_indexes l)"

definition active :: "lookup_table \<Rightarrow> bool" where
  "active table \<longleftrightarrow> (\<forall>is. lt_lookup table (lt_last_extended_slot table + 1) is =
     (if \<forall>i\<in>set is. unat i < length (lt_addresses table) then Some (map (\<lambda>i. lt_addresses table ! unat i) is) else None))"

definition tables_usable :: "'s sim_library \<Rightarrow> (pubkey \<Rightarrow> chain_account option) \<Rightarrow> tx list \<Rightarrow> bool" where
  "tables_usable lib chain txs \<longleftrightarrow> (\<forall>l\<in>set (lookups_of txs). \<forall>table. table_of lib chain (account_key l) = Some table \<longrightarrow>
     active table \<and> (\<forall>i\<in>indexes_of l. unat i < length (lt_addresses table)))"

definition looked_up :: "'s sim_library \<Rightarrow> (pubkey \<Rightarrow> chain_account option) \<Rightarrow> MessageAddressTableLookup \<Rightarrow> pubkey set" where
  "looked_up lib chain l =
     (case table_of lib chain (account_key l) of
        None \<Rightarrow> {} | Some table \<Rightarrow> (\<lambda>i. lt_addresses table ! unat i) ` indexes_of l)"

text \<open>What a list of transactions names: the keys in their messages, their lookup tables and what they look up.\<close>

definition needed_accounts :: "'s sim_library \<Rightarrow> (pubkey \<Rightarrow> chain_account option) \<Rightarrow> tx list \<Rightarrow> pubkey set" where
  "needed_accounts lib chain txs =
     (\<Union>t\<in>set txs. set (static_account_keys (message t))) \<union>
     (\<Union>l\<in>set (lookups_of txs). insert (account_key l) (looked_up lib chain l))"

definition hash_orders :: "'s sim_library \<Rightarrow> bool" where
  "hash_orders lib \<longleftrightarrow> (\<forall>ks. mset (order_keys lib ks) = mset ks) \<and> (\<forall>ts. mset (order_tables lib ts) = mset ts)"

lemma table_addresses_set:
  assumes "tables_usable lib chain txs" "(k, is) \<in> set (lookup_table_keys txs)"
  shows "set (table_addresses lib is (chain k)) = (\<Union>l\<in>{l \<in> set (lookups_of txs). account_key l = k}. looked_up lib chain l)"
proof (cases "table_of lib chain k")
  case None
  then show ?thesis
    by (auto simp: table_addresses_def table_of_def looked_up_def)
next
  case (Some table)
  have ixs: "set is = (\<Union>l\<in>{l \<in> set (lookups_of txs). account_key l = k}. indexes_of l)"
    using lookup_table_keys_facts(3) [OF assms(2)] by (simp add: indexes_of_def)
  have "k \<in> account_key ` set (lookups_of txs)"
    using assms(2) lookup_table_keys_facts(1) [of txs] by force
  then have "active table" "\<forall>i\<in>set is. unat i < length (lt_addresses table)"
    using assms(1) Some unfolding ixs by (auto simp: tables_usable_def)
  then have "table_addresses lib is (chain k) = map (\<lambda>i. lt_addresses table ! unat i) is"
    using Some by (simp add: table_addresses_def active_def table_of_def unwrap_or_def)
  then show ?thesis
    using ixs Some by (auto simp: looked_up_def)
qed

lemma resolve_lookup_addresses_set:
  assumes "rpc_answers (rpc 0) chain slot" "cache_agrees chain c" "hash_orders lib" "tables_usable lib chain txs"
  obtains c' resolved where "resolve_lookup_addresses lib rpc now c txs = (c', Inr resolved)" "cache_agrees chain c'"
    "set resolved = (\<Union>l\<in>set (lookups_of txs). insert (account_key l) (looked_up lib chain l))"
proof -
  define tables where "tables = order_tables lib (lookup_table_keys txs)"
  have tables: "set tables = set (lookup_table_keys txs)"
    using assms(3) by (metis tables_def hash_orders_def set_mset_mset)
  obtain c' where c': "get_multiple_accounts_with_cache (rpc 0) now c (map fst tables) = (c', Inr (map chain (map fst tables)))"
    "cache_agrees chain c'"
    using with_cache_answers [OF assms(1,2)] .
  let ?resolved = "concat (map (\<lambda>((table, indexes), acc). table # table_addresses lib indexes acc) (zip tables (map chain (map fst tables))))"
  have "?resolved = concat (map (\<lambda>(table, indexes). table # table_addresses lib indexes (chain table)) tables)"
    by (simp add: zip_map2 zip_same_conv_map case_prod_unfold comp_def)
  then have "set ?resolved = (\<Union>(k, is)\<in>set (lookup_table_keys txs). insert k (set (table_addresses lib is (chain k))))"
    by (auto simp: tables case_prod_unfold)
  also have "\<dots> = (\<Union>(k, is)\<in>set (lookup_table_keys txs).
      insert k (\<Union>l\<in>{l \<in> set (lookups_of txs). account_key l = k}. looked_up lib chain l))"
    using table_addresses_set [OF assms(4)] by (intro SUP_cong) auto
  also have "\<dots> = (\<Union>k\<in>fst ` set (lookup_table_keys txs).
      insert k (\<Union>l\<in>{l \<in> set (lookups_of txs). account_key l = k}. looked_up lib chain l))"
    by (simp add: case_prod_unfold)
  also have "\<dots> = (\<Union>l\<in>set (lookups_of txs). insert (account_key l) (looked_up lib chain l))"
    by (auto simp: lookup_table_keys_facts(1))
  finally show ?thesis
    using c' by (intro that [of c' ?resolved]) (simp_all add: resolve_lookup_addresses_def Let_def tables_def [symmetric])
qed

lemma insert_present_map_of:
  "map_of (insert_present (zip ks (map f ks)) m) k = (if k \<in> set ks \<and> f k \<noteq> None then f k else map_of m k)"
proof (induction ks arbitrary: m)
  case (Cons j ks)
  then show ?case
    by (cases "f j") (auto simp: insert_present_def AList.update_conv')
qed (simp add: insert_present_def)

lemma fetch_tx_accounts:
  assumes "rpc_answers (rpc 0) lasting s0" "rpc_answers (rpc 1) current s1" "rpc_answers (rpc 2) lasting s2"
    and "cache_agrees lasting c" "hash_orders lib" "tables_usable lib lasting txs"
  obtains c' config where "fetch_tx_accounts_via_rpc lib rpc now c txs = (c', Inr (config, s1))" "cache_agrees lasting c'"
    "map_of (ac_accounts config) = current |` needed_accounts lib lasting txs"
    "map_of (ac_programs_data config) =
       lasting |` {d. \<exists>k\<in>needed_accounts lib lasting txs. Option.bind (current k) (program_data_of lib) = Some d}"
proof -
  obtain c1 resolved where r: "resolve_lookup_addresses lib rpc now c txs = (c1, Inr resolved)" "cache_agrees lasting c1"
    "set resolved = (\<Union>l\<in>set (lookups_of txs). insert (account_key l) (looked_up lib lasting l))"
    using resolve_lookup_addresses_set [where rpc = rpc, OF assms(1,4,5,6)] .
  define keys where "keys = order_keys lib (remdups (concat (map (\<lambda>t. static_account_keys (message t)) txs) @ resolved))"
  have keys: "set keys = needed_accounts lib lasting txs"
  proof -
    have "set keys = set (remdups (concat (map (\<lambda>t. static_account_keys (message t)) txs) @ resolved))"
      using assms(5) unfolding keys_def hash_orders_def by (metis set_mset_mset)
    then show ?thesis
      by (auto simp: needed_accounts_def r(3))
  qed
  define programs where "programs = List.map_filter (\<lambda>k. Option.bind (current k) (program_data_of lib)) keys"
  have programs: "set programs = {d. \<exists>k\<in>needed_accounts lib lasting txs. Option.bind (current k) (program_data_of lib) = Some d}"
    by (force simp: programs_def map_filter_def keys [symmetric])
  have found: "List.map_filter (\<lambda>acc. Option.bind acc (program_data_of lib)) (map snd (zip keys (map current keys))) = programs"
    by (simp add: programs_def map_filter_def filter_map comp_def)
  obtain c2 where c2: "get_multiple_accounts_with_cache (rpc 2) now c1 programs = (c2, Inr (map lasting programs))"
    "cache_agrees lasting c2"
    using with_cache_answers [OF assms(3) r(2)] .
  show ?thesis
    using r(1) c2 chunked_answers [OF assms(2), of keys] found
    by (intro that [of c2 "\<lparr>ac_accounts = insert_present (zip keys (map current keys)) [],
          ac_programs_data = insert_present (zip programs (map lasting programs)) []\<rparr>"])
      (auto simp: fetch_tx_accounts_via_rpc_def Let_def keys_def [symmetric] AccountsConfig_new_def fun_eq_iff
        insert_present_map_of restrict_map_def keys programs simp del: map_map)
qed


definition recent_pending :: "time \<Rightarrow> simulator \<Rightarrow> tx list" where
  "recent_pending now sm = snd (fetch_pending_and_remove_old_txs now (sm_pending sm))"


text \<open>A chain with a lookup table, seen by a transaction that uses its second address.\<close>

definition sample_chain :: "pubkey \<Rightarrow> chain_account option" where
  "sample_chain k = (if k \<in> {1, 2, 8, 9} then Some \<lparr>ca_lamports = 5, ca_owner = 0, ca_data = []\<rparr> else None)"

definition sample_table :: lookup_table where
  "sample_table = \<lparr>lt_last_extended_slot = 3, lt_addresses = [8, 9], lt_lookup = (\<lambda>_ is.
     if list_all (\<lambda>i. unat i < 2) is then Some (map (\<lambda>i. [8, 9] ! unat i) is) else None)\<rparr>"

definition sample_sim_library :: "(pubkey \<Rightarrow> chain_account option) sim_library" where
  "sample_sim_library =
     \<lparr>order_tables = rev, order_keys = rev, deserialize_table = (\<lambda>_. Some sample_table), program_data_address = (\<lambda>_. None),
      vm_new = (\<lambda>_. None), vm_warp_to_slot = (\<lambda>_ svm. svm), vm_get_clock = (\<lambda>_. \<lparr>clk_slot = 0, clk_unix_timestamp = 0\<rparr>),
      vm_set_clock = (\<lambda>_ svm. svm), vm_set_account = (\<lambda>k a svm. (svm(k \<mapsto> a), True)), vm_send = (\<lambda>svm _. (svm, True)),
      vm_simulate = (\<lambda>svm _. Inr \<lparr>si_post_accounts = [], si_logs = (case svm 9 of None \<Rightarrow> [] | Some _ \<Rightarrow> [''seen''])\<rparr>),
      vm_minimum_balance = (\<lambda>_ _. 0), show_pubkey = (\<lambda>_. [])\<rparr>"

definition sample_lookup_tx :: tx where
  "sample_lookup_tx = \<lparr>signatures = [], message = \<lparr>static_account_keys = [1], instructions = [],
     address_table_lookups = Some [\<lparr>account_key = 2, writable_indexes = [1], readonly_indexes = []\<rparr>], msg_rest = []\<rparr>\<rparr>"

definition sample_simulator :: simulator where
  "sample_simulator = \<lparr>sm_pending = [], sm_cache = Mapping.empty\<rparr>"


end
