(* ===== verification/As_Kernel.thy ===== *)
theory As_Kernel
  imports As_Opportunity As_Db
begin

section \<open>Auction server: the kernel's workers\<close>

text \<open>
  \<open>kernel/pyth_lazer.rs\<close> and \<open>kernel/workers.rs\<close>: the price feed (its subscription, its connection
  loop, the table of prices it keeps, the value of an amount in cents) and the worker that deletes old rows
  from the database. Conversion of a value to a floating-point number, logging and metrics are left out; the
  socket is given by what it yields, and the database's order of rows by a list of ids.
\<close>

subsection \<open>Price feeds\<close>

record PriceFeed =
  pf_id :: u32
  pf_mint :: pubkey
  pf_exponent :: "32 word"

record Price =
  pr_exponent :: "32 word"
  pr_price :: u64

record PythLazer =
  pl_url :: string
  pl_api_key :: string
  pl_price_feeds :: "(u32 \<times> PriceFeed) list"

definition PythLazer_new :: "string \<Rightarrow> string \<Rightarrow> PriceFeed list \<Rightarrow> PythLazer" where
  "PythLazer_new url key feeds =
     \<lparr>pl_url = url, pl_api_key = key, pl_price_feeds = fold (\<lambda>f. AList.update (pf_id f) f) feeds []\<rparr>"

record PriceFeedSubscriptionUpdate =
  pu_id :: u32
  pu_price :: string

record StreamUpdatedMessage =
  su_id :: u32
  su_price_feeds :: "PriceFeedSubscriptionUpdate list"

record SubscribeRequest =
  sr_subscription_id :: u32
  sr_price_feed_ids :: "u32 list"
  sr_properties :: "string list"
  sr_channel :: string
  sr_chains :: "string list"

definition subscribe_request :: "PythLazer \<Rightarrow> SubscribeRequest" where
  "subscribe_request p = \<lparr>sr_subscription_id = 1, sr_price_feed_ids = map fst (pl_price_feeds p),
     sr_properties = [''price''], sr_channel = ''fixed_rate@200ms'', sr_chains = [''solana'']\<rparr>"

text \<open>The connection loop; \<open>None\<close> for a message that cannot be decoded, \<open>Some None\<close> for \<open>Subscribed\<close>.\<close>

datatype lazer_message =
    LazerText "StreamUpdatedMessage option option"
  | LazerBinary "StreamUpdatedMessage option option"
  | LazerClose
  | LazerPong
  | LazerPing
  | LazerFrame

datatype lazer_event = LazerNext "(unit + lazer_message) option" | LazerTick

record lazer_client =
  lc_latest_update :: time
  lc_running :: bool
  lc_updates :: "StreamUpdatedMessage list"

definition MAXIMUM_INACTIVITY :: time where
  "MAXIMUM_INACTIVITY = seconds 5"

definition lazer_decoded :: "StreamUpdatedMessage option option \<Rightarrow> lazer_client \<Rightarrow> lazer_client" where
  "lazer_decoded m c = (case m of Some (Some u) \<Rightarrow> c\<lparr>lc_updates := lc_updates c @ [u]\<rparr> | _ \<Rightarrow> c)"

definition lazer_step :: "time \<Rightarrow> lazer_event \<Rightarrow> lazer_client \<Rightarrow> lazer_client" where
  "lazer_step now e c =
     (if \<not> lc_running c then c
      else case e of
        LazerTick \<Rightarrow> if now - lc_latest_update c > MAXIMUM_INACTIVITY then c\<lparr>lc_running := False\<rparr> else c
      | LazerNext None \<Rightarrow> c\<lparr>lc_running := False\<rparr>
      | LazerNext (Some (Inl _)) \<Rightarrow> c
      | LazerNext (Some (Inr m)) \<Rightarrow>
          let c1 = c\<lparr>lc_latest_update := now\<rparr>
          in (case m of
                LazerText u \<Rightarrow> lazer_decoded u c1
              | LazerBinary u \<Rightarrow> lazer_decoded u c1
              | LazerClose \<Rightarrow> c1\<lparr>lc_running := False\<rparr>
              | LazerPong \<Rightarrow> c1
              | LazerPing \<Rightarrow> c1
              | LazerFrame \<Rightarrow> c1))"


subsection \<open>The table of prices\<close>

text \<open>\<open>parse::<u64>\<close>: digits after an optional plus sign, that fit.\<close>

definition is_digit :: "char \<Rightarrow> bool" where
  "is_digit c \<longleftrightarrow> 48 \<le> (of_char c :: nat) \<and> (of_char c :: nat) \<le> 57"

definition digits_value :: "string \<Rightarrow> nat" where
  "digits_value = foldl (\<lambda>a c. 10 * a + (of_char c - 48)) 0"

definition parse_u64 :: "string \<Rightarrow> u64 option" where
  "parse_u64 s =
     (let ds = (case s of c # cs \<Rightarrow> if c = CHR ''+'' then cs else s | [] \<Rightarrow> [])
      in if ds \<noteq> [] \<and> list_all is_digit ds \<and> digits_value ds < 2 ^ 64 then Some (of_nat (digits_value ds)) else None)"

text \<open>A feed that is not known, or a price that is not a number, is passed over.\<close>

definition price_update :: "PythLazer \<Rightarrow> PriceFeedSubscriptionUpdate \<Rightarrow> (pubkey \<times> Price) option" where
  "price_update lazer u =
     (case map_of (pl_price_feeds lazer) (pu_id u) of
        None \<Rightarrow> None
      | Some feed \<Rightarrow>
          (case parse_u64 (pu_price u) of
             None \<Rightarrow> None
           | Some value \<Rightarrow> Some (pf_mint feed, \<lparr>pr_exponent = pf_exponent feed, pr_price = value\<rparr>)))"

definition apply_price_updates :: "PythLazer \<Rightarrow> StreamUpdatedMessage \<Rightarrow> (pubkey \<rightharpoonup> Price) \<Rightarrow> (pubkey \<rightharpoonup> Price)" where
  "apply_price_updates lazer m prices =
     fold (\<lambda>(mint, p) ps. ps(mint \<mapsto> p)) (List.map_filter (price_update lazer) (su_price_feeds m)) prices"

text \<open>The worker ends with an error when the receiver fails; whoever runs it starts it again.\<close>

fun run_price_subscription ::
  "PythLazer \<Rightarrow> (unit + StreamUpdatedMessage) list \<Rightarrow> (pubkey \<rightharpoonup> Price) \<Rightarrow> (pubkey \<rightharpoonup> Price) \<times> (unit + unit)" where
  "run_price_subscription lazer [] prices = (prices, Inr ())"
| "run_price_subscription lazer (Inl _ # us) prices = (prices, Inl ())"
| "run_price_subscription lazer (Inr m # us) prices = run_price_subscription lazer us (apply_price_updates lazer m prices)"


subsection \<open>The value of an amount\<close>

text \<open>
  \<open>10u128.checked_pow(n)\<close>. The exponent of a price is an \<open>i32\<close>: negating it wraps around, and it is read
  as an unsigned number.
\<close>

definition checked_pow10 :: "nat \<Rightarrow> 128 word option" where
  "checked_pow10 n = (if (10::nat) ^ n < 2 ^ 128 then Some (of_nat (10 ^ n)) else None)"

text \<open>The value in cents, which the code then turns into a floating-point number of whole units.\<close>

definition calculate_notional_value :: "Price option \<Rightarrow> u64 \<Rightarrow> u8 option \<Rightarrow> 128 word option" where
  "calculate_notional_value price amount decimals =
     (case (price, decimals) of
        (Some p, Some d) \<Rightarrow> do {
          unit_divisor \<leftarrow> checked_pow10 (unat d);
          _ \<leftarrow> (if sint (pr_exponent p) > 0 then None else Some ());
          exponent_divisor \<leftarrow> checked_pow10 (unat (- pr_exponent p));
          v \<leftarrow> checked_mul (ucast amount :: 128 word) (ucast (pr_price p));
          v \<leftarrow> checked_mul v 100;
          v \<leftarrow> (if unit_divisor = 0 then None else Some (v div unit_divisor));
          (if exponent_divisor = 0 then None else Some (v div exponent_divisor))
        }
      | _ \<Rightarrow> None)"


subsection \<open>Deleting history\<close>

definition DELETE_BATCH_SIZE :: nat where
  "DELETE_BATCH_SIZE = 5000"

record DeletePgRowsOptions =
  delete_enabled :: bool
  delete_interval_secs :: u64
  delete_threshold_secs :: u64

definition threshold :: "time \<Rightarrow> u64 \<Rightarrow> time" where
  "threshold now secs = now - seconds (uint secs)"

definition delete_ids :: "uuid list \<Rightarrow> (uuid \<Rightarrow> 'r option) \<Rightarrow> (uuid \<Rightarrow> 'r option)" where
  "delete_ids ids rows = (\<lambda>i. if i \<in> set ids then None else rows i)"

text \<open>\<open>scan\<close> is the order in which the database finds its rows.\<close>

definition old_ids :: "uuid list \<Rightarrow> ('r \<Rightarrow> bool) \<Rightarrow> (uuid \<Rightarrow> 'r option) \<Rightarrow> uuid list" where
  "old_ids scan old rows =
     take DELETE_BATCH_SIZE (filter (\<lambda>i. case rows i of Some r \<Rightarrow> old r | None \<Rightarrow> False) scan)"

definition delete_pg_db_bid_history :: "uuid list \<Rightarrow> time \<Rightarrow> u64 \<Rightarrow> 'm db \<Rightarrow> unit + 'm db" where
  "delete_pg_db_bid_history scan now secs d =
     (if \<not> db_up d then Inl ()
      else Inr (d\<lparr>db_bids := delete_ids (old_ids scan (\<lambda>r. r_creation_time r < threshold now secs) (db_bids d)) (db_bids d)\<rparr>))"

definition delete_pg_db_auction_history :: "uuid list \<Rightarrow> time \<Rightarrow> u64 \<Rightarrow> 'm db \<Rightarrow> unit + 'm db" where
  "delete_pg_db_auction_history scan now secs d =
     (if \<not> db_up d then Inl ()
      else Inr (d\<lparr>db_auctions := delete_ids (old_ids scan (\<lambda>r. ar_creation_time r < threshold now secs) (db_auctions d)) (db_auctions d)\<rparr>))"

text \<open>Opportunities that are not removed are kept, however old.\<close>

definition opportunity_deletable :: "string \<Rightarrow> time \<Rightarrow> opp_row \<Rightarrow> bool" where
  "opportunity_deletable chain before r \<longleftrightarrow> o_chain_id (or_opportunity r) = chain \<and>
     o_creation_time (or_opportunity r) < before \<and> or_removal_time r \<noteq> None"

definition delete_pg_db_opportunity_history ::
  "bool \<Rightarrow> uuid list \<Rightarrow> string \<Rightarrow> time \<Rightarrow> u64 \<Rightarrow> (uuid \<Rightarrow> opp_row option) \<Rightarrow> unit + (uuid \<Rightarrow> opp_row option)" where
  "delete_pg_db_opportunity_history up scan chain now secs rows =
     (if \<not> up then Inl () else Inr (delete_ids (old_ids scan (opportunity_deletable chain (threshold now secs)) rows) rows))"

record 'm pg =
  pg_db :: "'m db"
  pg_opportunities :: "uuid \<Rightarrow> opp_row option"

text \<open>One round of the worker; \<open>scan\<close> gives the order of rows for each of its queries.\<close>

fun delete_opportunities_of_chains ::
  "(string \<Rightarrow> uuid list) \<Rightarrow> time \<Rightarrow> u64 \<Rightarrow> string list \<Rightarrow> 'm pg \<Rightarrow> unit + 'm pg" where
  "delete_opportunities_of_chains scan now secs [] p = Inr p"
| "delete_opportunities_of_chains scan now secs (ch # chs) p =
     rbind (delete_pg_db_opportunity_history (db_up (pg_db p)) (scan ch) ch now secs (pg_opportunities p)) (\<lambda>rows.
       delete_opportunities_of_chains scan now secs chs (p\<lparr>pg_opportunities := rows\<rparr>))"

definition delete_history_round ::
  "uuid list \<Rightarrow> (string \<Rightarrow> uuid list) \<Rightarrow> uuid list \<Rightarrow> time \<Rightarrow> string list \<Rightarrow> DeletePgRowsOptions \<Rightarrow> 'm pg \<Rightarrow> unit + 'm pg" where
  "delete_history_round scan_bids scan_opps scan_auctions now chain_ids options p =
     (if \<not> delete_enabled options then Inr p
      else
        rbind (delete_pg_db_bid_history scan_bids now (delete_threshold_secs options) (pg_db p)) (\<lambda>d.
        rbind (delete_opportunities_of_chains scan_opps now (delete_threshold_secs options) chain_ids (p\<lparr>pg_db := d\<rparr>)) (\<lambda>p1.
        rbind (delete_pg_db_auction_history scan_auctions now (delete_threshold_secs options) (pg_db p1)) (\<lambda>d1.
          Inr (p1\<lparr>pg_db := d1\<rparr>)))))"


subsection \<open>The value is exact to the cent\<close>

lemma checked_pow10_Some: "checked_pow10 n = Some w \<longleftrightarrow> (10::nat) ^ n < 2 ^ 128 \<and> w = of_nat (10 ^ n)"
  by (auto simp: checked_pow10_def)

lemma unat_of_nat_128: "n < 2 ^ 128 \<Longrightarrow> unat (of_nat n :: 128 word) = n"
  unfolding unsigned_of_nat by (simp only: of_nat_id) (intro take_bit_nat_eq_self, simp)

lemma unat_minus_exponent:
  assumes "sint (e :: 32 word) \<le> 0"
  shows "unat (- e) = nat (- sint e)"
proof -
  have r: "- (2 ^ 31) \<le> sint e"
    using sint_ge [of e] by simp
  have "uint (- e) = uint (word_of_int (- sint e) :: 32 word)"
    by simp
  also have "\<dots> = - sint e"
    unfolding uint_word_of_int using r assms by simp
  finally show ?thesis
    by (simp flip: nat_uint_eq)
qed

lemma unat_div_128: "unat ((v :: 128 word) div w) = unat v div unat w"
  by (rule unat_div)

text \<open>
  The value of an amount is its exact value rounded down to the cent, or there is none: for a token without
  price or decimals, a positive exponent, and powers or products that do not fit into 128 bits.
\<close>

theorem notional_value_exact:
  "calculate_notional_value (Some p) amount (Some d) =
     (let scale = (10::nat) ^ nat (- sint (pr_exponent p)); cents = unat amount * unat (pr_price p) * 100
      in if sint (pr_exponent p) > 0 \<or> (10::nat) ^ unat d \<ge> 2 ^ 128 \<or> scale \<ge> 2 ^ 128 \<or> cents \<ge> 2 ^ 128 then None
         else Some (of_nat (cents div (10 ^ unat d * scale))))"
proof (cases "sint (pr_exponent p) > 0 \<or> (10::nat) ^ unat d \<ge> 2 ^ 128")
  case True
  then show ?thesis
    by (auto simp: calculate_notional_value_def checked_pow10_def Let_def)
next
  case False
  define n where "n = nat (- sint (pr_exponent p))"
  have n: "unat (- pr_exponent p) = n"
    using False by (simp add: n_def unat_minus_exponent)
  have small: "unat amount * unat (pr_price p) < 2 ^ 128"
  proof -
    have "unat amount < 2 ^ 64" "unat (pr_price p) < 2 ^ 64"
      using unat_u64_less [of amount] unat_u64_less [of "pr_price p"] by simp_all
    then have "unat amount * unat (pr_price p) < 2 ^ 64 * 2 ^ 64"
      by (intro mult_strict_mono) auto
    then show ?thesis
      by simp
  qed
  have up: "unat (ucast x :: 128 word) = unat x" for x :: u64
    by (simp add: unsigned_ucast_eq take_bit_nat_eq_self unat_u64_less order_less_trans [OF unat_u64_less])
  have product: "checked_mul (ucast amount :: 128 word) (ucast (pr_price p)) = Some (ucast amount * ucast (pr_price p))"
    "unat ((ucast amount :: 128 word) * ucast (pr_price p)) = unat amount * unat (pr_price p)"
    using small by (auto simp: checked_mul_def up unat_mult_small)
  define c where "c = unat amount * unat (pr_price p) * 100"
  have hundred: "checked_mul (ucast amount * ucast (pr_price p)) (100 :: 128 word) =
      (if c < 2 ^ 128 then Some (of_nat c) else None)"
    using product(2) by (auto simp: checked_mul_def c_def word_unat_eq_iff unat_of_nat_128 unat_mult_small)
  have nz: "(of_nat (10 ^ k) :: 128 word) \<noteq> 0" if "(10::nat) ^ k < 2 ^ 128" for k
    using unat_of_nat_128 [OF that] by (metis power_eq_0_iff unat_0 zero_neq_numeral)
  have quotient: "(of_nat c :: 128 word) div of_nat (10 ^ unat d) div of_nat (10 ^ n) = of_nat (c div (10 ^ unat d * 10 ^ n))"
    if "c < 2 ^ 128" "(10::nat) ^ n < 2 ^ 128"
  proof -
    have "c div (10 ^ unat d * 10 ^ n) < 2 ^ 128"
      using that(1) by (meson div_le_dividend le_less_trans)
    then show ?thesis
      using False that by (simp add: word_unat_eq_iff unat_div_128 unat_of_nat_128 div_mult2_eq del: of_nat_power)
  qed
  show ?thesis
    using False nz [of n] nz [of "unat d"] quotient
    by (auto simp: calculate_notional_value_def checked_pow10_def n product(1) hundred Let_def n_def [symmetric] c_def [symmetric]
        simp del: of_nat_power)
qed


subsection \<open>What a deletion removes\<close>

text \<open>\<open>rows'\<close> is \<open>rows\<close> without at most a batch of rows, all of them \<open>old\<close>.\<close>

definition batch_deleted :: "('r \<Rightarrow> bool) \<Rightarrow> (uuid \<Rightarrow> 'r option) \<Rightarrow> (uuid \<Rightarrow> 'r option) \<Rightarrow> bool" where
  "batch_deleted old rows rows' \<longleftrightarrow>
     (\<forall>i. rows' i = rows i \<or> rows' i = None \<and> (\<exists>r. rows i = Some r \<and> old r)) \<and>
     card {i. rows' i \<noteq> rows i} \<le> DELETE_BATCH_SIZE"

lemma old_ids_old: "i \<in> set (old_ids scan old rows) \<Longrightarrow> i \<in> set scan \<and> (\<exists>r. rows i = Some r \<and> old r)"
  unfolding old_ids_def by (drule in_set_takeD) (auto split: option.splits)

lemma delete_old_batch: "batch_deleted old rows (delete_ids (old_ids scan old rows) rows)"
proof -
  have "{i. delete_ids (old_ids scan old rows) rows i \<noteq> rows i} \<subseteq> set (old_ids scan old rows)"
    by (auto simp: delete_ids_def split: if_splits)
  then have "card {i. delete_ids (old_ids scan old rows) rows i \<noteq> rows i} \<le> card (set (old_ids scan old rows))"
    by (rule card_mono [OF finite_set])
  also have "\<dots> \<le> DELETE_BATCH_SIZE"
    using card_length [of "old_ids scan old rows"] by (simp add: old_ids_def)
  finally show ?thesis
    using old_ids_old [of _ scan old rows] by (auto simp: batch_deleted_def delete_ids_def)
qed

text \<open>A round leaves no old row when there were no more than a batch of them.\<close>

lemma delete_old_all:
  assumes "dom rows \<subseteq> set scan" "length (filter (\<lambda>i. case rows i of Some r \<Rightarrow> old r | None \<Rightarrow> False) scan) \<le> DELETE_BATCH_SIZE"
    and "delete_ids (old_ids scan old rows) rows i = Some r"
  shows "\<not> old r"
proof
  assume "old r"
  have "rows i = Some r"
    using assms(3) by (simp add: delete_ids_def split: if_splits)
  with \<open>old r\<close> have "i \<in> set (old_ids scan old rows)"
    using assms(1,2) by (auto simp: old_ids_def)
  with assms(3) show False
    by (simp add: delete_ids_def)
qed

lemma batch_deleted_keeps: "batch_deleted old rows rows' \<Longrightarrow> rows i = Some r \<Longrightarrow> \<not> old r \<Longrightarrow> rows' i = Some r"
  unfolding batch_deleted_def by (metis option.inject)

lemma batch_deleted_only: "batch_deleted old rows rows' \<Longrightarrow> rows' i = Some r \<Longrightarrow> rows i = Some r"
  unfolding batch_deleted_def by (metis option.distinct(1))

definition chain_rows :: "(string \<Rightarrow> uuid list) \<Rightarrow> time \<Rightarrow> u64 \<Rightarrow> string \<Rightarrow> (uuid \<Rightarrow> opp_row option) \<Rightarrow> (uuid \<Rightarrow> opp_row option)" where
  "chain_rows scan now secs ch rows = delete_ids (old_ids (scan ch) (opportunity_deletable ch (threshold now secs)) rows) rows"

lemma chain_rows_batch: "batch_deleted (opportunity_deletable ch (threshold now secs)) rows (chain_rows scan now secs ch rows)"
  unfolding chain_rows_def by (rule delete_old_batch)

lemma delete_opportunities_Cons:
  "delete_opportunities_of_chains scan now secs (ch # chs) p =
     (if db_up (pg_db p)
      then delete_opportunities_of_chains scan now secs chs (p\<lparr>pg_opportunities := chain_rows scan now secs ch (pg_opportunities p)\<rparr>)
      else Inl ())"
  by (simp add: delete_pg_db_opportunity_history_def chain_rows_def)

lemma delete_opportunities_run:
  "delete_opportunities_of_chains scan now secs chs p = Inr p' \<Longrightarrow>
     p' = p\<lparr>pg_opportunities := fold (chain_rows scan now secs) chs (pg_opportunities p)\<rparr>"
proof (induction chs arbitrary: p)
  case (Cons ch chs)
  let ?p = "p\<lparr>pg_opportunities := chain_rows scan now secs ch (pg_opportunities p)\<rparr>"
  have "delete_opportunities_of_chains scan now secs chs ?p = Inr p'"
    using Cons.prems unfolding delete_opportunities_Cons by (simp split: if_splits)
  from Cons.IH [OF this] show ?case
    by simp
qed simp

lemma chain_rows_fold:
  "fold (chain_rows scan now secs) chs rows i = Some r \<Longrightarrow> rows i = Some r"
  "rows i = Some r \<Longrightarrow> \<forall>ch\<in>set chs. \<not> opportunity_deletable ch (threshold now secs) r \<Longrightarrow>
     fold (chain_rows scan now secs) chs rows i = Some r"
proof (induction chs arbitrary: rows)
  case (Cons ch chs)
  {
    case 1
    from 1 have "chain_rows scan now secs ch rows i = Some r"
      by (simp add: Cons.IH(1))
    then show ?case
      by (rule batch_deleted_only [OF chain_rows_batch])
  next
    case 2
    from 2 have "chain_rows scan now secs ch rows i = Some r"
      by (intro batch_deleted_keeps [OF chain_rows_batch]) auto
    then show ?case
      using Cons.IH(2) [of "chain_rows scan now secs ch rows"] 2(2) by simp
  }
qed simp_all

lemma round_result:
  assumes "delete_history_round scan_bids scan_opps scan_auctions now chain_ids options p = Inr p'" "delete_enabled options"
  defines "secs \<equiv> delete_threshold_secs options"
  shows "db_bids (pg_db p') =
      delete_ids (old_ids scan_bids (\<lambda>r. r_creation_time r < threshold now secs) (db_bids (pg_db p))) (db_bids (pg_db p))"
    and "db_auctions (pg_db p') =
      delete_ids (old_ids scan_auctions (\<lambda>r. ar_creation_time r < threshold now secs) (db_auctions (pg_db p))) (db_auctions (pg_db p))"
    and "pg_opportunities p' = fold (chain_rows scan_opps now secs) chain_ids (pg_opportunities p)"
proof -
  obtain d p1 d1 where
    d: "delete_pg_db_bid_history scan_bids now secs (pg_db p) = Inr d"
    and p1: "delete_opportunities_of_chains scan_opps now secs chain_ids (p\<lparr>pg_db := d\<rparr>) = Inr p1"
    and d1: "delete_pg_db_auction_history scan_auctions now secs (pg_db p1) = Inr d1"
    and p': "p' = p1\<lparr>pg_db := d1\<rparr>"
    using assms(1,2) unfolding delete_history_round_def secs_def by (simp add: rbind_Inr_iff) blast
  note p1 = delete_opportunities_run [OF p1]
  have d': "d = (pg_db p)\<lparr>db_bids := delete_ids (old_ids scan_bids (\<lambda>r. r_creation_time r < threshold now secs) (db_bids (pg_db p)))
      (db_bids (pg_db p))\<rparr>"
    using d unfolding delete_pg_db_bid_history_def by (auto split: if_splits)
  have "pg_db p1 = d" "pg_opportunities p1 = fold (chain_rows scan_opps now secs) chain_ids (pg_opportunities p)"
    using p1 by simp_all
  then show "db_bids (pg_db p') =
      delete_ids (old_ids scan_bids (\<lambda>r. r_creation_time r < threshold now secs) (db_bids (pg_db p))) (db_bids (pg_db p))"
    "db_auctions (pg_db p') =
      delete_ids (old_ids scan_auctions (\<lambda>r. ar_creation_time r < threshold now secs) (db_auctions (pg_db p))) (db_auctions (pg_db p))"
    "pg_opportunities p' = fold (chain_rows scan_opps now secs) chain_ids (pg_opportunities p)"
    using d' d1 p' unfolding delete_pg_db_auction_history_def by (auto split: if_splits)
qed

text \<open>
  Property C40. A round of the worker that deletes history never changes a row it keeps, keeps every bid and
  auction younger than the threshold, and every opportunity that is younger, of another chain, or not
  removed yet (so the live ones); of bids and of auctions it deletes at most a batch.
\<close>

theorem history_deletion_keeps_recent_and_live:
  assumes "delete_history_round scan_bids scan_opps scan_auctions now chain_ids options p = Inr p'"
  shows "batch_deleted (\<lambda>r. r_creation_time r < threshold now (delete_threshold_secs options)) (db_bids (pg_db p)) (db_bids (pg_db p')) \<and>
    batch_deleted (\<lambda>r. ar_creation_time r < threshold now (delete_threshold_secs options)) (db_auctions (pg_db p)) (db_auctions (pg_db p')) \<and>
    (\<forall>i r. pg_opportunities p' i = Some r \<longrightarrow> pg_opportunities p i = Some r) \<and>
    (\<forall>i r. pg_opportunities p i = Some r \<longrightarrow> or_removal_time r = None \<or> o_chain_id (or_opportunity r) \<notin> set chain_ids \<or>
       threshold now (delete_threshold_secs options) \<le> o_creation_time (or_opportunity r) \<longrightarrow> pg_opportunities p' i = Some r)"
proof (cases "delete_enabled options")
  case False
  then show ?thesis
    using assms by (simp add: delete_history_round_def batch_deleted_def)
next
  case True
  note r = round_result [OF assms True]
  let ?s = "delete_threshold_secs options"
  have "pg_opportunities p' i = Some x"
    if "pg_opportunities p i = Some x" and "or_removal_time x = None \<or> o_chain_id (or_opportunity x) \<notin> set chain_ids \<or>
       threshold now ?s \<le> o_creation_time (or_opportunity x)" for i x
    unfolding r(3) using that(2) by (intro chain_rows_fold(2) [where rows = "pg_opportunities p", OF that(1)]) (auto simp: opportunity_deletable_def)
  moreover have "pg_opportunities p' i = Some x \<Longrightarrow> pg_opportunities p i = Some x" for i x
    unfolding r(3) by (rule chain_rows_fold(1))
  ultimately show ?thesis
    unfolding r(1,2) by (intro conjI allI impI delete_old_batch) blast+
qed

text \<open>A round that finds an old live opportunity and an old one that was removed.\<close>

definition sample_opp_row :: "time option \<Rightarrow> opp_row" where
  "sample_opp_row removed = \<lparr>or_opportunity = \<lparr>o_permission_key = [], o_chain_id = ''solana'', o_sell_tokens = [], o_buy_tokens = [],
     o_router = 1, o_permission_account = 2, o_program = Limo \<lparr>ol_order = [], ol_order_address = 3, ol_slot = 4\<rparr>,
     o_profile_id = None, o_id = 5, o_creation_time = 0, o_refresh_time = 0\<rparr>, or_removal_time = removed, or_removal_reason = None\<rparr>"

definition sample_pg :: "unit pg" where
  "sample_pg = \<lparr>pg_db = \<lparr>db_up = True, db_bids = Map.empty, db_auctions = Map.empty\<rparr>,
     pg_opportunities = [1 \<mapsto> sample_opp_row None, 2 \<mapsto> sample_opp_row (Some 1)]\<rparr>"

definition sample_delete_options :: DeletePgRowsOptions where
  "sample_delete_options = \<lparr>delete_enabled = True, delete_interval_secs = 1, delete_threshold_secs = 172800\<rparr>"

lemma sample_round:
  "delete_history_round [] (\<lambda>_. [1, 2]) [] (seconds 200000) [''solana''] sample_delete_options sample_pg =
     Inr (sample_pg\<lparr>pg_opportunities := [1 \<mapsto> sample_opp_row None]\<rparr>)"
  by (simp add: delete_history_round_def delete_pg_db_bid_history_def delete_pg_db_auction_history_def
      delete_pg_db_opportunity_history_def old_ids_def delete_ids_def sample_delete_options_def sample_pg_def sample_opp_row_def
      opportunity_deletable_def threshold_def seconds_def DELETE_BATCH_SIZE_def fun_eq_iff)

theorem history_deletion_keeps_recent_and_live_witness:
  "pg_opportunities (sample_pg\<lparr>pg_opportunities := [1 \<mapsto> sample_opp_row None]\<rparr>) 1 = pg_opportunities sample_pg 1"
proof -
  have "pg_opportunities sample_pg 1 = Some (sample_opp_row None)" "or_removal_time (sample_opp_row None) = None"
    by (simp_all add: sample_pg_def sample_opp_row_def)
  then show ?thesis
    using history_deletion_keeps_recent_and_live [OF sample_round] by metis
qed

end
