(* ===== verification/Sdk_Svm.thy ===== *)
theory Sdk_Svm
  imports As_ApiTypes
begin

section \<open>Rust SDK: instructions and bids\<close>

text \<open>
  What a searcher's program builds with the Rust SDK: the instructions of \<open>sdk/rust/src/svm.rs\<close> with
  \<open>sdk/helpers.rs\<close> of the program, and \<open>Client::new_bid\<close> of \<open>sdk/rust/src/lib.rs\<close>, which turns an
  opportunity received from the server into a bid.

  The Solana libraries are a parameter (\<open>solana_library\<close>): address derivation, the builders of
  foreign instructions (\<open>None\<close> where a builder fails), the rent of a token account, and building and
  signing a transaction. What is relied on of them is \<open>library_ok\<close>.
\<close>

subsection \<open>The libraries\<close>

record solana_library =
  lib_find_program_address :: "u8 list list \<Rightarrow> pubkey \<Rightarrow> pubkey"
  lib_associated_token_address :: "pubkey \<Rightarrow> pubkey \<Rightarrow> pubkey \<Rightarrow> pubkey"
  lib_rent_of_token_account :: u64
  lib_transfer :: "pubkey \<Rightarrow> pubkey \<Rightarrow> u64 \<Rightarrow> instruction"
  lib_sync_native :: "pubkey \<Rightarrow> instruction option"
  lib_close_account :: "pubkey \<Rightarrow> pubkey \<Rightarrow> pubkey \<Rightarrow> instruction option"
  lib_create_ata_idempotent :: "pubkey \<Rightarrow> pubkey \<Rightarrow> pubkey \<Rightarrow> pubkey \<Rightarrow> instruction"
  lib_add_memo :: "u8 list \<Rightarrow> instruction"
  lib_signed_transaction :: "instruction list \<Rightarrow> pubkey \<Rightarrow> u8 list list \<Rightarrow> u8 list \<Rightarrow> string + tx"

datatype ClientError =
    InvalidHttpUrl string
  | RequestFailed
  | RequestError string
  | DecodeResponseFailed
  | WsConnectFailed string
  | WsRequestFailed string
  | InvalidResponse string
  | ChainNotSupported
  | NewBidError string
  | SvmError string

datatype sdk_stop = ClientFails ClientError | ClientPanics

type_synonym 'a sdk = "sdk_stop + 'a"

definition or_client_error :: "'a option \<Rightarrow> ClientError \<Rightarrow> 'a sdk" where
  "or_client_error x e = (case x of Some a \<Rightarrow> Inr a | None \<Rightarrow> Inl (ClientFails e))"


subsection \<open>Parameters\<close>

datatype ProgramParams = ProgramParamsLimo (limo_permission: pubkey) (limo_router: pubkey) | ProgramParamsSwap

record NewBidParams =
  nb_amount :: u64
  nb_deadline :: i64
  nb_block_hash :: "u8 list"
  nb_slot :: "u64 option"
  nb_instructions :: "instruction list"
  nb_payer :: pubkey
  nb_searcher :: pubkey
  nb_signers :: "u8 list list"
  nb_fee_receiver_relayer :: pubkey
  nb_relayer_signer :: pubkey
  nb_program_params :: ProgramParams

record GetSubmitBidInstructionParams =
  gs_chain_id :: string
  gs_amount :: u64
  gs_deadline :: i64
  gs_searcher :: pubkey
  gs_permission :: pubkey
  gs_router :: pubkey
  gs_relayer_signer :: pubkey
  gs_fee_receiver_relayer :: pubkey

record TokenAccountInitializationParams =
  ti_owner :: pubkey
  ti_mint :: pubkey
  ti_program :: pubkey
  ti_config :: TokenAccountInitializationConfig

record TokenAccountToCreate =
  tc_payer :: pubkey
  tc_owner :: pubkey
  tc_mint :: pubkey
  tc_program :: pubkey

record GetTokenAccountsToCreateParams =
  gt_searcher :: pubkey
  gt_user :: pubkey
  gt_router :: pubkey
  gt_fee_receiver_relayer :: pubkey
  gt_express_relay_metadata :: pubkey
  gt_mint_searcher :: pubkey
  gt_token_program_searcher :: pubkey
  gt_mint_user :: pubkey
  gt_token_program_user :: pubkey
  gt_mint_fee :: pubkey
  gt_fee_token_program :: pubkey
  gt_configs :: TokenAccountInitializationConfigs

record GetSwapCreateAccountsParams =
  gc_searcher :: pubkey
  gc_user :: pubkey
  gc_searcher_token :: pubkey
  gc_token_program_searcher :: pubkey
  gc_mint_user :: pubkey
  gc_token_program_user :: pubkey
  gc_fee_token :: pubkey
  gc_fee_token_program :: pubkey
  gc_router_account :: pubkey
  gc_fee_receiver_relayer :: pubkey
  gc_referral_fee_ppm :: u64
  gc_chain_id :: string
  gc_configs :: TokenAccountInitializationConfigs

record GetWrapSolInstructionsParams =
  gw_payer :: pubkey
  gw_owner :: pubkey
  gw_amount :: u64
  gw_create_ata :: bool

record GetSwapInstructionParams =
  gi_searcher :: pubkey
  gi_opportunity :: ApiOpportunity
  gi_bid_amount :: u64
  gi_deadline :: i64
  gi_fee_receiver_relayer :: pubkey
  gi_relayer_signer :: pubkey

record OpportunitySwapData =
  sd_user :: pubkey
  sd_tokens :: ApiQuoteTokens
  sd_token_program_searcher :: pubkey
  sd_token_program_user :: pubkey
  sd_fee_token :: OppFeeToken
  sd_router_account :: pubkey
  sd_referral_fee_ppm :: u64
  sd_platform_fee_ppm :: u64


subsection \<open>Instructions of the program\<close>

definition STAGING_PROGRAM_ID :: pubkey where
  "STAGING_PROGRAM_ID = 50945917176010274454895680976389451283689295224195803819397165340904983890189"

definition SYSVAR_INSTRUCTIONS :: pubkey where
  "SYSVAR_INSTRUCTIONS = 225768050671220641349150970434278938867026951764864671205614941480710"

definition get_express_relay_pid :: "string \<Rightarrow> pubkey" where
  "get_express_relay_pid ch = (if ch = ''development-solana'' then STAGING_PROGRAM_ID else EXPRESS_RELAY_ID)"

definition meta :: "pubkey \<Rightarrow> bool \<Rightarrow> bool \<Rightarrow> account_meta" where
  "meta k signs writes = \<lparr>am_pubkey = k, am_is_signer = signs, am_is_writable = writes\<rparr>"

definition create_submit_bid_instruction ::
  "solana_library \<Rightarrow> pubkey \<Rightarrow> pubkey \<Rightarrow> pubkey \<Rightarrow> pubkey \<Rightarrow> pubkey \<Rightarrow> pubkey \<Rightarrow> i64 \<Rightarrow> u64 \<Rightarrow> instruction" where
  "create_submit_bid_instruction lib pid searcher relayer_key fee_receiver permission_key router_key dl amount =
     (let config = lib_find_program_address lib [SEED_CONFIG_ROUTER, to_le 32 router_key] pid;
          metadata = lib_find_program_address lib [SEED_METADATA] pid
      in \<lparr>ix_program_id = pid,
          ix_accounts = [meta searcher True True, meta relayer_key True False, meta permission_key False False,
            meta router_key False True, meta config False False, meta metadata False True,
            meta fee_receiver False True, meta SYSTEM_PROGRAM False False, meta SYSVAR_INSTRUCTIONS False False],
          ix_data = submit_bid_discriminator @ ser_submit_bid_args \<lparr>sb_deadline = dl, bid_amount = amount\<rparr>\<rparr>)"

definition create_swap_instruction ::
  "solana_library \<Rightarrow> pubkey \<Rightarrow> pubkey \<Rightarrow> pubkey \<Rightarrow> pubkey option \<Rightarrow> pubkey option \<Rightarrow> pubkey \<Rightarrow> pubkey \<Rightarrow>
   pubkey \<Rightarrow> pubkey \<Rightarrow> pubkey \<Rightarrow> pubkey \<Rightarrow> SwapV2Args \<Rightarrow> pubkey \<Rightarrow> instruction" where
  "create_swap_instruction lib pid searcher user searcher_ta_ms searcher_ta_mu router_ta fee_receiver
     mint_s mint_u program_searcher program_user args relayer_key =
     (let metadata = lib_find_program_address lib [SEED_METADATA] pid;
          (mint_f, program_fee) = (case fee_token args of FeeToken.Searcher \<Rightarrow> (mint_s, program_searcher)
                                       | User \<Rightarrow> (mint_u, program_user));
          ata = lib_associated_token_address lib
      in \<lparr>ix_program_id = pid,
          ix_accounts = [meta searcher True False, meta user True False,
            meta (unwrap_or searcher_ta_ms (ata searcher mint_s program_searcher)) False True,
            meta (unwrap_or searcher_ta_mu (ata searcher mint_u program_user)) False True,
            meta (ata user mint_s program_searcher) False True,
            meta (ata user mint_u program_user) False True,
            meta router_ta False True,
            meta (ata fee_receiver mint_f program_fee) False True,
            meta (ata metadata mint_f program_fee) False True,
            meta mint_s False False, meta mint_u False False, meta mint_f False False,
            meta program_searcher False False, meta program_user False False, meta program_fee False False,
            meta metadata False False, meta relayer_key True False],
          ix_data = swap_v2_discriminator @ ser_swap_v2_args args\<rparr>)"

definition get_submit_bid_instruction :: "solana_library \<Rightarrow> GetSubmitBidInstructionParams \<Rightarrow> instruction sdk" where
  "get_submit_bid_instruction lib p = Inr (create_submit_bid_instruction lib (get_express_relay_pid (gs_chain_id p))
     (gs_searcher p) (gs_relayer_signer p) (gs_fee_receiver_relayer p) (gs_permission p) (gs_router p)
     (gs_deadline p) (gs_amount p))"

definition add_submit_bid_instruction ::
  "solana_library \<Rightarrow> instruction list \<Rightarrow> pubkey \<Rightarrow> pubkey \<Rightarrow> pubkey \<Rightarrow> pubkey \<Rightarrow> pubkey \<Rightarrow> pubkey \<Rightarrow> u64 \<Rightarrow> i64 \<Rightarrow> instruction list" where
  "add_submit_bid_instruction lib ixs pid searcher relayer_key fee_receiver permission_key router_key amount dl =
     ixs @ [create_submit_bid_instruction lib pid searcher relayer_key fee_receiver permission_key router_key dl amount]"

text \<open>The program's own builder for token accounts; \<open>None\<close> is its assertion failing.\<close>

definition build_associated_token_account_instruction ::
  "solana_library \<Rightarrow> pubkey \<Rightarrow> pubkey \<Rightarrow> pubkey \<Rightarrow> pubkey \<Rightarrow> u8 \<Rightarrow> instruction option" where
  "build_associated_token_account_instruction lib payer owner mint program n =
     (if n \<le> 1
      then Some \<lparr>ix_program_id = SPL_ASSOCIATED_TOKEN_ACCOUNT,
             ix_accounts = [meta payer True True, meta (lib_associated_token_address lib owner mint program) False True,
               meta owner False False, meta mint False False, meta SYSTEM_PROGRAM False False, meta program False False],
             ix_data = [n]\<rparr>
      else None)"

definition create_associated_token_account_idempotent ::
  "solana_library \<Rightarrow> pubkey \<Rightarrow> pubkey \<Rightarrow> pubkey \<Rightarrow> pubkey \<Rightarrow> instruction option" where
  "create_associated_token_account_idempotent lib payer owner mint program =
     build_associated_token_account_instruction lib payer owner mint program 1"

definition deserialize_metadata :: "u8 list \<Rightarrow> er_error + ExpressRelayMetadata" where
  "deserialize_metadata bs =
     (case try_deserialize metadata_discriminator deser_metadata bs of
        Inr m \<Rightarrow> Inr m | Inl _ \<Rightarrow> Inl (ProgramErr InvalidAccountData))"

text \<open>\<open>rpc\<close> is the node's answer for the data of an account.\<close>

definition sdk_get_express_relay_metadata ::
  "solana_library \<Rightarrow> (pubkey \<Rightarrow> u8 list option) \<Rightarrow> string \<Rightarrow> ExpressRelayMetadata sdk" where
  "sdk_get_express_relay_metadata lib rpc ch =
     rbind (or_client_error (rpc (lib_find_program_address lib [SEED_METADATA] (get_express_relay_pid ch)))
       (SvmError ''Failed to fetch express relay metadata'')) (\<lambda>bs.
     case deserialize_metadata bs of Inr m \<Rightarrow> Inr m
     | Inl _ \<Rightarrow> Inl (ClientFails (SvmError ''Failed to deserialize express relay metadata'')))"


subsection \<open>Token accounts to create\<close>

definition get_token_account_to_create ::
  "pubkey \<Rightarrow> pubkey \<Rightarrow> TokenAccountInitializationParams \<Rightarrow> TokenAccountToCreate option" where
  "get_token_account_to_create searcher user p =
     (if ti_config p = Unneeded then None
      else Some \<lparr>tc_payer = (if ti_config p = SearcherPayer then searcher else user),
                 tc_owner = ti_owner p, tc_mint = ti_mint p, tc_program = ti_program p\<rparr>)"

definition token_accounts_initialization_params ::
  "GetTokenAccountsToCreateParams \<Rightarrow> TokenAccountInitializationParams list" where
  "token_accounts_initialization_params p =
     [\<lparr>ti_owner = gt_user p, ti_mint = gt_mint_searcher p, ti_program = gt_token_program_searcher p,
       ti_config = user_ata_mint_searcher (gt_configs p)\<rparr>,
      \<lparr>ti_owner = gt_user p, ti_mint = gt_mint_user p, ti_program = gt_token_program_user p,
       ti_config = user_ata_mint_user (gt_configs p)\<rparr>,
      \<lparr>ti_owner = gt_router p, ti_mint = gt_mint_fee p, ti_program = gt_fee_token_program p,
       ti_config = router_fee_receiver_ta (gt_configs p)\<rparr>,
      \<lparr>ti_owner = gt_fee_receiver_relayer p, ti_mint = gt_mint_fee p, ti_program = gt_fee_token_program p,
       ti_config = relayer_fee_receiver_ata (gt_configs p)\<rparr>,
      \<lparr>ti_owner = gt_express_relay_metadata p, ti_mint = gt_mint_fee p, ti_program = gt_fee_token_program p,
       ti_config = express_relay_fee_receiver_ata (gt_configs p)\<rparr>]"

definition get_token_accounts_to_create :: "GetTokenAccountsToCreateParams \<Rightarrow> TokenAccountToCreate list" where
  "get_token_accounts_to_create p =
     List.map_filter (get_token_account_to_create (gt_searcher p) (gt_user p)) (token_accounts_initialization_params p)"

definition get_swap_create_accounts_idempotent_instructions ::
  "solana_library \<Rightarrow> GetSwapCreateAccountsParams \<Rightarrow> instruction list" where
  "get_swap_create_accounts_idempotent_instructions lib p =
     map (\<lambda>t. lib_create_ata_idempotent lib (tc_payer t) (tc_owner t) (tc_mint t) (tc_program t))
       (get_token_accounts_to_create
         \<lparr>gt_searcher = gc_searcher p, gt_user = gc_user p, gt_router = gc_router_account p,
          gt_fee_receiver_relayer = gc_fee_receiver_relayer p,
          gt_express_relay_metadata = lib_find_program_address lib [SEED_METADATA] (get_express_relay_pid (gc_chain_id p)),
          gt_mint_searcher = gc_searcher_token p, gt_token_program_searcher = gc_token_program_searcher p,
          gt_mint_user = gc_mint_user p, gt_token_program_user = gc_token_program_user p,
          gt_mint_fee = gc_fee_token p, gt_fee_token_program = gc_fee_token_program p, gt_configs = gc_configs p\<rparr>)"


subsection \<open>Swap instructions\<close>

definition sdk_extract_swap_data :: "ApiOpportunity \<Rightarrow> OpportunitySwapData sdk" where
  "sdk_extract_swap_data x =
     (case ao_program x of
        SwapParams p \<Rightarrow> Inr \<lparr>sd_user = ops_user_wallet_address p, sd_tokens = ops_tokens p,
          sd_token_program_searcher = ops_token_program_searcher p, sd_token_program_user = ops_token_program_user p,
          sd_fee_token = ops_fee_token p, sd_router_account = ops_router_account p,
          sd_referral_fee_ppm = ops_referral_fee_ppm p, sd_platform_fee_ppm = ops_platform_fee_ppm p\<rparr>
      | LimoParams _ \<Rightarrow> Inl (ClientFails (SvmError ''Invalid opportunity program'')))"

text \<open>Plain arithmetic wraps around in a release build; a zero divisor panics.\<close>

definition get_bid_amount_including_fees :: "ApiOpportunity \<Rightarrow> u64 \<Rightarrow> u64 sdk" where
  "get_bid_amount_including_fees x amount =
     rbind (sdk_extract_swap_data x) (\<lambda>d.
       case (sd_tokens d, sd_fee_token d) of
         (ApiSearcherTokenSpecified _ _ _, UserToken) \<Rightarrow>
           let denominator = FEE_SPLIT_PRECISION_PPM - sd_referral_fee_ppm d - sd_platform_fee_ppm d;
               numerator = amount * FEE_SPLIT_PRECISION_PPM
           in if denominator = 0 then Inl ClientPanics else Inr (div_ceil numerator denominator)
       | _ \<Rightarrow> Inr amount)"

definition get_swap_instruction :: "solana_library \<Rightarrow> GetSwapInstructionParams \<Rightarrow> instruction sdk" where
  "get_swap_instruction lib p =
     rbind (sdk_extract_swap_data (gi_opportunity p)) (\<lambda>d.
     rbind (get_bid_amount_including_fees (gi_opportunity p) (gi_bid_amount p)) (\<lambda>amount.
       let (mint_s, mint_u, amount_s, amount_u) =
             (case sd_tokens d of
                ApiSearcherTokenSpecified searcher_token searcher_amount user_token \<Rightarrow>
                  (searcher_token, user_token, searcher_amount, amount)
              | ApiUserTokenSpecified searcher_token user_token _ user_amount_including_fees \<Rightarrow>
                  (searcher_token, user_token, amount, user_amount_including_fees));
           (fee_tok, fee_mint, fee_program) =
             (case sd_fee_token d of
                SearcherToken \<Rightarrow> (FeeToken.Searcher, mint_s, sd_token_program_searcher d)
              | UserToken \<Rightarrow> (User, mint_u, sd_token_program_user d));
           args = \<lparr>deadline = gi_deadline p, amount_searcher = amount_s, amount_user = amount_u,
                   referral_fee_ppm = sd_referral_fee_ppm d, fee_token = fee_tok,
                   swap_platform_fee_ppm = sd_platform_fee_ppm d\<rparr>
       in Inr (create_swap_instruction lib (get_express_relay_pid (ao_chain_id (gi_opportunity p)))
            (gi_searcher p) (sd_user d) None None
            (lib_associated_token_address lib (sd_router_account d) fee_mint fee_program)
            (gi_fee_receiver_relayer p) mint_s mint_u (sd_token_program_searcher d) (sd_token_program_user d)
            args (gi_relayer_signer p))))"

definition get_memo_instruction :: "solana_library \<Rightarrow> string \<Rightarrow> instruction" where
  "get_memo_instruction lib memo = lib_add_memo lib (as_bytes memo)"

definition get_wrap_sol_instructions ::
  "solana_library \<Rightarrow> GetWrapSolInstructionsParams \<Rightarrow> instruction list sdk" where
  "get_wrap_sol_instructions lib p =
     (let created = (if gw_create_ata p
            then [lib_create_ata_idempotent lib (gw_payer p) (gw_owner p) NATIVE_MINT SPL_TOKEN] else []);
          ata = lib_associated_token_address lib (gw_owner p) NATIVE_MINT SPL_TOKEN
      in rbind (or_client_error (lib_sync_native lib ata) (SvmError ''Failed to create sync native instruction'')) (\<lambda>sync.
           Inr (created @ [lib_transfer lib (gw_owner p) ata (gw_amount p), sync])))"

definition get_unwrap_sol_instruction :: "solana_library \<Rightarrow> pubkey \<Rightarrow> instruction sdk" where
  "get_unwrap_sol_instruction lib owner =
     or_client_error (lib_close_account lib (lib_associated_token_address lib owner NATIVE_MINT SPL_TOKEN) owner owner)
       (SvmError ''Failed to create close account instruction'')"

definition sdk_get_user_amount_to_wrap ::
  "solana_library \<Rightarrow> u64 \<Rightarrow> u64 \<Rightarrow> TokenAccountInitializationConfigs \<Rightarrow> u64" where
  "sdk_get_user_amount_to_wrap lib amount user_mint_user_balance configs =
     (let number_of_atas_paid_by_user =
            length (filter (\<lambda>c. c = UserPayer) [user_ata_mint_user configs, user_ata_mint_searcher configs])
      in min amount (saturating_sub user_mint_user_balance
           (of_nat number_of_atas_paid_by_user * lib_rent_of_token_account lib)))"


subsection \<open>Bids\<close>

definition new_limo_bid :: "solana_library \<Rightarrow> ApiOpportunity \<Rightarrow> NewBidParams \<Rightarrow> BidCreateSvm sdk" where
  "new_limo_bid lib x p =
     rbind (case nb_program_params p of
         ProgramParamsLimo permission_key router_key \<Rightarrow> Inr (permission_key, router_key)
       | ProgramParamsSwap \<Rightarrow> Inl (ClientFails (NewBidError ''Invalid program params for Limo opportunity''))) (\<lambda>(permission_key, router_key).
     rbind (get_submit_bid_instruction lib
         \<lparr>gs_chain_id = ao_chain_id x, gs_amount = nb_amount p, gs_deadline = nb_deadline p,
          gs_searcher = nb_searcher p, gs_permission = permission_key, gs_router = router_key,
          gs_relayer_signer = nb_relayer_signer p, gs_fee_receiver_relayer = nb_fee_receiver_relayer p\<rparr>) (\<lambda>ix.
     case lib_signed_transaction lib (nb_instructions p @ [ix]) (nb_payer p) (nb_signers p) (nb_block_hash p) of
       Inl e \<Rightarrow> Inl (ClientFails (NewBidError e))
     | Inr t \<Rightarrow> Inr (CreateOnChain \<lparr>con_chain_id = ao_chain_id x, con_transaction = t, con_slot = nb_slot p\<rparr>)))"

text \<open>The instructions of a swap bid, in their order.\<close>

definition swap_bid_instructions ::
  "solana_library \<Rightarrow> ApiOpportunity \<Rightarrow> OpportunityParamsSwap \<Rightarrow> NewBidParams \<Rightarrow> instruction list sdk" where
  "swap_bid_instructions lib x o1 p =
     rbind (case ops_tokens o1 of
         ApiSearcherTokenSpecified searcher_token _ user_token \<Rightarrow>
           rbind (get_bid_amount_including_fees x (nb_amount p)) (\<lambda>a. Inr (searcher_token, user_token, a))
       | ApiUserTokenSpecified searcher_token user_token _ user_amount_including_fees \<Rightarrow>
           Inr (searcher_token, user_token, user_amount_including_fees)) (\<lambda>(searcher_token, user_token, user_amount).
     let (fee_tok, fee_program) = (case ops_fee_token o1 of
             SearcherToken \<Rightarrow> (searcher_token, ops_token_program_searcher o1)
           | UserToken \<Rightarrow> (user_token, ops_token_program_user o1));
         memo = (case ops_memo o1 of Some m \<Rightarrow> [get_memo_instruction lib m] | None \<Rightarrow> []);
         creates = get_swap_create_accounts_idempotent_instructions lib
           \<lparr>gc_searcher = nb_searcher p, gc_user = ops_user_wallet_address o1, gc_searcher_token = searcher_token,
            gc_token_program_searcher = ops_token_program_searcher o1, gc_mint_user = user_token,
            gc_token_program_user = ops_token_program_user o1, gc_fee_token = fee_tok, gc_fee_token_program = fee_program,
            gc_router_account = ops_router_account o1, gc_fee_receiver_relayer = nb_fee_receiver_relayer p,
            gc_referral_fee_ppm = ops_referral_fee_ppm o1, gc_chain_id = ao_chain_id x, gc_configs = ops_initialization o1\<rparr>
     in rbind (if user_token = NATIVE_MINT
           then get_wrap_sol_instructions lib
             \<lparr>gw_payer = nb_payer p, gw_owner = ops_user_wallet_address o1,
              gw_amount = sdk_get_user_amount_to_wrap lib user_amount (ops_user_mint_user_balance o1) (ops_initialization o1),
              gw_create_ata = False\<rparr>
           else Inr []) (\<lambda>wraps.
        rbind (get_swap_instruction lib
             \<lparr>gi_searcher = nb_searcher p, gi_opportunity = x, gi_bid_amount = nb_amount p, gi_deadline = nb_deadline p,
              gi_fee_receiver_relayer = nb_fee_receiver_relayer p, gi_relayer_signer = nb_relayer_signer p\<rparr>) (\<lambda>swap.
        rbind (if searcher_token = NATIVE_MINT \<or> user_token = NATIVE_MINT
           then rbind (get_unwrap_sol_instruction lib (ops_user_wallet_address o1)) (\<lambda>ix. Inr [ix])
           else Inr []) (\<lambda>unwraps.
          Inr (nb_instructions p @ memo @ creates @ wraps @ [swap] @ unwraps)))))"

definition new_swap_bid ::
  "solana_library \<Rightarrow> ApiOpportunity \<Rightarrow> OpportunityParamsSwap \<Rightarrow> NewBidParams \<Rightarrow> BidCreateSvm sdk" where
  "new_swap_bid lib x o1 p =
     rbind (case nb_program_params p of
         ProgramParamsSwap \<Rightarrow> Inr ()
       | _ \<Rightarrow> Inl (ClientFails (NewBidError ''Invalid program params for swap opportunity''))) (\<lambda>_.
     rbind (swap_bid_instructions lib x o1 p) (\<lambda>ixs.
     case lib_signed_transaction lib ixs (nb_payer p) (nb_signers p) (nb_block_hash p) of
       Inl e \<Rightarrow> Inl (ClientFails (NewBidError e))
     | Inr t \<Rightarrow> Inr (CreateSwap \<lparr>csw_chain_id = ao_chain_id x, csw_transaction = t,
                               csw_opportunity_id = ao_opportunity_id x\<rparr>)))"

definition new_bid :: "solana_library \<Rightarrow> ApiOpportunity \<Rightarrow> NewBidParams \<Rightarrow> BidCreateSvm sdk" where
  "new_bid lib x p =
     (case ao_program x of LimoParams _ \<Rightarrow> new_limo_bid lib x p | SwapParams o1 \<Rightarrow> new_swap_bid lib x o1 p)"

end
