(* ===== verification/Sdk_Bids.thy ===== *)
theory Sdk_Bids
  imports Sdk_Svm
begin

section \<open>Bids of the SDK are bids of the server\<close>

text \<open>
  The two ends of the protocol together: a transaction built by the SDK for an opportunity the server
  published is read by the server's checks (\<open>auction/service/verification.rs\<close>) as the bid that was
  meant, and passes every check of its instructions.
\<close>

subsection \<open>What is relied on of the libraries\<close>

definition keys_of :: "instruction list \<Rightarrow> pubkey set" where
  "keys_of ixs = (\<Union>ix\<in>set ixs. insert (ix_program_id ix) (am_pubkey ` set (ix_accounts ix)))"

text \<open>A message without lookup tables whose instructions resolve to the given ones.\<close>

definition encoded_in :: "pubkey list \<Rightarrow> CompiledInstruction \<Rightarrow> instruction \<Rightarrow> bool" where
  "encoded_in keys ci ix \<longleftrightarrow>
     nth_opt keys (unat (program_id_index ci)) = Some (ix_program_id ix) \<and> ci_data ci = ix_data ix \<and>
     list_all2 (\<lambda>i m. nth_opt keys (unat i) = Some (am_pubkey m)) (ci_accounts ci) (ix_accounts ix)"

definition encodes :: "tx \<Rightarrow> instruction list \<Rightarrow> bool" where
  "encodes t ixs \<longleftrightarrow> address_table_lookups (message t) = None \<and>
     list_all2 (encoded_in (static_account_keys (message t))) (instructions (message t)) ixs"

definition accounts_of :: "instruction \<Rightarrow> pubkey list" where
  "accounts_of ix = map am_pubkey (ix_accounts ix)"

text \<open>
  The same address derivation and rent at both ends; each builder's instruction has the program and
  the accounts its documentation lists and is decoded as what it was built for; a transaction with at
  most 256 accounts encodes its instructions.
\<close>

definition library_ok :: "solana_library \<Rightarrow> env \<Rightarrow> bool" where
  "library_ok lib env \<longleftrightarrow>
     lib_associated_token_address lib = associated_token_address env \<and>
     lib_rent_of_token_account lib = rent_of_token_account env \<and>
     (\<forall>from to amount. ix_program_id (lib_transfer lib from to amount) = SYSTEM_PROGRAM \<and>
        accounts_of (lib_transfer lib from to amount) = [from, to] \<and>
        system_transfer env (ix_data (lib_transfer lib from to amount)) = Some amount) \<and>
     (\<forall>a. \<exists>ix. lib_sync_native lib a = Some ix \<and> ix_program_id ix = SPL_TOKEN \<and> accounts_of ix = [a] \<and>
        unpack_token_instruction env (ix_data ix) = Some SyncNative) \<and>
     (\<forall>a dest owner. \<exists>ix. lib_close_account lib a dest owner = Some ix \<and> ix_program_id ix = SPL_TOKEN \<and>
        accounts_of ix = [a, dest, owner] \<and> unpack_token_instruction env (ix_data ix) = Some CloseAccount) \<and>
     (\<forall>payer owner mint program. ix_program_id (lib_create_ata_idempotent lib payer owner mint program) = SPL_ASSOCIATED_TOKEN_ACCOUNT \<and>
        accounts_of (lib_create_ata_idempotent lib payer owner mint program) =
          [payer, associated_token_address env owner mint program, owner, mint, SYSTEM_PROGRAM, program] \<and>
        parse_ata_instruction env (ix_data (lib_create_ata_idempotent lib payer owner mint program)) = Some CreateIdempotentAta) \<and>
     (\<forall>bs. lib_add_memo lib bs = \<lparr>ix_program_id = SPL_MEMO, ix_accounts = [], ix_data = bs\<rparr>) \<and>
     (\<forall>ixs payer signers hash t. lib_signed_transaction lib ixs payer signers hash = Inr t \<longrightarrow>
        card (insert payer (keys_of ixs)) \<le> 256 \<longrightarrow> encodes t ixs)"

lemma library_okD:
  assumes "library_ok lib env"
  shows "lib_associated_token_address lib = associated_token_address env"
    and "lib_rent_of_token_account lib = rent_of_token_account env"
    and "ix_program_id (lib_transfer lib from to amount) = SYSTEM_PROGRAM"
    and "accounts_of (lib_transfer lib from to amount) = [from, to]"
    and "system_transfer env (ix_data (lib_transfer lib from to amount)) = Some amount"
    and "ix_program_id (lib_create_ata_idempotent lib payer owner mint program) = SPL_ASSOCIATED_TOKEN_ACCOUNT"
    and "accounts_of (lib_create_ata_idempotent lib payer owner mint program) =
      [payer, associated_token_address env owner mint program, owner, mint, SYSTEM_PROGRAM, program]"
    and "parse_ata_instruction env (ix_data (lib_create_ata_idempotent lib payer owner mint program)) = Some CreateIdempotentAta"
    and "lib_add_memo lib bs = \<lparr>ix_program_id = SPL_MEMO, ix_accounts = [], ix_data = bs\<rparr>"
  using assms unfolding library_ok_def by blast+

text \<open>The program's own builder of token accounts is one that \<open>library_ok\<close> allows.\<close>

lemma create_associated_token_account_idempotent_ok:
  assumes "lib_associated_token_address lib = associated_token_address env" "parse_ata_instruction env [1] = Some CreateIdempotentAta"
  shows "\<exists>ix. create_associated_token_account_idempotent lib payer owner mint program = Some ix \<and>
    ix_program_id ix = SPL_ASSOCIATED_TOKEN_ACCOUNT \<and>
    accounts_of ix = [payer, associated_token_address env owner mint program, owner, mint, SYSTEM_PROGRAM, program] \<and>
    parse_ata_instruction env (ix_data ix) = Some CreateIdempotentAta"
  using assms by (simp add: create_associated_token_account_idempotent_def build_associated_token_account_instruction_def
      accounts_of_def meta_def)

lemma library_sync:
  assumes "library_ok lib env"
  obtains ix where "lib_sync_native lib a = Some ix" and "ix_program_id ix = SPL_TOKEN" and "accounts_of ix = [a]"
    and "unpack_token_instruction env (ix_data ix) = Some SyncNative"
  using assms unfolding library_ok_def by meson

lemma library_close:
  assumes "library_ok lib env"
  obtains ix where "lib_close_account lib a dest owner = Some ix" and "ix_program_id ix = SPL_TOKEN"
    and "accounts_of ix = [a, dest, owner]" and "unpack_token_instruction env (ix_data ix) = Some CloseAccount"
  using assms unfolding library_ok_def by meson

lemma library_encodes:
  assumes "library_ok lib env" and "lib_signed_transaction lib ixs payer signers hash = Inr t"
    and "card (insert payer (keys_of ixs)) \<le> 256"
  shows "encodes t ixs"
  using assms unfolding library_ok_def by blast


subsection \<open>Reading an encoded transaction\<close>

lemma list_all2_filter_enumerate:
  assumes "list_all2 P xs ys" and "\<And>x y. P x y \<Longrightarrow> Q x \<longleftrightarrow> R y"
  shows "list_all2 (\<lambda>p q. fst p = fst q \<and> P (snd p) (snd q))
    (filter (\<lambda>(i, x). Q x) (List.enumerate n xs)) (filter (\<lambda>(i, y). R y) (List.enumerate n ys))"
  using assms by (induction xs ys arbitrary: n rule: list_all2_induct) auto

lemma encoded_program:
  assumes "encoded_in (static_account_keys (message t)) ci ix"
  shows "ix_program_id_of t ci = Inr (ix_program_id ix)" and "program_of t ci = ix_program_id ix"
proof -
  from assms have nth: "nth_opt (static_account_keys (message t)) (unat (program_id_index ci)) = Some (ix_program_id ix)"
    by (simp add: encoded_in_def)
  then show "ix_program_id_of t ci = Inr (ix_program_id ix)" by (simp add: ix_program_id_of_def)
  from nth show "program_of t ci = ix_program_id ix" by (simp add: program_of_def nth_opt_Some_iff)
qed

lemma encodes_in_range:
  assumes "encodes t ixs"
  shows "programs_in_range t"
  unfolding programs_in_range_def
proof
  fix ci
  assume "ci \<in> set (instructions (message t))"
  with assms obtain ix where "encoded_in (static_account_keys (message t)) ci ix"
    by (auto simp: encodes_def list_all2_conv_all_nth in_set_conv_nth)
  then show "unat (program_id_index ci) < length (static_account_keys (message t))"
    by (auto simp: encoded_in_def nth_opt_Some_iff)
qed

text \<open>The numbered instructions of a program, before they were compiled.\<close>

definition numbered :: "pubkey \<Rightarrow> nat \<Rightarrow> instruction list \<Rightarrow> (nat \<times> instruction) list" where
  "numbered program n ixs = filter (\<lambda>(i, ix). ix_program_id ix = program) (List.enumerate n ixs)"

lemma numbered_simps [simp]:
  "numbered program n [] = []"
  "numbered program n (ix # ixs) = (if ix_program_id ix = program then [(n, ix)] else []) @ numbered program (Suc n) ixs"
  "numbered program n (ixs @ jxs) = numbered program n ixs @ numbered program (n + length ixs) jxs"
  by (simp_all add: numbered_def enumerate_append_eq)

lemma numbered_none: "(\<And>ix. ix \<in> set ixs \<Longrightarrow> ix_program_id ix \<noteq> program) \<Longrightarrow> numbered program n ixs = []"
  by (induction ixs arbitrary: n) auto

lemma numbered_all: "(\<And>ix. ix \<in> set ixs \<Longrightarrow> ix_program_id ix = program) \<Longrightarrow> numbered program n ixs = List.enumerate n ixs"
  by (induction ixs arbitrary: n) auto

abbreviation same_numbered :: "tx \<Rightarrow> nat \<times> CompiledInstruction \<Rightarrow> nat \<times> instruction \<Rightarrow> bool" where
  "same_numbered t p q \<equiv> fst p = fst q \<and> encoded_in (static_account_keys (message t)) (snd p) (snd q)"

lemma encodes_extracts:
  assumes "encodes t ixs"
  obtains cis where "extract_program_instructions t program = Inr cis"
    and "list_all2 (same_numbered t) cis (numbered program 0 ixs)"
proof (rule that)
  show "extract_program_instructions t program =
      Inr (filter (\<lambda>(i, ix). program_of t ix = program) (List.enumerate 0 (instructions (message t))))"
    using encodes_in_range [OF assms] by (simp add: extract_program_instructions_eq)
  show "list_all2 (same_numbered t)
      (filter (\<lambda>(i, ix). program_of t ix = program) (List.enumerate 0 (instructions (message t)))) (numbered program 0 ixs)"
    unfolding numbered_def
    using assms by (intro list_all2_filter_enumerate) (auto simp: encodes_def dest: encoded_program(2))
qed

lemma encoded_account:
  assumes "encodes t ixs" and "encoded_in (static_account_keys (message t)) ci ix"
    and "nth_opt (accounts_of ix) pos = Some k"
  shows "extract_account env t ci pos s = (s, Inr k)"
proof -
  from assms(2,3) have len: "length (ci_accounts ci) = length (ix_accounts ix)" and pos: "pos < length (ix_accounts ix)"
    and k: "k = am_pubkey (ix_accounts ix ! pos)"
    by (auto simp: encoded_in_def accounts_of_def nth_opt_Some_iff list_all2_lengthD)
  from assms(2) pos len have "nth_opt (static_account_keys (message t)) (unat (ci_accounts ci ! pos)) = Some k"
    unfolding k by (auto simp: encoded_in_def list_all2_conv_all_nth)
  with pos len show ?thesis by (simp add: extract_account_def nth_opt_def [of "ci_accounts ci"] yields_def)
qed

lemma each_reads:
  assumes "list_all2 (\<lambda>x y. \<forall>s. f x s = (s, Inr (g y))) xs ys"
  shows "each f xs s = (s, Inr (map g ys))"
  using assms by (induction xs ys rule: list_all2_induct) (simp_all add: yields_def seq_def)

lemma each_rest_all: "(\<And>x. x \<in> set xs \<Longrightarrow> f x = Inr (g x)) \<Longrightarrow> each_rest f xs = Inr (map g xs)"
  by (induction xs) simp_all

lemma list_all2_filter:
  assumes "list_all2 P xs ys" and "\<And>x y. P x y \<Longrightarrow> Q x \<longleftrightarrow> R y"
  shows "list_all2 P (filter Q xs) (filter R ys)"
  using assms by (induction xs ys rule: list_all2_induct) auto


text \<open>What the server extracts, in terms of the instructions before they were compiled.\<close>

lemma swap_data_read:
  assumes "encodes t ixs" and "express_relay_program env = pid"
    and "numbered pid 0 ixs = [(k, create_swap_instruction lib pid searcher user ta1 ta2 rta fr ms mu ps pu args rel)]"
  shows "get_bid_transaction_data_swap env ch t s = (s, Inr \<lparr>swap_data = args, swap_tx_accounts =
    \<lparr>sa_searcher = searcher, sa_user_wallet = user, sa_mint_searcher = ms, sa_mint_user = mu,
     sa_router_token_account = rta, sa_token_program_searcher = ps, sa_token_program_user = pu\<rparr>, swap_ix_index = k\<rparr>)"
proof -
  let ?ix = "create_swap_instruction lib pid searcher user ta1 ta2 rta fr ms mu ps pu args rel"
  obtain cis where cis: "extract_program_instructions t pid = Inr cis"
    "list_all2 (same_numbered t) cis (numbered pid 0 ixs)"
    using encodes_extracts [OF assms(1)] .
  with assms(3) obtain ci where ci: "cis = [(k, ci)]" and enc: "encoded_in (static_account_keys (message t)) ci ?ix"
    by (auto simp: list_all2_Cons2)
  have data: "ci_data ci = swap_v2_discriminator @ ser_swap_v2_args args"
    using enc by (simp add: encoded_in_def create_swap_instruction_def Let_def case_prod_beta)
  then have start: "starts_with (ci_data ci) swap_v2_discriminator" "\<not> starts_with (ci_data ci) swap_discriminator"
    by (simp_all add: starts_with_def) (simp_all add: swap_discriminator_def swap_v2_discriminator_def)
  have ix: "extract_express_relay_instruction env t SwapPayment = Inr (k, ci)"
    using start by (simp add: extract_express_relay_instruction_def assms(2) cis(1) ci valid_discriminators_def)
  have args: "extract_swap_data env ch ci s = (s, Inr args)"
    using start swap_v2_codec.deser_ser [of args "[]"]
    by (simp add: extract_swap_data_def yields_def data whole_def)
  have at: "accounts_of ?ix ! 0 = searcher" "accounts_of ?ix ! Suc 0 = user" "accounts_of ?ix ! 6 = rta"
    "accounts_of ?ix ! 9 = ms" "accounts_of ?ix ! 10 = mu" "accounts_of ?ix ! 12 = ps" "accounts_of ?ix ! 13 = pu"
    "length (accounts_of ?ix) = 17"
    by (simp_all add: create_swap_instruction_def accounts_of_def meta_def Let_def case_prod_beta)
  have account: "extract_account env t ci pos s = (s, Inr (accounts_of ?ix ! pos))" if "pos < 17" for pos
    using that at(8) by (intro encoded_account [OF assms(1) enc]) (simp add: nth_opt_def)
  have "extract_swap_accounts env t ci s = (s, Inr \<lparr>sa_searcher = searcher, sa_user_wallet = user, sa_mint_searcher = ms,
      sa_mint_user = mu, sa_router_token_account = rta, sa_token_program_searcher = ps, sa_token_program_user = pu\<rparr>)"
    by (simp add: extract_swap_accounts_def seq_def yields_def account at)
  with ix args show ?thesis
    by (simp add: get_bid_transaction_data_swap_def yields_def seq_run)
qed

lemma submit_bid_data_read:
  assumes "encodes t ixs" and "express_relay_program env = pid"
    and "numbered pid 0 ixs = [(k, create_submit_bid_instruction lib pid searcher rel fr permission_key router_key dl amount)]"
  shows "get_bid_transaction_data_submit_bid env t s = (s, Inr \<lparr>submit_data = \<lparr>sb_deadline = dl, bid_amount = amount\<rparr>,
    submit_router = router_key, submit_permission_account = permission_key, submit_ix_index = k\<rparr>)"
proof -
  let ?ix = "create_submit_bid_instruction lib pid searcher rel fr permission_key router_key dl amount"
  let ?args = "\<lparr>sb_deadline = dl, bid_amount = amount\<rparr>"
  obtain cis where cis: "extract_program_instructions t pid = Inr cis"
    "list_all2 (same_numbered t) cis (numbered pid 0 ixs)"
    using encodes_extracts [OF assms(1)] .
  with assms(3) obtain ci where ci: "cis = [(k, ci)]" and enc: "encoded_in (static_account_keys (message t)) ci ?ix"
    by (auto simp: list_all2_Cons2)
  have data: "ci_data ci = submit_bid_discriminator @ ser_submit_bid_args ?args"
    using enc by (simp add: encoded_in_def create_submit_bid_instruction_def Let_def)
  have ix: "extract_express_relay_instruction env t SubmitBidPayment = Inr (k, ci)"
    by (simp add: extract_express_relay_instruction_def assms(2) cis(1) ci valid_discriminators_def data starts_with_def)
  have args: "extract_submit_bid_data ci = Inr ?args"
    using deser_ser_submit_bid_args [of ?args "[]"] by (simp add: extract_submit_bid_data_def data whole_def)
  have at: "accounts_of ?ix ! 2 = permission_key" "accounts_of ?ix ! 3 = router_key" "length (accounts_of ?ix) = 9"
    by (simp_all add: create_submit_bid_instruction_def accounts_of_def meta_def Let_def)
  have account: "extract_account env t ci pos s = (s, Inr (accounts_of ?ix ! pos))" if "pos < 9" for pos
    using that at(3) by (intro encoded_account [OF assms(1) enc]) (simp add: nth_opt_def)
  show ?thesis
    by (simp add: get_bid_transaction_data_submit_bid_def yields_def seq_def ix args account at)
qed

definition transfer_entry :: "env \<Rightarrow> nat \<times> instruction \<Rightarrow> TransferInstructionData" where
  "transfer_entry env p = \<lparr>ti_index = fst p, ti_from = accounts_of (snd p) ! 0, ti_to = accounts_of (snd p) ! 1,
     ti_lamports = the (system_transfer env (ix_data (snd p)))\<rparr>"

definition close_entry :: "nat \<times> instruction \<Rightarrow> CloseAccountInstructionData" where
  "close_entry p = \<lparr>cl_index = fst p, cl_account = accounts_of (snd p) ! 0, cl_destination = accounts_of (snd p) ! 1,
     cl_owner = accounts_of (snd p) ! 2\<rparr>"

definition ata_entry :: "nat \<times> instruction \<Rightarrow> CreateAtaInstructionData" where
  "ata_entry p = \<lparr>at_index = fst p, at_payer = accounts_of (snd p) ! 0, at_ata = accounts_of (snd p) ! 1,
     at_owner = accounts_of (snd p) ! 2, at_mint = accounts_of (snd p) ! 3, at_token_program = accounts_of (snd p) ! 5\<rparr>"

lemma each_numbered:
  assumes "list_all2 (same_numbered t) cis qs"
    and "\<And>i ci ix s. (i, ix) \<in> set qs \<Longrightarrow> encoded_in (static_account_keys (message t)) ci ix \<Longrightarrow> f (i, ci) s = (s, Inr (g (i, ix)))"
  shows "each f cis s = (s, Inr (map g qs))"
proof (rule each_reads)
  show "list_all2 (\<lambda>x y. \<forall>s. f x s = (s, Inr (g y))) cis qs"
    using assms(1) assms(2) by (auto simp: list_all2_conv_all_nth in_set_conv_nth) (metis prod.collapse)
qed

text \<open>A filter that looks only at the data selects the same instructions before and after compiling.\<close>

lemma numbered_data_filter:
  assumes "list_all2 (same_numbered t) cis qs"
  shows "list_all2 (same_numbered t) (filter (\<lambda>(i, ci). Q (ci_data ci)) cis) (filter (\<lambda>(i, ix). Q (ix_data ix)) qs)"
  using assms by (rule list_all2_filter) (auto simp: encoded_in_def)

lemma account_read:
  assumes "encodes t ixs" and "encoded_in (static_account_keys (message t)) ci ix" and "pos < length (accounts_of ix)"
  shows "extract_account env t ci pos s = (s, Inr (accounts_of ix ! pos))"
  by (rule encoded_account [OF assms(1,2)]) (simp add: nth_opt_def assms(3))

definition transfers_in :: "env \<Rightarrow> instruction list \<Rightarrow> (nat \<times> instruction) list" where
  "transfers_in env ixs = filter (\<lambda>(i, ix). system_transfer env (ix_data ix) \<noteq> None) (numbered SYSTEM_PROGRAM 0 ixs)"

definition tokens_in :: "env \<Rightarrow> TokenInstruction \<Rightarrow> instruction list \<Rightarrow> (nat \<times> instruction) list" where
  "tokens_in env ty ixs = filter (\<lambda>(i, ix). unpack_token_instruction env (ix_data ix) = Some ty) (numbered SPL_TOKEN 0 ixs)"

definition creates_in :: "env \<Rightarrow> instruction list \<Rightarrow> (nat \<times> instruction) list" where
  "creates_in env ixs = filter (\<lambda>(i, ix). parse_ata_instruction env (ix_data ix) \<in> {Some CreateAta, Some CreateIdempotentAta})
     (numbered SPL_ASSOCIATED_TOKEN_ACCOUNT 0 ixs)"

lemma transfers_read:
  assumes enc: "encodes t ixs" and ok: "\<And>i ix. (i, ix) \<in> set (transfers_in env ixs) \<Longrightarrow> length (accounts_of ix) = 2"
  shows "extract_transfer_instructions env t s = (s, Inr (map (transfer_entry env) (transfers_in env ixs)))"
proof -
  obtain cis where cis: "extract_program_instructions t SYSTEM_PROGRAM = Inr cis"
    "list_all2 (same_numbered t) cis (numbered SYSTEM_PROGRAM 0 ixs)"
    using encodes_extracts [OF enc] .
  have rel: "list_all2 (same_numbered t) (filter (\<lambda>(i, ci). system_transfer env (ci_data ci) \<noteq> None) cis) (transfers_in env ixs)"
    unfolding transfers_in_def by (rule numbered_data_filter [OF cis(2)])
  have read: "extract_account env t ci pos s = (s, Inr (accounts_of ix ! pos))"
    if "(i, ix) \<in> set (transfers_in env ixs)" "encoded_in (static_account_keys (message t)) ci ix" "pos < 2" for i ci ix pos s
    using account_read [OF enc that(2)] ok [OF that(1)] that(3) by simp
  have amount: "system_transfer env (ci_data ci) = Some (the (system_transfer env (ix_data ix)))"
    if "(i, ix) \<in> set (transfers_in env ixs)" "encoded_in (static_account_keys (message t)) ci ix" for i ci ix
    using that by (auto simp: transfers_in_def encoded_in_def)
  show ?thesis
    unfolding extract_transfer_instructions_def cis(1)
    by (simp add: yields_def seq_run del: not_None_eq)
      (rule each_numbered [OF rel], simp add: amount read seq_def yields_def transfer_entry_def)
qed

lemma closes_read:
  assumes enc: "encodes t ixs" and ok: "\<And>i ix. (i, ix) \<in> set (tokens_in env CloseAccount ixs) \<Longrightarrow> length (accounts_of ix) = 3"
  shows "extract_close_account_instructions env t s = (s, Inr (map close_entry (tokens_in env CloseAccount ixs)))"
proof -
  obtain cis where cis: "extract_program_instructions t SPL_TOKEN = Inr cis"
    "list_all2 (same_numbered t) cis (numbered SPL_TOKEN 0 ixs)"
    using encodes_extracts [OF enc] .
  have rel: "list_all2 (same_numbered t) (filter (\<lambda>(i, ci). unpack_token_instruction env (ci_data ci) = Some CloseAccount) cis)
      (tokens_in env CloseAccount ixs)"
    unfolding tokens_in_def by (rule numbered_data_filter [OF cis(2)])
  have read: "extract_account env t ci pos s = (s, Inr (accounts_of ix ! pos))"
    if "(i, ix) \<in> set (tokens_in env CloseAccount ixs)" "encoded_in (static_account_keys (message t)) ci ix" "pos < 3" for i ci ix pos s
    using account_read [OF enc that(2)] ok [OF that(1)] that(3) by simp
  show ?thesis
    unfolding extract_close_account_instructions_def cis(1)
    by (simp add: yields_def seq_run del: not_None_eq)
      (rule each_numbered [OF rel], simp add: read seq_def yields_def close_entry_def)
qed

lemma creates_read:
  assumes enc: "encodes t ixs"
    and ok: "\<And>i ix. (i, ix) \<in> set (creates_in env ixs) \<Longrightarrow> length (accounts_of ix) = 6 \<and> accounts_of ix ! 4 = SYSTEM_PROGRAM"
  shows "extract_create_ata_instructions env t s = (s, Inr (map ata_entry (creates_in env ixs)))"
proof -
  obtain cis where cis: "extract_program_instructions t SPL_ASSOCIATED_TOKEN_ACCOUNT = Inr cis"
    "list_all2 (same_numbered t) cis (numbered SPL_ASSOCIATED_TOKEN_ACCOUNT 0 ixs)"
    using encodes_extracts [OF enc] .
  have rel: "list_all2 (same_numbered t) (filter (\<lambda>(i, ci). is_create_ata env ci) cis) (creates_in env ixs)"
    unfolding creates_in_def is_create_ata_def by (rule numbered_data_filter [OF cis(2)])
  have read: "extract_account env t ci pos s = (s, Inr (accounts_of ix ! pos))"
    if "(i, ix) \<in> set (creates_in env ixs)" "encoded_in (static_account_keys (message t)) ci ix" "pos < 6" for i ci ix pos s
    using account_read [OF enc that(2)] ok [OF that(1)] that(3) by simp
  show ?thesis
    unfolding extract_create_ata_instructions_def cis(1)
    by (simp add: yields_def seq_run del: not_None_eq)
      (rule each_numbered [OF rel], simp add: read ok seq_def yields_def ata_entry_def)
qed

lemma sync_natives_read:
  assumes enc: "encodes t ixs" and ok: "\<And>i ix. (i, ix) \<in> set (tokens_in env SyncNative ixs) \<Longrightarrow> accounts_of ix \<noteq> []"
  shows "seq (yields (extract_sync_native_instructions env t)) (each (\<lambda>ci. extract_account env t ci 0)) s =
    (s, Inr (map (\<lambda>p. accounts_of (snd p) ! 0) (tokens_in env SyncNative ixs)))"
proof -
  obtain cis where cis: "extract_program_instructions t SPL_TOKEN = Inr cis"
    "list_all2 (same_numbered t) cis (numbered SPL_TOKEN 0 ixs)"
    using encodes_extracts [OF enc] .
  let ?cis = "filter (\<lambda>(i, ci). unpack_token_instruction env (ci_data ci) = Some SyncNative) cis"
  have rel: "list_all2 (same_numbered t) ?cis (tokens_in env SyncNative ixs)"
    unfolding tokens_in_def by (rule numbered_data_filter [OF cis(2)])
  have "list_all2 (\<lambda>x y. \<forall>s. extract_account env t x 0 s = (s, Inr (accounts_of (snd y) ! 0))) (map snd ?cis)
      (tokens_in env SyncNative ixs)"
    unfolding list_all2_map1
    by (rule list.rel_mono_strong [OF rel]) (auto intro!: account_read [OF enc] dest: ok)
  from each_reads [OF this] show ?thesis
    by (simp add: extract_sync_native_instructions_def cis(1) yields_def seq_run)
qed


subsection \<open>Bids on limo opportunities\<close>

lemma keys_of_append [simp]: "keys_of (ixs @ jxs) = keys_of ixs \<union> keys_of jxs"
  by (simp add: keys_of_def)

lemma keys_of_Cons [simp]: "keys_of (ix # ixs) = insert (ix_program_id ix) (set (accounts_of ix)) \<union> keys_of ixs" "keys_of [] = {}"
  by (auto simp: keys_of_def accounts_of_def)

lemma card_set_le: "length xs \<le> n \<Longrightarrow> card (set xs) \<le> n"
  using card_length [of xs] by (rule order_trans)



subsection \<open>The pieces of a swap bid\<close>

definition mint_s_of :: "OpportunityParamsSwap \<Rightarrow> pubkey" where "mint_s_of o1 = aqt_searcher_token (ops_tokens o1)"
definition mint_u_of :: "OpportunityParamsSwap \<Rightarrow> pubkey" where "mint_u_of o1 = aqt_user_token (ops_tokens o1)"

definition fee_mint_of :: "OpportunityParamsSwap \<Rightarrow> pubkey \<times> pubkey" where
  "fee_mint_of o1 = (case ops_fee_token o1 of SearcherToken \<Rightarrow> (mint_s_of o1, ops_token_program_searcher o1)
     | UserToken \<Rightarrow> (mint_u_of o1, ops_token_program_user o1))"

definition swap_args_of :: "OpportunityParamsSwap \<Rightarrow> u64 \<Rightarrow> i64 \<Rightarrow> SwapV2Args" where
  "swap_args_of o1 a dl =
     (let (amount_s, amount_u) = (case ops_tokens o1 of ApiSearcherTokenSpecified _ sa _ \<Rightarrow> (sa, a)
            | ApiUserTokenSpecified _ _ _ ua \<Rightarrow> (a, ua))
      in \<lparr>deadline = dl, amount_searcher = amount_s, amount_user = amount_u, referral_fee_ppm = ops_referral_fee_ppm o1,
          fee_token = program_fee_token (ops_fee_token o1), swap_platform_fee_ppm = ops_platform_fee_ppm o1\<rparr>)"

definition accounts_to_create :: "solana_library \<Rightarrow> string \<Rightarrow> OpportunityParamsSwap \<Rightarrow> NewBidParams \<Rightarrow> TokenAccountToCreate list" where
  "accounts_to_create lib ch o1 p = get_token_accounts_to_create
     \<lparr>gt_searcher = nb_searcher p, gt_user = ops_user_wallet_address o1, gt_router = ops_router_account o1,
      gt_fee_receiver_relayer = nb_fee_receiver_relayer p,
      gt_express_relay_metadata = lib_find_program_address lib [SEED_METADATA] (get_express_relay_pid ch),
      gt_mint_searcher = mint_s_of o1, gt_token_program_searcher = ops_token_program_searcher o1,
      gt_mint_user = mint_u_of o1, gt_token_program_user = ops_token_program_user o1,
      gt_mint_fee = fst (fee_mint_of o1), gt_fee_token_program = snd (fee_mint_of o1), gt_configs = ops_initialization o1\<rparr>"

definition memo_part :: "OpportunityParamsSwap \<Rightarrow> instruction list" where
  "memo_part o1 = (case ops_memo o1 of Some m \<Rightarrow> [\<lparr>ix_program_id = SPL_MEMO, ix_accounts = [], ix_data = as_bytes m\<rparr>] | None \<Rightarrow> [])"

definition create_part :: "solana_library \<Rightarrow> string \<Rightarrow> OpportunityParamsSwap \<Rightarrow> NewBidParams \<Rightarrow> instruction list" where
  "create_part lib ch o1 p =
     map (\<lambda>t. lib_create_ata_idempotent lib (tc_payer t) (tc_owner t) (tc_mint t) (tc_program t)) (accounts_to_create lib ch o1 p)"

definition swap_part :: "solana_library \<Rightarrow> string \<Rightarrow> OpportunityParamsSwap \<Rightarrow> NewBidParams \<Rightarrow> u64 \<Rightarrow> instruction" where
  "swap_part lib ch o1 p a = create_swap_instruction lib (get_express_relay_pid ch) (nb_searcher p) (ops_user_wallet_address o1)
     None None (lib_associated_token_address lib (ops_router_account o1) (fst (fee_mint_of o1)) (snd (fee_mint_of o1)))
     (nb_fee_receiver_relayer p) (mint_s_of o1) (mint_u_of o1) (ops_token_program_searcher o1) (ops_token_program_user o1)
     (swap_args_of o1 a (nb_deadline p)) (nb_relayer_signer p)"

text \<open>Wrapping: a transfer of \<open>amount\<close> and a synchronisation, or nothing; unwrapping: a close, or nothing.\<close>

definition wraps_ok :: "solana_library \<Rightarrow> env \<Rightarrow> OpportunityParamsSwap \<Rightarrow> u64 \<Rightarrow> instruction list \<Rightarrow> bool" where
  "wraps_ok lib env o1 amount wraps \<longleftrightarrow>
     (if mint_u_of o1 = NATIVE_MINT
      then \<exists>sync. wraps = [lib_transfer lib (ops_user_wallet_address o1) (native_ata env (ops_user_wallet_address o1)) amount, sync] \<and>
        ix_program_id sync = SPL_TOKEN \<and> accounts_of sync = [native_ata env (ops_user_wallet_address o1)] \<and>
        unpack_token_instruction env (ix_data sync) = Some SyncNative
      else wraps = [])"

definition unwraps_ok :: "env \<Rightarrow> OpportunityParamsSwap \<Rightarrow> instruction list \<Rightarrow> bool" where
  "unwraps_ok env o1 unwraps \<longleftrightarrow>
     (if mint_s_of o1 = NATIVE_MINT \<or> mint_u_of o1 = NATIVE_MINT
      then \<exists>close. unwraps = [close] \<and> ix_program_id close = SPL_TOKEN \<and>
        accounts_of close = [native_ata env (ops_user_wallet_address o1), ops_user_wallet_address o1, ops_user_wallet_address o1] \<and>
        unpack_token_instruction env (ix_data close) = Some CloseAccount
      else unwraps = [])"

lemma swap_instruction_built:
  assumes "ao_program x = SwapParams o1" and "get_bid_amount_including_fees x b = Inr a"
    and "gi_opportunity q = x" and "gi_bid_amount q = b" and "gi_searcher q = nb_searcher p" and "gi_deadline q = nb_deadline p"
    and "gi_fee_receiver_relayer q = nb_fee_receiver_relayer p" and "gi_relayer_signer q = nb_relayer_signer p"
  shows "get_swap_instruction lib q = Inr (swap_part lib (ao_chain_id x) o1 p a)"
  using assms
  by (simp add: get_swap_instruction_def sdk_extract_swap_data_def swap_part_def fee_mint_of_def mint_s_of_def mint_u_of_def
      swap_args_of_def program_fee_token_def Let_def split: ApiQuoteTokens.split OppFeeToken.split)

lemma sum_case_Inr:
  "(case m of Inl e \<Rightarrow> Inl (f e) | Inr y \<Rightarrow> Inr (g y)) = Inr z \<longleftrightarrow> (\<exists>y. m = Inr y \<and> g y = z)"
  by (cases m) auto

lemma swap_bid_pieces:
  assumes lib: "library_ok lib env" and o1: "ao_program x = SwapParams o1" and bid: "new_bid lib x p = Inr (CreateSwap c)"
  obtains a wraps unwraps where "get_bid_amount_including_fees x (nb_amount p) = Inr a"
    and "wraps_ok lib env o1 (sdk_get_user_amount_to_wrap lib (amount_user (swap_args_of o1 a (nb_deadline p)))
           (ops_user_mint_user_balance o1) (ops_initialization o1)) wraps"
    and "unwraps_ok env o1 unwraps"
    and "lib_signed_transaction lib (nb_instructions p @ memo_part o1 @ create_part lib (ao_chain_id x) o1 p @ wraps @
           [swap_part lib (ao_chain_id x) o1 p a] @ unwraps) (nb_payer p) (nb_signers p) (nb_block_hash p) = Inr (csw_transaction c)"
    and "csw_chain_id c = ao_chain_id x" and "csw_opportunity_id c = ao_opportunity_id x"
proof -
  obtain ixs where ixs: "swap_bid_instructions lib x o1 p = Inr ixs"
    and t: "lib_signed_transaction lib ixs (nb_payer p) (nb_signers p) (nb_block_hash p) = Inr (csw_transaction c)"
    and c: "csw_chain_id c = ao_chain_id x" "csw_opportunity_id c = ao_opportunity_id x"
    using bid by (auto simp: new_bid_def o1 new_swap_bid_def rbind_Inr_iff sum_case_Inr)
  obtain a where a: "get_bid_amount_including_fees x (nb_amount p) = Inr a"
  proof (cases "get_bid_amount_including_fees x (nb_amount p)")
    case (Inl e)
    then have "get_swap_instruction lib q = Inl e" if "gi_opportunity q = x" "gi_bid_amount q = nb_amount p" for q
      using that by (simp add: get_swap_instruction_def sdk_extract_swap_data_def o1)
    then have "get_swap_instruction lib \<lparr>gi_searcher = s1, gi_opportunity = x, gi_bid_amount = nb_amount p,
        gi_deadline = s2, gi_fee_receiver_relayer = s3, gi_relayer_signer = s4\<rparr> = Inl e" for s1 s2 s3 s4 by simp
    with ixs Inl have False
      by (simp add: swap_bid_instructions_def rbind_Inr_iff Let_def case_prod_beta split: ApiQuoteTokens.splits)
    then show ?thesis ..
  qed (rule that)
  obtain sync where sync: "lib_sync_native lib (native_ata env (ops_user_wallet_address o1)) = Some sync"
    "ix_program_id sync = SPL_TOKEN" "accounts_of sync = [native_ata env (ops_user_wallet_address o1)]"
    "unpack_token_instruction env (ix_data sync) = Some SyncNative"
    using library_sync [OF lib] .
  obtain close where close: "lib_close_account lib (native_ata env (ops_user_wallet_address o1))
      (ops_user_wallet_address o1) (ops_user_wallet_address o1) = Some close" "ix_program_id close = SPL_TOKEN"
    "accounts_of close = [native_ata env (ops_user_wallet_address o1), ops_user_wallet_address o1, ops_user_wallet_address o1]"
    "unpack_token_instruction env (ix_data close) = Some CloseAccount"
    using library_close [OF lib] .
  define amount where "amount = sdk_get_user_amount_to_wrap lib (amount_user (swap_args_of o1 a (nb_deadline p)))
    (ops_user_mint_user_balance o1) (ops_initialization o1)"
  define wraps where "wraps = (if mint_u_of o1 = NATIVE_MINT
    then [lib_transfer lib (ops_user_wallet_address o1) (native_ata env (ops_user_wallet_address o1)) amount, sync] else [])"
  define unwraps where "unwraps = (if mint_s_of o1 = NATIVE_MINT \<or> mint_u_of o1 = NATIVE_MINT then [close] else [])"
  have ata: "lib_associated_token_address lib w NATIVE_MINT SPL_TOKEN = native_ata env w" for w
    by (simp add: library_okD(1) [OF lib] native_ata_def)
  note built = swap_instruction_built [OF o1 a]
  have "swap_bid_instructions lib x o1 p = Inr (nb_instructions p @ memo_part o1 @ create_part lib (ao_chain_id x) o1 p @
      wraps @ [swap_part lib (ao_chain_id x) o1 p a] @ unwraps)"
    using sync(1) close(1)
    by (simp add: swap_bid_instructions_def built get_wrap_sol_instructions_def get_unwrap_sol_instruction_def
        or_client_error_def ata memo_part_def get_memo_instruction_def library_okD(9) [OF lib] create_part_def
        accounts_to_create_def get_swap_create_accounts_idempotent_instructions_def wraps_def unwraps_def amount_def
        mint_s_of_def mint_u_of_def fee_mint_of_def swap_args_of_def a Let_def
        split: ApiQuoteTokens.split OppFeeToken.split option.split)
  with ixs have "ixs = nb_instructions p @ memo_part o1 @ create_part lib (ao_chain_id x) o1 p @ wraps @
      [swap_part lib (ao_chain_id x) o1 p a] @ unwraps" by simp
  moreover have "wraps_ok lib env o1 amount wraps" using sync by (auto simp: wraps_ok_def wraps_def)
  moreover have "unwraps_ok env o1 unwraps" using close by (auto simp: unwraps_ok_def unwraps_def)
  ultimately show ?thesis using that a t c by (simp add: amount_def)
qed

lemma card_keys_of: "card (keys_of ixs) \<le> sum_list (map (\<lambda>ix. 1 + length (accounts_of ix)) ixs)"
proof (induction ixs)
  case (Cons ix ixs)
  have "card (keys_of (ix # ixs)) \<le> card (set (ix_program_id ix # accounts_of ix)) + card (keys_of ixs)"
    using card_Un_le [of "set (ix_program_id ix # accounts_of ix)" "keys_of ixs"] by simp
  also have "\<dots> \<le> (1 + length (accounts_of ix)) + sum_list (map (\<lambda>ix. 1 + length (accounts_of ix)) ixs)"
    using card_length [of "ix_program_id ix # accounts_of ix"] by (intro add_mono Cons.IH) simp
  finally show ?case by simp
qed simp

lemma programs_distinct [simp]:
  "SYSTEM_PROGRAM \<noteq> SPL_TOKEN" "SYSTEM_PROGRAM \<noteq> SPL_ASSOCIATED_TOKEN_ACCOUNT" "SYSTEM_PROGRAM \<noteq> SPL_MEMO"
  "SYSTEM_PROGRAM \<noteq> COMPUTE_BUDGET" "SPL_TOKEN \<noteq> SYSTEM_PROGRAM" "SPL_TOKEN \<noteq> SPL_ASSOCIATED_TOKEN_ACCOUNT"
  "SPL_TOKEN \<noteq> SPL_MEMO" "SPL_TOKEN \<noteq> COMPUTE_BUDGET" "SPL_ASSOCIATED_TOKEN_ACCOUNT \<noteq> SYSTEM_PROGRAM"
  "SPL_ASSOCIATED_TOKEN_ACCOUNT \<noteq> SPL_TOKEN" "SPL_ASSOCIATED_TOKEN_ACCOUNT \<noteq> SPL_MEMO"
  "SPL_ASSOCIATED_TOKEN_ACCOUNT \<noteq> COMPUTE_BUDGET" "SPL_MEMO \<noteq> SYSTEM_PROGRAM" "SPL_MEMO \<noteq> SPL_TOKEN"
  "SPL_MEMO \<noteq> SPL_ASSOCIATED_TOKEN_ACCOUNT" "SPL_MEMO \<noteq> COMPUTE_BUDGET" "COMPUTE_BUDGET \<noteq> SYSTEM_PROGRAM"
  "COMPUTE_BUDGET \<noteq> SPL_TOKEN" "COMPUTE_BUDGET \<noteq> SPL_ASSOCIATED_TOKEN_ACCOUNT" "COMPUTE_BUDGET \<noteq> SPL_MEMO"
  by (simp_all add: SYSTEM_PROGRAM_def SPL_TOKEN_def SPL_ASSOCIATED_TOKEN_ACCOUNT_def SPL_MEMO_def COMPUTE_BUDGET_def)

lemma pid_distinct [simp]:
  "get_express_relay_pid ch \<noteq> SYSTEM_PROGRAM" "get_express_relay_pid ch \<noteq> SPL_TOKEN"
  "get_express_relay_pid ch \<noteq> SPL_ASSOCIATED_TOKEN_ACCOUNT" "get_express_relay_pid ch \<noteq> SPL_MEMO"
  "get_express_relay_pid ch \<noteq> COMPUTE_BUDGET"
  by (simp_all add: get_express_relay_pid_def STAGING_PROGRAM_ID_def EXPRESS_RELAY_ID_def SYSTEM_PROGRAM_def SPL_TOKEN_def
      SPL_ASSOCIATED_TOKEN_ACCOUNT_def SPL_MEMO_def COMPUTE_BUDGET_def)

lemmas program_neqs [simp] = programs_distinct pid_distinct pid_distinct [symmetric]

lemma swap_part_simps [simp]:
  "ix_program_id (swap_part lib ch o1 p a) = get_express_relay_pid ch" "length (accounts_of (swap_part lib ch o1 p a)) = 17"
  by (simp_all add: swap_part_def create_swap_instruction_def accounts_of_def Let_def case_prod_beta)

lemma memo_part_programs: "ix \<in> set (memo_part o1) \<Longrightarrow> ix_program_id ix = SPL_MEMO \<and> accounts_of ix = []"
  by (auto simp: memo_part_def accounts_of_def split: option.splits)

lemma create_part_programs:
  "library_ok lib env \<Longrightarrow> ix \<in> set (create_part lib ch o1 p) \<Longrightarrow>
     ix_program_id ix = SPL_ASSOCIATED_TOKEN_ACCOUNT \<and> length (accounts_of ix) = 6 \<and> accounts_of ix ! 4 = SYSTEM_PROGRAM \<and>
     parse_ata_instruction env (ix_data ix) = Some CreateIdempotentAta"
  by (auto simp: create_part_def library_okD)

lemma length_map_filter: "length (List.map_filter f xs) \<le> length xs"
  by (induction xs) (auto simp: List.map_filter_simps split: option.splits)

lemma length_create_part: "length (create_part lib ch o1 p) \<le> 5"
proof -
  have "length (get_token_accounts_to_create g) \<le> 5" for g
    unfolding get_token_accounts_to_create_def
    by (rule order_trans [OF length_map_filter]) (simp add: token_accounts_initialization_params_def)
  then show ?thesis by (simp add: create_part_def accounts_to_create_def)
qed

definition only_budget :: "instruction list \<Rightarrow> bool" where
  "only_budget ixs \<longleftrightarrow> (\<forall>ix\<in>set ixs. ix_program_id ix = COMPUTE_BUDGET \<and> ix_accounts ix = [])"

lemma wraps_programs:
  assumes "library_ok lib env" and "wraps_ok lib env o1 amount wraps" and "ix \<in> set wraps"
  shows "ix_program_id ix \<in> {SYSTEM_PROGRAM, SPL_TOKEN}"
  using assms by (auto simp: wraps_ok_def library_okD split: if_splits)

lemma unwraps_programs: "unwraps_ok env o1 unwraps \<Longrightarrow> ix \<in> set unwraps \<Longrightarrow> ix_program_id ix = SPL_TOKEN"
  by (auto simp: unwraps_ok_def split: if_splits)

definition whole_bid :: "solana_library \<Rightarrow> string \<Rightarrow> OpportunityParamsSwap \<Rightarrow> NewBidParams \<Rightarrow> u64 \<Rightarrow> instruction list \<Rightarrow>
    instruction list \<Rightarrow> instruction list" where
  "whole_bid lib ch o1 p a wraps unwraps =
     nb_instructions p @ memo_part o1 @ create_part lib ch o1 p @ wraps @ [swap_part lib ch o1 p a] @ unwraps"

lemma whole_bid_keys:
  assumes lib: "library_ok lib env" and "only_budget (nb_instructions p)"
    and w: "wraps_ok lib env o1 amount wraps" and u: "unwraps_ok env o1 unwraps"
  shows "card (insert payer (keys_of (whole_bid lib ch o1 p a wraps unwraps))) \<le> 256"
proof -
  let ?rest = "memo_part o1 @ create_part lib ch o1 p @ wraps @ [swap_part lib ch o1 p a] @ unwraps"
  have "keys_of (nb_instructions p) \<subseteq> {COMPUTE_BUDGET}"
    using assms(2) by (auto simp: keys_of_def only_budget_def)
  then have "insert payer (keys_of (whole_bid lib ch o1 p a wraps unwraps)) \<subseteq> set [payer, COMPUTE_BUDGET] \<union> keys_of ?rest"
    by (auto simp: whole_bid_def)
  moreover have "finite (set [payer, COMPUTE_BUDGET] \<union> keys_of ?rest)" by (simp add: keys_of_def)
  ultimately have "card (insert payer (keys_of (whole_bid lib ch o1 p a wraps unwraps))) \<le> card (set [payer, COMPUTE_BUDGET] \<union> keys_of ?rest)"
    by (rule card_mono [rotated])
  also have "\<dots> \<le> card (set [payer, COMPUTE_BUDGET]) + card (keys_of ?rest)" by (rule card_Un_le)
  also have "\<dots> \<le> 2 + sum_list (map (\<lambda>ix. 1 + length (accounts_of ix)) ?rest)"
    by (intro add_mono card_keys_of card_set_le) simp
  also have "\<dots> \<le> 2 + 63"
  proof -
    have "sum_list (map (\<lambda>ix. 1 + length (accounts_of ix)) (memo_part o1)) \<le> 1"
      by (simp add: memo_part_def accounts_of_def split: option.split)
    moreover have sevens: "map (\<lambda>ix. 1 + length (accounts_of ix)) (create_part lib ch o1 p) = map (\<lambda>_. 7) (create_part lib ch o1 p)"
      using create_part_programs [OF lib] by auto
    have "sum_list (map (\<lambda>ix. 1 + length (accounts_of ix)) (create_part lib ch o1 p)) \<le> 35"
      unfolding sevens sum_list_triv using length_create_part [of lib ch o1 p] by simp
    moreover have "sum_list (map (\<lambda>ix. 1 + length (accounts_of ix)) wraps) \<le> 5"
      using w by (auto simp: wraps_ok_def library_okD [OF lib] split: if_splits)
    moreover have "sum_list (map (\<lambda>ix. 1 + length (accounts_of ix)) unwraps) \<le> 4"
      using u by (auto simp: unwraps_ok_def split: if_splits)
    ultimately show ?thesis by simp
  qed
  finally show ?thesis by simp
qed


subsection \<open>What the server finds in it\<close>

lemma numbered_other:
  "(\<And>ix. ix \<in> set ixs \<Longrightarrow> ix_program_id ix = q) \<Longrightarrow> q \<noteq> program \<Longrightarrow> numbered program n ixs = []"
  by (rule numbered_none) auto

lemma whole_bid_numbered:
  fixes lib ch o1 p a wraps unwraps
  defines "ixs \<equiv> whole_bid lib ch o1 p a wraps unwraps"
  assumes lib: "library_ok lib env" and extra: "only_budget (nb_instructions p)"
    and w: "wraps_ok lib env o1 amount wraps" and u: "unwraps_ok env o1 unwraps"
  shows "\<exists>k. numbered (get_express_relay_pid ch) 0 ixs = [(k, swap_part lib ch o1 p a)]"
    and "\<exists>k. numbered SPL_MEMO 0 ixs = List.enumerate k (memo_part o1)"
    and "\<exists>k. creates_in env ixs = List.enumerate k (create_part lib ch o1 p)"
    and "\<exists>k. transfers_in env ixs = (if mint_u_of o1 = NATIVE_MINT
      then [(k, lib_transfer lib (ops_user_wallet_address o1) (native_ata env (ops_user_wallet_address o1)) amount)] else [])"
    and "map (accounts_of \<circ> snd) (tokens_in env SyncNative ixs) =
      (if mint_u_of o1 = NATIVE_MINT then [[native_ata env (ops_user_wallet_address o1)]] else [])"
    and "\<exists>k close. tokens_in env CloseAccount ixs =
        (if mint_s_of o1 = NATIVE_MINT \<or> mint_u_of o1 = NATIVE_MINT then [(k, close)] else []) \<and>
      accounts_of close = [native_ata env (ops_user_wallet_address o1), ops_user_wallet_address o1, ops_user_wallet_address o1]"
proof -
  let ?n1 = "length (nb_instructions p)"
  let ?n2 = "?n1 + length (memo_part o1)"
  let ?n3 = "?n2 + length (create_part lib ch o1 p)"
  let ?n4 = "?n3 + length wraps"
  have budget: "numbered q 0 (nb_instructions p) = []" if "q \<noteq> COMPUTE_BUDGET" for q
    using extra that by (intro numbered_other [where q = COMPUTE_BUDGET]) (auto simp: only_budget_def)
  have memo: "numbered q n (memo_part o1) = (if q = SPL_MEMO then List.enumerate n (memo_part o1) else [])" for q n
    using memo_part_programs by (auto intro!: numbered_all numbered_other [where q = SPL_MEMO])
  have create: "numbered q n (create_part lib ch o1 p) =
      (if q = SPL_ASSOCIATED_TOKEN_ACCOUNT then List.enumerate n (create_part lib ch o1 p) else [])" for q n
    using create_part_programs [OF lib] by (auto intro!: numbered_all numbered_other [where q = SPL_ASSOCIATED_TOKEN_ACCOUNT])
  have wraps: "numbered q n wraps = []" if "q \<noteq> SYSTEM_PROGRAM" "q \<noteq> SPL_TOKEN" for q n
    using wraps_programs [OF lib w] that by (intro numbered_none) auto
  have unwraps: "numbered q n unwraps = []" if "q \<noteq> SPL_TOKEN" for q n
    using unwraps_programs [OF u] that by (intro numbered_other [where q = SPL_TOKEN]) auto
  note parts = budget memo create wraps unwraps
  show "\<exists>k. numbered (get_express_relay_pid ch) 0 ixs = [(k, swap_part lib ch o1 p a)]"
    by (simp add: ixs_def whole_bid_def parts)
  show "\<exists>k. numbered SPL_MEMO 0 ixs = List.enumerate k (memo_part o1)"
    by (rule exI [of _ ?n1]) (simp add: ixs_def whole_bid_def parts)
  have "parse_ata_instruction env (ix_data (create_part lib ch o1 p ! j)) = Some CreateIdempotentAta"
    if "j < length (create_part lib ch o1 p)" for j
    using create_part_programs [OF lib nth_mem [OF that]] by blast
  then have "filter (\<lambda>(i, ix). parse_ata_instruction env (ix_data ix) \<in> {Some CreateAta, Some CreateIdempotentAta})
      (List.enumerate ?n2 (create_part lib ch o1 p)) = List.enumerate ?n2 (create_part lib ch o1 p)"
    by (auto simp: filter_id_conv in_set_enumerate_eq)
  then show "\<exists>k. creates_in env ixs = List.enumerate k (create_part lib ch o1 p)"
    by (intro exI [of _ ?n2]) (simp add: ixs_def whole_bid_def parts creates_in_def)
  have sys: "numbered SYSTEM_PROGRAM 0 ixs = numbered SYSTEM_PROGRAM ?n3 wraps"
    by (simp add: ixs_def whole_bid_def parts)
  show "\<exists>k. transfers_in env ixs = (if mint_u_of o1 = NATIVE_MINT
      then [(k, lib_transfer lib (ops_user_wallet_address o1) (native_ata env (ops_user_wallet_address o1)) amount)] else [])"
    using w by (auto simp: transfers_in_def sys wraps_ok_def library_okD [OF lib] split: if_splits)
  have token: "numbered SPL_TOKEN 0 ixs = numbered SPL_TOKEN ?n3 wraps @ numbered SPL_TOKEN (Suc ?n4) unwraps"
    by (simp add: ixs_def whole_bid_def parts)
  show "map (accounts_of \<circ> snd) (tokens_in env SyncNative ixs) =
      (if mint_u_of o1 = NATIVE_MINT then [[native_ata env (ops_user_wallet_address o1)]] else [])"
    using w u by (auto simp: tokens_in_def token wraps_ok_def unwraps_ok_def library_okD [OF lib] split: if_splits)
  show "\<exists>k close. tokens_in env CloseAccount ixs =
        (if mint_s_of o1 = NATIVE_MINT \<or> mint_u_of o1 = NATIVE_MINT then [(k, close)] else []) \<and>
      accounts_of close = [native_ata env (ops_user_wallet_address o1), ops_user_wallet_address o1, ops_user_wallet_address o1]"
  proof (cases "mint_s_of o1 = NATIVE_MINT \<or> mint_u_of o1 = NATIVE_MINT")
    case True
    with w u show ?thesis
      by (auto simp: tokens_in_def token wraps_ok_def unwraps_ok_def library_okD [OF lib] split: if_splits)
  next
    case False
    with w u have "tokens_in env CloseAccount ixs = []"
      by (auto simp: tokens_in_def token wraps_ok_def unwraps_ok_def split: if_splits)
    with False library_close [OF lib] show ?thesis by metis
  qed
qed

lemma validate_ok:
  assumes "programs_in_range t" and "\<And>ci. ci \<in> set (instructions (message t)) \<Longrightarrow>
      validate_swap_transaction_instruction env (program_of t ci) ci = Inr ()"
  shows "validate_swap_transaction_instructions env t = Inr ()"
proof -
  have "validate_at env t x = Inr ()" if "x \<in> set (List.enumerate 0 (instructions (message t)))" for x
  proof -
    obtain i ci where x: "x = (i, ci)" by fastforce
    with that have ci: "ci \<in> set (instructions (message t))" by (auto simp: in_set_enumerate_eq)
    with assms(1) have "ix_program_id_of t ci = Inr (program_of t ci)"
      by (auto simp: programs_in_range_def ix_program_id_of_def program_of_def nth_opt_def)
    with assms(2) [OF ci] show ?thesis by (simp add: x)
  qed
  from each_rest_all [of _ "validate_at env t" "\<lambda>_. ()", OF this] show ?thesis
    by (simp add: validate_swap_transaction_instructions_def)
qed


subsection \<open>Each check passes\<close>

lemma mset_swap_remove:
  assumes "i < length xs"
  shows "mset (swap_remove xs i) = mset xs - {#xs ! i#}"
proof -
  let ?ys = "xs[i := last xs]"
  from assms have ne: "xs \<noteq> []" "?ys \<noteq> []" by auto
  have last: "last ?ys = last xs" using assms ne(1) by (simp add: last_list_update)
  have "add_mset (last ?ys) (mset (butlast ?ys)) = mset ?ys"
    using append_butlast_last_id [OF ne(2)] by (metis mset_append mset.simps union_mset_add_mset_right add.right_neutral)
  also have "\<dots> = add_mset (last xs) (mset xs - {#xs ! i#})" using assms by (rule mset_update)
  finally show ?thesis by (simp add: last swap_remove_def)
qed

lemma swap_remove_distinct:
  assumes "i < length xs" and "distinct (map f xs)"
  shows "set (swap_remove xs i) = {x \<in> set xs. f x \<noteq> f (xs ! i)}" and "distinct (map f (swap_remove xs i))"
proof -
  have split: "mset xs = add_mset (xs ! i) (mset (swap_remove xs i))"
    using assms(1) by (simp add: mset_swap_remove)
  have "mset (map f xs) = mset (f (xs ! i) # map f (swap_remove xs i))" by (simp add: split)
  with assms(2) have d: "distinct (f (xs ! i) # map f (swap_remove xs i))" using mset_eq_imp_distinct_iff by blast
  then show "distinct (map f (swap_remove xs i))" by simp
  have "set xs = insert (xs ! i) (set (swap_remove xs i))" by (metis split set_mset_mset set_mset_add_mset_insert)
  moreover have "f x \<noteq> f (xs ! i)" if "x \<in> set (swap_remove xs i)" for x
    using d imageI [OF that, of f] by auto
  ultimately show "set (swap_remove xs i) = {x \<in> set xs. f x \<noteq> f (xs ! i)}" by auto
qed

lemma validate_and_remove_ok:
  assumes distinct: "distinct (map at_ata xs)"
    and there: "config = UserPayer \<Longrightarrow> \<exists>x\<in>set xs. at_ata x = associated_token_address env (sa_user_wallet a) mint program \<and>
      at_mint x = mint \<and> at_owner x = sa_user_wallet a \<and> at_token_program x = program \<and>
      (at_payer x = sa_searcher a \<or> at_payer x = sa_user_wallet a)"
  obtains ys where "validate_and_remove_create_user_ata_instruction env a mint program config xs = Inr ys"
    and "distinct (map at_ata ys)"
    and "set ys = {x \<in> set xs. config = UserPayer \<longrightarrow> at_ata x \<noteq> associated_token_address env (sa_user_wallet a) mint program}"
proof (cases "config = UserPayer")
  case True
  let ?ata = "associated_token_address env (sa_user_wallet a) mint program"
  from there [OF True] obtain x where x: "x \<in> set xs" "at_ata x = ?ata" "at_mint x = mint" "at_owner x = sa_user_wallet a"
    "at_token_program x = program" "at_payer x = sa_searcher a \<or> at_payer x = sa_user_wallet a" by blast
  then obtain i where i: "position (\<lambda>x. at_ata x = ?ata) xs = Some i"
    using position_None [of "\<lambda>x. at_ata x = ?ata" xs] by (cases "position (\<lambda>x. at_ata x = ?ata) xs") auto
  note pos = position_Some(1,2) [OF i]
  from distinct pos x(1,2) have "xs ! i = x"
    by (metis (mono_tags, lifting) distinct_map inj_onD nth_mem)
  with x pos(2) i True have "validate_and_remove_create_user_ata_instruction env a mint program config xs = Inr (swap_remove xs i)"
    by (auto simp: validate_and_remove_create_user_ata_instruction_def Let_def)
  with swap_remove_distinct [OF pos(1) distinct] True pos(2) show ?thesis by (intro that) auto
next
  case False
  with distinct show ?thesis by (intro that [of xs]) (auto simp: validate_and_remove_create_user_ata_instruction_def)
qed

lemma searcher_pays_all_ok: "(\<And>x. x \<in> set xs \<Longrightarrow> at_payer x = searcher) \<Longrightarrow> searcher_pays_all searcher xs = Inr ()"
  by (induction xs) auto

lemma create_ata_check_ok:
  assumes distinct: "distinct (map at_ata xs)"
    and user: "\<And>mint program config. (mint, program, config) \<in> {(sa_mint_user a, sa_token_program_user a, user_ata_mint_user configs),
        (sa_mint_searcher a, sa_token_program_searcher a, user_ata_mint_searcher configs)} \<Longrightarrow> config = UserPayer \<Longrightarrow>
      \<exists>x\<in>set xs. at_ata x = associated_token_address env (sa_user_wallet a) mint program \<and>
      at_mint x = mint \<and> at_owner x = sa_user_wallet a \<and> at_token_program x = program \<and>
      (at_payer x = sa_searcher a \<or> at_payer x = sa_user_wallet a)"
    and others: "\<And>x. x \<in> set xs \<Longrightarrow> at_payer x = sa_searcher a \<or>
      (user_ata_mint_user configs = UserPayer \<and> at_ata x = associated_token_address env (sa_user_wallet a) (sa_mint_user a) (sa_token_program_user a)) \<or>
      (user_ata_mint_searcher configs = UserPayer \<and> at_ata x = associated_token_address env (sa_user_wallet a) (sa_mint_searcher a) (sa_token_program_searcher a))"
    and atas: "associated_token_address env (sa_user_wallet a) (sa_mint_user a) (sa_token_program_user a) \<noteq>
      associated_token_address env (sa_user_wallet a) (sa_mint_searcher a) (sa_token_program_searcher a)"
  shows "create_ata_check env a configs xs = Inr ()"
proof -
  let ?mu = "associated_token_address env (sa_user_wallet a) (sa_mint_user a) (sa_token_program_user a)"
  let ?ms = "associated_token_address env (sa_user_wallet a) (sa_mint_searcher a) (sa_token_program_searcher a)"
  obtain ys where ys: "validate_and_remove_create_user_ata_instruction env a (sa_mint_user a) (sa_token_program_user a)
      (user_ata_mint_user configs) xs = Inr ys" "distinct (map at_ata ys)"
    "set ys = {x \<in> set xs. user_ata_mint_user configs = UserPayer \<longrightarrow> at_ata x \<noteq> ?mu}"
    using validate_and_remove_ok [OF distinct user [of "sa_mint_user a" "sa_token_program_user a" "user_ata_mint_user configs"]] by auto
  have there: "\<exists>x\<in>set ys. at_ata x = ?ms \<and> at_mint x = sa_mint_searcher a \<and> at_owner x = sa_user_wallet a \<and>
      at_token_program x = sa_token_program_searcher a \<and> (at_payer x = sa_searcher a \<or> at_payer x = sa_user_wallet a)"
    if u: "user_ata_mint_searcher configs = UserPayer"
    using user [of "sa_mint_searcher a" "sa_token_program_searcher a" "user_ata_mint_searcher configs"] u atas ys(3) by auto
  obtain zs where zs: "validate_and_remove_create_user_ata_instruction env a (sa_mint_searcher a) (sa_token_program_searcher a)
      (user_ata_mint_searcher configs) ys = Inr zs"
    "set zs = {x \<in> set ys. user_ata_mint_searcher configs = UserPayer \<longrightarrow> at_ata x \<noteq> ?ms}"
    using validate_and_remove_ok [where config = "user_ata_mint_searcher configs", OF ys(2) there] by blast
  have "searcher_pays_all (sa_searcher a) zs = Inr ()"
    using others ys(3) zs(2) by (intro searcher_pays_all_ok) blast
  with ys(1) zs(1) show ?thesis by (simp add: create_ata_check_def)
qed

text \<open>The token accounts the swap pays into, in the order the SDK creates them.\<close>

definition receiving_accounts :: "solana_library \<Rightarrow> string \<Rightarrow> OpportunityParamsSwap \<Rightarrow> NewBidParams \<Rightarrow> pubkey list" where
  "receiving_accounts lib ch o1 p =
     (let ata = lib_associated_token_address lib; user = ops_user_wallet_address o1; fee_ata = (\<lambda>owner. ata owner (fst (fee_mint_of o1)) (snd (fee_mint_of o1)))
      in [ata user (mint_s_of o1) (ops_token_program_searcher o1), ata user (mint_u_of o1) (ops_token_program_user o1),
          fee_ata (ops_router_account o1), fee_ata (nb_fee_receiver_relayer p),
          fee_ata (lib_find_program_address lib [SEED_METADATA] (get_express_relay_pid ch))])"

definition user_pays_own_accounts :: "TokenAccountInitializationConfigs \<Rightarrow> bool" where
  "user_pays_own_accounts c \<longleftrightarrow> UserPayer \<notin> {router_fee_receiver_ta c, relayer_fee_receiver_ata c, express_relay_fee_receiver_ata c}"

lemma distinct_map_filter:
  "distinct (map h ps) \<Longrightarrow> (\<And>q t. get q = Some t \<Longrightarrow> g t = h q) \<Longrightarrow> distinct (map g (List.map_filter get ps))"
proof (induction ps)
  case (Cons q ps)
  have "g ` set (List.map_filter get ps) \<subseteq> h ` set ps"
    using Cons.prems(2) by (auto simp: List.map_filter_def)
  with Cons show ?case by (auto simp: List.map_filter_simps split: option.split)
qed (simp add: List.map_filter_simps)

lemma accounts_to_create_distinct:
  "distinct (receiving_accounts lib ch o1 p) \<Longrightarrow>
     distinct (map (\<lambda>t. lib_associated_token_address lib (tc_owner t) (tc_mint t) (tc_program t)) (accounts_to_create lib ch o1 p))"
  unfolding accounts_to_create_def get_token_accounts_to_create_def
  by (rule distinct_map_filter [where h = "\<lambda>q. lib_associated_token_address lib (ti_owner q) (ti_mint q) (ti_program q)"])
    (auto simp: receiving_accounts_def token_accounts_initialization_params_def Let_def get_token_account_to_create_def split: if_splits)

definition entry_of :: "env \<Rightarrow> TokenAccountToCreate \<Rightarrow> CreateAtaInstructionData \<Rightarrow> bool" where
  "entry_of env t x \<longleftrightarrow> at_payer x = tc_payer t \<and> at_ata x = associated_token_address env (tc_owner t) (tc_mint t) (tc_program t) \<and>
     at_owner x = tc_owner t \<and> at_mint x = tc_mint t \<and> at_token_program x = tc_program t"

lemma entries_of:
  assumes "library_ok lib env"
  shows "list_all2 (entry_of env) (accounts_to_create lib ch o1 p) (map ata_entry (List.enumerate k (create_part lib ch o1 p)))"
  by (auto simp: list_all2_conv_all_nth create_part_def nth_enumerate_eq ata_entry_def entry_of_def library_okD(7) [OF assms])

lemma list_all2_right: "list_all2 P xs ys \<Longrightarrow> y \<in> set ys \<Longrightarrow> \<exists>x\<in>set xs. P x y"
  by (induction xs ys rule: list_all2_induct) auto

lemma list_all2_left: "list_all2 P xs ys \<Longrightarrow> x \<in> set xs \<Longrightarrow> \<exists>y\<in>set ys. P x y"
  by (induction xs ys rule: list_all2_induct) auto

lemma in_accounts_to_create:
  "t \<in> set (accounts_to_create lib ch o1 p) \<longleftrightarrow> (\<exists>q\<in>set (token_accounts_initialization_params
     \<lparr>gt_searcher = nb_searcher p, gt_user = ops_user_wallet_address o1, gt_router = ops_router_account o1,
      gt_fee_receiver_relayer = nb_fee_receiver_relayer p,
      gt_express_relay_metadata = lib_find_program_address lib [SEED_METADATA] (get_express_relay_pid ch),
      gt_mint_searcher = mint_s_of o1, gt_token_program_searcher = ops_token_program_searcher o1,
      gt_mint_user = mint_u_of o1, gt_token_program_user = ops_token_program_user o1,
      gt_mint_fee = fst (fee_mint_of o1), gt_fee_token_program = snd (fee_mint_of o1), gt_configs = ops_initialization o1\<rparr>).
     get_token_account_to_create (nb_searcher p) (ops_user_wallet_address o1) q = Some t)"
  by (auto simp: accounts_to_create_def get_token_accounts_to_create_def List.map_filter_def image_iff)

lemma created_payer:
  "get_token_account_to_create searcher user q = Some t \<Longrightarrow> tc_payer t = searcher \<or>
     ti_config q = UserPayer \<and> tc_owner t = ti_owner q \<and> tc_mint t = ti_mint q \<and> tc_program t = ti_program q"
  by (cases "ti_config q") (auto simp: get_token_account_to_create_def)

lemma accounts_payer:
  assumes t: "t \<in> set (accounts_to_create lib ch o1 p)" and pays: "user_pays_own_accounts (ops_initialization o1)"
  shows "tc_payer t = nb_searcher p \<or> tc_owner t = ops_user_wallet_address o1 \<and>
    (user_ata_mint_user (ops_initialization o1) = UserPayer \<and> tc_mint t = mint_u_of o1 \<and> tc_program t = ops_token_program_user o1 \<or>
     user_ata_mint_searcher (ops_initialization o1) = UserPayer \<and> tc_mint t = mint_s_of o1 \<and> tc_program t = ops_token_program_searcher o1)"
  using t pays unfolding in_accounts_to_create token_accounts_initialization_params_def user_pays_own_accounts_def
  by (elim bexE) (drule created_payer, force)

lemma creates_pass:
  assumes lib: "library_ok lib env" and distinct: "distinct (receiving_accounts lib ch o1 p)"
    and pays: "user_pays_own_accounts (ops_initialization o1)"
    and a: "sa_searcher a = nb_searcher p" "sa_user_wallet a = ops_user_wallet_address o1" "sa_mint_searcher a = mint_s_of o1"
      "sa_mint_user a = mint_u_of o1" "sa_token_program_searcher a = ops_token_program_searcher o1"
      "sa_token_program_user a = ops_token_program_user o1"
  shows "create_ata_check env a (ops_initialization o1) (map ata_entry (List.enumerate k (create_part lib ch o1 p))) = Inr ()"
    (is "create_ata_check env a _ ?xs = _")
proof (rule create_ata_check_ok)
  let ?ts = "accounts_to_create lib ch o1 p"
  note entries = entries_of [OF lib, of ch o1 p k] and ata = library_okD(1) [OF lib]
  have "map at_ata ?xs = map (\<lambda>t. associated_token_address env (tc_owner t) (tc_mint t) (tc_program t)) ?ts"
    using entries by (auto simp: list_all2_conv_all_nth entry_of_def intro!: nth_equalityI)
  with accounts_to_create_distinct [OF distinct] show "distinct (map at_ata ?xs)" by (simp add: ata)
  show "associated_token_address env (sa_user_wallet a) (sa_mint_user a) (sa_token_program_user a) \<noteq>
      associated_token_address env (sa_user_wallet a) (sa_mint_searcher a) (sa_token_program_searcher a)"
    using distinct by (auto simp: receiving_accounts_def Let_def a ata)
next
  fix mint program config
  assume cfg: "(mint, program, config) \<in> {(sa_mint_user a, sa_token_program_user a, user_ata_mint_user (ops_initialization o1)),
      (sa_mint_searcher a, sa_token_program_searcher a, user_ata_mint_searcher (ops_initialization o1))}" and "config = UserPayer"
  let ?t = "\<lparr>tc_payer = ops_user_wallet_address o1, tc_owner = ops_user_wallet_address o1, tc_mint = mint, tc_program = program\<rparr>"
  have "?t \<in> set (accounts_to_create lib ch o1 p)"
  proof -
    consider "mint = mint_u_of o1" "program = ops_token_program_user o1" "user_ata_mint_user (ops_initialization o1) = UserPayer"
      | "mint = mint_s_of o1" "program = ops_token_program_searcher o1" "user_ata_mint_searcher (ops_initialization o1) = UserPayer"
      using cfg \<open>config = UserPayer\<close> a by (metis (no_types, lifting) insert_iff prod.inject singletonD)
    then show ?thesis
      by cases (simp_all add: in_accounts_to_create token_accounts_initialization_params_def get_token_account_to_create_def)
  qed
  then obtain x where "x \<in> set ?xs" "entry_of env ?t x"
    using list_all2_left [OF entries_of [OF lib]] by blast
  then show "\<exists>x\<in>set ?xs. at_ata x = associated_token_address env (sa_user_wallet a) mint program \<and>
      at_mint x = mint \<and> at_owner x = sa_user_wallet a \<and> at_token_program x = program \<and>
      (at_payer x = sa_searcher a \<or> at_payer x = sa_user_wallet a)"
    by (auto simp: entry_of_def a)
next
  fix x
  assume "x \<in> set ?xs"
  then obtain t where t: "t \<in> set (accounts_to_create lib ch o1 p)" "entry_of env t x"
    using list_all2_right [OF entries_of [OF lib]] by blast
  then show "at_payer x = sa_searcher a \<or>
      (user_ata_mint_user (ops_initialization o1) = UserPayer \<and>
        at_ata x = associated_token_address env (sa_user_wallet a) (sa_mint_user a) (sa_token_program_user a)) \<or>
      (user_ata_mint_searcher (ops_initialization o1) = UserPayer \<and>
        at_ata x = associated_token_address env (sa_user_wallet a) (sa_mint_searcher a) (sa_token_program_searcher a))"
    using accounts_payer [OF t(1) pays] t(2) by (auto simp: entry_of_def a)
qed

definition swap_accounts_of :: "solana_library \<Rightarrow> OpportunityParamsSwap \<Rightarrow> NewBidParams \<Rightarrow> SwapAccounts" where
  "swap_accounts_of lib o1 p = \<lparr>sa_searcher = nb_searcher p, sa_user_wallet = ops_user_wallet_address o1,
     sa_mint_searcher = mint_s_of o1, sa_mint_user = mint_u_of o1,
     sa_router_token_account = lib_associated_token_address lib (ops_router_account o1) (fst (fee_mint_of o1)) (snd (fee_mint_of o1)),
     sa_token_program_searcher = ops_token_program_searcher o1, sa_token_program_user = ops_token_program_user o1\<rparr>"

definition decoded_swap :: "solana_library \<Rightarrow> OpportunityParamsSwap \<Rightarrow> NewBidParams \<Rightarrow> u64 \<Rightarrow> nat \<Rightarrow> BidTransactionDataSwap" where
  "decoded_swap lib o1 p a k = \<lparr>swap_data = swap_args_of o1 a (nb_deadline p), swap_tx_accounts = swap_accounts_of lib o1 p,
     swap_ix_index = k\<rparr>"

lemma served_swap:
  assumes "api_opportunity opp = Inr x" and "o_program opp = SwapProgram terms"
  obtains tokens o1 where "get_swap_quote_tokens opp = Inr tokens" and "ao_program x = SwapParams o1"
    and "ao_chain_id x = o_chain_id opp" and "ao_opportunity_id x = o_id opp"
    and "ops_tokens o1 = api_quote_tokens terms tokens" and "ops_user_wallet_address o1 = os_user_wallet_address terms"
    and "ops_user_mint_user_balance o1 = os_user_mint_user_balance terms" and "ops_router_account o1 = o_router opp"
    and "ops_referral_fee_ppm o1 = os_referral_fee_ppm terms" and "ops_platform_fee_ppm o1 = os_platform_fee_ppm terms"
    and "ops_fee_token o1 = os_fee_token terms" and "ops_token_program_searcher o1 = os_token_program_searcher terms"
    and "ops_token_program_user o1 = os_token_program_user terms" and "ops_initialization o1 = os_initialization terms"
    and "ops_memo o1 = os_memo terms"
  using assms by (auto simp: api_opportunity_def rbind_Inr_iff)

lemma swap_fields_pass:
  assumes "ops_tokens o1 = api_quote_tokens terms tokens" and "ops_user_wallet_address o1 = os_user_wallet_address terms"
    and "ops_referral_fee_ppm o1 = os_referral_fee_ppm terms" and "ops_platform_fee_ppm o1 = os_platform_fee_ppm terms"
    and "ops_fee_token o1 = os_fee_token terms" and "ops_token_program_searcher o1 = os_token_program_searcher terms"
    and "ops_token_program_user o1 = os_token_program_user terms"
  shows "swap_fields_check terms tokens (decoded_swap lib o1 p a k) = Inr ()"
  using assms
  by (cases tokens) (simp_all add: swap_fields_check_def decoded_swap_def swap_accounts_of_def swap_args_of_def differs_def
      api_quote_tokens_def mint_s_of_def mint_u_of_def)

lemma wrap_amount_agrees:
  assumes "library_ok lib env" and "ops_user_mint_user_balance o1 = os_user_mint_user_balance terms"
    and "ops_initialization o1 = os_initialization terms"
  shows "sdk_get_user_amount_to_wrap lib amount (ops_user_mint_user_balance o1) (ops_initialization o1) =
    get_user_amount_to_wrap env terms amount"
  by (simp add: sdk_get_user_amount_to_wrap_def get_user_amount_to_wrap_def
      get_user_sol_amount_paid_for_token_account_initializations_def library_okD(2) [OF assms(1)] assms(2,3))

lemma transfers_pass:
  assumes "library_ok lib env" and "\<exists>k. transfers = (if mint_u_of o1 = NATIVE_MINT
      then [(k, lib_transfer lib (ops_user_wallet_address o1) (native_ata env (ops_user_wallet_address o1))
              (get_user_amount_to_wrap env terms (amount_user (swap_args_of o1 a (nb_deadline p)))))] else [])"
  shows "transfer_check env (decoded_swap lib o1 p a i) terms (map (transfer_entry env) transfers) = Inr ()"
  using assms(2)
  by (auto simp: transfer_check_def decoded_swap_def swap_accounts_of_def transfer_entry_def library_okD [OF assms(1)])

lemma closes_pass:
  assumes "\<exists>k close. closes = (if mint_s_of o1 = NATIVE_MINT \<or> mint_u_of o1 = NATIVE_MINT then [(k, close)] else []) \<and>
      accounts_of close = [native_ata env (ops_user_wallet_address o1), ops_user_wallet_address o1, ops_user_wallet_address o1]"
  shows "close_check env (swap_accounts_of lib o1 p) (map close_entry closes) = Inr ()"
  using assms by (auto simp: close_check_def swap_accounts_of_def close_entry_def Let_def)

lemma memo_passes:
  assumes "encodes t ixs" and "\<exists>k. numbered SPL_MEMO 0 ixs = List.enumerate k (memo_part o1)" and "ops_memo o1 = memo"
  shows "check_memo_instructions t memo = Inr ()"
proof -
  obtain cis where cis: "extract_program_instructions t SPL_MEMO = Inr cis"
    "list_all2 (same_numbered t) cis (numbered SPL_MEMO 0 ixs)"
    using encodes_extracts [OF assms(1)] .
  show ?thesis
  proof (cases memo)
    case None
    with assms(2,3) cis(2) have "cis = []" by (auto simp: memo_part_def)
    with None show ?thesis by (simp add: check_memo_instructions_def cis(1))
  next
    case (Some m)
    with assms(2,3) cis(2) obtain k ci where "cis = [(k, ci)]" "ci_data ci = as_bytes m"
      by (auto simp: memo_part_def list_all2_Cons2 encoded_in_def)
    with Some show ?thesis by (simp add: check_memo_instructions_def cis(1))
  qed
qed

lemma instructions_pass:
  assumes lib: "library_ok lib env" and enc: "encodes t (whole_bid lib ch o1 p a wraps unwraps)"
    and extra: "only_budget (nb_instructions p)" and pid: "get_express_relay_pid ch = express_relay_program env"
    and w: "wraps_ok lib env o1 amount wraps" and u: "unwraps_ok env o1 unwraps"
  shows "validate_swap_transaction_instructions env t = Inr ()"
proof (rule validate_ok [OF encodes_in_range [OF enc]])
  let ?valid = "\<lambda>ix. validate_swap_transaction_instruction env (ix_program_id ix) \<lparr>program_id_index = 0, ci_accounts = [], ci_data = ix_data ix\<rparr> = Inr ()"
  have "?valid ix" if "ix \<in> set (whole_bid lib ch o1 p a wraps unwraps)" for ix
    using that unfolding whole_bid_def set_append Un_iff
  proof (elim disjE)
    assume "ix \<in> set (nb_instructions p)"
    with extra show ?thesis by (auto simp: only_budget_def validate_swap_transaction_instruction_def)
  next
    assume "ix \<in> set (memo_part o1)"
    with memo_part_programs show ?thesis by (auto simp: validate_swap_transaction_instruction_def)
  next
    assume "ix \<in> set (create_part lib ch o1 p)"
    with create_part_programs [OF lib] show ?thesis by (auto simp: validate_swap_transaction_instruction_def)
  next
    assume "ix \<in> set wraps"
    with w show ?thesis
      by (auto simp: wraps_ok_def validate_swap_transaction_instruction_def library_okD [OF lib] split: if_splits)
  next
    assume "ix \<in> set [swap_part lib ch o1 p a]"
    then show ?thesis by (auto simp: validate_swap_transaction_instruction_def pid [symmetric])
  next
    assume "ix \<in> set unwraps"
    with u show ?thesis by (auto simp: unwraps_ok_def validate_swap_transaction_instruction_def split: if_splits)
  qed
  moreover
  fix ci
  assume "ci \<in> set (instructions (message t))"
  with enc obtain ix where "ix \<in> set (whole_bid lib ch o1 p a wraps unwraps)" and e: "encoded_in (static_account_keys (message t)) ci ix"
    using list_all2_left unfolding encodes_def by metis
  moreover have "validate_swap_transaction_instruction env q ci =
      validate_swap_transaction_instruction env q \<lparr>program_id_index = 0, ci_accounts = [], ci_data = ci_data ci\<rparr>" for q
    by (simp add: validate_swap_transaction_instruction_def)
  ultimately show "validate_swap_transaction_instruction env (program_of t ci) ci = Inr ()"
    using encoded_program(2) [OF e] e by (simp add: encoded_in_def)
qed


text \<open>The opportunities of quotes are of this kind: the accounts of the fee receivers are left to the searcher.\<close>

lemma quote_creation_user_pays_own:
  "guarantees (\<lambda>_. True) (get_opportunity_create_for_quote env nd rand now q)
     (\<lambda>c. \<exists>p. o_program c = SwapProgram p \<and> user_pays_own_accounts (os_initialization p))"
proof -
  obtain mu ms where mints: "mints_of (qc_tokens q) = (mu, ms)" by fastforce
  have config: "get_initialization_config b False \<noteq> UserPayer" for b by (cases b) simp_all
  have wallet: "guarantees (\<lambda>_. True) (wallet_of_request env nd rand w i) (\<lambda>(a, b, c). user_pays_own_accounts c)" for w i
    by (cases w) (auto simp: wallet_of_request_def user_pays_own_accounts_def get_token_account_initialization_configs_def
        none_needed_def config config [symmetric] Let_def case_prod_beta intro!: guarantees_yields unguarded_seq)
  show ?thesis
    unfolding get_opportunity_create_for_quote_def mints prod.case Let_def
    apply (rule unguarded_seq, rule unguarded_seq, rule unguarded_seq, rule unguarded_seq)
    apply (rule yields_seq, clarify)
    apply (rule guarantees_if, rule guarantees_fails)
    apply (rule unguarded_seq, rule unguarded_seq)
    apply (rule guarantees_seq [OF wallet], clarify)
    apply (rule yields_seq, rule guarantees_yields)
    by (auto simp: user_pays_own_accounts_def without_platform_accounts_def)
qed

lemma opened_quote_user_pays_own:
  assumes "open_quote env nd rand_bytes new_id now q s = (s', Inr x)"
  shows "\<exists>p. o_program x = SwapProgram p \<and> user_pays_own_accounts (os_initialization p)"
proof -
  from assms obtain c s1 s2 where c: "get_opportunity_create_for_quote env nd rand_bytes now q s1 = (s2, Inr c)"
    and add: "add_opportunity env new_id now c s2 = (s', Inr x)"
    unfolding open_quote_def by (auto simp: fails_def elim!: seq_Inr_cases split: if_splits)
  from guaranteesD [OF quote_creation_user_pays_own _ c] obtain p where p: "o_program c = SwapProgram p"
    "user_pays_own_accounts (os_initialization p)" by auto
  from add_opportunity_stores [OF add p(1)] have "to_create x = c" by simp
  then have "o_program x = o_program c" by (auto simp: to_create_def OpportunityCreateSvm.truncate_def)
  with p show ?thesis by simp
qed


subsection \<open>What the searcher receives\<close>

text \<open>
  The SDK raises a bid as the server raises a requested amount; so the fees of the swap leave the
  searcher at least the bid and at most two base units more, where the product does not wrap.
\<close>

lemma sdk_bid_amount_covers_fees:
  assumes "ao_program x = SwapParams o1" and "ops_tokens o1 = ApiSearcherTokenSpecified st sa ut" and "ops_fee_token o1 = UserToken"
    and "unat (ops_referral_fee_ppm o1) + unat (ops_platform_fee_ppm o1) < 1000000"
    and "unat bid * 1000000 \<le> 18446744073709 * (1000000 - (unat (ops_referral_fee_ppm o1) + unat (ops_platform_fee_ppm o1)))"
    and "unat (split_relayer md) \<le> 10000"
  shows "\<exists>r res. get_bid_amount_including_fees x bid = Inr r \<and>
    compute_swap_fees md (ops_referral_fee_ppm o1) (ops_platform_fee_ppm o1) r = Inr res \<and>
    unat bid \<le> unat (remaining_amount res) \<and> unat (remaining_amount res) \<le> unat bid + 2"
proof -
  let ?ref = "ops_referral_fee_ppm o1" and ?plat = "ops_platform_fee_ppm o1"
  have "unat (FEE_SPLIT_PRECISION_PPM - ?ref) = 1000000 - unat ?ref"
    using assms(4) by (subst unat_sub_nat) (simp_all add: precision_unat)
  then have "unat (FEE_SPLIT_PRECISION_PPM - ?ref - ?plat) = 1000000 - unat ?ref - unat ?plat"
    using assms(4) by (subst unat_sub_nat) simp_all
  then have den: "FEE_SPLIT_PRECISION_PPM - ?ref - ?plat \<noteq> 0" using assms(4) by (intro notI) simp
  obtain r where r: "amount_including_fees bid ?ref ?plat = Inr r" "unat r \<le> 18446744073709"
    "unat bid + ppm_of (unat r) (unat ?ref) + ppm_of (unat r) (unat ?plat) \<le> unat r"
    "unat r \<le> unat bid + ppm_of (unat r) (unat ?ref) + ppm_of (unat r) (unat ?plat) + 2"
    using amount_including_fees_ok [OF assms(5,4)] .
  from r(1) den have "get_bid_amount_including_fees x bid = Inr r"
    by (simp add: get_bid_amount_including_fees_def sdk_extract_swap_data_def assms(1-3) amount_including_fees_def Let_def
        split: if_splits)
  moreover obtain res where res: "compute_swap_fees md ?ref ?plat r = Inr res"
    "unat (router_fee (fees res)) = ppm_of (unat r) (unat ?ref)"
    "unat (relayer_fee (fees res)) + unat (express_relay_fee (fees res)) = ppm_of (unat r) (unat ?plat)"
    "unat (router_fee (fees res)) + unat (relayer_fee (fees res)) + unat (express_relay_fee (fees res)) +
      unat (remaining_amount res) = unat r"
    using compute_swap_fees_small [OF _ r(2) assms(6), of ?ref ?plat] assms(4) by auto
  moreover have "unat bid \<le> unat (remaining_amount res)" "unat (remaining_amount res) \<le> unat bid + 2"
    using r(3,4) res(2-4) by linarith+
  ultimately show ?thesis by blast
qed


subsection \<open>A concrete library\<close>

text \<open>Keys in the order of their first use, the payer first; indices are positions in that list.\<close>

definition index_of :: "pubkey list \<Rightarrow> pubkey \<Rightarrow> u8" where
  "index_of keys k = of_nat (length (takeWhile (\<lambda>x. x \<noteq> k) keys))"

definition compile_message :: "instruction list \<Rightarrow> pubkey \<Rightarrow> VersionedMessage" where
  "compile_message ixs payer =
     (let keys = remdups (payer # concat (map (\<lambda>ix. ix_program_id ix # accounts_of ix) ixs))
      in \<lparr>static_account_keys = keys,
          instructions = map (\<lambda>ix. \<lparr>program_id_index = index_of keys (ix_program_id ix),
            ci_accounts = map (index_of keys) (accounts_of ix), ci_data = ix_data ix\<rparr>) ixs,
          address_table_lookups = None, msg_rest = []\<rparr>)"

lemma nth_index_of:
  assumes "k \<in> set keys" and "length keys \<le> 256"
  shows "nth_opt keys (unat (index_of keys k)) = Some k"
proof -
  let ?n = "length (takeWhile (\<lambda>x. x \<noteq> k) keys)"
  have ne: "takeWhile (\<lambda>x. x \<noteq> k) keys \<noteq> keys" using assms(1) by (auto simp: takeWhile_eq_all_conv)
  then have less: "?n < length keys"
    using length_takeWhile_le [of "\<lambda>x. x \<noteq> k" keys] by (metis le_neq_implies_less takeWhile_eq_take take_all_iff order_refl)
  then have "unat (index_of keys k) = ?n" using assms(2) by (simp add: index_of_def unat_of_nat)
  moreover have "keys ! ?n = k" using nth_length_takeWhile [OF less] by simp
  ultimately show ?thesis using less by (simp add: nth_opt_def)
qed

lemma compile_message_encodes:
  assumes "card (insert payer (keys_of ixs)) \<le> 256" and "message t = compile_message ixs payer"
  shows "encodes t ixs"
proof -
  define keys where "keys = remdups (payer # concat (map (\<lambda>ix. ix_program_id ix # accounts_of ix) ixs))"
  have set: "set keys = insert payer (keys_of ixs)"
    by (auto simp: keys_def keys_of_def accounts_of_def)
  have "length keys = card (set keys)" by (simp add: keys_def length_remdups_card_conv del: remdups.simps)
  then have len: "length keys \<le> 256" using assms(1) by (simp add: set)
  have "encoded_in keys \<lparr>program_id_index = index_of keys (ix_program_id ix), ci_accounts = map (index_of keys) (accounts_of ix),
      ci_data = ix_data ix\<rparr> ix" if "ix \<in> set ixs" for ix
  proof -
    have "ix_program_id ix \<in> set keys" "\<And>m. m \<in> set (ix_accounts ix) \<Longrightarrow> am_pubkey m \<in> set keys"
      using that by (auto simp: set keys_of_def)
    then show ?thesis
      by (simp add: encoded_in_def nth_index_of [OF _ len] accounts_of_def list.rel_map list.rel_refl_strong)
  qed
  then show ?thesis
    by (simp add: encodes_def assms(2) compile_message_def Let_def keys_def [symmetric] list.rel_map list.rel_refl_strong del: remdups.simps)
qed

definition sample_sdk_env :: env where
  "sample_sdk_env = sample_env\<lparr>
     system_transfer := (\<lambda>d. if take 4 d = to_le 4 (2 :: 32 word) then Some (of_le (drop 4 d)) else None),
     unpack_token_instruction := (\<lambda>d. if d = [17] then Some SyncNative else if d = [9] then Some CloseAccount else None),
     parse_ata_instruction := (\<lambda>d. if d = [1] then Some CreateIdempotentAta else None)\<rparr>"

definition sample_library :: solana_library where
  "sample_library =
     \<lparr>lib_find_program_address = (\<lambda>seeds p. of_le (concat seeds)),
      lib_associated_token_address = (\<lambda>w m p. w + m),
      lib_rent_of_token_account = 2039280,
      lib_transfer = (\<lambda>from to amount. \<lparr>ix_program_id = SYSTEM_PROGRAM, ix_accounts = [meta from True True, meta to False True],
        ix_data = to_le 4 (2 :: 32 word) @ to_le 8 amount\<rparr>),
      lib_sync_native = (\<lambda>a. Some \<lparr>ix_program_id = SPL_TOKEN, ix_accounts = [meta a False True], ix_data = [17]\<rparr>),
      lib_close_account = (\<lambda>a dest owner. Some \<lparr>ix_program_id = SPL_TOKEN,
        ix_accounts = [meta a False True, meta dest False True, meta owner True False], ix_data = [9]\<rparr>),
      lib_create_ata_idempotent = (\<lambda>payer owner mint program. \<lparr>ix_program_id = SPL_ASSOCIATED_TOKEN_ACCOUNT,
        ix_accounts = [meta payer True True, meta (owner + mint) False True, meta owner False False, meta mint False False,
          meta SYSTEM_PROGRAM False False, meta program False False], ix_data = [1]\<rparr>),
      lib_add_memo = (\<lambda>bs. \<lparr>ix_program_id = SPL_MEMO, ix_accounts = [], ix_data = bs\<rparr>),
      lib_signed_transaction = (\<lambda>ixs payer signers hash. Inr \<lparr>signatures = [], message = compile_message ixs payer\<rparr>)\<rparr>"

lemma sample_library_ok: "library_ok sample_library sample_sdk_env"
  unfolding library_ok_def
  by (intro conjI allI impI) (auto simp: sample_library_def sample_sdk_env_def sample_env_def accounts_of_def meta_def
      intro: compile_message_encodes)


subsection \<open>Concrete bids\<close>

definition sample_limo :: ApiOpportunity where
  "sample_limo = \<lparr>ao_opportunity_id = 7, ao_creation_time = 0,
     ao_program = LimoParams \<lparr>opl_order = [], opl_order_address = 3, opl_slot = 5\<rparr>, ao_chain_id = ''solana''\<rparr>"

definition sample_params :: "ProgramParams \<Rightarrow> NewBidParams" where
  "sample_params program = \<lparr>nb_amount = 700, nb_deadline = 130, nb_block_hash = [], nb_slot = None,
     nb_instructions = [\<lparr>ix_program_id = COMPUTE_BUDGET, ix_accounts = [], ix_data = [3]\<rparr>], nb_payer = 11, nb_searcher = 11,
     nb_signers = [], nb_fee_receiver_relayer = 14, nb_relayer_signer = 13, nb_program_params = program\<rparr>"

lemma sample_pid: "get_express_relay_pid ''solana'' = express_relay_program sample_sdk_env"
  by (simp add: get_express_relay_pid_def sample_sdk_env_def sample_env_def)

lemma sample_deadline: "from_unix_timestamp 130 = Some (seconds 130)"
  by (simp add: from_unix_timestamp_def)


definition sample_sdk_terms :: OpportunitySvmProgramSwap where
  "sample_sdk_terms = sample_terms\<lparr>os_memo := Some ''hi'', os_user_mint_user_balance := 5000000,
     os_initialization := \<lparr>user_ata_mint_searcher = SearcherPayer, user_ata_mint_user = UserPayer,
       router_fee_receiver_ta = SearcherPayer, relayer_fee_receiver_ata = Unneeded, express_relay_fee_receiver_ata = Unneeded\<rparr>\<rparr>"

definition sample_sdk_opportunity :: OpportunitySvm where
  "sample_sdk_opportunity = sample_quote\<lparr>o_program := SwapProgram sample_sdk_terms,
     o_buy_tokens := [\<lparr>ta_token = NATIVE_MINT, ta_amount = 500\<rparr>]\<rparr>"

definition sample_sdk_state :: opp_state where
  "sample_sdk_state = sample_opp_state\<lparr>opportunities := [(get_key sample_sdk_opportunity, [sample_sdk_opportunity])]\<rparr>"

lemma sample_sdk_terms_simps:
  "os_fee_token sample_sdk_terms = UserToken" "os_user_wallet_address sample_sdk_terms = 12"
  "os_initialization sample_sdk_terms = \<lparr>user_ata_mint_searcher = SearcherPayer, user_ata_mint_user = UserPayer,
       router_fee_receiver_ta = SearcherPayer, relayer_fee_receiver_ata = Unneeded, express_relay_fee_receiver_ata = Unneeded\<rparr>"
  by (simp_all add: sample_sdk_terms_def sample_terms_def sample_quote_terms_def sample_create_def)

lemma sample_sdk_opportunity_simps:
  "o_chain_id sample_sdk_opportunity = ''solana''" "o_program sample_sdk_opportunity = SwapProgram sample_sdk_terms"
  "o_router sample_sdk_opportunity = 9"
  "get_swap_quote_tokens sample_sdk_opportunity = Inr (UserTokenSpecified \<lparr>ta_token = NATIVE_MINT, ta_amount = 500\<rparr> 21)"
  by (simp_all add: sample_sdk_opportunity_def sample_quote_def sample_opportunity_def new_with_current_time_def sample_create_def
      get_swap_quote_tokens_def OpportunityCreateSvm.extend_def)


end
