(* ===== verification/Sdk_Client.thy ===== *)
theory Sdk_Client
  imports Sdk_Svm As_Websocket
begin

section \<open>Rust SDK: the client\<close>

text \<open>
  \<open>sdk/rust/src/lib.rs\<close>: the websocket client, whose background loop sends the requests of any number of
  callers and hands each the server's answer, and the methods of its callers. The socket and the JSON
  decoder are given by what they produce. Calls, answers, failures and timeouts interleave in any order
  (\<open>client_step\<close>), and what holds of every run is shown by induction over its steps.
\<close>

subsection \<open>Identifiers of requests\<close>

text \<open>\<open>to_string\<close> of an unsigned integer.\<close>

definition digit :: "nat \<Rightarrow> char" where
  "digit d = char_of (48 + d)"

fun decimal :: "nat \<Rightarrow> string" where
  "decimal n = (if n < 10 then [digit n] else decimal (n div 10) @ [digit (n mod 10)])"

declare decimal.simps [simp del]

definition read_decimal :: "string \<Rightarrow> nat" where
  "read_decimal = foldl (\<lambda>a c. 10 * a + (of_char c - 48)) 0"

lemma of_digit: "d < 10 \<Longrightarrow> of_char (digit d) - 48 = (d :: nat)"
  by (simp add: digit_def)

lemma read_decimal_decimal: "read_decimal (decimal n) = n"
proof (induction n rule: decimal.induct)
  case (1 n)
  then show ?case
    by (subst decimal.simps) (simp add: read_decimal_def of_digit)
qed

lemma decimal_inject [simp]: "decimal m = decimal n \<longleftrightarrow> m = n"
  by (metis read_decimal_decimal)


subsection \<open>State\<close>

text \<open>
  Each call of \<open>send\<close> makes a oneshot channel, here named by the number of the call: \<open>Waiting\<close> while its
  sender is held somewhere, \<open>Delivered\<close> once a result was sent into it, \<open>Dropped\<close> when the sender is gone.
\<close>

datatype oneshot = Waiting | Delivered ServerResultMessage | Dropped

record call =
  ca_request :: ClientRequest
  ca_channel :: oneshot
  ca_result :: "ServerResultMessage sdk option"

text \<open>
  \<open>cw_queue\<close> is the channel of requests, \<open>cw_map\<close> the table of those that await an answer, \<open>cw_updates\<close> what
  was broadcast to the update streams. \<open>cw_wire\<close> and \<open>cw_received\<close> record the requests put on the socket
  and the responses taken from it.
\<close>

record ws_client =
  cw_request_id :: u64
  cw_calls :: "call list"
  cw_queue :: "nat list"
  cw_map :: "string \<Rightarrow> nat option"
  cw_latest_ping :: time
  cw_running :: bool
  cw_updates :: "ServerUpdateResponse list"
  cw_wire :: "ClientRequest list"
  cw_received :: "ServerResultResponse list"

definition connected :: "time \<Rightarrow> ws_client" where
  "connected now = \<lparr>cw_request_id = 0, cw_calls = [], cw_queue = [], cw_map = Map.empty, cw_latest_ping = now,
     cw_running = True, cw_updates = [], cw_wire = [], cw_received = []\<rparr>"

definition set_channel :: "oneshot \<Rightarrow> nat \<Rightarrow> ws_client \<Rightarrow> ws_client" where
  "set_channel ch n c = c\<lparr>cw_calls := (cw_calls c)[n := (cw_calls c ! n)\<lparr>ca_channel := ch\<rparr>]\<rparr>"


subsection \<open>The background loop\<close>

datatype MessageType = ResponseMessage ServerResultResponse | UpdateMessage ServerUpdateResponse

text \<open>A text or binary message is what it decodes to, \<open>None\<close> when it cannot be decoded.\<close>

datatype ws_message =
    WsText "MessageType option"
  | WsBinary "MessageType option"
  | WsClose
  | WsPing
  | WsPong
  | WsFrame

text \<open>When the loop ends, its queue and its table are dropped, and with them the senders they hold.\<close>

definition holds_sender :: "ws_client \<Rightarrow> nat \<Rightarrow> bool" where
  "holds_sender c n \<longleftrightarrow> n \<in> set (cw_queue c) \<or> n \<in> ran (cw_map c)"

definition stop :: "ws_client \<Rightarrow> ws_client" where
  "stop c = c\<lparr>cw_running := False, cw_queue := [], cw_map := Map.empty,
     cw_calls := map (\<lambda>(n, a). if holds_sender c n then a\<lparr>ca_channel := Dropped\<rparr> else a) (enumerate 0 (cw_calls c))\<rparr>"

definition on_message_type :: "MessageType option \<Rightarrow> ws_client \<Rightarrow> ws_client" where
  "on_message_type m c =
     (case m of
        None \<Rightarrow> c
      | Some (UpdateMessage u) \<Rightarrow> c\<lparr>cw_updates := cw_updates c @ [u]\<rparr>
      | Some (ResponseMessage r) \<Rightarrow>
          let c1 = c\<lparr>cw_received := cw_received c @ [r]\<rparr>
          in case Option.bind (sr_id r) (cw_map c1) of
               None \<Rightarrow> c1
             | Some n \<Rightarrow> set_channel (Delivered (sr_result r)) n (c1\<lparr>cw_map := (cw_map c1)(the (sr_id r) := None)\<rparr>))"

text \<open>What the stream of the socket yields: nothing more, an error, or a message.\<close>

definition on_stream :: "time \<Rightarrow> (unit + ws_message) option \<Rightarrow> ws_client \<Rightarrow> ws_client" where
  "on_stream now m c =
     (case m of
        None \<Rightarrow> stop c
      | Some (Inl _) \<Rightarrow> c
      | Some (Inr (WsText t)) \<Rightarrow> on_message_type t c
      | Some (Inr (WsBinary t)) \<Rightarrow> on_message_type t c
      | Some (Inr WsClose) \<Rightarrow> stop c
      | Some (Inr WsPong) \<Rightarrow> c
      | Some (Inr WsPing) \<Rightarrow> c\<lparr>cw_latest_ping := now\<rparr>
      | Some (Inr WsFrame) \<Rightarrow> c)"

text \<open>
  The next request of the queue, \<open>sent\<close> telling whether the socket took it. Inserting into the table
  drops the sender that was there under the same id.
\<close>

definition on_request :: "bool \<Rightarrow> ws_client \<Rightarrow> ws_client" where
  "on_request sent c =
     (case cw_queue c of
        [] \<Rightarrow> c
      | n # ns \<Rightarrow>
          let c1 = c\<lparr>cw_queue := ns\<rparr>; r = ca_request (cw_calls c ! n)
          in if sent
             then (case cw_map c (cr_id r) of Some old \<Rightarrow> set_channel Dropped old | None \<Rightarrow> id)
                    (c1\<lparr>cw_map := (cw_map c)(cr_id r \<mapsto> n), cw_wire := cw_wire c @ [r]\<rparr>)
             else set_channel Dropped n c1)"

definition PING_DURATION :: time where
  "PING_DURATION = seconds 32"

definition on_connection_check :: "time \<Rightarrow> ws_client \<Rightarrow> ws_client" where
  "on_connection_check now c = (if now - cw_latest_ping c > PING_DURATION then stop c else c)"


subsection \<open>Callers\<close>

definition fetch_add_request_id :: "ws_client \<Rightarrow> ws_client \<times> u64" where
  "fetch_add_request_id c = (c\<lparr>cw_request_id := cw_request_id c + 1\<rparr>, cw_request_id c + 1)"

text \<open>
  The first half of \<open>send\<close>, up to handing the request to the loop: a loop that has ended no longer takes
  requests. The number of the request and its place in the queue are taken in one step.
\<close>

definition ws_send :: "ClientMessage \<Rightarrow> ws_client \<Rightarrow> ws_client" where
  "ws_send m c =
     (case fetch_add_request_id c of
        (c1, i) \<Rightarrow>
          let r = \<lparr>cr_id = decimal (unat i), cr_msg = m\<rparr>
          in if cw_running c1
             then c1\<lparr>cw_calls := cw_calls c1 @ [\<lparr>ca_request = r, ca_channel = Waiting, ca_result = None\<rparr>],
                     cw_queue := cw_queue c1 @ [length (cw_calls c1)]\<rparr>
             else c1\<lparr>cw_calls := cw_calls c1 @ [\<lparr>ca_request = r, ca_channel = Dropped,
                     ca_result = Some (Inl (ClientFails (WsRequestFailed ''Failed to send request'')))\<rparr>]\<rparr>)"

text \<open>The second half waits for the channel, or for five seconds.\<close>

definition awaited :: "bool \<Rightarrow> oneshot \<Rightarrow> ServerResultMessage sdk option" where
  "awaited timed_out ch =
     (case ch of
        Delivered m \<Rightarrow> Some (Inr m)
      | Dropped \<Rightarrow> Some (Inl (ClientFails (WsRequestFailed ''Response channel closed'')))
      | Waiting \<Rightarrow> if timed_out then Some (Inl (ClientFails (WsRequestFailed ''Ws request timeout''))) else None)"

definition ws_await :: "bool \<Rightarrow> nat \<Rightarrow> ws_client \<Rightarrow> ws_client" where
  "ws_await timed_out n c = c\<lparr>cw_calls := (cw_calls c)[n := (cw_calls c ! n)\<lparr>ca_result := awaited timed_out (ca_channel (cw_calls c ! n))\<rparr>]\<rparr>"

text \<open>What the methods make of the answer; an error of the server keeps its text.\<close>

definition done_or_error :: "(error_text \<Rightarrow> string) \<Rightarrow> ServerResultMessage \<Rightarrow> unit sdk" where
  "done_or_error show_error m =
     (case m of Success _ \<Rightarrow> Inr () | ErrResult e \<Rightarrow> Inl (ClientFails (WsRequestFailed (show_error e))))"

definition submitted_bid :: "(error_text \<Rightarrow> string) \<Rightarrow> ServerResultMessage \<Rightarrow> BidResult sdk" where
  "submitted_bid show_error m =
     (case m of
        Success (Some res) \<Rightarrow> Inr res
      | Success None \<Rightarrow> Inl (ClientFails (InvalidResponse ''Invalid server response: Expected BidResult but got None.''))
      | ErrResult e \<Rightarrow> Inl (ClientFails (WsRequestFailed (show_error e))))"

definition method_returns :: "(ServerResultMessage \<Rightarrow> 'a sdk) \<Rightarrow> nat \<Rightarrow> ws_client \<Rightarrow> 'a sdk option" where
  "method_returns f n c = map_option (\<lambda>r. rbind r f) (ca_result (cw_calls c ! n))"

definition chain_subscribe :: "string list \<Rightarrow> ws_client \<Rightarrow> ws_client" where
  "chain_subscribe chs = ws_send (Subscribe chs)"

definition chain_unsubscribe :: "string list \<Rightarrow> ws_client \<Rightarrow> ws_client" where
  "chain_unsubscribe chs = ws_send (Unsubscribe chs)"

definition sdk_submit_bid :: "BidCreateSvm \<Rightarrow> ws_client \<Rightarrow> ws_client" where
  "sdk_submit_bid b = ws_send (PostBidMessage b)"

definition sdk_cancel_bid :: "BidCancelSvm \<Rightarrow> ws_client \<Rightarrow> ws_client" where
  "sdk_cancel_bid b = ws_send (CancelBidMessage b)"


subsection \<open>Runs\<close>

inductive client_step :: "ws_client \<Rightarrow> ws_client \<Rightarrow> bool" where
  called: "client_step c (ws_send m c)"
| returned: "n < length (cw_calls c) \<Longrightarrow> ca_result (cw_calls c ! n) = None \<Longrightarrow> client_step c (ws_await timed_out n c)"
| streamed: "cw_running c \<Longrightarrow> client_step c (on_stream now m c)"
| requested: "cw_running c \<Longrightarrow> client_step c (on_request sent c)"
| checked: "cw_running c \<Longrightarrow> client_step c (on_connection_check now c)"
| abandoned: "cw_running c \<Longrightarrow> client_step c (stop c)"

inductive_cases client_stepE: "client_step c c'"


lemma client_runs_induct [consumes 1, case_names connected called returned streamed requested checked abandoned]:
  assumes "client_step\<^sup>*\<^sup>* (connected now) c" and "P (connected now)"
    and "\<And>m c. P c \<Longrightarrow> P (ws_send m c)"
    and "\<And>t n c. P c \<Longrightarrow> n < length (cw_calls c) \<Longrightarrow> ca_result (cw_calls c ! n) = None \<Longrightarrow> P (ws_await t n c)"
    and "\<And>t m c. P c \<Longrightarrow> cw_running c \<Longrightarrow> P (on_stream t m c)"
    and "\<And>sent c. P c \<Longrightarrow> cw_running c \<Longrightarrow> P (on_request sent c)"
    and "\<And>t c. P c \<Longrightarrow> cw_running c \<Longrightarrow> P (on_connection_check t c)"
    and "\<And>c. P c \<Longrightarrow> cw_running c \<Longrightarrow> P (stop c)"
  shows "P c"
  using assms(1) by (induction rule: rtranclp_induct) (auto elim!: client_stepE intro: assms(2-))


subsection \<open>What holds of every run\<close>

text \<open>
  \<open>calls_numbered\<close>: calls carry consecutive identifiers; \<open>table_ok\<close>: the table maps the identifier of a request that
  was put on the socket to its call; \<open>queue_ok\<close>: the queue holds calls that are not in the table;
  \<open>held_ok\<close>: a caller can wait only on a sender the loop still holds; \<open>answers_ok\<close>: what a call was
  answered was received under its identifier.
\<close>

definition call_id :: "ws_client \<Rightarrow> nat \<Rightarrow> string" where
  "call_id c n = cr_id (ca_request (cw_calls c ! n))"

definition calls_numbered :: "ws_client \<Rightarrow> bool" where
  "calls_numbered c \<longleftrightarrow> cw_request_id c = of_nat (length (cw_calls c)) \<and>
     (\<forall>n<length (cw_calls c). call_id c n = decimal (unat (of_nat (Suc n) :: u64)))"

definition table_ok :: "ws_client \<Rightarrow> bool" where
  "table_ok c \<longleftrightarrow> (\<forall>i n. cw_map c i = Some n \<longrightarrow>
     n < length (cw_calls c) \<and> call_id c n = i \<and> ca_request (cw_calls c ! n) \<in> set (cw_wire c))"

definition queue_ok :: "ws_client \<Rightarrow> bool" where
  "queue_ok c \<longleftrightarrow> distinct (cw_queue c) \<and> (\<forall>n\<in>set (cw_queue c). n < length (cw_calls c) \<and> n \<notin> ran (cw_map c))"

definition held_ok :: "ws_client \<Rightarrow> bool" where
  "held_ok c \<longleftrightarrow> (\<forall>n<length (cw_calls c). ca_channel (cw_calls c ! n) = Waiting \<longrightarrow> holds_sender c n)
     \<and> (\<not> cw_running c \<longrightarrow> cw_queue c = [] \<and> cw_map c = Map.empty)"

definition answered :: "call \<Rightarrow> ServerResultMessage \<Rightarrow> bool" where
  "answered a m \<longleftrightarrow> ca_channel a = Delivered m \<or> ca_result a = Some (Inr m)"

definition received_answer :: "ws_client \<Rightarrow> nat \<Rightarrow> ServerResultMessage \<Rightarrow> bool" where
  "received_answer c n m \<longleftrightarrow> ca_request (cw_calls c ! n) \<in> set (cw_wire c) \<and>
     (\<exists>r\<in>set (cw_received c). sr_id r = Some (call_id c n) \<and> sr_result r = m)"

definition answers_ok :: "ws_client \<Rightarrow> bool" where
  "answers_ok c \<longleftrightarrow> (\<forall>n<length (cw_calls c). \<forall>m. answered (cw_calls c ! n) m \<longrightarrow> received_answer c n m)"

lemmas client_defs = calls_numbered_def table_ok_def queue_ok_def held_ok_def answers_ok_def received_answer_def answered_def
  holds_sender_def call_id_def

definition client_ok :: "ws_client \<Rightarrow> bool" where
  "client_ok c \<longleftrightarrow> calls_numbered c \<and> table_ok c \<and> queue_ok c \<and> held_ok c \<and> answers_ok c"

lemma client_okI:
  "calls_numbered c \<Longrightarrow> table_ok c \<Longrightarrow> queue_ok c \<Longrightarrow> held_ok c \<Longrightarrow> answers_ok c \<Longrightarrow> client_ok c"
  by (simp add: client_ok_def)

lemma client_okD:
  "client_ok c \<Longrightarrow> calls_numbered c" "client_ok c \<Longrightarrow> table_ok c" "client_ok c \<Longrightarrow> queue_ok c"
  "client_ok c \<Longrightarrow> held_ok c" "client_ok c \<Longrightarrow> answers_ok c"
  by (simp_all add: client_ok_def)

lemma client_ok_connected: "client_ok (connected now)"
  by (rule client_okI) (simp_all add: client_defs connected_def)

lemma set_channel_simps [simp]:
  "cw_request_id (set_channel ch n c) = cw_request_id c" "cw_queue (set_channel ch n c) = cw_queue c"
  "cw_map (set_channel ch n c) = cw_map c" "cw_running (set_channel ch n c) = cw_running c"
  "cw_wire (set_channel ch n c) = cw_wire c" "cw_received (set_channel ch n c) = cw_received c"
  "length (cw_calls (set_channel ch n c)) = length (cw_calls c)"
  "k < length (cw_calls c) \<Longrightarrow> cw_calls (set_channel ch n c) ! k =
     (if k = n then (cw_calls c ! n)\<lparr>ca_channel := ch\<rparr> else cw_calls c ! k)"
  by (simp_all add: set_channel_def)

lemma stop_simps [simp]:
  "cw_request_id (stop c) = cw_request_id c" "cw_queue (stop c) = []" "cw_map (stop c) = Map.empty"
  "\<not> cw_running (stop c)" "cw_wire (stop c) = cw_wire c" "cw_received (stop c) = cw_received c"
  "length (cw_calls (stop c)) = length (cw_calls c)"
  "k < length (cw_calls c) \<Longrightarrow> cw_calls (stop c) ! k =
     (if holds_sender c k then (cw_calls c ! k)\<lparr>ca_channel := Dropped\<rparr> else cw_calls c ! k)"
  by (simp_all add: stop_def nth_enumerate_eq)

lemma table_call:
  assumes "table_ok c" "n \<in> ran (cw_map c)"
  shows "n < length (cw_calls c)" "cw_map c (call_id c n) = Some n"
  using assms by (auto simp: table_ok_def ran_def)

lemma client_ok_send:
  assumes "client_ok c"
  shows "client_ok (ws_send m c)"
proof (rule client_okI)
  note t = assms [THEN client_okD(1)] assms [THEN client_okD(2)] assms [THEN client_okD(3)]
    assms [THEN client_okD(4)] assms [THEN client_okD(5)]
  note d = ws_send_def fetch_add_request_id_def Let_def
  show "calls_numbered (ws_send m c)"
    using t(1) by (auto simp: d calls_numbered_def call_id_def nth_append less_Suc_eq add.commute)
  show "table_ok (ws_send m c)"
    using t(2) by (fastforce simp: d table_ok_def call_id_def nth_append)
  show "queue_ok (ws_send m c)"
    using t(3) table_call(1) [OF t(2)] by (fastforce simp: d queue_ok_def)
  show "held_ok (ws_send m c)"
    using t(4) by (auto simp: d held_ok_def holds_sender_def nth_append less_Suc_eq)
  show "answers_ok (ws_send m c)"
    using t(5) by (auto simp: d answers_ok_def received_answer_def answered_def call_id_def nth_append less_Suc_eq)
qed

lemma client_ok_await:
  assumes "client_ok c" "n < length (cw_calls c)"
  shows "client_ok (ws_await timed_out n c)"
proof (rule client_okI)
  note t = assms(1) [THEN client_okD(1)] assms(1) [THEN client_okD(2)] assms(1) [THEN client_okD(3)]
    assms(1) [THEN client_okD(4)] assms(1) [THEN client_okD(5)]
  have nth: "k < length (cw_calls c) \<Longrightarrow> ca_request (cw_calls (ws_await timed_out n c) ! k) = ca_request (cw_calls c ! k)"
    "k < length (cw_calls c) \<Longrightarrow> ca_channel (cw_calls (ws_await timed_out n c) ! k) = ca_channel (cw_calls c ! k)"
    "k < length (cw_calls c) \<Longrightarrow> answered (cw_calls (ws_await timed_out n c) ! k) m \<Longrightarrow> answered (cw_calls c ! k) m"
    for k m
    using assms(2) by (auto simp: ws_await_def nth_list_update answered_def awaited_def split: oneshot.splits if_splits)
  have rest: "cw_request_id (ws_await timed_out n c) = cw_request_id c" "cw_queue (ws_await timed_out n c) = cw_queue c"
    "cw_map (ws_await timed_out n c) = cw_map c" "cw_running (ws_await timed_out n c) = cw_running c"
    "cw_wire (ws_await timed_out n c) = cw_wire c" "cw_received (ws_await timed_out n c) = cw_received c"
    "length (cw_calls (ws_await timed_out n c)) = length (cw_calls c)"
    by (simp_all add: ws_await_def)
  show "calls_numbered (ws_await timed_out n c)"
    using t(1) by (simp add: calls_numbered_def call_id_def rest nth)
  show "table_ok (ws_await timed_out n c)"
    using t(2) by (simp add: table_ok_def call_id_def rest nth)
  show "queue_ok (ws_await timed_out n c)"
    using t(3) by (simp add: queue_ok_def rest)
  show "held_ok (ws_await timed_out n c)"
    using t(4) by (simp add: held_ok_def holds_sender_def rest nth)
  show "answers_ok (ws_await timed_out n c)"
    using t(5) nth(3) by (auto simp: answers_ok_def received_answer_def call_id_def rest nth(1))
qed

lemma client_ok_stop:
  assumes "client_ok c"
  shows "client_ok (stop c)"
proof (rule client_okI)
  note t = assms [THEN client_okD(1)] assms [THEN client_okD(4)] assms [THEN client_okD(5)]
  show "calls_numbered (stop c)"
    using t(1) by (simp add: calls_numbered_def call_id_def)
  show "table_ok (stop c)"
    by (simp add: table_ok_def)
  show "queue_ok (stop c)"
    by (simp add: queue_ok_def)
  show "held_ok (stop c)"
    using t(2) by (simp add: held_ok_def del: holds_sender_def) (metis oneshot.distinct(3))
  show "answers_ok (stop c)"
    using t(3) by (auto simp: answers_ok_def received_answer_def answered_def call_id_def split: if_splits)
qed

lemma client_ok_deliver:
  assumes ok: "client_ok c" and i: "cw_map c i = Some n" and r: "sr_id r = Some i"
  shows "client_ok (set_channel (Delivered (sr_result r)) n
     (c\<lparr>cw_received := cw_received c @ [r], cw_map := (cw_map c)(i := None)\<rparr>))" (is "client_ok ?c")
proof (rule client_okI)
  note t = ok [THEN client_okD(1)] ok [THEN client_okD(2)] ok [THEN client_okD(3)]
    ok [THEN client_okD(4)] ok [THEN client_okD(5)]
  have n: "n < length (cw_calls c)" "call_id c n = i" "ca_request (cw_calls c ! n) \<in> set (cw_wire c)"
    using t(2) i by (auto simp: table_ok_def)
  have ids: "k < length (cw_calls c) \<Longrightarrow> call_id ?c k = call_id c k"
    "k < length (cw_calls c) \<Longrightarrow> ca_request (cw_calls ?c ! k) = ca_request (cw_calls c ! k)" for k
    by (simp_all add: call_id_def)
  have held: "holds_sender ?c k" if "holds_sender c k" "k \<noteq> n" for k
  proof -
    have "k \<in> ran ((cw_map c)(i := None))" if "cw_map c j = Some k" for j
      using that \<open>k \<noteq> n\<close> i by (intro ranI [of _ j]) auto
    then have "k \<in> ran (cw_map c) \<Longrightarrow> k \<in> ran ((cw_map c)(i := None))"
      by (auto simp: ran_def [of "cw_map c"])
    then show ?thesis
      using that(1) by (auto simp: holds_sender_def)
  qed
  show "calls_numbered ?c"
    using t(1) ids(1) by (simp add: calls_numbered_def)
  show "table_ok ?c"
    using t(2) ids by (auto simp: table_ok_def)
  show "queue_ok ?c"
    using t(3) by (auto simp: queue_ok_def ran_def)
  show "held_ok ?c"
    using t(4) held i by (auto simp: held_ok_def)
  have answer: "answered (cw_calls ?c ! k) m \<Longrightarrow> answered (cw_calls c ! k) m \<or> k = n \<and> m = sr_result r"
    if "k < length (cw_calls c)" for k m
    using that by (auto simp: answered_def split: if_splits)
  have c: "cw_wire ?c = cw_wire c" "cw_received ?c = cw_received c @ [r]" "length (cw_calls ?c) = length (cw_calls c)"
    by simp_all
  have kept: "received_answer ?c k m" if "k < length (cw_calls c)" "received_answer c k m" for k m
    using that(2) unfolding received_answer_def c ids [OF that(1)] by auto
  have new: "received_answer ?c n (sr_result r)"
    using n r unfolding received_answer_def c ids [OF n(1)] by simp
  show "answers_ok ?c"
    unfolding answers_ok_def c
  proof (intro allI impI)
    fix k m
    assume k: "k < length (cw_calls c)" and "answered (cw_calls ?c ! k) m"
    from answer [OF this] show "received_answer ?c k m"
    proof (elim disjE conjE)
      assume "answered (cw_calls c ! k) m"
      then have "received_answer c k m"
        using t(5) k by (simp add: answers_ok_def)
      then show ?thesis
        by (rule kept [OF k])
    next
      assume "k = n" "m = sr_result r"
      then show ?thesis
        using new by blast
    qed
  qed
qed

lemma client_ok_updates: "client_ok (c\<lparr>cw_updates := us\<rparr>) = client_ok c"
  and client_ok_ping: "client_ok (c\<lparr>cw_latest_ping := now\<rparr>) = client_ok c"
  unfolding client_ok_def client_defs by simp_all

lemma client_ok_received:
  assumes "client_ok c"
  shows "client_ok (c\<lparr>cw_received := cw_received c @ [r]\<rparr>)" (is "client_ok ?c")
proof (rule client_okI)
  have same: "calls_numbered ?c = calls_numbered c" "table_ok ?c = table_ok c" "queue_ok ?c = queue_ok c" "held_ok ?c = held_ok c"
    unfolding client_defs by simp_all
  show "calls_numbered ?c" "table_ok ?c" "queue_ok ?c" "held_ok ?c"
    unfolding same using assms by (simp_all add: client_ok_def)
  have "received_answer ?c n m" if "received_answer c n m" for n m
    using that by (auto simp: received_answer_def call_id_def)
  then show "answers_ok ?c"
    using assms [THEN client_okD(5)] by (simp add: answers_ok_def)
qed

lemma client_ok_message:
  assumes "client_ok c"
  shows "client_ok (on_message_type m c)"
proof (cases m)
  case (Some t)
  show ?thesis
  proof (cases t)
    case (ResponseMessage r)
    show ?thesis
    proof (cases "Option.bind (sr_id r) (cw_map c)")
      case None
      then show ?thesis
        using client_ok_received [OF assms] by (simp add: on_message_type_def Some ResponseMessage)
    next
      case (Some n)
      then obtain i where "sr_id r = Some i" "cw_map c i = Some n"
        by (cases "sr_id r") auto
      then show ?thesis
        using client_ok_deliver [OF assms, of i n r] by (simp add: on_message_type_def \<open>m = Some t\<close> ResponseMessage)
    qed
  next
    case (UpdateMessage u)
    then show ?thesis
      using assms by (simp add: on_message_type_def Some client_ok_updates)
  qed
qed (simp add: on_message_type_def assms)

lemma client_ok_set_dropped:
  assumes "client_ok c" "n < length (cw_calls c)"
  shows "client_ok (set_channel Dropped n c)"
proof (rule client_okI)
  note t = assms(1) [THEN client_okD(1)] assms(1) [THEN client_okD(2)] assms(1) [THEN client_okD(3)]
    assms(1) [THEN client_okD(4)] assms(1) [THEN client_okD(5)]
  have h: "holds_sender (set_channel Dropped n c) = holds_sender c"
    by (simp add: holds_sender_def fun_eq_iff)
  show "calls_numbered (set_channel Dropped n c)"
    using t(1) by (simp add: calls_numbered_def call_id_def)
  show "table_ok (set_channel Dropped n c)"
    using t(2) by (auto simp: table_ok_def call_id_def)
  show "queue_ok (set_channel Dropped n c)"
    using t(3) by (simp add: queue_ok_def)
  show "held_ok (set_channel Dropped n c)"
    using t(4) by (auto simp: held_ok_def h)
  show "answers_ok (set_channel Dropped n c)"
    using t(5) by (auto simp: answers_ok_def received_answer_def answered_def call_id_def split: if_splits)
qed

text \<open>What \<open>on_request\<close> does before senders are dropped: the request moves from the queue to the table.\<close>

lemma client_ok_sent:
  assumes ok: "client_ok c" and q: "cw_queue c = n # ns" and i: "call_id c n = i"
    and free: "\<And>k. cw_map c i = Some k \<Longrightarrow> ca_channel (cw_calls c ! k) \<noteq> Waiting"
  shows "client_ok (c\<lparr>cw_queue := ns, cw_map := (cw_map c)(i \<mapsto> n), cw_wire := cw_wire c @ [ca_request (cw_calls c ! n)]\<rparr>)"
    (is "client_ok ?c")
proof (rule client_okI)
  note t = ok [THEN client_okD(1)] ok [THEN client_okD(2)] ok [THEN client_okD(3)]
    ok [THEN client_okD(4)] ok [THEN client_okD(5)]
  have n: "n < length (cw_calls c)" "n \<notin> ran (cw_map c)" "n \<notin> set ns"
    using t(3) q by (auto simp: queue_ok_def)
  show "calls_numbered ?c"
    using t(1) by (simp add: calls_numbered_def call_id_def)
  show "table_ok ?c"
    using t(2) n i by (auto simp: table_ok_def call_id_def)
  show "queue_ok ?c"
    using t(3) n q by (auto simp: queue_ok_def ran_def split: if_splits)
  show "held_ok ?c"
  proof -
    have "holds_sender ?c k" if k: "k < length (cw_calls c)" "ca_channel (cw_calls c ! k) = Waiting" for k
    proof -
      have "holds_sender c k"
        using t(4) k by (simp add: held_ok_def)
      moreover have "cw_map c i \<noteq> Some k"
        using free k(2) by blast
      ultimately show ?thesis
        using q by (auto simp: holds_sender_def ran_def split: if_splits)
    qed
    moreover have "cw_running c"
      using t(4) q by (auto simp: held_ok_def)
    ultimately show ?thesis
      by (simp add: held_ok_def)
  qed
  show "answers_ok ?c"
    using t(5) by (auto simp: answers_ok_def received_answer_def call_id_def)
qed

lemma client_ok_unsent:
  assumes ok: "client_ok c" and q: "cw_queue c = n # ns"
  shows "client_ok (set_channel Dropped n (c\<lparr>cw_queue := ns\<rparr>))" (is "client_ok ?c")
proof (rule client_okI)
  note t = ok [THEN client_okD(1)] ok [THEN client_okD(2)] ok [THEN client_okD(3)]
    ok [THEN client_okD(4)] ok [THEN client_okD(5)]
  have n: "n < length (cw_calls c)" "n \<notin> set ns"
    using t(3) q by (auto simp: queue_ok_def)
  show "calls_numbered ?c"
    using t(1) by (simp add: calls_numbered_def call_id_def)
  show "table_ok ?c"
    using t(2) by (auto simp: table_ok_def call_id_def)
  show "queue_ok ?c"
    using t(3) q by (auto simp: queue_ok_def)
  show "held_ok ?c"
    using t(4) q by (auto simp: held_ok_def holds_sender_def)
  show "answers_ok ?c"
    using t(5) by (auto simp: answers_ok_def received_answer_def answered_def call_id_def split: if_splits)
qed

lemma client_ok_request:
  assumes ok: "client_ok c"
  shows "client_ok (on_request sent c)"
proof (cases "cw_queue c")
  case (Cons n ns)
  have n: "n < length (cw_calls c)" "n \<notin> ran (cw_map c)"
    using ok [THEN client_okD(3)] Cons by (auto simp: queue_ok_def)
  let ?r = "ca_request (cw_calls c ! n)"
  show ?thesis
  proof (cases sent)
    case True
    show ?thesis
    proof (cases "cw_map c (cr_id ?r)")
      case None
      then show ?thesis
        using client_ok_sent [OF ok Cons, of "cr_id ?r"] True by (simp add: on_request_def Cons Let_def call_id_def)
    next
      case (Some old)
      have old: "old < length (cw_calls c)"
        using table_call(1) [OF ok [THEN client_okD(2)], of old] Some by (auto simp: ran_def)
      have "old \<noteq> n"
        using n Some by (auto simp: ran_def)
      then have "client_ok ((set_channel Dropped old c)\<lparr>cw_queue := ns, cw_map := (cw_map c)(cr_id ?r \<mapsto> n),
          cw_wire := cw_wire c @ [?r]\<rparr>)"
        using client_ok_sent [OF client_ok_set_dropped [OF ok old], of n ns "cr_id ?r"] Some Cons n old
        by (simp add: call_id_def)
      moreover have "(set_channel Dropped old c)\<lparr>cw_queue := ns, cw_map := m, cw_wire := w\<rparr> =
          set_channel Dropped old (c\<lparr>cw_queue := ns, cw_map := m, cw_wire := w\<rparr>)" for m w
        by (simp add: set_channel_def)
      ultimately show ?thesis
        using True Some by (simp add: on_request_def Let_def Cons)
    qed
  qed (use client_ok_unsent [OF ok Cons] in \<open>simp add: on_request_def Cons Let_def\<close>)
qed (simp add: on_request_def assms)

lemma client_ok_stream:
  assumes "client_ok c"
  shows "client_ok (on_stream now m c)"
  using assms client_ok_stop [OF assms] client_ok_message [OF assms]
  by (simp add: on_stream_def client_ok_ping split: option.split sum.split ws_message.split)

theorem client_runs_ok: "client_step\<^sup>*\<^sup>* (connected now) c \<Longrightarrow> client_ok c"
proof (induction rule: client_runs_induct)
  case (checked t c)
  then show ?case
    using client_ok_stop by (simp add: on_connection_check_def)
qed (simp_all add: client_ok_connected client_ok_send client_ok_await client_ok_stream client_ok_request client_ok_stop)


subsection \<open>Callers get their own answers\<close>

lemma call_ids_distinct:
  assumes "calls_numbered c" "length (cw_calls c) < 2 ^ 64" "k < length (cw_calls c)" "n < length (cw_calls c)" "k \<noteq> n"
  shows "call_id c k \<noteq> call_id c n"
proof -
  have id: "call_id c j = decimal (Suc j)" if "j < length (cw_calls c)" for j
  proof -
    have "unat (of_nat (Suc j) :: u64) = Suc j"
      unfolding unsigned_of_nat using that assms(2) by (simp only: of_nat_id) (intro take_bit_nat_eq_self, simp)
    then show ?thesis
      using assms(1) that by (simp only: calls_numbered_def)
  qed
  show ?thesis
    using assms(3-5) by (simp add: id)
qed

text \<open>
  Property C22. However the calls of a client, the answers of the server and the failures of the socket
  interleave, a call that returns an answer put its request on the socket, and the answer is one the server
  gave under the identifier of this request, which no other call has (up to the wrap-around of the 64-bit
  counter).
\<close>

theorem client_answers_own_requests:
  assumes "client_step\<^sup>*\<^sup>* (connected now) c" "length (cw_calls c) < 2 ^ 64"
    and "n < length (cw_calls c)" "ca_result (cw_calls c ! n) = Some (Inr m)"
  shows "ca_request (cw_calls c ! n) \<in> set (cw_wire c) \<and>
    (\<exists>r\<in>set (cw_received c). sr_id r = Some (cr_id (ca_request (cw_calls c ! n))) \<and> sr_result r = m) \<and>
    (\<forall>k<length (cw_calls c). k \<noteq> n \<longrightarrow> cr_id (ca_request (cw_calls c ! k)) \<noteq> cr_id (ca_request (cw_calls c ! n)))"
proof -
  have ok: "client_ok c"
    by (rule client_runs_ok) (rule assms(1))
  have "answered (cw_calls c ! n) m"
    by (simp add: answered_def assms(4))
  then have "received_answer c n m"
    using client_okD(5) [OF ok] assms(3) by (simp add: answers_ok_def)
  then show ?thesis
    using call_ids_distinct [OF client_okD(1) [OF ok] assms(2) _ assms(3)]
    by (simp add: received_answer_def call_id_def)
qed


text \<open>A run: two calls are sent, the second is answered first, then the server closes the connection.\<close>

definition sample_answer :: ServerResultResponse where
  "sample_answer = \<lparr>sr_id = Some ''2'', sr_result = Success None\<rparr>"

definition sample_run :: ws_client where
  "sample_run =
     ws_await False 1 (on_stream 0 (Some (Inr (WsText (Some (ResponseMessage sample_answer)))))
       (on_request True (on_request True (chain_unsubscribe [''solana''] (chain_subscribe [''solana''] (connected 0))))))"

lemma decimal_1_2 [simp]: "decimal (Suc 0) = ''1''" "decimal 2 = ''2''"
  by code_simp+

lemma sample_run_steps:
  "client_step\<^sup>*\<^sup>* (connected 0) sample_run"
  "length (cw_calls sample_run) = 2" "cw_running sample_run"
  "ca_result (cw_calls sample_run ! 1) = Some (Inr (Success None))"
proof -
  note r = sample_run_def chain_subscribe_def chain_unsubscribe_def ws_send_def fetch_add_request_id_def connected_def
    on_request_def on_stream_def on_message_type_def sample_answer_def set_channel_def ws_await_def awaited_def Let_def
  define c where "c = on_request True (on_request True (chain_unsubscribe [''solana''] (chain_subscribe [''solana''] (connected 0))))"
  let ?m = "Some (Inr (WsText (Some (ResponseMessage sample_answer))))"
  have c: "cw_running c" "1 < length (cw_calls (on_stream 0 ?m c))" "ca_result (cw_calls (on_stream 0 ?m c) ! 1) = None"
    by (simp_all add: c_def r)
  have "client_step\<^sup>*\<^sup>* (connected 0) (chain_unsubscribe [''solana''] (chain_subscribe [''solana''] (connected 0)))"
    unfolding chain_subscribe_def chain_unsubscribe_def
    by (meson called rtranclp.rtrancl_into_rtrancl rtranclp.rtrancl_refl)
  moreover have "cw_running (chain_unsubscribe [''solana''] (chain_subscribe [''solana''] (connected 0)))"
    "cw_running (on_request True (chain_unsubscribe [''solana''] (chain_subscribe [''solana''] (connected 0))))"
    by (simp_all add: r)
  ultimately have "client_step\<^sup>*\<^sup>* (connected 0) c"
    unfolding c_def by (meson requested rtranclp.rtrancl_into_rtrancl)
  then have "client_step\<^sup>*\<^sup>* (connected 0) (on_stream 0 ?m c)"
    using c(1) by (meson streamed rtranclp.rtrancl_into_rtrancl)
  then show "client_step\<^sup>*\<^sup>* (connected 0) sample_run"
    unfolding sample_run_def c_def [symmetric] using c(2,3) by (meson returned rtranclp.rtrancl_into_rtrancl)
  show "length (cw_calls sample_run) = 2" "cw_running sample_run"
    "ca_result (cw_calls sample_run ! 1) = Some (Inr (Success None))"
    by (simp_all add: r)
qed

theorem client_answers_own_requests_witness:
  "(\<exists>r\<in>set (cw_received sample_run). sr_id r = Some ''2'' \<and> sr_result r = Success None) \<and>
   cr_id (ca_request (cw_calls sample_run ! 0)) \<noteq> ''2''"
proof -
  have id: "cr_id (ca_request (cw_calls sample_run ! 1)) = ''2''"
    by (simp add: sample_run_def chain_subscribe_def chain_unsubscribe_def ws_send_def fetch_add_request_id_def
        connected_def on_request_def on_stream_def on_message_type_def sample_answer_def set_channel_def ws_await_def Let_def)
  show ?thesis
    using client_answers_own_requests [OF sample_run_steps(1) _ _ sample_run_steps(4)] sample_run_steps(2) id by simp
qed


end
