(* ===== verification/Sdk_Http.thy ===== *)
theory Sdk_Http
  imports Sdk_Client
begin

section \<open>Rust SDK: the HTTP client\<close>

text \<open>
  \<open>Client\<close> of \<open>sdk/rust/src/lib.rs\<close>: the two addresses made of the configured one, the requests with
  their bearer token, decoding of answers, opening of the websocket. The \<open>url\<close> and \<open>reqwest\<close> crates
  and the JSON decoders are parameters: \<open>'u\<close> is the type of parsed addresses, \<open>'j\<close> of JSON values.
\<close>

record 'u url_library =
  url_parse :: "string \<Rightarrow> string + 'u"
  url_scheme :: "'u \<Rightarrow> string"
  url_join :: "'u \<Rightarrow> string \<Rightarrow> string + 'u"

record ClientConfig =
  cc_http_url :: string
  cc_api_key :: "string option"

record 'u ClientInner =
  ci_http_url :: 'u
  ci_ws_url :: 'u
  ci_api_key :: "string option"

text \<open>\<open>str::replace\<close>: every occurrence of a pattern, from the left, not overlapping.\<close>

fun strip_prefix :: "string \<Rightarrow> string \<Rightarrow> string option" where
  "strip_prefix [] s = Some s"
| "strip_prefix (c # cs) [] = None"
| "strip_prefix (c # cs) (d # ds) = (if c = d then strip_prefix cs ds else None)"

lemma strip_prefix_Some: "strip_prefix p s = Some t \<longleftrightarrow> s = p @ t"
  by (induction p s rule: strip_prefix.induct) auto

lemma strip_prefix_append [simp]: "strip_prefix p (p @ t) = Some t"
  by (simp add: strip_prefix_Some)

text \<open>\<open>p\<close> is \<open>c # p\<close> split, so that the pattern is not empty.\<close>

function replace_all :: "char \<Rightarrow> string \<Rightarrow> string \<Rightarrow> string \<Rightarrow> string" where
  "replace_all c p q [] = []"
| "replace_all c p q (d # ds) =
     (case strip_prefix (c # p) (d # ds) of Some t \<Rightarrow> q @ replace_all c p q t | None \<Rightarrow> d # replace_all c p q ds)"
  by pat_completeness auto
termination
  by (relation "measure (\<lambda>(c, p, q, s). length s)") (auto simp: strip_prefix_Some split: if_splits)

definition get_urls :: "'u url_library \<Rightarrow> ClientConfig \<Rightarrow> ('u \<times> 'u) sdk" where
  "get_urls ul config =
     (case url_parse ul (cc_http_url config) of
        Inl e \<Rightarrow> Inl (ClientFails (InvalidHttpUrl e))
      | Inr http_url \<Rightarrow>
          if url_scheme ul http_url \<noteq> ''http'' \<and> url_scheme ul http_url \<noteq> ''https''
          then Inl (ClientFails (InvalidHttpUrl (''Invalid scheme '' @ url_scheme ul http_url)))
          else let ws_url_string =
                 (if url_scheme ul http_url = ''http''
                  then replace_all CHR ''h'' ''ttp'' ''ws'' (cc_http_url config)
                  else replace_all CHR ''h'' ''ttps'' ''wss'' (cc_http_url config))
               in case url_parse ul ws_url_string of
                    Inl _ \<Rightarrow> Inl ClientPanics
                  | Inr ws_url \<Rightarrow> Inr (http_url, ws_url))"

definition try_new :: "'u url_library \<Rightarrow> ClientConfig \<Rightarrow> 'u ClientInner sdk" where
  "try_new ul config =
     rbind (get_urls ul config) (\<lambda>(http_url, ws_url).
       Inr \<lparr>ci_http_url = http_url, ci_ws_url = ws_url, ci_api_key = cc_api_key config\<rparr>)"


subsection \<open>Requests\<close>

record ('u, 'q) http_request =
  hr_method :: Method
  hr_url :: 'u
  hr_bearer :: "string option"
  hr_query :: "'q option"

text \<open>
  An answer is decoded as what is expected, failing that as an error body (given by its text); \<open>None\<close>
  stands for a body that is not JSON.
\<close>

datatype 'r DecodedResponse = DecodedOk 'r | DecodedErr string

definition deserialize_decoded :: "('j \<Rightarrow> 'r option) \<Rightarrow> ('j \<Rightarrow> string option) \<Rightarrow> 'j \<Rightarrow> 'r DecodedResponse option" where
  "deserialize_decoded expected error_body j =
     (case expected j of Some r \<Rightarrow> Some (DecodedOk r) | None \<Rightarrow> map_option DecodedErr (error_body j))"

definition decode :: "('j \<Rightarrow> 'r option) \<Rightarrow> ('j \<Rightarrow> string option) \<Rightarrow> 'j option \<Rightarrow> 'r sdk" where
  "decode expected error_body body =
     (case Option.bind body (deserialize_decoded expected error_body) of
        Some (DecodedOk r) \<Rightarrow> Inr r
      | Some (DecodedErr e) \<Rightarrow> Inl (ClientFails (RequestError e))
      | None \<Rightarrow> Inl (ClientFails DecodeResponseFailed))"

text \<open>\<open>exchange\<close> stands for the network: \<open>None\<close> when the request fails.\<close>

definition http_send ::
  "'u url_library \<Rightarrow> (('u, 'q) http_request \<Rightarrow> 'j option option) \<Rightarrow> ('j \<Rightarrow> 'r option) \<Rightarrow> ('j \<Rightarrow> string option)
     \<Rightarrow> 'u ClientInner \<Rightarrow> RouteProperties \<Rightarrow> 'q option \<Rightarrow> 'r sdk" where
  "http_send ul exchange expected error_body c route query =
     (case url_join ul (ci_http_url c) (full_path route) of
        Inl e \<Rightarrow> Inl (ClientFails (InvalidHttpUrl e))
      | Inr url \<Rightarrow>
          let request = \<lparr>hr_method = route_method route, hr_url = url, hr_bearer = ci_api_key c, hr_query = query\<rparr>
          in rbind (or_client_error (exchange request) RequestFailed) (decode expected error_body))"

definition sdk_get_opportunities ::
  "'u url_library \<Rightarrow> (('u, 'q) http_request \<Rightarrow> 'j option option) \<Rightarrow> ('j \<Rightarrow> ApiOpportunity list option)
     \<Rightarrow> ('j \<Rightarrow> string option) \<Rightarrow> 'u ClientInner \<Rightarrow> 'q option \<Rightarrow> ApiOpportunity list sdk" where
  "sdk_get_opportunities ul exchange expected error_body c params =
     http_send ul exchange expected error_body c (opportunity_route_properties GetOpportunities) params"

text \<open>
  \<open>handshake\<close> stands for the connection: it gets the address and the value of the \<open>Authorization\<close> header
  and gives the time at which it is open; \<open>valid_header\<close> tells which texts may be a header's value.
\<close>

definition connect_websocket ::
  "'u url_library \<Rightarrow> (string \<Rightarrow> bool) \<Rightarrow> ('u \<Rightarrow> string option \<Rightarrow> string + time) \<Rightarrow> 'u ClientInner \<Rightarrow> ws_client sdk" where
  "connect_websocket ul valid_header handshake c =
     (case url_join ul (ci_ws_url c) (full_path ws_route_properties) of
        Inl e \<Rightarrow> Inl (ClientFails (WsConnectFailed e))
      | Inr url \<Rightarrow>
          let header = map_option (\<lambda>k. ''Bearer '' @ k) (ci_api_key c)
          in if \<not> pred_option valid_header header
             then Inl (ClientFails (WsConnectFailed ''Failed to parse api key''))
             else case handshake url header of
                    Inl e \<Rightarrow> Inl (ClientFails (WsConnectFailed e))
                  | Inr now \<Rightarrow> Inr (connected now))"


subsection \<open>The address of the websocket\<close>

lemma replace_all_prefix: "replace_all c p q (c # p @ t) = q @ replace_all c p q t"
  by simp

lemma replace_all_absent:
  assumes "\<And>t u. s \<noteq> t @ (c # p) @ u"
  shows "replace_all c p q s = s"
  using assms
proof (induction s)
  case (Cons d ds)
  then have "replace_all c p q ds = ds"
    by (metis append_Cons)
  moreover have "strip_prefix (c # p) (d # ds) = None"
    using Cons.prems [of "[]"] strip_prefix_Some [of "c # p" "d # ds"] by (cases "strip_prefix (c # p) (d # ds)") auto
  ultimately show ?case
    by (simp del: strip_prefix.simps)
qed simp

text \<open>
  For an address in which \<open>http\<close> occurs as its scheme only, the websocket is on the same host with
  the scheme \<open>ws\<close> (\<open>wss\<close> for \<open>https\<close>).
\<close>

lemma get_urls_plain:
  assumes "url_parse ul (''http'' @ rest) = Inr u" "url_scheme ul u = ''http''"
    and "\<And>t v. rest \<noteq> t @ ''http'' @ v" "url_parse ul (''ws'' @ rest) = Inr w"
  shows "get_urls ul \<lparr>cc_http_url = ''http'' @ rest, cc_api_key = k\<rparr> = Inr (u, w)"
  using assms replace_all_absent [of rest "CHR ''h''" "''ttp''" "''ws''"] by (simp add: get_urls_def)

lemma get_urls_secure:
  assumes "url_parse ul (''https'' @ rest) = Inr u" "url_scheme ul u = ''https''"
    and "\<And>t v. rest \<noteq> t @ ''https'' @ v" "url_parse ul (''wss'' @ rest) = Inr w"
  shows "get_urls ul \<lparr>cc_http_url = ''https'' @ rest, cc_api_key = k\<rparr> = Inr (u, w)"
  using assms replace_all_absent [of rest "CHR ''h''" "''ttps''" "''wss''"] by (simp add: get_urls_def)

text \<open>Otherwise the host is changed too, and a scheme in capitals, which parsing makes small, is not changed.\<close>

lemma replace_all_host:
  "replace_all CHR ''h'' ''ttp'' ''ws'' ''http://http.example'' = ''ws://ws.example''"
  "replace_all CHR ''h'' ''ttp'' ''ws'' ''HTTP://example'' = ''HTTP://example''"
  by simp_all

end
