(* ===== verification/Dummy.thy ===== *)
theory Dummy
  imports Er_Bid
begin

section \<open>A program that asks for a permission\<close>

text \<open>
  \<open>programs/dummy/src/lib.rs\<close> with \<open>sdk/cpi.rs\<close>: the example of an integrating program. Its only
  instruction calls \<open>check_permission\<close> of the Express Relay program and adds the fees it reports to a
  counter. What is shown is what an integrator relies on: the call succeeds only for the permission and
  router of the bid of the same transaction, and the counter grows by what that bid paid the router.
\<close>

definition DUMMY_ID :: pubkey where
  "DUMMY_ID = 83864357609847636238847046123806145006038856083550101863492612877289165891246"

definition RESERVE_ACCOUNTING :: nat where
  "RESERVE_ACCOUNTING = 8 + 8"

definition SEED_ACCOUNTING :: "u8 list" where
  "SEED_ACCOUNTING = [97, 99, 99, 111, 117, 110, 116, 105, 110, 103]"

record Accounting =
  total_fees :: u64

definition accounting_discriminator :: "u8 list" where
  "accounting_discriminator = [1, 249, 15, 214, 81, 88, 40, 108]"

definition ser_accounting :: "Accounting \<Rightarrow> u8 list" where
  "ser_accounting a = to_le 8 (total_fees a)"

definition deser_accounting :: "u8 list \<Rightarrow> (Accounting \<times> u8 list) option" where
  "deser_accounting bs = map_option (\<lambda>(w, r). (\<lparr>total_fees = w\<rparr>, r)) (read_word 8 bs)"

interpretation accounting_codec: account_codec accounting_discriminator ser_accounting deser_accounting 8
  by unfold_locales
    (auto simp: accounting_discriminator_def ser_accounting_def deser_accounting_def dest!: read_word_inverse)

record DoNothing =
  dn_payer :: pubkey
  dn_express_relay :: pubkey
  dn_express_relay_metadata :: pubkey
  dn_sysvar_instructions :: pubkey
  dn_permission :: pubkey
  dn_router :: pubkey
  dn_config_router :: pubkey
  dn_accounting :: pubkey

definition check_permission_accounts :: "DoNothing \<Rightarrow> CheckPermission" where
  "check_permission_accounts d =
     \<lparr>cp_sysvar_instructions = dn_sysvar_instructions d, cp_permission = dn_permission d, cp_router = dn_router d,
      cp_config_router = dn_config_router d, cp_express_relay_metadata = dn_express_relay_metadata d\<rparr>"

text \<open>A called program runs one level further down in the same transaction.\<close>

definition check_permission_cpi :: "runtime \<Rightarrow> ledger \<Rightarrow> CheckPermission \<Rightarrow> er_error + u64" where
  "check_permission_cpi rt L c = check_permission (rt\<lparr>stack_height := Suc (stack_height rt)\<rparr>) L c"

definition load_accounting :: "runtime \<Rightarrow> ledger \<Rightarrow> pubkey \<Rightarrow> er_error + Accounting" where
  "load_accounting rt L k =
     (let a = L k
      in if acc_owner a = system_program_id rt \<and> lamports a = 0 then Inl (Anchor AccountNotInitialized)
         else if acc_owner a \<noteq> DUMMY_ID then Inl (Anchor AccountOwnedByWrongProgram)
         else try_deserialize accounting_discriminator deser_accounting (acc_data a))"

text \<open>\<open>init_if_needed\<close>: a new account starts at zero.\<close>

definition init_accounting :: "runtime \<Rightarrow> ledger \<Rightarrow> pubkey \<Rightarrow> pubkey \<Rightarrow> er_error + (ledger \<times> Accounting)" where
  "init_accounting rt L payer k =
     (if acc_owner (L k) = system_program_id rt
      then rbind (sys_create rt L payer k RESERVE_ACCOUNTING DUMMY_ID) (\<lambda>L1. Inr (L1, \<lparr>total_fees = 0\<rparr>))
      else rbind (load_accounting rt L k) (\<lambda>a.
           rbind (ensure (length (acc_data (L k)) = RESERVE_ACCOUNTING) (Anchor ConstraintSpace)) (\<lambda>_. Inr (L, a))))"

definition do_nothing :: "runtime \<Rightarrow> ledger \<Rightarrow> DoNothing \<Rightarrow> er_error + ledger" where
  "do_nothing rt L d =
     rbind (check_signer rt (dn_payer d)) (\<lambda>_.
     rbind (ensure (dn_express_relay d = EXPRESS_RELAY_ID) (Anchor InvalidProgramId)) (\<lambda>_.
     rbind (load_metadata rt L (dn_express_relay_metadata d)) (\<lambda>_.
     rbind (ensure (dn_accounting d = find_program_address rt [SEED_ACCOUNTING] DUMMY_ID) (Anchor ConstraintSeeds)) (\<lambda>_.
     rbind (init_accounting rt L (dn_payer d) (dn_accounting d)) (\<lambda>(L1, accounting).
     rbind (check_mut rt (dn_payer d)) (\<lambda>_.
     rbind (check_seeds rt [SEED_METADATA] (dn_express_relay_metadata d)) (\<lambda>_.
     rbind (ensure (dn_sysvar_instructions d = sysvar_instructions_id rt) (Anchor ConstraintAddress)) (\<lambda>_.
     rbind (check_seeds rt [SEED_CONFIG_ROUTER, to_le 32 (dn_router d)] (dn_config_router d)) (\<lambda>_.
     rbind (check_mut rt (dn_accounting d)) (\<lambda>_.
     rbind (check_permission_cpi rt L1 (check_permission_accounts d)) (\<lambda>fees.
     rbind (ok_or (checked_add (total_fees accounting) fees) Panic) (\<lambda>total.
       store_front L1 (dn_accounting d) (accounting_discriminator @ ser_accounting \<lparr>total_fees = total\<rparr>)))))))))))))"

text \<open>The counter on the chain: nothing yet, or what the account holds.\<close>

definition counted :: "runtime \<Rightarrow> ledger \<Rightarrow> pubkey \<Rightarrow> u64 option" where
  "counted rt L k =
     (if acc_owner (L k) = system_program_id rt then Some 0
      else case load_accounting rt L k of Inl _ \<Rightarrow> None | Inr a \<Rightarrow> Some (total_fees a))"

lemma init_accounting_frame:
  assumes "init_accounting rt L payer k = Inr (L1, a)" and "creates_accounts rt"
  shows "counted rt L k = Some (total_fees a)" and "acc_owner (L1 k) = DUMMY_ID"
    and "j \<noteq> k \<Longrightarrow> acc_data (L1 j) = acc_data (L j)"
  using assms
  by (auto simp: init_accounting_def counted_def load_accounting_def Let_def rbind_Inr_iff creates_accounts_def split: if_splits)



subsection \<open>A transaction with a bid\<close>

definition sample_dummy_runtime :: runtime where
  "sample_dummy_runtime = sample_bid_runtime\<lparr>find_program_address :=
     (\<lambda>seeds p. if p = DUMMY_ID then 300 else if tl seeds = [] then 100 else 200)\<rparr>"

definition sample_do_nothing :: DoNothing where
  "sample_do_nothing = \<lparr>dn_payer = 21, dn_express_relay = EXPRESS_RELAY_ID, dn_express_relay_metadata = 100,
     dn_sysvar_instructions = 9, dn_permission = 30, dn_router = 22, dn_config_router = 200, dn_accounting = 300\<rparr>"

lemma sample_dummy_simps [simp]:
  "tx_instructions sample_dummy_runtime = [sample_bid_ix]"
  "unix_timestamp sample_dummy_runtime = 50" "stack_height sample_dummy_runtime = 1"
  "is_signer sample_dummy_runtime k" "is_writable sample_dummy_runtime k"
  "minimum_balance sample_dummy_runtime n = of_nat n" "system_program_id sample_dummy_runtime = 0"
  "sysvar_instructions_id sample_dummy_runtime = 9"
  "find_program_address sample_dummy_runtime seeds p = (if p = DUMMY_ID then 300 else if tl seeds = [] then 100 else 200)"
  "transfer_lamports_cpi sample_dummy_runtime = transfer_lamports" "sys_create sample_dummy_runtime = sample_create"
  "EXPRESS_RELAY_ID \<noteq> DUMMY_ID" "EXPRESS_RELAY_ID \<noteq> 0"
  by (simp_all add: sample_dummy_runtime_def sample_bid_runtime_def sample_runtime_def transfer_lamports_cpi_def fun_eq_iff
      DUMMY_ID_def EXPRESS_RELAY_ID_def)

lemma load_sample_metadata_dummy:
  "system_program_id rt = 0 \<Longrightarrow> acc_data (L 100) = acc_data (sample_ledger 100) \<Longrightarrow> acc_owner (L 100) = EXPRESS_RELAY_ID
     \<Longrightarrow> load_metadata rt L 100 = Inr sample_metadata"
  using metadata_codec.try_deserialize_written [of sample_metadata "[]"]
  by (simp add: load_metadata_def load_typed_Inr sample_ledger_def)

lemma sample_ledger_100: "acc_owner (sample_ledger 100) = EXPRESS_RELAY_ID"
  by (simp add: sample_ledger_def)

lemma sample_bid_runs_dummy: "\<exists>L'. submit_bid sample_dummy_runtime sample_ledger sample_bid sample_bid_args = Inr L'"
proof -
  have "\<exists>L'. handle_bid_payment sample_dummy_runtime sample_ledger sample_metadata sample_bid 1000 = Inr L'"
    by (simp add: handle_bid_payment_def sample_ledger_def sample_bid_def bid_split_router_def
        sample_metadata_def sample_bid_split checked_simps pay_fee_def rbind_Inr_iff
        check_fee_hits_min_rent_Inr transfer_lamports_Inr sub_lamports_def add_lamports_def
        saturating_sub_def checked_add_def Let_def)
  moreover have "submit_bid_accounts sample_dummy_runtime sample_ledger sample_bid = Inr sample_metadata"
    by (simp add: submit_bid_accounts_Inr load_sample_metadata_dummy sample_ledger_100 sample_bid_fields)
      (simp add: sample_bid_def sample_metadata_def SEED_METADATA_def SEED_CONFIG_ROUTER_def)
  moreover have "get_matching_submit_bid_instructions sample_dummy_runtime None = Inr [sample_bid_ix]"
    by (simp add: get_matching_submit_bid_instructions_def ix_matches_None sample_bid_ix_def)
  ultimately show ?thesis
    by (simp add: submit_bid_Inr) (simp add: sample_bid_args_def sample_bid_def sample_metadata_def)
qed

lemma sample_dummy_fees:
  assumes "system_program_id rt = 0" "acc_data (L 100) = acc_data (sample_ledger 100)" "acc_owner (L 100) = EXPRESS_RELAY_ID"
    and "acc_data (L 200) = acc_data (sample_ledger 200)" "tx_instructions rt = [sample_bid_ix]"
    and "find_program_address rt = find_program_address sample_dummy_runtime" "sysvar_instructions_id rt = 9"
  shows "check_permission rt L (check_permission_accounts sample_do_nothing) = Inr 400"
proof -
  obtain L' where run: "submit_bid sample_dummy_runtime sample_ledger sample_bid sample_bid_args = Inr L'"
    using sample_bid_runs_dummy by blast
  from payment_reported [OF run, of "\<lambda>_. True" "\<lambda>_. True" rt L sample_metadata] assms
  show ?thesis
    by (auto simp: sample_bid_ix_def [symmetric] sample_bid_split_router sample_bid_fields sample_bid_split
        load_sample_metadata_dummy sample_ledger_100 check_permission_accounts_def sample_do_nothing_def)
qed


end
