(* ===== verification/Spec2Isabelle.thy ===== *)
theory Spec2Isabelle
  imports Er_Machine As_Websocket As_Simulation As_Kernel Sdk_Bids Sdk_Client Sdk_Http Dummy
begin

section \<open>Express Relay, verified\<close>

text \<open>
  Express Relay auctions the right to act on an opportunity. Searchers bid for a permission; a relayer, the
  auction server, collects the bids, picks a winner and submits its transaction; the on-chain program takes
  the bid, splits it between router, relayer and protocol, and tells any program that asks in the same
  transaction that the permission was paid for. A second kind of opportunity is a quote: a user asks for a
  swap, searchers bid the price, the user signs the best bid and the program swaps the tokens and takes fees.

  \<^bold>\<open>Parts and how they interact.\<close>

  The program (\<open>contracts/svm/programs/express_relay/src\<close>). State: the metadata account and a configuration
  per router, typed accounts on a ledger from keys to accounts. Operations: one definition per handler of
  \<open>lib.rs\<close>, taking the runtime and the ledger to the next ledger or an error.
  \<^item> \<open>Prelude\<close>: machine integers, checked arithmetic, results, byte encodings, collections of facts.
  \<^item> \<open>Er_State\<close>: \<open>state.rs\<close>, \<open>error.rs\<close>, and how Anchor reads and writes typed accounts (\<open>account_codec\<close>).
  \<^item> \<open>Er_Fees\<close>: fee arithmetic of \<open>utils.rs\<close> and \<open>swap.rs\<close>, exact fractions or an overflow error.
  \<^item> \<open>Er_Runtime\<close>: accounts, constraints, clock, rent and lamport transfers (\<open>value_mover\<close>).
  \<^item> \<open>Er_Admin\<close>, \<open>Er_Bid\<close>, \<open>Er_Swap\<close>: administration; \<open>submit_bid\<close>, \<open>check_permission\<close> and the
    introspection of the transaction; \<open>swap\<close>, \<open>swap_v2\<close>, \<open>withdraw_spl_fees\<close> with \<open>swap.rs\<close> and \<open>token.rs\<close>.
  \<^item> \<open>Er_Machine\<close>: all instructions together, reachable ledgers and what holds on them.
  \<^item> \<open>Dummy\<close>: the repository's example of a program that asks for a permission (\<open>programs/dummy\<close>).

  The auction server (\<open>auction-server/src\<close>, its wire types in \<open>auction-server/api-types/src\<close>). State: the
  repositories in memory beside their database tables, the simulator, the locks, profiles and tokens.
  Operations: actions that return the new state with a result, an error answer or a panic.
  \<^item> \<open>As_Errors\<close>, \<open>As_Bid\<close>: error types of \<open>api.rs\<close>; bids, auctions and the status machine of a bid.
  \<^item> \<open>As_Db\<close>, \<open>As_Repo\<close>: rows and queries of \<open>auction/repository/models.rs\<close>; memory beside the database.
  \<^item> \<open>As_Config\<close>, \<open>As_Messages\<close>: token and fee configuration; transactions, lookup tables, decoding of the
    program's instructions (\<open>cached_query\<close>: a query through a cache answers as one without).
  \<^item> \<open>As_Opportunity\<close>: opportunities in memory and in the database, adding, refreshing, removing, sweeping.
  \<^item> \<open>As_Verify\<close>: every check of \<open>auction/service/verification.rs\<close>, composed as \<open>verify_bid\<close> does.
  \<^item> \<open>As_Simulator\<close>, \<open>As_Simulation\<close>: \<open>auction/service/simulator.rs\<close>; the first takes the loading of the
    local chain as a parameter, the second implements it and refines the first.
  \<^item> \<open>As_Service\<close>, \<open>As_Auctions\<close>: running and concluding auctions, sending, resending, chain watcher; what
    holds of them.
  \<^item> \<open>As_Access\<close>, \<open>As_Quote\<close>, \<open>As_GetQuote\<close>: profiles, tokens, privileges; cancelling and submitting a
    quote; answering a quote request, before and after the time searchers have to bid.
  \<^item> \<open>As_ApiTypes\<close>, \<open>As_Api\<close>, \<open>As_Websocket\<close>: wire types and conversions; every HTTP handler with its route
    and access level, and the server as a machine answering requests; the actor behind a websocket and all
    connections with the server as a step relation (\<open>connection_invariant\<close>).
  \<^item> \<open>As_Kernel\<close>: the price feed and the worker that deletes history.

  The Rust SDK (\<open>sdk/rust/src\<close>, \<open>sdk/helpers.rs\<close> of the program).
  \<^item> \<open>Sdk_Svm\<close>, \<open>Sdk_Bids\<close>: instruction builders and \<open>new_bid\<close>; that the server accepts and reads back what
    the SDK builds, the composition of both ends of the protocol.
  \<^item> \<open>Sdk_Client\<close>, \<open>Sdk_Http\<close>: the websocket client with its callers as a step relation; the HTTP client.

  Program and server meet in the transactions: \<open>As_Messages\<close> decodes with the codecs of \<open>Er_Bid\<close>, so that
  what the server verifies is what the program executes. Services meet in one state record that grows by
  extension (\<open>caches\<close>, \<open>opp_state\<close>, \<open>server\<close>, \<open>front\<close>, \<open>web\<close>), and operations of a service are stated
  for every extension of the record they need.
\<close>

text \<open>
  \<^bold>\<open>What the theorems show.\<close> For the program: who can change which account, that a bid moves exactly its
  amount and a swap exactly the quoted amounts, that permissions answer for payments, that configurations
  stay valid from the first instruction on. For the server: that a verified bid is signed, alive and moves
  nothing but what its quote names; that quotes are the best pending bids; that the user's signature, the
  deadline and the right to cancel are respected; that statuses only advance, announcements follow the
  database, and auctions end; that requests change nothing without the rights for it; that a websocket is
  told of its bids after they were accepted and answered at most once. For the SDK: that its bids are
  accepted and read back, and its callers get their own answers. Each component has lemmas on the branches
  of its operations, errors included, and the concrete runs at the end of a theory show that hypotheses can
  hold together.

  \<^bold>\<open>Conventions.\<close> Integers keep their width. The program is built with overflow checks: plain arithmetic that
  overflows is the error \<open>Panic\<close>. The server and the SDK are built without: plain arithmetic wraps around.
  A fallible operation is a sum, its error on the left. Definitions are total and need no fuel: the
  recursions that are not structural have measures (chunks of accounts, retries of a simulation up to five
  times, decimal numbers, replacement in a string); loops that serve until shutdown are step relations or
  are modelled by their rounds. Ids, clock readings and random choices are arguments, and the order of hash
  tables is an association list or a permutation that is a parameter.

  \<^bold>\<open>Parameters.\<close> What is not in this repository is an argument: the Solana runtime, the system and token
  programs (\<open>runtime\<close>, \<open>token_runtime\<close>), the RPC node, the local chain (\<open>sim_library\<close>), decoders of foreign
  instructions, address derivation and signatures (\<open>env\<close>), builders of foreign instructions and
  transactions (\<open>solana_library\<close>), URL parsing, sockets and JSON. What is relied on of them is stated where
  it is used (\<open>system_program_ok\<close>, \<open>token_program_ok\<close>, \<open>library_ok\<close>, \<open>rpc_answers\<close>) and has an instance.

  \<^bold>\<open>Not modelled.\<close> Startup, command line and configuration files (\<open>main.rs\<close>, \<open>server.rs\<close>, \<open>config.rs\<close>),
  which only connect the parts; serde attributes and the OpenAPI schema; analytics tables, metrics and
  tracing, which the server writes and never reads; the floating-point value of an amount; the tracing
  wrappers of the kernel; the command line client and the test programs; the SDKs, scripts and apps in other
  languages.
\<close>

end
